(* ===== verification/Prelude.thy ===== *)
theory Prelude
  imports Main "HOL-Library.Char_ord" "HOL-Library.List_Lexorder" "HOL-Library.Multiset"
begin

text \<open>
  The vocabulary every component theory shares: results with errors as values, the
  64-bit integers of the Go code with their wrap-around written out, truncating
  division, the string and slice helpers of the Go standard library the code calls,
  stable sorting by a comparison function, loops that stop at the first error, and the
  civil calendar behind \<^verbatim>\<open>time.Time\<close>.

  Conventions. A Go string is a sequence of bytes, which is what \<^typ>\<open>string\<close> is. A Go
  \<^verbatim>\<open>error\<close> result is a left value carrying the message, a Go pointer that may be nil is an
  option. An instant is an \<^typ>\<open>int\<close> counting milliseconds since the Unix epoch, the
  precision every handler truncates \<^verbatim>\<open>time.Now()\<close> to.
\<close>

named_theorems row_simps \<open>what reading a table returns after an operation wrote it\<close>
named_theorems inv_intros \<open>preservation of component invariants\<close>

section \<open>Results\<close>

type_synonym 'a result = "string + 'a"

definition bind_result :: "'a result \<Rightarrow> ('a \<Rightarrow> 'b result) \<Rightarrow> 'b result" where
  "bind_result r f = (case r of Inl e \<Rightarrow> Inl e | Inr a \<Rightarrow> f a)"

lemma bind_result_simps [simp]:
  "bind_result (Inl e) f = Inl e"
  "bind_result (Inr a) f = f a"
  by (simp_all add: bind_result_def)

lemma bind_result_Inr_conv:
  "bind_result r f = Inr b \<longleftrightarrow> (\<exists>a. r = Inr a \<and> f a = Inr b)"
  by (cases r) auto

lemma bind_result_InrE [elim!]:
  assumes "bind_result r f = Inr b"
  obtains a where "r = Inr a" and "f a = Inr b"
  using assms by (auto simp: bind_result_Inr_conv)

text \<open>A loop over a slice whose body may return early with an error.\<close>

fun fold_result :: "('s \<Rightarrow> 'a \<Rightarrow> 's result) \<Rightarrow> 's \<Rightarrow> 'a list \<Rightarrow> 's result" where
  "fold_result f s [] = Inr s"
| "fold_result f s (x # xs) = bind_result (f s x) (\<lambda>s'. fold_result f s' xs)"

lemma fold_result_append:
  "fold_result f s (xs @ ys) = bind_result (fold_result f s xs) (\<lambda>s'. fold_result f s' ys)"
  by (induction xs arbitrary: s) (auto simp: bind_result_def split: sum.splits)

lemma fold_result_invariant:
  assumes "fold_result f s xs = Inr s'" and "I s"
    and "\<And>s x t. x \<in> set xs \<Longrightarrow> I s \<Longrightarrow> f s x = Inr t \<Longrightarrow> I t"
  shows "I s'"
  using assms
proof (induction xs arbitrary: s)
  case Nil
  then show ?case by simp
next
  case (Cons x xs)
  from Cons.prems(1) obtain t where t: "f s x = Inr t" and rest: "fold_result f t xs = Inr s'"
    by auto
  have "I t" using Cons.prems(2,3) t by auto
  then show ?case by (rule Cons.IH [OF rest]) (use Cons.prems(3) in auto)
qed

section \<open>Machine integers\<close>

text \<open>
  The code's \<^verbatim>\<open>int64\<close> and \<^verbatim>\<open>int\<close> values are modelled as \<^typ>\<open>int\<close>; where an operation may
  leave the range, \<open>i64\<close> writes the two's-complement wrap-around out.
\<close>

definition minInt64 :: int where "minInt64 = - 9223372036854775808"
definition maxInt64 :: int where "maxInt64 = 9223372036854775807"
definition maxSafeInteger :: int where "maxSafeInteger = 9007199254740991"
definition maxDatabaseInteger :: int where "maxDatabaseInteger = 2147483647"

lemmas int_limits = minInt64_def maxInt64_def maxSafeInteger_def maxDatabaseInteger_def

definition i64 :: "int \<Rightarrow> int" where
  "i64 x = (x + 9223372036854775808) mod 18446744073709551616 - 9223372036854775808"

definition u64 :: "int \<Rightarrow> int" where
  "u64 x = x mod 18446744073709551616"

definition in_i64 :: "int \<Rightarrow> bool" where
  "in_i64 x \<longleftrightarrow> minInt64 \<le> x \<and> x \<le> maxInt64"

lemma i64_in_range [simp]: "in_i64 (i64 x)"
  by (simp add: in_i64_def i64_def int_limits)

lemma i64_id: "in_i64 x \<Longrightarrow> i64 x = x"
  by (simp add: in_i64_def i64_def int_limits)

lemma u64_id: "0 \<le> x \<Longrightarrow> x \<le> 18446744073709551615 \<Longrightarrow> u64 x = x"
  by (simp add: u64_def)

lemma i64_u64 [simp]: "i64 (u64 x) = i64 x"
  by (simp add: i64_def u64_def mod_add_left_eq)

text \<open>Go's integer division and remainder truncate towards zero.\<close>

definition go_quo :: "int \<Rightarrow> int \<Rightarrow> int" where
  "go_quo a b = sgn a * sgn b * (\<bar>a\<bar> div \<bar>b\<bar>)"

definition go_rem :: "int \<Rightarrow> int \<Rightarrow> int" where
  "go_rem a b = a - b * go_quo a b"

lemma go_quo_nonneg: "0 \<le> a \<Longrightarrow> 0 < b \<Longrightarrow> go_quo a b = a div b"
  by (cases "a = 0") (simp_all add: go_quo_def)

lemma go_rem_nonneg: "0 \<le> a \<Longrightarrow> 0 < b \<Longrightarrow> go_rem a b = a mod b"
  by (simp add: go_rem_def go_quo_nonneg minus_mult_div_eq_mod)

section \<open>Strings and slices\<close>

definition has_prefix :: "string \<Rightarrow> string \<Rightarrow> bool" where
  "has_prefix s p \<longleftrightarrow> take (length p) s = p"

definition has_suffix :: "string \<Rightarrow> string \<Rightarrow> bool" where
  "has_suffix s p \<longleftrightarrow> length p \<le> length s \<and> drop (length s - length p) s = p"

definition trim_suffix :: "string \<Rightarrow> string \<Rightarrow> string" where
  "trim_suffix s p = (if has_suffix s p then take (length s - length p) s else s)"

fun contains_sub :: "string \<Rightarrow> string \<Rightarrow> bool" where
  "contains_sub [] p \<longleftrightarrow> p = []"
| "contains_sub (c # s) p \<longleftrightarrow> has_prefix (c # s) p \<or> contains_sub s p"

text \<open>
  \<^verbatim>\<open>unicode.IsSpace\<close> on the UTF-8 bytes at the head of a string: the length of the white
  space character there, 0 if there is none. \<^verbatim>\<open>strings.TrimSpace\<close> removes such
  characters at both ends.
\<close>

definition space_len :: "string \<Rightarrow> nat" where
  "space_len s =
     (let b = map of_char (take 3 s) :: nat list
      in if b = [] then 0
         else if hd b \<in> set [9, 10, 11, 12, 13, 32] then 1
         else if take 2 b \<in> set [[194, 133], [194, 160]] then 2
         else if b \<in> set [[225, 154, 128], [226, 129, 159], [227, 128, 128]] then 3
         else if take 2 b = [226, 128] \<and> length b = 3 \<and>
                 (b ! 2 \<le> 138 \<and> 128 \<le> b ! 2 \<or> b ! 2 \<in> set [168, 169, 175]) then 3
         else 0)"

lemma space_len_le: "space_len s \<le> length s"
proof -
  consider "s = []" | x where "s = [x]" | x y where "s = [x, y]"
    | x y z t where "s = x # y # z # t"
    by (metis list.exhaust)
  then show ?thesis by cases (auto simp: space_len_def Let_def)
qed

function trim_left :: "string \<Rightarrow> string" where
  "trim_left s = (if space_len s = 0 then s else trim_left (drop (space_len s) s))"
  by pat_completeness auto
termination
proof (relation "measure length")
  fix s
  assume "space_len s \<noteq> 0"
  then show "(drop (space_len s) s, s) \<in> measure length"
    using space_len_le [of s] by auto
qed simp

declare trim_left.simps [simp del]

fun trim_right :: "string \<Rightarrow> string" where
  "trim_right [] = []"
| "trim_right (c # s) = (if trim_left (c # s) = [] then [] else c # trim_right s)"

definition trim_space :: "string \<Rightarrow> string" where
  "trim_space s = trim_right (trim_left s)"

lemma trim_left_Nil [simp]: "trim_left [] = []"
  by (subst trim_left.simps) (simp add: space_len_def)

lemma trim_space_Nil [simp]: "trim_space [] = []"
  by (simp add: trim_space_def)

text \<open>\<^verbatim>\<open>strconv.FormatInt(n, 10)\<close>.\<close>

fun show_nat :: "nat \<Rightarrow> string" where
  "show_nat n = (if n < 10 then [char_of (48 + n)] else show_nat (n div 10) @ [char_of (48 + n mod 10)])"

declare show_nat.simps [simp del]

definition show_int :: "int \<Rightarrow> string" where
  "show_int n = (if n < 0 then CHR ''-'' # show_nat (nat (- n)) else show_nat (nat n))"

definition is_digit :: "char \<Rightarrow> bool" where
  "is_digit c \<longleftrightarrow> CHR ''0'' \<le> c \<and> c \<le> CHR ''9''"

lemma show_nat_digits: "list_all is_digit (show_nat n)"
proof (induction n rule: show_nat.induct)
  case (1 n)
  have d: "is_digit (char_of (48 + k))" if "k < 10" for k :: nat
    using that by (simp add: is_digit_def less_eq_char_def)
  show ?case
  proof (cases "n < 10")
    case True
    then show ?thesis using d [of n] by (subst show_nat.simps) simp
  next
    case False
    then show ?thesis using 1 d [of "n mod 10"] by (subst show_nat.simps) simp
  qed
qed

definition is_hex :: "char \<Rightarrow> bool" where
  "is_hex c \<longleftrightarrow> is_digit c \<or> CHR ''a'' \<le> c \<and> c \<le> CHR ''f'' \<or> CHR ''A'' \<le> c \<and> c \<le> CHR ''F''"

lemma has_prefix_append [simp]: "has_prefix (p @ s) p"
  by (simp add: has_prefix_def)

lemma has_prefix_conv: "has_prefix s p \<longleftrightarrow> (\<exists>t. s = p @ t)"
  by (metis append_take_drop_id append_eq_conv_conj has_prefix_def)

lemma has_suffix_conv: "has_suffix s p \<longleftrightarrow> (\<exists>t. s = t @ p)"
proof
  assume "has_suffix s p"
  then show "\<exists>t. s = t @ p"
    by (metis append_take_drop_id has_suffix_def)
qed (auto simp: has_suffix_def)

lemma trim_suffix_append [simp]: "trim_suffix (s @ p) p = s"
  by (simp add: trim_suffix_def has_suffix_def)

lemma contains_sub_conv: "contains_sub s p \<longleftrightarrow> (\<exists>a b. s = a @ p @ b)"
proof (induction s p rule: contains_sub.induct)
  case (2 c s p)
  show ?case
  proof
    assume "contains_sub (c # s) p"
    then consider "has_prefix (c # s) p" | "contains_sub s p" by auto
    then show "\<exists>a b. c # s = a @ p @ b"
    proof cases
      case 1
      then obtain t where "c # s = [] @ p @ t" by (auto simp: has_prefix_conv)
      then show ?thesis by blast
    next
      case 2
      with "2.IH" obtain a b where "s = a @ p @ b" by auto
      then have "c # s = (c # a) @ p @ b" by simp
      then show ?thesis by blast
    qed
  next
    assume "\<exists>a b. c # s = a @ p @ b"
    then obtain a b where ab: "c # s = a @ p @ b" by blast
    show "contains_sub (c # s) p"
    proof (cases a)
      case Nil
      with ab have "has_prefix (c # s) p" by (auto simp: has_prefix_conv)
      then show ?thesis by simp
    next
      case (Cons d a')
      with ab have "s = a' @ p @ b" by simp
      with "2.IH" show ?thesis by auto
    qed
  qed
qed auto

text \<open>
  \<^verbatim>\<open>isUUID\<close> (capability/input.go): 36 bytes, dashes at 8, 13, 18 and 23, hexadecimal
  digits elsewhere. The source ranges over runes; a byte above 127 is never one of the
  hexadecimal digits, so the byte-wise test decides the same strings.
\<close>

definition isUUID :: "string \<Rightarrow> bool" where
  "isUUID value \<longleftrightarrow>
     length value = 36 \<and> value ! 8 = CHR ''-'' \<and> value ! 13 = CHR ''-'' \<and>
     value ! 18 = CHR ''-'' \<and> value ! 23 = CHR ''-'' \<and>
     list_all (\<lambda>index. index \<in> set [8, 13, 18, 23] \<or> is_hex (value ! index)) [0..<36]"

lemma isUUID_nonempty: "isUUID s \<Longrightarrow> s \<noteq> []"
  by (auto simp: isUUID_def)


section \<open>Searching a list\<close>

lemma find_append: "find P (xs @ ys) = (case find P xs of None \<Rightarrow> find P ys | Some x \<Rightarrow> Some x)"
  by (induction xs) auto

section \<open>Stable sorting by a comparison function\<close>

text \<open>
  \<^verbatim>\<open>sort.SliceStable(xs, lt)\<close>: the result is ordered by \<open>lt\<close> and elements that \<open>lt\<close>
  does not separate keep their order. Inserting from the right does exactly that.
\<close>

fun insert_by :: "('a \<Rightarrow> 'a \<Rightarrow> bool) \<Rightarrow> 'a \<Rightarrow> 'a list \<Rightarrow> 'a list" where
  "insert_by lt x [] = [x]"
| "insert_by lt x (y # ys) = (if lt y x then y # insert_by lt x ys else x # y # ys)"

definition stable_sort :: "('a \<Rightarrow> 'a \<Rightarrow> bool) \<Rightarrow> 'a list \<Rightarrow> 'a list" where
  "stable_sort lt xs = foldr (insert_by lt) xs []"

lemma mset_insert_by [simp]: "mset (insert_by lt x ys) = add_mset x (mset ys)"
  by (induction ys) auto

lemma mset_stable_sort [simp]: "mset (stable_sort lt xs) = mset xs"
  by (induction xs) (auto simp: stable_sort_def)

lemma set_stable_sort [simp]: "set (stable_sort lt xs) = set xs"
  by (metis mset_stable_sort set_mset_mset)

lemma length_stable_sort [simp]: "length (stable_sort lt xs) = length xs"
  by (metis mset_stable_sort size_mset)

lemma distinct_map_stable_sort [simp]:
  "distinct (map f (stable_sort lt xs)) \<longleftrightarrow> distinct (map f xs)"
  by (metis mset_stable_sort mset_map mset_eq_imp_distinct_iff)

text \<open>The contract of a comparison function: a strict weak order.\<close>

locale strict_weak_order =
  fixes lt :: "'a \<Rightarrow> 'a \<Rightarrow> bool"
  assumes asym: "lt x y \<Longrightarrow> \<not> lt y x"
    and neg_trans: "lt x z \<Longrightarrow> lt x y \<or> lt y z"
begin

lemma irrefl: "\<not> lt x x"
  using asym by blast

lemma trans: "lt x y \<Longrightarrow> lt y z \<Longrightarrow> lt x z"
  using asym neg_trans by blast

lemma insert_by_sorted:
  "sorted_wrt (\<lambda>a b. \<not> lt b a) ys \<Longrightarrow> sorted_wrt (\<lambda>a b. \<not> lt b a) (insert_by lt x ys)"
proof (induction ys)
  case Nil
  then show ?case by simp
next
  case (Cons y ys)
  have set_ins: "set (insert_by lt x ys) = insert x (set ys)"
    by (metis mset_insert_by set_mset_mset set_mset_add_mset_insert)
  from Cons show ?case
    using set_ins asym neg_trans by (auto; blast)
qed

lemma stable_sort_sorted: "sorted_wrt (\<lambda>a b. \<not> lt b a) (stable_sort lt xs)"
  unfolding stable_sort_def by (induction xs) (auto intro: insert_by_sorted)

lemma insert_by_filter_equiv:
  assumes "\<And>a b. P a \<Longrightarrow> P b \<Longrightarrow> \<not> lt a b"
  shows "filter P (insert_by lt x ys) = (if P x then x # filter P ys else filter P ys)"
proof (induction ys)
  case (Cons y ys)
  then show ?case using assms by auto
qed simp

lemma stable_sort_stable:
  assumes "\<And>a b. P a \<Longrightarrow> P b \<Longrightarrow> \<not> lt a b"
  shows "filter P (stable_sort lt xs) = filter P xs"
  unfolding stable_sort_def
  by (induction xs) (auto simp: insert_by_filter_equiv [OF assms])

end

section \<open>Sums over lists\<close>

lemma distinct_keyD:
  "distinct (map key xs) \<Longrightarrow> x \<in> set xs \<Longrightarrow> y \<in> set xs \<Longrightarrow> key x = key y \<Longrightarrow> x = y"
  by (simp add: distinct_map inj_on_def)

lemma sum_list_swap:
  fixes f :: "'a \<Rightarrow> 'b \<Rightarrow> int"
  shows "sum_list (map (\<lambda>x. sum_list (map (f x) ys)) xs) = sum_list (map (\<lambda>y. sum_list (map (\<lambda>x. f x y) xs)) ys)"
  by (induction xs) (simp_all add: sum_list_addf)

lemma sum_list_filter_if:
  fixes f :: "'a \<Rightarrow> int"
  shows "sum_list (map f (filter P xs)) = sum_list (map (\<lambda>x. if P x then f x else 0) xs)"
  by (induction xs) simp_all

lemma sum_list_single:
  fixes v :: int
  shows "distinct (map key xs) \<Longrightarrow> x \<in> set xs \<Longrightarrow>
    sum_list (map (\<lambda>y. if key y = key x then v else 0) xs) = v"
proof (induction xs)
  case (Cons y ys)
  show ?case
  proof (cases "x = y")
    case True
    with Cons.prems have "\<forall>z \<in> set ys. key z \<noteq> key x" by (auto simp: image_iff)
    then have "sum_list (map (\<lambda>z. if key z = key x then v else 0) ys) = 0"
      by (induction ys) auto
    with True show ?thesis by simp
  next
    case False
    with Cons show ?thesis by auto
  qed
qed simp

lemma sum_list_by_key:
  fixes f :: "'a \<Rightarrow> int"
  assumes "distinct keys" and "key ` set rows \<subseteq> set keys"
  shows "sum_list (map (\<lambda>k. sum_list (map f (filter (\<lambda>r. key r = k) rows))) (filter P keys)) =
         sum_list (map f (filter (\<lambda>r. P (key r)) rows))"
  using assms(2)
proof (induction rows)
  case Nil
  then show ?case by simp
next
  case (Cons r rows)
  have one: "sum_list (map (\<lambda>k. if key r = k then f r else 0) (filter P keys)) = (if P (key r) then f r else 0)"
  proof (cases "P (key r)")
    case True
    with Cons.prems assms(1) show ?thesis
      using sum_list_single [of "\<lambda>k. k" "filter P keys" "key r" "f r"] by (simp add: eq_commute)
  next
    case False
    then have "sum_list (map (\<lambda>k. if key r = k then f r else 0) (filter P keys)) = 0"
      by (induction keys) auto
    with False show ?thesis by simp
  qed
  have "sum_list (map (\<lambda>k. sum_list (map f (filter (\<lambda>q. key q = k) (r # rows)))) (filter P keys)) =
        sum_list (map (\<lambda>k. (if key r = k then f r else 0) + sum_list (map f (filter (\<lambda>q. key q = k) rows))) (filter P keys))"
    by (intro arg_cong [where f = sum_list] map_cong) auto
  also have "\<dots> = (if P (key r) then f r else 0) + sum_list (map f (filter (\<lambda>q. P (key q)) rows))"
    using Cons one by (simp add: sum_list_addf)
  finally show ?case by simp
qed

lemma sum_list_stable_sort [simp]:
  fixes f :: "'a \<Rightarrow> int"
  shows "sum_list (map f (filter P (stable_sort lt xs))) = sum_list (map f (filter P xs))"
proof -
  have "mset (map f (filter P (stable_sort lt xs))) = mset (map f (filter P xs))" by simp
  then show ?thesis by (metis sum_mset_sum_list)
qed

lemma sum_list_map_concat:
  fixes f :: "'a \<Rightarrow> int"
  shows "sum_list (map f (concat xss)) = sum_list (map (\<lambda>xs. sum_list (map f xs)) xss)"
  by (induction xss) simp_all

lemma sum_list_map_cong:
  "(\<And>x. x \<in> set xs \<Longrightarrow> f x = g x) \<Longrightarrow> sum_list (map f xs) = sum_list (map g xs)"
  by (simp cong: map_cong)

lemma sum_list_if_const:
  fixes f :: "'a \<Rightarrow> int"
  shows "sum_list (map (\<lambda>x. if P \<and> Q x then f x else 0) xs) =
         (if P then sum_list (map (\<lambda>x. if Q x then f x else 0) xs) else 0)"
  by (cases P) simp_all

lemma concat_filter_map:
  "filter P (concat xss) = concat (map (filter P) xss)"
  by (induction xss) simp_all

section \<open>The civil calendar\<close>

text \<open>
  The UTC year and month of an instant (\<^verbatim>\<open>t.UTC().Year()\<close>, \<^verbatim>\<open>t.UTC().Month()\<close>), computed
  over the proleptic Gregorian calendar from the day number, with years counted from
  March within 400-year eras.
\<close>

definition millis_per_day :: int where "millis_per_day = 86400000"

definition civil_of_days :: "int \<Rightarrow> int \<times> int \<times> int" where
  "civil_of_days days =
     (let z = days + 719468; era = z div 146097; doe = z mod 146097;
          yoe = (doe - doe div 1460 + doe div 36524 - doe div 146096) div 365;
          doy = doe - (365 * yoe + yoe div 4 - yoe div 100);
          mp = (5 * doy + 2) div 153; d = doy - (153 * mp + 2) div 5 + 1;
          m = (if mp < 10 then mp + 3 else mp - 9)
      in (yoe + era * 400 + (if m \<le> 2 then 1 else 0), m, d))"

definition utc_year :: "int \<Rightarrow> int" where
  "utc_year t = fst (civil_of_days (t div millis_per_day))"

definition utc_month :: "int \<Rightarrow> int" where
  "utc_month t = fst (snd (civil_of_days (t div millis_per_day)))"

lemma civil_examples:
  "civil_of_days 0 = (1970, 1, 1)"
  "civil_of_days 11016 = (2000, 2, 29)"
  "civil_of_days 20454 = (2026, 1, 1)"
  "civil_of_days (-1) = (1969, 12, 31)"
  by code_simp+

end
