(* ===== verification/Json.thy ===== *)
theory Json
  imports Prelude
begin

text \<open>
  JSON as the capability layer uses it (src/apps/api/internal/capability/input.go and
  digest.go): decoding a byte string to a value with numbers kept as text
  (\<^verbatim>\<open>decodeJSON\<close>, a \<^verbatim>\<open>json.Decoder\<close> with \<^verbatim>\<open>UseNumber\<close>), encoding a value with object keys
  in byte order and without HTML escapes (\<^verbatim>\<open>marshalJS\<close>), and the digest of the
  canonical encoding (\<^verbatim>\<open>InputHash\<close>). The SHA-256 digest with its hexadecimal rendering
  is the argument \<open>H\<close>.
\<close>

section \<open>Values\<close>

datatype json =
    JNull
  | JBool bool
  | JNum string
  | JStr string
  | JArr "json list"
  | JObj "(string \<times> json) list"

text \<open>
  A decoded object is a Go map: the list of its entries is kept in strictly increasing
  key order, and a repeated key overwrites the earlier value.
\<close>

fun obj_put :: "string \<Rightarrow> 'v \<Rightarrow> (string \<times> 'v) list \<Rightarrow> (string \<times> 'v) list" where
  "obj_put k v [] = [(k, v)]"
| "obj_put k v ((k', v') # ps) =
     (if k < k' then (k, v) # (k', v') # ps
      else if k = k' then (k, v) # ps
      else (k', v') # obj_put k v ps)"

lemma map_of_obj_put: "map_of (obj_put k v ps) = (map_of ps)(k \<mapsto> v)"
  by (induction k v ps rule: obj_put.induct) auto

lemma set_keys_obj_put: "fst ` set (obj_put k v ps) = insert k (fst ` set ps)"
  by (induction k v ps rule: obj_put.induct) auto

lemma sorted_obj_put:
  "sorted_wrt (<) (map fst ps) \<Longrightarrow> sorted_wrt (<) (map fst (obj_put k v ps))"
proof (induction k v ps rule: obj_put.induct)
  case (2 k v k' v' ps)
  then show ?case using set_keys_obj_put [of k v ps] by (auto simp: image_iff)
qed simp

section \<open>Bytes, code points and UTF-8\<close>

abbreviation byte :: "char \<Rightarrow> nat" where "byte c \<equiv> of_char c"

definition is_cont :: "char \<Rightarrow> bool" where
  "is_cont c \<longleftrightarrow> 128 \<le> byte c \<and> byte c < 192"

text \<open>The length of the well-formed UTF-8 sequence at the head of a string; 0 if there is none.\<close>

fun utf8_len :: "string \<Rightarrow> nat" where
  "utf8_len [] = 0"
| "utf8_len (a # s) =
     (if byte a < 128 then 1
      else case s of
        [] \<Rightarrow> 0
      | b # t \<Rightarrow>
          if 194 \<le> byte a \<and> byte a < 224 then (if is_cont b then 2 else 0)
          else case t of
            [] \<Rightarrow> 0
          | c # u \<Rightarrow>
              if 224 \<le> byte a \<and> byte a < 240
              then (if is_cont b \<and> is_cont c \<and> (byte a = 224 \<longrightarrow> 160 \<le> byte b)
                       \<and> (byte a = 237 \<longrightarrow> byte b < 160) then 3 else 0)
              else case u of
                [] \<Rightarrow> 0
              | d # _ \<Rightarrow>
                  if 240 \<le> byte a \<and> byte a < 245 \<and> is_cont b \<and> is_cont c \<and> is_cont d
                     \<and> (byte a = 240 \<longrightarrow> 144 \<le> byte b) \<and> (byte a = 244 \<longrightarrow> byte b < 144)
                  then 4 else 0)"

text \<open>\<^verbatim>\<open>len(utf16.Encode([]rune(s)))\<close>: a four-byte rune takes two units, an ill-formed byte one.\<close>

function utf16Length :: "string \<Rightarrow> nat" where
  "utf16Length [] = 0"
| "utf16Length (c # s) =
     (if utf8_len (c # s) = 4 then 2 else 1) + utf16Length (drop (max 1 (utf8_len (c # s))) (c # s))"
  by pat_completeness auto
termination
  by (relation "measure length") (auto simp del: utf8_len.simps)

definition replacement_utf8 :: string where
  "replacement_utf8 = map char_of [239, 191, 189::nat]"

definition utf8_encode :: "nat \<Rightarrow> string" where
  "utf8_encode n =
     (if n < 128 then [char_of n]
      else if n < 2048 then map char_of [192 + n div 64, 128 + n mod 64]
      else if n < 65536 then map char_of [224 + n div 4096, 128 + n div 64 mod 64, 128 + n mod 64]
      else map char_of [240 + n div 262144, 128 + n div 4096 mod 64, 128 + n div 64 mod 64, 128 + n mod 64])"

definition hex_digit :: "char \<Rightarrow> nat option" where
  "hex_digit c =
     (if CHR ''0'' \<le> c \<and> c \<le> CHR ''9'' then Some (byte c - 48)
      else if CHR ''a'' \<le> c \<and> c \<le> CHR ''f'' then Some (byte c - 87)
      else if CHR ''A'' \<le> c \<and> c \<le> CHR ''F'' then Some (byte c - 55)
      else None)"

fun hex4 :: "string \<Rightarrow> nat option" where
  "hex4 (a # b # c # d # _) =
     (case (hex_digit a, hex_digit b, hex_digit c, hex_digit d) of
        (Some w, Some x, Some y, Some z) \<Rightarrow> Some (w * 4096 + x * 256 + y * 16 + z)
      | _ \<Rightarrow> None)"
| "hex4 _ = None"

section \<open>Decoding\<close>

definition is_ws :: "char \<Rightarrow> bool" where
  "is_ws c \<longleftrightarrow> c \<in> set [CHR '' '', CHR 0x09, CHR 0x0A, CHR 0x0D]"

definition skip_ws :: "string \<Rightarrow> string" where
  "skip_ws = dropWhile is_ws"

text \<open>The body of a string literal, after its opening quote: its content and the rest.\<close>

definition simple_escape :: "char \<Rightarrow> char option" where
  "simple_escape c =
     (if c = CHR 0x22 then Some (CHR 0x22) else if c = CHR 0x5C then Some (CHR 0x5C)
      else if c = CHR ''/'' then Some (CHR ''/'') else if c = CHR ''b'' then Some (CHR 0x08)
      else if c = CHR ''f'' then Some (CHR 0x0C) else if c = CHR ''n'' then Some (CHR 0x0A)
      else if c = CHR ''r'' then Some (CHR 0x0D) else if c = CHR ''t'' then Some (CHR 0x09)
      else None)"

definition is_surrogate :: "nat \<Rightarrow> bool" where
  "is_surrogate n \<longleftrightarrow> 55296 \<le> n \<and> n < 57344"

fun low_surrogate :: "string \<Rightarrow> nat option" where
  "low_surrogate (a # b # s) =
     (if a = CHR 0x5C \<and> b = CHR ''u''
      then (case hex4 s of Some n \<Rightarrow> if 56320 \<le> n \<and> n < 57344 then Some n else None | None \<Rightarrow> None)
      else None)"
| "low_surrogate _ = None"

function json_string :: "string \<Rightarrow> (string \<times> string) option" where
  "json_string [] = None"
| "json_string (c # s) =
     (if c = CHR 0x22 then Some ([], s)
      else if byte c < 32 then None
      else if c = CHR 0x5C then
        (case s of
           [] \<Rightarrow> None
         | e # t \<Rightarrow>
             if e = CHR ''u'' then
               (case hex4 t of
                  None \<Rightarrow> None
                | Some n \<Rightarrow>
                    if is_surrogate n then
                      (case (if n < 56320 then low_surrogate (drop 4 t) else None) of
                         Some m \<Rightarrow> map_option (map_prod ((@) (utf8_encode (65536 + (n - 55296) * 1024 + (m - 56320)))) id)
                                     (json_string (drop 10 t))
                       | None \<Rightarrow> map_option (map_prod ((@) replacement_utf8) id) (json_string (drop 4 t)))
                    else map_option (map_prod ((@) (utf8_encode n)) id) (json_string (drop 4 t)))
             else (case simple_escape e of
                     None \<Rightarrow> None
                   | Some x \<Rightarrow> map_option (map_prod ((#) x) id) (json_string t)))
      else if utf8_len (c # s) = 0
      then map_option (map_prod ((@) replacement_utf8) id) (json_string s)
      else map_option (map_prod ((@) (take (utf8_len (c # s)) (c # s))) id)
             (json_string (drop (utf8_len (c # s)) (c # s))))"
  by pat_completeness auto
termination
  by (relation "measure length") (auto simp del: utf8_len.simps)

section \<open>Numbers, arrays, objects\<close>

fun take_digits :: "string \<Rightarrow> string \<times> string" where
  "take_digits [] = ([], [])"
| "take_digits (c # s) =
     (if is_digit c then (case take_digits s of (d, r) \<Rightarrow> (c # d, r)) else ([], c # s))"

definition json_frac :: "string \<Rightarrow> (string \<times> string) option" where
  "json_frac s =
     (case s of
        c # t \<Rightarrow> if c = CHR ''.'' then
                   (case take_digits t of (d, r) \<Rightarrow> if d = [] then None else Some (c # d, r))
                 else Some ([], s)
      | [] \<Rightarrow> Some ([], s))"

definition json_exp :: "string \<Rightarrow> (string \<times> string) option" where
  "json_exp s =
     (case s of
        c # t \<Rightarrow>
          if c = CHR ''e'' \<or> c = CHR ''E'' then
            (let (sg, u) = (case t of x # u \<Rightarrow> if x = CHR ''+'' \<or> x = CHR ''-'' then ([x], u) else ([], t)
                            | [] \<Rightarrow> ([], t))
             in case take_digits u of (d, r) \<Rightarrow> if d = [] then None else Some (c # sg @ d, r))
          else Some ([], s)
      | [] \<Rightarrow> Some ([], s))"

definition json_int_part :: "string \<Rightarrow> (string \<times> string) option" where
  "json_int_part s =
     (case s of
        c # t \<Rightarrow> if c = CHR ''0'' then Some ([c], t)
                 else if is_digit c then Some (take_digits s) else None
      | [] \<Rightarrow> None)"

definition json_number :: "string \<Rightarrow> (string \<times> string) option" where
  "json_number s =
     (let (sg, t) = (case s of c # t \<Rightarrow> if c = CHR ''-'' then ([c], t) else ([], s) | [] \<Rightarrow> ([], s))
      in case json_int_part t of
           None \<Rightarrow> None
         | Some (i, u) \<Rightarrow>
             (case json_frac u of
                None \<Rightarrow> None
              | Some (f, v) \<Rightarrow>
                  (case json_exp v of None \<Rightarrow> None | Some (e, r) \<Rightarrow> Some (sg @ i @ f @ e, r))))"

definition json_literal :: "string \<Rightarrow> (json \<times> string) option" where
  "json_literal s =
     (if has_prefix s ''null'' then Some (JNull, drop 4 s)
      else if has_prefix s ''true'' then Some (JBool True, drop 4 s)
      else if has_prefix s ''false'' then Some (JBool False, drop 5 s)
      else map_option (map_prod JNum id) (json_number s))"

text \<open>
  The decoder proper. The first argument is fuel for the recursion, the second the
  nesting depth, which \<^verbatim>\<open>encoding/json\<close> limits to 10000.
\<close>

fun json_value :: "nat \<Rightarrow> nat \<Rightarrow> string \<Rightarrow> (json \<times> string) option"
  and json_elems :: "nat \<Rightarrow> nat \<Rightarrow> string \<Rightarrow> (json list \<times> string) option"
  and json_members :: "nat \<Rightarrow> nat \<Rightarrow> (string \<times> json) list \<Rightarrow> string \<Rightarrow> ((string \<times> json) list \<times> string) option"
where
  "json_value 0 d s = None"
| "json_value (Suc n) d s =
     (case skip_ws s of
        [] \<Rightarrow> None
      | c # t \<Rightarrow>
          if c = CHR ''{'' then
            if 10000 \<le> d then None
            else (case skip_ws t of
                    [] \<Rightarrow> None
                  | x # u \<Rightarrow> if x = CHR ''}'' then Some (JObj [], u)
                             else map_option (map_prod JObj id) (json_members n (Suc d) [] (x # u)))
          else if c = CHR ''['' then
            if 10000 \<le> d then None
            else (case skip_ws t of
                    [] \<Rightarrow> None
                  | x # u \<Rightarrow> if x = CHR '']'' then Some (JArr [], u)
                             else map_option (map_prod JArr id) (json_elems n (Suc d) (x # u)))
          else if c = CHR 0x22 then map_option (map_prod JStr id) (json_string t)
          else json_literal (c # t))"
| "json_elems 0 d s = None"
| "json_elems (Suc n) d s =
     (case json_value n d s of
        None \<Rightarrow> None
      | Some (v, r) \<Rightarrow>
          (case skip_ws r of
             [] \<Rightarrow> None
           | c # t \<Rightarrow> if c = CHR '','' then map_option (map_prod ((#) v) id) (json_elems n d t)
                      else if c = CHR '']'' then Some ([v], t) else None))"
| "json_members 0 d acc s = None"
| "json_members (Suc n) d acc s =
     (case skip_ws s of
        [] \<Rightarrow> None
      | q # t \<Rightarrow>
          if q \<noteq> CHR 0x22 then None
          else (case json_string t of
                  None \<Rightarrow> None
                | Some (k, r) \<Rightarrow>
                    (case skip_ws r of
                       [] \<Rightarrow> None
                     | c # u \<Rightarrow>
                         if c \<noteq> CHR '':'' then None
                         else (case json_value n d u of
                                 None \<Rightarrow> None
                               | Some (v, w) \<Rightarrow>
                                   (case skip_ws w of
                                      [] \<Rightarrow> None
                                    | x # y \<Rightarrow>
                                        if x = CHR '','' then json_members n d (obj_put k v acc) y
                                        else if x = CHR ''}'' then Some (obj_put k v acc, y) else None)))))"

definition json_fuel :: "string \<Rightarrow> nat" where
  "json_fuel s = 2 * length s + 2"

definition decodeJSON :: "string \<Rightarrow> json option" where
  "decodeJSON raw =
     (case json_value (json_fuel raw) 0 raw of
        None \<Rightarrow> None
      | Some (v, r) \<Rightarrow> if skip_ws r = [] then Some v else None)"

section \<open>Encoding\<close>

definition hex_char :: "nat \<Rightarrow> char" where
  "hex_char n = (if n < 10 then char_of (48 + n) else char_of (87 + n))"

definition encode_byte :: "char \<Rightarrow> string" where
  "encode_byte c =
     (if c = CHR 0x22 then [CHR 0x5C, CHR 0x22] else if c = CHR 0x5C then [CHR 0x5C, CHR 0x5C]
      else if c = CHR 0x08 then [CHR 0x5C, CHR ''b''] else if c = CHR 0x0C then [CHR 0x5C, CHR ''f'']
      else if c = CHR 0x0A then [CHR 0x5C, CHR ''n''] else if c = CHR 0x0D then [CHR 0x5C, CHR ''r'']
      else if c = CHR 0x09 then [CHR 0x5C, CHR ''t'']
      else if byte c < 32
      then [CHR 0x5C, CHR ''u'', CHR ''0'', CHR ''0'', hex_char (byte c div 16), hex_char (byte c mod 16)]
      else [c])"

definition line_separator :: string where "line_separator = map char_of [226, 128, 168::nat]"
definition paragraph_separator :: string where "paragraph_separator = map char_of [226, 128, 169::nat]"

function encode_string :: "string \<Rightarrow> string" where
  "encode_string [] = []"
| "encode_string (c # s) =
     (if byte c < 128 then encode_byte c @ encode_string s
      else if utf8_len (c # s) = 0 then CHR 0x5C # ''ufffd'' @ encode_string s
      else if has_prefix (c # s) line_separator then CHR 0x5C # ''u2028'' @ encode_string (drop 3 (c # s))
      else if has_prefix (c # s) paragraph_separator then CHR 0x5C # ''u2029'' @ encode_string (drop 3 (c # s))
      else take (utf8_len (c # s)) (c # s) @ encode_string (drop (utf8_len (c # s)) (c # s)))"
  by pat_completeness auto
termination
  by (relation "measure length") (auto simp del: utf8_len.simps)

definition quote :: "string \<Rightarrow> string" where
  "quote s = CHR 0x22 # encode_string s @ [CHR 0x22]"

fun encode_json :: "json \<Rightarrow> string"
  and encode_elems :: "json list \<Rightarrow> string"
  and encode_members :: "(string \<times> json) list \<Rightarrow> string"
where
  "encode_json JNull = ''null''"
| "encode_json (JBool b) = (if b then ''true'' else ''false'')"
| "encode_json (JNum n) = n"
| "encode_json (JStr s) = quote s"
| "encode_json (JArr vs) = ''['' @ encode_elems vs @ '']''"
| "encode_json (JObj ps) = ''{'' @ encode_members ps @ ''}''"
| "encode_elems [] = []"
| "encode_elems [v] = encode_json v"
| "encode_elems (v # w # vs) = encode_json v @ '','' @ encode_elems (w # vs)"
| "encode_members [] = []"
| "encode_members [(k, v)] = quote k @ '':'' @ encode_json v"
| "encode_members ((k, v) # p # ps) = quote k @ '':'' @ encode_json v @ '','' @ encode_members (p # ps)"

text \<open>\<^verbatim>\<open>bytes.ReplaceAll\<close>: non-overlapping occurrences from the left.\<close>

function replace_all :: "string \<Rightarrow> string \<Rightarrow> string \<Rightarrow> string" where
  "replace_all old new [] = []"
| "replace_all old new (c # s) =
     (if old \<noteq> [] \<and> has_prefix (c # s) old
      then new @ replace_all old new (drop (length old) (c # s))
      else c # replace_all old new s)"
  by pat_completeness auto
termination
  by (relation "measure (\<lambda>(old, new, s). length s)") auto

text \<open>\<^verbatim>\<open>marshalJS\<close>: the encoder's escapes of U+2028 and U+2029 are put back as characters.\<close>

definition marshalJS :: "json \<Rightarrow> string" where
  "marshalJS v =
     replace_all (CHR 0x5C # ''u2029'') paragraph_separator
       (replace_all (CHR 0x5C # ''u2028'') line_separator (encode_json v))"

section \<open>Digests\<close>

definition InputHash :: "(string \<Rightarrow> string) \<Rightarrow> string \<Rightarrow> string result" where
  "InputHash H raw =
     (case decodeJSON raw of
        None \<Rightarrow> Inl ''invalid JSON''
      | Some value \<Rightarrow>
          (case value of
             JObj _ \<Rightarrow> Inr (H (marshalJS value))
           | _ \<Rightarrow> Inl ''capability input must be a JSON object''))"

text \<open>
  \<^verbatim>\<open>canonicalHash\<close> on the encoded form of a typed input: encode, decode, encode again and
  hash. The argument is the value the first \<^verbatim>\<open>marshalJS\<close> is given.
\<close>

definition canonicalHash :: "(string \<Rightarrow> string) \<Rightarrow> json \<Rightarrow> string result" where
  "canonicalHash H value =
     (case decodeJSON (marshalJS value) of
        None \<Rightarrow> Inl ''invalid JSON''
      | Some normalized \<Rightarrow> Inr (H (marshalJS normalized)))"

end
