(* ===== verification/Ledger.thy ===== *)
theory Ledger
  imports Json
begin

text \<open>
  The hash-chained event ledger (src/apps/api/internal/ledger): appending an event in the
  caller's transaction (\<^verbatim>\<open>AppendTx\<close>), the digest of an event (\<^verbatim>\<open>hashEvent\<close>), the payload
  normalisation in front of it, and the newest-first paged reads. The SHA-256 digest in
  hexadecimal is the argument \<open>H\<close> of the definitions.
\<close>

section \<open>Data\<close>

record append_event =
  ev_orgID :: string
  ev_actorType :: string
  ev_actorID :: "string option"
  ev_kind :: string
  ev_capabilityID :: "string option"
  ev_sessionID :: "string option"
  ev_authSessionID :: "string option"
  ev_payload :: string
  ev_occurredAt :: int \<comment> \<open>nanoseconds since the epoch\<close>

record ledger_row =
  le_seq :: int
  le_orgID :: string
  le_actorType :: string
  le_actorID :: "string option"
  le_kind :: string
  le_capabilityID :: "string option"
  le_sessionID :: "string option"
  le_authSessionID :: "string option"
  le_payload :: string
  le_prevHash :: string
  le_hash :: string
  le_occurredAt :: int \<comment> \<open>milliseconds since the epoch\<close>

record ledger_db =
  ledger_events :: "ledger_row list"
  ledger_next_seq :: int \<comment> \<open>the next value of the bigserial column\<close>

section \<open>Payload normalisation\<close>

definition parseHex4 :: "string \<Rightarrow> nat option" where
  "parseHex4 src = (if length src \<noteq> 4 then None else hex4 src)"

definition unescaped_codepoint :: "nat \<Rightarrow> bool" where
  "unescaped_codepoint n \<longleftrightarrow> n \<in> set [0x3C, 0x3E, 0x26, 0x2028, 0x2029]"

function unescapeJSONStringifyCharacters :: "bool \<Rightarrow> string \<Rightarrow> string" where
  "unescapeJSONStringifyCharacters inString [] = []"
| "unescapeJSONStringifyCharacters inString (b # src) =
     (if \<not> inString then b # unescapeJSONStringifyCharacters (b = CHR 0x22) src
      else if b = CHR 0x22 then b # unescapeJSONStringifyCharacters False src
      else if b \<noteq> CHR 0x5C then b # unescapeJSONStringifyCharacters True src
      else (case src of
              [] \<Rightarrow> [b]
            | next # rest \<Rightarrow>
                (case (if next = CHR ''u'' \<and> 4 \<le> length rest then parseHex4 (take 4 rest) else None) of
                   Some codepoint \<Rightarrow>
                     if unescaped_codepoint codepoint
                     then utf8_encode codepoint @ unescapeJSONStringifyCharacters True (drop 4 rest)
                     else b # next # unescapeJSONStringifyCharacters True rest
                 | None \<Rightarrow>
                     if next = CHR ''/'' then CHR ''/'' # unescapeJSONStringifyCharacters True rest
                     else b # next # unescapeJSONStringifyCharacters True rest)))"
  by pat_completeness auto
termination
  by (relation "measure (\<lambda>(q, s). length s)") auto

declare unescapeJSONStringifyCharacters.simps(2) [simp del]

text \<open>\<^verbatim>\<open>json.Compact\<close> of a valid text: white space outside strings is dropped.\<close>

fun json_compact :: "bool \<Rightarrow> bool \<Rightarrow> string \<Rightarrow> string" where
  "json_compact inString escaped [] = []"
| "json_compact inString escaped (c # s) =
     (if inString
      then c # json_compact (escaped \<or> c \<noteq> CHR 0x22) (\<not> escaped \<and> c = CHR 0x5C) s
      else if is_ws c then json_compact False False s
      else c # json_compact (c = CHR 0x22) False s)"

definition stringifyPayload :: "string \<Rightarrow> string result" where
  "stringifyPayload raw =
     (if decodeJSON raw = None then Inl ''payload is not valid JSON''
      else Inr (unescapeJSONStringifyCharacters False (json_compact False False raw)))"

section \<open>Hashing and appending\<close>

definition stringValue :: "string option \<Rightarrow> string" where
  "stringValue value = (case value of None \<Rightarrow> [] | Some s \<Rightarrow> s)"

text \<open>The bytes written to the digest, in the order of the \<^verbatim>\<open>writeHashPart\<close> calls.\<close>

definition hash_input :: "append_event \<Rightarrow> string \<Rightarrow> string \<Rightarrow> int \<Rightarrow> string" where
  "hash_input event payload prevHash occurredMs =
     prevHash @ ev_orgID event @ ev_actorType event @ stringValue (ev_actorID event) @ ev_kind event
     @ stringValue (ev_capabilityID event)
     @ (case ev_authSessionID event of None \<Rightarrow> [] | Some s \<Rightarrow> s)
     @ payload @ show_int occurredMs"

definition hashEvent :: "(string \<Rightarrow> string) \<Rightarrow> append_event \<Rightarrow> string \<Rightarrow> string \<Rightarrow> int \<Rightarrow> string" where
  "hashEvent H event payload prevHash occurredMs = H (hash_input event payload prevHash occurredMs)"

text \<open>\<^verbatim>\<open>chaste_ledger_chain_head()\<close>: the hash of the row with the greatest sequence number.\<close>

fun latest_row :: "ledger_row list \<Rightarrow> ledger_row option" where
  "latest_row [] = None"
| "latest_row (r # rs) =
     (case latest_row rs of
        None \<Rightarrow> Some r
      | Some q \<Rightarrow> if le_seq q < le_seq r then Some r else Some q)"

definition genesis_hash :: string where
  "genesis_hash = replicate 64 CHR ''0''"

definition chain_head :: "ledger_row list \<Rightarrow> string" where
  "chain_head rows = (case latest_row rows of None \<Rightarrow> genesis_hash | Some r \<Rightarrow> le_hash r)"

text \<open>\<^verbatim>\<open>utf8.RuneCountInString\<close>: an ill-formed byte counts as one rune.\<close>

function rune_count :: "string \<Rightarrow> nat" where
  "rune_count [] = 0"
| "rune_count (c # s) = Suc (rune_count (drop (max 1 (utf8_len (c # s))) (c # s)))"
  by pat_completeness auto
termination
  by (relation "measure length") (auto simp del: utf8_len.simps)

text \<open>The row of the \<^verbatim>\<open>INSERT INTO ledger_events\<close> statement.\<close>

definition new_row :: "(string \<Rightarrow> string) \<Rightarrow> append_event \<Rightarrow> string \<Rightarrow> string \<Rightarrow> int \<Rightarrow> ledger_row" where
  "new_row H event payload prevHash seq =
     (let occurredAt = ev_occurredAt event div 1000000
      in \<lparr>le_seq = seq, le_orgID = ev_orgID event, le_actorType = ev_actorType event,
          le_actorID = ev_actorID event, le_kind = ev_kind event,
          le_capabilityID = ev_capabilityID event, le_sessionID = ev_sessionID event,
          le_authSessionID = ev_authSessionID event, le_payload = payload,
          le_prevHash = prevHash, le_hash = hashEvent H event payload prevHash occurredAt,
          le_occurredAt = occurredAt\<rparr>)"

definition AppendTx ::
  "(string \<Rightarrow> string) \<Rightarrow> append_event \<Rightarrow> 'a ledger_db_scheme \<Rightarrow> (int \<times> string \<times> 'a ledger_db_scheme) result" where
  "AppendTx H event db =
     (if (case ev_authSessionID event of None \<Rightarrow> False
          | Some s \<Rightarrow> trim_space s = [] \<or> 200 < rune_count s)
      then Inl ''ledger auth session attribution is invalid''
      else bind_result (stringifyPayload (ev_payload event)) (\<lambda>payload.
        let prevHash = chain_head (ledger_events db);
            seq = ledger_next_seq db;
            row = new_row H event payload prevHash seq
        in Inr (seq, le_hash row,
                db\<lparr>ledger_events := ledger_events db @ [row], ledger_next_seq := seq + 1\<rparr>)))"

section \<open>Reading\<close>

definition readForOrg :: "'a ledger_db_scheme \<Rightarrow> string \<Rightarrow> int \<Rightarrow> nat \<Rightarrow> ledger_row list" where
  "readForOrg db orgID beforeSeq limit =
     take limit (stable_sort (\<lambda>a b. le_seq b < le_seq a)
       (filter (\<lambda>r. le_orgID r = orgID \<and> (0 < beforeSeq \<longrightarrow> le_seq r < beforeSeq)) (ledger_events db)))"

definition RecentForOrg :: "'a ledger_db_scheme \<Rightarrow> string \<Rightarrow> nat \<Rightarrow> ledger_row list" where
  "RecentForOrg db orgID limit = readForOrg db orgID 0 limit"

definition BeforeForOrg :: "'a ledger_db_scheme \<Rightarrow> string \<Rightarrow> int \<Rightarrow> nat \<Rightarrow> ledger_row list" where
  "BeforeForOrg db orgID beforeSeq limit = readForOrg db orgID beforeSeq limit"

section \<open>The chain invariant\<close>

definition row_event :: "ledger_row \<Rightarrow> append_event" where
  "row_event r = \<lparr>ev_orgID = le_orgID r, ev_actorType = le_actorType r, ev_actorID = le_actorID r,
     ev_kind = le_kind r, ev_capabilityID = le_capabilityID r, ev_sessionID = le_sessionID r,
     ev_authSessionID = le_authSessionID r, ev_payload = le_payload r,
     ev_occurredAt = le_occurredAt r * 1000000\<rparr>"

definition row_input :: "ledger_row \<Rightarrow> string" where
  "row_input r = hash_input (row_event r) (le_payload r) (le_prevHash r) (le_occurredAt r)"

text \<open>What an auditor recomputes: every row links to the one before it and carries its own digest.\<close>

fun chain_from :: "(string \<Rightarrow> string) \<Rightarrow> string \<Rightarrow> ledger_row list \<Rightarrow> bool" where
  "chain_from H prev [] \<longleftrightarrow> True"
| "chain_from H prev (r # rs) \<longleftrightarrow>
     le_prevHash r = prev \<and> le_hash r = H (row_input r) \<and> chain_from H (le_hash r) rs"

definition chain_end :: "string \<Rightarrow> ledger_row list \<Rightarrow> string" where
  "chain_end prev rows = (if rows = [] then prev else le_hash (last rows))"

definition ledger_ok :: "(string \<Rightarrow> string) \<Rightarrow> 'a ledger_db_scheme \<Rightarrow> bool" where
  "ledger_ok H db \<longleftrightarrow>
     chain_from H genesis_hash (ledger_events db) \<and>
     sorted_wrt (<) (map le_seq (ledger_events db)) \<and>
     (\<forall>r \<in> set (ledger_events db). 0 < le_seq r \<and> le_seq r < ledger_next_seq db) \<and>
     0 < ledger_next_seq db"

lemma chain_from_append:
  "chain_from H prev (xs @ ys) \<longleftrightarrow> chain_from H prev xs \<and> chain_from H (chain_end prev xs) ys"
  by (induction xs arbitrary: prev) (auto simp: chain_end_def)

lemma latest_row_sorted:
  "sorted_wrt (<) (map le_seq rows) \<Longrightarrow> latest_row rows = (if rows = [] then None else Some (last rows))"
proof (induction rows)
  case (Cons r rs)
  show ?case
  proof (cases rs)
    case (Cons q qs)
    have "last rs \<in> set rs" using Cons by simp
    with Cons.prems have "le_seq r < le_seq (last rs)" by auto
    with Cons Cons.IH Cons.prems show ?thesis by simp
  qed simp
qed simp

lemma chain_head_ok:
  "ledger_ok H db \<Longrightarrow> chain_head (ledger_events db) = chain_end genesis_hash (ledger_events db)"
  by (simp add: ledger_ok_def chain_head_def chain_end_def latest_row_sorted)

lemma new_row_sel [simp]:
  "le_seq (new_row H event payload prevHash seq) = seq"
  "le_orgID (new_row H event payload prevHash seq) = ev_orgID event"
  "le_kind (new_row H event payload prevHash seq) = ev_kind event"
  "le_capabilityID (new_row H event payload prevHash seq) = ev_capabilityID event"
  "le_actorType (new_row H event payload prevHash seq) = ev_actorType event"
  "le_actorID (new_row H event payload prevHash seq) = ev_actorID event"
  "le_payload (new_row H event payload prevHash seq) = payload"
  "le_prevHash (new_row H event payload prevHash seq) = prevHash"
  "le_hash (new_row H event payload prevHash seq) = H (row_input (new_row H event payload prevHash seq))"
  by (simp_all add: new_row_def row_input_def hash_input_def hashEvent_def row_event_def Let_def)

lemma AppendTx_Inr:
  assumes "AppendTx H event db = Inr (seq, hash, db')"
  obtains payload where "stringifyPayload (ev_payload event) = Inr payload"
    and "seq = ledger_next_seq db"
    and "hash = le_hash (new_row H event payload (chain_head (ledger_events db)) (ledger_next_seq db))"
    and "db' = db\<lparr>ledger_events := ledger_events db
                    @ [new_row H event payload (chain_head (ledger_events db)) (ledger_next_seq db)],
                  ledger_next_seq := ledger_next_seq db + 1\<rparr>"
  using assms by (auto simp: AppendTx_def Let_def split: if_splits)

lemma ledger_ok_snoc:
  assumes "ledger_ok H db"
  shows "ledger_ok H (db\<lparr>ledger_events := ledger_events db
           @ [new_row H event payload (chain_head (ledger_events db)) (ledger_next_seq db)],
         ledger_next_seq := ledger_next_seq db + 1\<rparr>)"
  using assms chain_head_ok [OF assms]
  by (auto simp: ledger_ok_def chain_from_append sorted_wrt_append)

lemma AppendTx_ledger_ok [inv_intros]:
  assumes "ledger_ok H db" and "AppendTx H event db = Inr (seq, hash, db')"
  shows "ledger_ok H db'"
  using assms(2) by (rule AppendTx_Inr) (simp add: ledger_ok_snoc [OF assms(1)])


section \<open>Lemmas on reads\<close>

interpretation seq_desc: strict_weak_order "\<lambda>a b. le_seq b < le_seq a"
  by unfold_locales auto

lemma insert_by_last: "\<forall>y \<in> set ys. lt y x \<Longrightarrow> insert_by lt x ys = ys @ [x]"
  by (induction ys) auto

lemma stable_sort_desc_rev:
  "sorted_wrt (<) (map le_seq rows) \<Longrightarrow> stable_sort (\<lambda>a b. le_seq b < le_seq a) rows = rev rows"
  unfolding stable_sort_def by (induction rows) (auto intro: insert_by_last)

lemma sorted_wrt_map_filter:
  "sorted_wrt (<) (map f xs) \<Longrightarrow> sorted_wrt (<) (map f (filter P xs))"
  by (induction xs) auto

definition org_rows :: "'a ledger_db_scheme \<Rightarrow> string \<Rightarrow> int \<Rightarrow> ledger_row list" where
  "org_rows db orgID beforeSeq =
     rev (filter (\<lambda>r. le_orgID r = orgID \<and> (0 < beforeSeq \<longrightarrow> le_seq r < beforeSeq)) (ledger_events db))"

lemma readForOrg_ok:
  "ledger_ok H db \<Longrightarrow> readForOrg db orgID c n = take n (org_rows db orgID c)"
  by (simp add: readForOrg_def org_rows_def ledger_ok_def stable_sort_desc_rev sorted_wrt_map_filter)

lemma org_rows_desc:
  "ledger_ok H db \<Longrightarrow> sorted_wrt (\<lambda>a b. le_seq b < le_seq a) (org_rows db orgID c)"
  unfolding org_rows_def ledger_ok_def
  using sorted_wrt_map_filter [of le_seq "ledger_events db"]
  by (simp add: sorted_wrt_rev sorted_wrt_map)

lemma filter_below_nth:
  "sorted_wrt (\<lambda>a b. le_seq b < le_seq a) L \<Longrightarrow> n < length L \<Longrightarrow>
   filter (\<lambda>r. le_seq r < le_seq (L ! n)) L = drop (Suc n) L"
proof (induction L arbitrary: n)
  case (Cons r L)
  show ?case
  proof (cases n)
    case 0
    with Cons.prems show ?thesis by (simp add: filter_id_conv)
  next
    case (Suc k)
    from Suc Cons.prems have k: "k < length L" and above: "le_seq (L ! k) < le_seq r" by auto
    from above have "filter (\<lambda>q. le_seq q < le_seq (L ! k)) (r # L) = filter (\<lambda>q. le_seq q < le_seq (L ! k)) L"
      by auto
    with Cons.IH [OF _ k] Cons.prems(1) Suc show ?thesis by simp
  qed
qed simp

lemma org_rows_cursor:
  assumes "ledger_ok H db" and "n < length (org_rows db orgID c)"
  shows "org_rows db orgID (le_seq (org_rows db orgID c ! n)) = drop (Suc n) (org_rows db orgID c)"
proof -
  let ?L = "org_rows db orgID c"
  let ?s = "le_seq (?L ! n)"
  have mem: "?L ! n \<in> set ?L" using assms(2) by (rule nth_mem)
  then have pos: "0 < ?s" and below: "0 < c \<Longrightarrow> ?s < c"
    using assms(1) by (auto simp: org_rows_def ledger_ok_def)
  have "org_rows db orgID ?s = filter (\<lambda>r. le_seq r < ?s) ?L"
    unfolding org_rows_def rev_filter [symmetric] filter_filter
    using pos below by (intro arg_cong [where f = rev] filter_cong) (auto simp: org_rows_def)
  also have "\<dots> = drop (Suc n) ?L"
    using org_rows_desc [OF assms(1)] assms(2) by (rule filter_below_nth)
  finally show ?thesis .
qed

section \<open>Lemmas on chains\<close>

lemma row_input_prev: "\<exists>rest. row_input r = le_prevHash r @ rest"
  by (simp add: row_input_def hash_input_def row_event_def)

lemma chain_end_length:
  assumes "\<And>x. length (H x) = 64" and "length p = 64" and "chain_from H p rows"
  shows "length (chain_end p rows) = 64"
proof (cases "rows = []")
  case False
  then obtain ys y where rows: "rows = ys @ [y]" by (metis rev_exhaust)
  with assms(3) have "le_hash y = H (row_input y)" by (simp add: chain_from_append)
  with rows assms(1) show ?thesis by (simp add: chain_end_def)
qed (simp add: chain_end_def assms(2))

lemma chain_agree:
  assumes len: "\<And>x. length (H x) = 64"
  shows "chain_from H p xs \<Longrightarrow> chain_from H p ys \<Longrightarrow> length xs = length ys \<Longrightarrow> length p = 64 \<Longrightarrow>
     chain_end p xs = chain_end p ys \<Longrightarrow>
     map row_input xs = map row_input ys \<or>
     (\<exists>x \<in> set xs. \<exists>y \<in> set ys. row_input x \<noteq> row_input y \<and> H (row_input x) = H (row_input y))"
proof (induction xs arbitrary: ys rule: rev_induct)
  case (snoc x xs)
  then obtain zs y where ys: "ys = zs @ [y]"
    by (metis append_is_Nil_conv length_0_conv rev_exhaust snoc_eq_iff_butlast)
  from snoc.prems ys have hx: "le_hash x = H (row_input x)" and hy: "le_hash y = H (row_input y)"
    and px: "le_prevHash x = chain_end p xs" and py: "le_prevHash y = chain_end p zs"
    and cx: "chain_from H p xs" and cy: "chain_from H p zs" and l: "length xs = length zs"
    by (simp_all add: chain_from_append)
  from snoc.prems(5) ys hx hy have same: "H (row_input x) = H (row_input y)"
    by (simp add: chain_end_def)
  show ?case
  proof (cases "row_input x = row_input y")
    case True
    have "length (le_prevHash x) = length (le_prevHash y)"
      using px py chain_end_length [OF len snoc.prems(4) cx] chain_end_length [OF len snoc.prems(4) cy]
      by simp
    with True have "le_prevHash x = le_prevHash y"
      by (metis append_eq_append_conv row_input_prev)
    with px py have "chain_end p xs = chain_end p zs" by simp
    from snoc.IH [OF cx cy l snoc.prems(4) this] True ys show ?thesis by auto
  next
    case False
    with same ys show ?thesis by auto
  qed
qed simp


section \<open>Properties\<close>


definition example_digest :: "string \<Rightarrow> string" where
  "example_digest s = take 64 (s @ replicate 64 CHR ''0'')"

definition example_event :: append_event where
  "example_event = \<lparr>ev_orgID = ''org'', ev_actorType = ''human'', ev_actorID = Some ''u'', ev_kind = ''k'',
     ev_capabilityID = None, ev_sessionID = None, ev_authSessionID = None,
     ev_payload = ''{}'', ev_occurredAt = 5000000\<rparr>"

definition example_ledger :: ledger_db where
  "example_ledger = \<lparr>ledger_events = [], ledger_next_seq = 1\<rparr>"

lemma example_ledger_ok: "ledger_ok H example_ledger"
  by (simp add: ledger_ok_def example_ledger_def)

lemma example_payload: "stringifyPayload ''{}'' = Inr ''{}''"
  by code_simp

lemma example_append:
  "AppendTx H example_event example_ledger =
     (let row = new_row H example_event ''{}'' genesis_hash 1
      in Inr (1, le_hash row, \<lparr>ledger_events = [row], ledger_next_seq = 2\<rparr>))"
  by (simp add: AppendTx_def example_event_def example_ledger_def example_payload chain_head_def Let_def)




text \<open>
  C4: the digest does not separate adjacent fields. Moving bytes between the end of the
  kind and the start of the capability id, or changing the agent session id, leaves the
  digest of an event as it was, whatever the digest function is.
\<close>

theorem ledger_digest_field_shift:
  "hashEvent H (event\<lparr>ev_kind := k @ x, ev_capabilityID := Some y\<rparr>) payload prev t =
     hashEvent H (event\<lparr>ev_kind := k, ev_capabilityID := Some (x @ y)\<rparr>) payload prev t \<and>
   hashEvent H (event\<lparr>ev_sessionID := s\<rparr>) payload prev t = hashEvent H event payload prev t"
  by (simp add: hashEvent_def hash_input_def stringValue_def)

text \<open>
  C13: paged reads partition an organization's history. A full page followed by the page
  in front of its last sequence number is the page of both sizes together; a page holds
  only the organization's rows, newest first, at most as many as asked for.
\<close>

theorem ledger_pages_compose:
  assumes "ledger_ok H db" and "0 < n" and "length (BeforeForOrg db orgID c n) = n"
  shows "BeforeForOrg db orgID c (n + m) =
           BeforeForOrg db orgID c n @ BeforeForOrg db orgID (le_seq (last (BeforeForOrg db orgID c n))) m \<and>
         (\<forall>r \<in> set (BeforeForOrg db orgID c n). le_orgID r = orgID \<and> r \<in> set (ledger_events db)) \<and>
         sorted_wrt (\<lambda>a b. le_seq b < le_seq a) (BeforeForOrg db orgID c n)"
proof -
  let ?L = "org_rows db orgID c"
  note read = BeforeForOrg_def readForOrg_ok [OF assms(1)]
  from assms(3) have nL: "n \<le> length ?L" by (simp add: read)
  have l: "last (take n ?L) = ?L ! (n - 1)"
    using assms(2) nL by (cases "?L = []") (auto simp: last_conv_nth min_def)
  have cur: "org_rows db orgID (le_seq (?L ! (n - 1))) = drop n ?L"
    using org_rows_cursor [OF assms(1), of "n - 1" orgID c] assms(2) nL by simp
  have "set (take n ?L) \<subseteq> set ?L" by (rule set_take_subset)
  then have "\<forall>r \<in> set (take n ?L). le_orgID r = orgID \<and> r \<in> set (ledger_events db)"
    by (auto simp: org_rows_def)
  moreover have "sorted_wrt (\<lambda>a b. le_seq b < le_seq a) (take n ?L)"
    using org_rows_desc [OF assms(1)] by (rule sorted_wrt_take)
  ultimately show ?thesis using l cur by (simp add: read take_add)
qed

theorem ledger_pages_compose_witness:
  "let db = example_ledger\<lparr>ledger_events := [new_row example_digest example_event ''{}'' genesis_hash 1],
              ledger_next_seq := 2\<rparr>
   in BeforeForOrg db ''org'' 0 (1 + 1) =
        BeforeForOrg db ''org'' 0 1 @ BeforeForOrg db ''org'' (le_seq (last (BeforeForOrg db ''org'' 0 1))) 1"
proof -
  let ?db = "example_ledger\<lparr>ledger_events := [new_row example_digest example_event ''{}'' genesis_hash 1],
              ledger_next_seq := 2\<rparr>"
  have ok: "ledger_ok example_digest ?db" by (simp add: ledger_ok_def)
  have len: "length (BeforeForOrg ?db ''org'' 0 1) = 1" by code_simp
  have one: "(0::nat) < 1" by simp
  show ?thesis
    using ledger_pages_compose [OF ok one len, of 1] by (simp add: Let_def)
qed

end
