(* ===== verification/Claims.thy ===== *)
theory Claims
  imports Prelude
begin

text \<open>
  The signed action context of a capability call
  (\<^verbatim>\<open>CapabilityClaims\<close> of src/apps/api/internal/authbridge/assertion.go), shared by the
  pipeline and the capability handlers.
\<close>

record capabilityClaims =
  Audience :: string
  Subject :: string
  OrganizationID :: string
  CapabilityID :: string
  InputSHA256 :: string
  ActorID :: "string option"
  ActorType :: string
  Permissions :: "string list"
  AuthSessionID :: string
  AgentSessionID :: string
  IntentID :: string
  IssuedAt :: int
  ExpiresAt :: int

end
