(* ===== verification/Money.thy ===== *)
theory Money
  imports Prelude
begin

text \<open>
  The amount arithmetic of the accounting capabilities
  (src/apps/api/internal/capability/accounting.go and accounting_invoice_ops.go): minor
  units per currency, decimal exchange rates as reduced fractions, conversion to the base
  currency, invoice line amounts with exclusive, inclusive and manual tax, and the
  revenue share of a credit note. The \<^verbatim>\<open>big.Int\<close> values of the source are \<^typ>\<open>int\<close>.
\<close>

section \<open>Currencies\<close>

text \<open>
  \<^verbatim>\<open>strings.ToUpper\<close> as far as the caller can see it: besides the ASCII letters, the two
  characters whose upper case is an ASCII letter are U+0131 and U+017F; every other
  non-ASCII character stays non-ASCII, and the caller then refuses the code.
\<close>

fun to_upper :: "string \<Rightarrow> string" where
  "to_upper [] = []"
| "to_upper (c # s) =
     (if CHR ''a'' \<le> c \<and> c \<le> CHR ''z'' then char_of (of_char c - (32::nat)) # to_upper s
      else if c = CHR 0xC4 \<and> take 1 s = [CHR 0xB1] then CHR ''I'' # to_upper (drop 1 s)
      else if c = CHR 0xC5 \<and> take 1 s = [CHR 0xBF] then CHR ''S'' # to_upper (drop 1 s)
      else c # to_upper s)"

definition currencyMinorUnits :: "string \<Rightarrow> int option" where
  "currencyMinorUnits currency =
     (let upper = to_upper currency
      in if length upper \<noteq> 3 then None
         else if \<not> list_all (\<lambda>c. CHR ''A'' \<le> c \<and> c \<le> CHR ''Z'') upper then None
         else if upper \<in> set [''JPY'', ''KRW'', ''VND'', ''CLP'', ''ISK'', ''UGX''] then Some 0
         else if upper \<in> set [''BHD'', ''JOD'', ''KWD'', ''OMR'', ''TND'', ''IQD'', ''LYD''] then Some 3
         else Some 2)"

definition validInvoiceCurrency :: "string \<Rightarrow> bool" where
  "validInvoiceCurrency currency \<longleftrightarrow> currencyMinorUnits currency \<noteq> None"

section \<open>Exchange rates\<close>

record fxRateSnapshot =
  Num :: int
  Den :: int

definition digits_value :: "string \<Rightarrow> int" where
  "digits_value s = foldl (\<lambda>n c. 10 * n + (int (of_char c) - 48)) 0 s"

definition int_digits :: "string \<Rightarrow> string" where
  "int_digits value = takeWhile (\<lambda>c. c \<noteq> CHR ''.'') value"

definition frac_digits :: "string \<Rightarrow> string" where
  "frac_digits value = drop 1 (dropWhile (\<lambda>c. c \<noteq> CHR ''.'') value)"

text \<open>The regular expression \<^verbatim>\<open>^\d{1,9}(\.\d{1,12})?$\<close>.\<close>

definition fxRateDecimalPattern :: "string \<Rightarrow> bool" where
  "fxRateDecimalPattern value \<longleftrightarrow>
     list_all is_digit (int_digits value) \<and> 1 \<le> length (int_digits value) \<and> length (int_digits value) \<le> 9 \<and>
     (dropWhile (\<lambda>c. c \<noteq> CHR ''.'') value = [] \<or>
      list_all is_digit (frac_digits value) \<and> 1 \<le> length (frac_digits value) \<and> length (frac_digits value) \<le> 12)"

definition parseFXRateDecimal :: "string \<Rightarrow> fxRateSnapshot result" where
  "parseFXRateDecimal input =
     (let value = trim_space input
      in if \<not> fxRateDecimalPattern value then Inl ''invalid rate; use a positive decimal like 1.0875''
         else let fraction = frac_digits value;
                  denominator = 10 ^ length fraction;
                  numerator = digits_value (int_digits value @ fraction)
              in if numerator \<le> 0 then Inl ''invalid rate; use a positive decimal like 1.0875''
                 else let g = gcd numerator denominator;
                          n = go_quo numerator g; d = go_quo denominator g
                      in if maxSafeInteger < n \<or> maxSafeInteger < d
                         then Inl ''FX rate exceeds the supported integer range''
                         else Inr \<lparr>Num = n, Den = d\<rparr>)"

definition toBaseMinorExact :: "int \<Rightarrow> fxRateSnapshot \<Rightarrow> string \<Rightarrow> string \<Rightarrow> int result" where
  "toBaseMinorExact foreignMinor rate quoteCurrency baseCurrency =
     (case (currencyMinorUnits quoteCurrency, currencyMinorUnits baseCurrency) of
        (Some quoteUnits, Some baseUnits) \<Rightarrow>
          if foreignMinor < 0 \<or> maxSafeInteger < foreignMinor \<or> Num rate \<le> 0 \<or> Den rate \<le> 0 \<or>
             maxSafeInteger < Num rate \<or> maxSafeInteger < Den rate
          then Inl ''amounts must be safe integers and FX rates must be positive safe integer ratios''
          else let numerator = foreignMinor * Num rate * 10 ^ nat baseUnits;
                   denominator = Den rate * 10 ^ nat quoteUnits;
                   quotient = go_quo numerator denominator;
                   remainder = go_rem numerator denominator;
                   rounded = (if denominator \<le> remainder * 2 then quotient + 1 else quotient)
               in if maxSafeInteger < rounded then Inl ''FX result exceeds the supported amount range''
                  else Inr rounded
      | _ \<Rightarrow> Inl ''unknown currency code for FX conversion'')"

section \<open>Invoice lines\<close>

definition roundedQuotient :: "int \<Rightarrow> int \<Rightarrow> int" where
  "roundedQuotient numerator denominator = go_quo (numerator + go_quo denominator 2) denominator"

text \<open>The result is net, tax and gross.\<close>

definition calculateInvoiceLine ::
  "int \<Rightarrow> int \<Rightarrow> int option \<Rightarrow> bool \<Rightarrow> int option \<Rightarrow> (int \<times> int \<times> int) result" where
  "calculateInvoiceLine quantity unitPrice rateBasisPoints priceIncludesTax manualTax =
     (if quantity \<le> 0 \<or> maxSafeInteger < quantity then Inl ''quantity must be positive thousandths''
      else if unitPrice < 0 \<or> maxSafeInteger < unitPrice
      then Inl ''unit price must be a non-negative safe integer''
      else
        let grossOrNet = roundedQuotient (quantity * unitPrice) 1000
        in if maxSafeInteger < grossOrNet then Inl ''line amount exceeds the supported amount range''
           else case rateBasisPoints of
             None \<Rightarrow>
               (let tax = (case manualTax of None \<Rightarrow> 0 | Some t \<Rightarrow> t)
                in if tax < 0 \<or> maxSafeInteger < tax then Inl ''taxMinor must be a non-negative safe integer''
                   else let gross = i64 (grossOrNet + tax)
                        in if maxSafeInteger < gross then Inl ''line total exceeds the supported amount range''
                           else Inr (grossOrNet, tax, gross))
           | Some rate \<Rightarrow>
               if rate < 0 then Inl ''tax rate must be non-negative basis points''
               else if priceIncludesTax then
                 (let denominator = i64 (10000 + rate);
                      net = go_quo (grossOrNet * 20000 + denominator) (denominator * 2)
                  in if maxSafeInteger < net then Inl ''line amount exceeds the supported amount range''
                     else Inr (net, grossOrNet - net, grossOrNet))
               else
                 (let tax = go_quo (grossOrNet * rate + 5000) 10000
                  in if maxSafeInteger < tax then Inl ''tax amount exceeds the supported amount range''
                     else let gross = grossOrNet + tax
                          in if maxSafeInteger < gross then Inl ''line total exceeds the supported amount range''
                             else Inr (grossOrNet, tax, gross)))"

definition creditNoteRevenueShare :: "int \<Rightarrow> int \<Rightarrow> int \<Rightarrow> int" where
  "creditNoteRevenueShare amountMinor totalMinor taxMinor =
     go_quo (amountMinor * (totalMinor - taxMinor) + go_quo totalMinor 2) totalMinor"

section \<open>Amounts of sales and purchase orders\<close>

definition inventorySafeInteger :: "int \<Rightarrow> bool" where
  "inventorySafeInteger value \<longleftrightarrow> - maxSafeInteger \<le> value \<and> value \<le> maxSafeInteger"

definition inventoryAddSafeIntegers :: "int \<Rightarrow> int \<Rightarrow> int result" where
  "inventoryAddSafeIntegers left right =
     (if \<not> inventorySafeInteger left \<or> \<not> inventorySafeInteger right \<or>
         0 < right \<and> maxSafeInteger - right < left \<or> right < 0 \<and> left < - maxSafeInteger - right
      then Inl ''inventory valuation exceeds the supported amount range''
      else Inr (left + right))"

definition inventoryJsRoundProductDiv :: "int \<Rightarrow> int \<Rightarrow> int \<Rightarrow> int result" where
  "inventoryJsRoundProductDiv left right denominator =
     (if denominator \<le> 0 \<or> \<not> inventorySafeInteger left \<or> \<not> inventorySafeInteger right
      then Inl ''inventory valuation exceeds the supported amount range''
      else let numerator = left * right * 2 + denominator;
               divisor = denominator * 2;
               quotient = go_quo numerator divisor;
               rounded = (if numerator < 0 \<and> go_rem numerator divisor \<noteq> 0 then quotient - 1 else quotient)
           in if \<not> inventorySafeInteger rounded then Inl ''inventory valuation exceeds the supported amount range''
              else Inr rounded)"

record posSaleLineInput =
  ps_description :: string
  ps_quantity :: int
  ps_unitPriceMinor :: int
  ps_taxMinor :: int
  ps_sku :: "string option"

definition pos_line_totals :: "int \<times> int \<Rightarrow> posSaleLineInput \<Rightarrow> (int \<times> int) result" where
  "pos_line_totals st line =
     (case st of (subtotal, tax) \<Rightarrow>
        if ps_quantity line \<le> 0 \<or> maxSafeInteger < ps_quantity line then Inl ''invalid quantity''
        else if ps_unitPriceMinor line < 0 \<or> maxSafeInteger < ps_unitPriceMinor line then Inl ''invalid unit price''
        else if ps_taxMinor line < 0 \<or> maxSafeInteger < ps_taxMinor line then Inl ''invalid tax''
        else Inr (subtotal + go_quo (ps_quantity line * ps_unitPriceMinor line + 500) 1000, tax + ps_taxMinor line))"

text \<open>Subtotal, tax and total.\<close>

definition posComputeSaleTotals :: "posSaleLineInput list \<Rightarrow> (int \<times> int \<times> int) result" where
  "posComputeSaleTotals lines =
     bind_result (fold_result pos_line_totals (0, 0) lines) (\<lambda>(subtotal, tax).
       let total = subtotal + tax
       in if total \<le> 0 then Inl ''invoice must have a non-zero total''
          else if maxSafeInteger < subtotal \<or> maxSafeInteger < tax \<or> maxSafeInteger < total
          then Inl ''invoice total exceeds the supported amount range''
          else Inr (subtotal, tax, total))"

record createPurchaseOrderLineInput =
  pol_quantity :: int
  pol_unitPriceMinor :: int

definition add_commitment :: "int \<Rightarrow> createPurchaseOrderLineInput \<Rightarrow> int result" where
  "add_commitment acc line =
     bind_result (inventoryJsRoundProductDiv (pol_quantity line) (pol_unitPriceMinor line) 1000)
       (inventoryAddSafeIntegers acc)"

text \<open>The amount, or \<open>None\<close> when it is unknown.\<close>

definition purchaseOrderCommitmentMinor :: "createPurchaseOrderLineInput list \<Rightarrow> int option" where
  "purchaseOrderCommitmentMinor lines =
     (case fold_result add_commitment 0 lines of Inl _ \<Rightarrow> None | Inr t \<Rightarrow> Some t)"

section \<open>Rounding lemmas\<close>

text \<open>\<open>q\<close> is a nearest integer to \<open>n / d\<close>, ties upwards.\<close>

definition nearest :: "int \<Rightarrow> int \<Rightarrow> int \<Rightarrow> bool" where
  "nearest n d q \<longleftrightarrow> - d < 2 * (q * d - n) \<and> 2 * (q * d - n) \<le> d"

lemma nearest_unique:
  assumes "0 < d" and "nearest n d q" and "nearest n d q'"
  shows "q = q'"
proof (rule ccontr)
  assume "q \<noteq> q'"
  then consider "q + 1 \<le> q'" | "q' + 1 \<le> q" by linarith
  then show False
  proof cases
    case 1
    then have "(q + 1) * d \<le> q' * d" using assms(1) by (intro mult_right_mono) auto
    with assms show False by (simp add: nearest_def algebra_simps)
  next
    case 2
    then have "(q' + 1) * d \<le> q * d" using assms(1) by (intro mult_right_mono) auto
    with assms show False by (simp add: nearest_def algebra_simps)
  qed
qed

lemma nearest_remainder:
  fixes n d :: int
  assumes "0 < d" and "0 \<le> n"
  shows "nearest n d (if d \<le> (n mod d) * 2 then n div d + 1 else n div d)"
proof -
  have aux: "nearest (d * q + r) d (if d \<le> r * 2 then q + 1 else q)" if "0 \<le> r" "r < d" for q r
    using that by (auto simp: nearest_def algebra_simps)
  have "0 \<le> n mod d" and "n mod d < d" using assms by simp_all
  from aux [OF this, of "n div d"] show ?thesis by simp
qed

lemma nearest_even_denominator:
  fixes n d :: int
  assumes "0 < d"
  shows "nearest n (2 * d) ((n + d) div (2 * d))"
proof -
  have aux: "nearest (2 * d * q + r - d) (2 * d) q" if "0 \<le> r" "r < 2 * d" for q r
    using that by (auto simp: nearest_def algebra_simps)
  have "0 \<le> (n + d) mod (2 * d)" and "(n + d) mod (2 * d) < 2 * d" using assms by simp_all
  from aux [OF this, of "(n + d) div (2 * d)"] show ?thesis by simp
qed

lemma nearest_bounds:
  assumes "0 < d" and "nearest n d q" and "0 \<le> n" and "n \<le> k * d"
  shows "0 \<le> q" and "q \<le> k"
proof -
  show "0 \<le> q"
  proof (rule ccontr)
    assume "\<not> 0 \<le> q"
    then have "q * d \<le> (-1) * d" using assms(1) by (intro mult_right_mono) auto
    with assms show False by (simp add: nearest_def)
  qed
  show "q \<le> k"
  proof (rule ccontr)
    assume "\<not> q \<le> k"
    then have "(k + 1) * d \<le> q * d" using assms(1) by (intro mult_right_mono) auto
    with assms show False by (simp add: nearest_def algebra_simps)
  qed
qed

lemma roundedQuotient_1000:
  "0 \<le> n \<Longrightarrow> nearest n 1000 (roundedQuotient n 1000) \<and> 0 \<le> roundedQuotient n 1000"
  using nearest_even_denominator [of 500 n]
  by (simp add: roundedQuotient_def go_quo_nonneg pos_imp_zdiv_nonneg_iff)


lemma nearest_half_up:
  fixes n d :: int
  assumes "0 < d"
  shows "nearest n d ((2 * n + d) div (2 * d))"
proof -
  have aux: "nearest n d q" if "2 * (q * d) + r = 2 * n + d" "0 \<le> r" "r < 2 * d" for q r
    unfolding nearest_def using that by (auto simp: algebra_simps)
  show ?thesis
    using div_mult_mod_eq [of "2 * n + d" "2 * d"] assms
    by (intro aux [where r = "(2 * n + d) mod (2 * d)"]) (simp_all add: ac_simps)
qed

lemma nearest_floor_half:
  fixes n d :: int
  assumes "0 < d"
  shows "nearest n d ((n + d div 2) div d)"
proof -
  have aux: "nearest n d q" if "q * d + r = n + h" "0 \<le> r" "r < d" "d = 2 * h \<or> d = 2 * h + 1" for q r h
    unfolding nearest_def using that by (auto simp: algebra_simps)
  have half: "d = 2 * (d div 2) \<or> d = 2 * (d div 2) + 1" by linarith
  show ?thesis
    by (rule aux [where r = "(n + d div 2) mod d" and h = "d div 2", OF div_mult_mod_eq _ _ half])
      (use assms in simp_all)
qed

lemma nearest_exact: "0 < d \<Longrightarrow> nearest (k * d) d k"
  by (simp add: nearest_def)

lemma digits_value_append_one: "digits_value (s @ [c]) = 10 * digits_value s + (int (of_char c) - 48)"
  by (simp add: digits_value_def)

lemma digits_value_append:
  "digits_value (s @ t) = digits_value s * 10 ^ length t + digits_value t"
proof (induction t rule: rev_induct)
  case (snoc c t)
  have "digits_value (s @ t @ [c]) = 10 * digits_value (s @ t) + (int (of_char c) - 48)"
    using digits_value_append_one [of "s @ t"] by simp
  with snoc show ?case by (simp add: digits_value_append_one algebra_simps)
qed (simp add: digits_value_def)

section \<open>Invoice line lemmas\<close>

lemma calculateInvoiceLine_spec:
  assumes "calculateInvoiceLine quantity unitPrice rate incl manual = Inr (net, tax, gross)"
    and "\<And>r. rate = Some r \<Longrightarrow> r \<le> maxDatabaseInteger"
  shows "net + tax = gross \<and> 0 \<le> net \<and> 0 \<le> tax \<and> gross \<le> maxSafeInteger \<and>
         nearest (quantity * unitPrice) 1000 (if incl \<and> rate \<noteq> None then gross else net) \<and>
         (case rate of
            None \<Rightarrow> tax = (case manual of None \<Rightarrow> 0 | Some t \<Rightarrow> t)
          | Some r \<Rightarrow> if incl then nearest (gross * 10000) (10000 + r) net
                      else nearest (net * r) 10000 tax)"
proof -
  let ?g = "roundedQuotient (quantity * unitPrice) 1000"
  note calc = assms(1)[unfolded calculateInvoiceLine_def Let_def]
  from calc have "0 < quantity" and "0 \<le> unitPrice" by (auto split: if_splits)
  then have g: "nearest (quantity * unitPrice) 1000 ?g" "0 \<le> ?g"
    using roundedQuotient_1000 [of "quantity * unitPrice"] by simp_all
  from calc have gmax: "?g \<le> maxSafeInteger" by (auto split: if_splits)
  show ?thesis
  proof (cases rate)
    case None
    let ?t = "case manual of None \<Rightarrow> 0 | Some t \<Rightarrow> t"
    from calc None have t: "0 \<le> ?t" "?t \<le> maxSafeInteger" and r: "net = ?g" "tax = ?t" "gross = i64 (?g + ?t)"
      "gross \<le> maxSafeInteger" by (auto split: if_splits)
    have "in_i64 (?g + ?t)" using g(2) gmax t by (simp add: in_i64_def int_limits)
    with r g t None show ?thesis by (simp add: i64_id)
  next
    case (Some r)
    then have rmax: "r \<le> maxDatabaseInteger" using assms(2) by blast
    from calc Some have r0: "0 \<le> r" by (auto split: if_splits)
    show ?thesis
    proof (cases incl)
      case True
      have d: "i64 (10000 + r) = 10000 + r" using r0 rmax by (intro i64_id) (simp add: in_i64_def int_limits)
      let ?n = "go_quo (?g * 20000 + (10000 + r)) ((10000 + r) * 2)"
      have "?n = (2 * (?g * 10000) + (10000 + r)) div (2 * (10000 + r))"
        using g(2) r0 by (simp add: go_quo_nonneg mult.commute)
      then have near: "nearest (?g * 10000) (10000 + r) ?n"
        using nearest_half_up [of "10000 + r" "?g * 10000"] r0 by simp
      have "?g * 10000 \<le> ?g * (10000 + r)" using g(2) r0 by (intro mult_left_mono) auto
      with nearest_bounds [OF _ near, of ?g] g(2) r0 have "0 \<le> ?n" "?n \<le> ?g" by auto
      moreover from calc Some True d have "net = ?n" "tax = ?g - ?n" "gross = ?g"
        by (auto split: if_splits)
      ultimately show ?thesis using near g gmax Some True by simp
    next
      case False
      let ?t = "go_quo (?g * r + 5000) 10000"
      have "?t = (?g * r + 5000) div (2 * 5000)" using g(2) r0 by (simp add: go_quo_nonneg)
      then have near: "nearest (?g * r) 10000 ?t"
        using nearest_even_denominator [of 5000 "?g * r"] by simp
      have "0 \<le> ?t" using g(2) r0 by (simp add: go_quo_nonneg pos_imp_zdiv_nonneg_iff)
      moreover from calc Some False have "net = ?g" "tax = ?t" "gross = ?g + ?t" "gross \<le> maxSafeInteger"
        by (auto split: if_splits)
      ultimately show ?thesis using near g Some False by simp
    qed
  qed
qed

section \<open>Properties\<close>

text \<open>
  C21: a computed invoice line splits exactly: net and tax are non-negative and add up to
  a gross amount in the safe range; quantity (thousandths) times unit price is rounded
  half up; a tax on top is the rounded share of the net, and an included tax leaves the
  net amount nearest to gross * 10000 / (10000 + rate).
\<close>

theorem invoice_line_amounts:
  assumes "calculateInvoiceLine quantity unitPrice rate incl manual = Inr (net, tax, gross)"
    and "\<And>r. rate = Some r \<Longrightarrow> r \<le> maxDatabaseInteger"
  shows "net + tax = gross \<and> 0 \<le> net \<and> 0 \<le> tax \<and> gross \<le> maxSafeInteger \<and>
         nearest (quantity * unitPrice) 1000 (if incl \<and> rate \<noteq> None then gross else net) \<and>
         (case rate of
            None \<Rightarrow> tax = (case manual of None \<Rightarrow> 0 | Some t \<Rightarrow> t)
          | Some r \<Rightarrow> if incl then nearest (gross * 10000) (10000 + r) net
                      else nearest (net * r) 10000 tax)"
  using assms by (rule calculateInvoiceLine_spec)

theorem invoice_line_amounts_witness:
  "calculateInvoiceLine 1500 1199 (Some 1800) True None = Inr (1525, 274, 1799) \<and>
   (1525::int) + 274 = 1799 \<and> nearest (1799 * 10000) (10000 + 1800) 1525"
proof -
  have calc: "calculateInvoiceLine 1500 1199 (Some 1800) True None = Inr (1525, 274, 1799)" by code_simp
  have r: "\<And>r. Some 1800 = Some r \<Longrightarrow> r \<le> maxDatabaseInteger" by (simp add: int_limits)
  show ?thesis using invoice_line_amounts [OF calc r] calc by simp
qed

text \<open>
  C15: a decimal rate that parses is the exact value of its digits as a reduced positive
  fraction: numerator and denominator are coprime and in the safe range.
\<close>

theorem fx_rate_exact:
  assumes "parseFXRateDecimal input = Inr rate"
  shows "0 < Num rate \<and> 0 < Den rate \<and> coprime (Num rate) (Den rate) \<and>
         Num rate \<le> maxSafeInteger \<and> Den rate \<le> maxSafeInteger \<and>
         Num rate * 10 ^ length (frac_digits (trim_space input)) =
           (digits_value (int_digits (trim_space input)) * 10 ^ length (frac_digits (trim_space input))
            + digits_value (frac_digits (trim_space input))) * Den rate"
proof -
  define f where "f = frac_digits (trim_space input)"
  define n where "n = digits_value (int_digits (trim_space input) @ f)"
  define d :: int where "d = 10 ^ length f"
  define g where "g = gcd n d"
  have d0: "0 < d" by (simp add: d_def)
  from assms have n0: "0 < n" and rate: "Num rate = go_quo n g" "Den rate = go_quo d g"
    and small: "Num rate \<le> maxSafeInteger" "Den rate \<le> maxSafeInteger"
    by (auto simp: parseFXRateDecimal_def Let_def f_def n_def d_def g_def split: if_splits)
  have g0: "0 < g" using d0 by (simp add: g_def)
  have gn: "g * (n div g) = n" and gd: "g * (d div g) = d" by (simp_all add: g_def)
  have q: "Num rate = n div g" "Den rate = d div g" using n0 d0 g0 rate by (simp_all add: go_quo_nonneg)
  have pos: "0 < n div g" "0 < d div g"
    using n0 d0 g0 gn gd by (auto simp: pos_imp_zdiv_pos_iff zdvd_imp_le g_def)
  have cop: "coprime (n div g) (d div g)"
    unfolding g_def using d0 by (intro div_gcd_coprime) auto
  have "(n div g) * d = n * (d div g)"
    using gn gd by (metis mult.assoc mult.commute)
  then have "Num rate * d = n * Den rate" using q by simp
  then show ?thesis
    using q pos cop small by (simp add: n_def d_def digits_value_append f_def)
qed

theorem fx_rate_exact_witness:
  "parseFXRateDecimal '' 1.0875 '' = Inr \<lparr>Num = 87, Den = 80\<rparr> \<and> coprime (87::int) 80"
proof -
  have p: "parseFXRateDecimal '' 1.0875 '' = Inr \<lparr>Num = 87, Den = 80\<rparr>" by code_simp
  show ?thesis using fx_rate_exact [OF p] p by simp
qed

text \<open>
  C22: conversion to the base currency is exact rational arithmetic followed by one
  rounding: the result is the nearest integer, ties upwards, to the foreign amount times
  the rate rescaled between the two currencies' minor units, and it is a safe integer.
\<close>

theorem fx_conversion_nearest:
  assumes "toBaseMinorExact foreign rate quote base = Inr result"
    and "currencyMinorUnits quote = Some q" and "currencyMinorUnits base = Some b"
  shows "nearest (foreign * Num rate * 10 ^ nat b) (Den rate * 10 ^ nat q) result \<and>
         0 \<le> result \<and> result \<le> maxSafeInteger"
proof -
  define n where "n = foreign * Num rate * 10 ^ nat b"
  define d where "d = Den rate * 10 ^ nat q"
  have n0: "0 \<le> n" and d0: "0 < d" and res: "result = (if d \<le> (n mod d) * 2 then n div d + 1 else n div d)"
    and small: "result \<le> maxSafeInteger"
    using assms
    by (auto simp: toBaseMinorExact_def Let_def n_def d_def go_quo_nonneg go_rem_nonneg not_less
        split: if_splits)
  have "nearest n d result" unfolding res by (rule nearest_remainder [OF d0 n0])
  moreover have "0 \<le> result" using n0 d0 by (simp add: res pos_imp_zdiv_nonneg_iff)
  ultimately show ?thesis using small by (simp add: n_def d_def)
qed

theorem fx_conversion_nearest_witness:
  "toBaseMinorExact 1050 \<lparr>Num = 87, Den = 80\<rparr> ''EUR'' ''UGX'' = Inr 11 \<and>
   nearest (1050 * 87 * 10 ^ nat 0) (80 * 10 ^ nat 2) 11"
proof -
  have c: "toBaseMinorExact 1050 \<lparr>Num = 87, Den = 80\<rparr> ''EUR'' ''UGX'' = Inr 11" by code_simp
  have q: "currencyMinorUnits ''EUR'' = Some 2" and b: "currencyMinorUnits ''UGX'' = Some 0" by code_simp+
  show ?thesis using fx_conversion_nearest [OF c q b] c by simp
qed

text \<open>
  C17: the revenue leg of a credit note lies between zero and the credited amount and is
  the rounded pro-rata share, so the tax leg (the rest) is never negative; crediting the
  whole document gives back exactly its net amount.
\<close>

theorem credit_note_share:
  assumes "0 \<le> amount" and "0 \<le> tax" and "tax \<le> totalMinor" and "0 < totalMinor"
  shows "0 \<le> creditNoteRevenueShare amount totalMinor tax \<and>
         creditNoteRevenueShare amount totalMinor tax \<le> amount \<and>
         nearest (amount * (totalMinor - tax)) totalMinor (creditNoteRevenueShare amount totalMinor tax) \<and>
         creditNoteRevenueShare totalMinor totalMinor tax = totalMinor - tax"
proof -
  have share: "nearest (a * (totalMinor - tax)) totalMinor (creditNoteRevenueShare a totalMinor tax)" if "0 \<le> a" for a
  proof -
    have "0 \<le> a * (totalMinor - tax)" using that assms(3) by simp
    then have "creditNoteRevenueShare a totalMinor tax = (a * (totalMinor - tax) + totalMinor div 2) div totalMinor"
      using assms(4) by (simp add: creditNoteRevenueShare_def go_quo_nonneg)
    then show ?thesis using nearest_floor_half [OF assms(4)] by simp
  qed
  have "amount * (totalMinor - tax) \<le> amount * totalMinor" using assms by (intro mult_left_mono) auto
  moreover have "0 \<le> amount * (totalMinor - tax)" using assms by simp
  ultimately have "0 \<le> creditNoteRevenueShare amount totalMinor tax" "creditNoteRevenueShare amount totalMinor tax \<le> amount"
    using nearest_bounds [OF assms(4) share [OF assms(1)]] by simp_all
  moreover have "creditNoteRevenueShare totalMinor totalMinor tax = totalMinor - tax"
  proof (rule nearest_unique [OF assms(4)])
    show "nearest (totalMinor * (totalMinor - tax)) totalMinor (creditNoteRevenueShare totalMinor totalMinor tax)"
      using assms(4) by (intro share) simp
    show "nearest (totalMinor * (totalMinor - tax)) totalMinor (totalMinor - tax)"
      using nearest_exact [OF assms(4), of "totalMinor - tax"] by (simp add: mult.commute)
  qed
  ultimately show ?thesis using share [OF assms(1)] by simp
qed

theorem credit_note_share_witness:
  "creditNoteRevenueShare 500 1180 180 = 424 \<and> (0::int) \<le> 424 \<and>
   nearest (500 * (1180 - 180)) 1180 424"
proof -
  have c: "creditNoteRevenueShare 500 1180 180 = 424" by code_simp
  have "0 \<le> (500::int)" "0 \<le> (180::int)" "(180::int) \<le> 1180" "0 < (1180::int)" by simp_all
  from credit_note_share [OF this] c show ?thesis by simp
qed

end
