(* ===== verification/Journal.thy ===== *)
theory Journal
  imports Money
begin

text \<open>
  The double-entry journal (src/apps/api/internal/capability/accounting.go,
  accounting_invoice_ops.go and accounting_period_close.go): the posting door
  \<^verbatim>\<open>postJournalEntry\<close> with the period lock, the trial balance, the reversal of an entry,
  and the year-end close. The tables are lists of rows in insertion order. A value of the
  database's \<^verbatim>\<open>gen_random_uuid()\<close> is drawn from the argument \<open>gen\<close>, the number of values
  drawn so far being part of the state.
\<close>

section \<open>Tables\<close>

record account_row =
  acc_id :: string
  acc_orgID :: string
  acc_code :: string
  acc_name :: string
  acc_type :: string
  acc_archived :: bool

record journal_entry =
  je_id :: string
  je_orgID :: string
  je_memo :: string
  je_sourceType :: string
  je_sourceID :: "string option"
  je_reversalOfID :: "string option"
  je_currency :: string
  je_entryKind :: string
  je_businessAt :: "int option"
  je_postedAt :: int
  je_actorType :: string
  je_actorID :: "string option"

record journal_line =
  jl_id :: string
  jl_entryID :: string
  jl_accountID :: string
  jl_debitMinor :: int
  jl_creditMinor :: int

record books =
  accounts :: "account_row list"
  journal_entries :: "journal_entry list"
  journal_lines :: "journal_line list"
  periods :: "(string \<times> int \<times> int) list" \<comment> \<open>organization, year, month of the closed periods\<close>
  uuid_draws :: nat

type_synonym uuid_source = "nat \<Rightarrow> string"

section \<open>The posting door\<close>

record journalEntryLineInput =
  pl_accountCode :: string
  pl_debitMinor :: int
  pl_creditMinor :: int

record postJournalEntryInput =
  pj_orgID :: string
  pj_memo :: string
  pj_sourceType :: string
  pj_sourceID :: "string option"
  pj_reversalOfID :: "string option"
  pj_currency :: string
  pj_entryKind :: string
  pj_businessAt :: "int option"
  pj_postedAt :: int
  pj_actorType :: string
  pj_actorID :: "string option"
  pj_lines :: "journalEntryLineInput list"

definition debit_line :: "string \<Rightarrow> int \<Rightarrow> journalEntryLineInput" where
  "debit_line code amount = \<lparr>pl_accountCode = code, pl_debitMinor = amount, pl_creditMinor = 0\<rparr>"

definition credit_line :: "string \<Rightarrow> int \<Rightarrow> journalEntryLineInput" where
  "credit_line code amount = \<lparr>pl_accountCode = code, pl_debitMinor = 0, pl_creditMinor = amount\<rparr>"

definition zero_time :: int where "zero_time = - 62135596800000"

definition pad2 :: "int \<Rightarrow> string" where
  "pad2 n = (if 0 \<le> n \<and> n < 10 then CHR ''0'' # show_int n else show_int n)"

definition lockAccountingPeriod :: "string \<Rightarrow> int \<Rightarrow> 'a books_scheme \<Rightarrow> unit result" where
  "lockAccountingPeriod orgID at db =
     (if (orgID, utc_year at, utc_month at) \<in> set (periods db)
      then Inl (''period '' @ show_int (utc_year at) @ ''-'' @ pad2 (utc_month at)
                @ '' is closed; post to the current period or reopen it'')
      else Inr ())"

definition check_reversal :: "string \<Rightarrow> string option \<Rightarrow> 'a books_scheme \<Rightarrow> unit result" where
  "check_reversal orgID reversalOfID db =
     (case reversalOfID of
        None \<Rightarrow> Inr ()
      | Some original \<Rightarrow>
          if \<not> list_ex (\<lambda>e. je_id e = original \<and> je_orgID e = orgID) (journal_entries db)
          then Inl ''journal entry to reverse was not found''
          else if list_ex (\<lambda>e. je_reversalOfID e = Some original \<and> je_orgID e = orgID) (journal_entries db)
          then Inl ''journal entry has already been reversed''
          else Inr ())"

text \<open>One turn of the loop over the posting lines: totals so far and the account codes in order.\<close>

definition check_line ::
  "int \<times> int \<times> string list \<Rightarrow> journalEntryLineInput \<Rightarrow> (int \<times> int \<times> string list) result" where
  "check_line st line =
     (case st of (debits, credits, codes) \<Rightarrow>
        if pl_accountCode line = [] \<or> pl_debitMinor line < 0 \<or> pl_creditMinor line < 0 \<or>
           pl_debitMinor line \<noteq> 0 \<and> pl_creditMinor line \<noteq> 0 \<or>
           pl_debitMinor line = 0 \<and> pl_creditMinor line = 0
        then Inl ''journal posting line is invalid''
        else if maxDatabaseInteger < pl_debitMinor line \<or> maxDatabaseInteger < pl_creditMinor line
        then Inl ''journal posting amount exceeds the database integer range''
        else Inr (debits + pl_debitMinor line, credits + pl_creditMinor line,
                  if pl_accountCode line \<in> set codes then codes else codes @ [pl_accountCode line]))"

text \<open>
  The accounts the codes name, as the map the rows are read into: no account is the empty
  id, which is how the source reads a missing key.
\<close>

definition account_row_step ::
  "(string \<Rightarrow> string) \<Rightarrow> account_row \<Rightarrow> (string \<Rightarrow> string) result" where
  "account_row_step ids a =
     (if acc_archived a then Inl (''account '' @ acc_code a @ '' is archived; reopen it before posting'')
      else Inr (ids(acc_code a := acc_id a)))"

definition account_ids :: "'a books_scheme \<Rightarrow> string \<Rightarrow> string list \<Rightarrow> (string \<Rightarrow> string) result" where
  "account_ids db orgID codes =
     fold_result account_row_step (\<lambda>_. [])
       (filter (\<lambda>a. acc_orgID a = orgID \<and> acc_code a \<in> set codes) (accounts db))"

definition posted_entry :: "string \<Rightarrow> string \<Rightarrow> postJournalEntryInput \<Rightarrow> journal_entry" where
  "posted_entry entryID kind input =
     \<lparr>je_id = entryID, je_orgID = pj_orgID input, je_memo = pj_memo input,
      je_sourceType = pj_sourceType input, je_sourceID = pj_sourceID input,
      je_reversalOfID = pj_reversalOfID input, je_currency = pj_currency input, je_entryKind = kind,
      je_businessAt = pj_businessAt input, je_postedAt = pj_postedAt input,
      je_actorType = pj_actorType input, je_actorID = pj_actorID input\<rparr>"

fun posted_lines ::
  "uuid_source \<Rightarrow> nat \<Rightarrow> string \<Rightarrow> (string \<Rightarrow> string) \<Rightarrow> journalEntryLineInput list \<Rightarrow> journal_line list" where
  "posted_lines gen k entryID ids [] = []"
| "posted_lines gen k entryID ids (line # lines) =
     \<lparr>jl_id = gen k, jl_entryID = entryID, jl_accountID = ids (pl_accountCode line),
      jl_debitMinor = pl_debitMinor line, jl_creditMinor = pl_creditMinor line\<rparr>
     # posted_lines gen (Suc k) entryID ids lines"

definition entry_kind_of :: "postJournalEntryInput \<Rightarrow> string" where
  "entry_kind_of input = (if pj_entryKind input = [] then ''operational'' else pj_entryKind input)"

definition postJournalEntry ::
  "uuid_source \<Rightarrow> postJournalEntryInput \<Rightarrow> 'a books_scheme \<Rightarrow> (string \<times> 'a books_scheme) result" where
  "postJournalEntry gen input db =
     (if pj_orgID input = [] \<or> pj_actorType input = [] \<or> trim_space (pj_memo input) = [] \<or>
         trim_space (pj_sourceType input) = [] \<or> length (pj_lines input) < 2
      then Inl ''journal entry requires organization, actor, memo, source, and at least two lines''
      else if pj_postedAt input = zero_time then Inl ''journal entry postedAt is required''
      else if entry_kind_of input \<notin> set [''operational'', ''year_end_close'', ''correction'']
      then Inl ''journal entry kind is invalid''
      else
        bind_result (lockAccountingPeriod (pj_orgID input) (pj_postedAt input) db) (\<lambda>_.
        bind_result (check_reversal (pj_orgID input) (pj_reversalOfID input) db) (\<lambda>_.
        bind_result (fold_result check_line (0, 0, []) (pj_lines input)) (\<lambda>(debits, credits, codes).
          if debits \<le> 0 \<or> debits \<noteq> credits then Inl ''journal entry is not balanced''
          else bind_result (account_ids db (pj_orgID input) codes) (\<lambda>ids.
            case find (\<lambda>code. ids code = []) codes of
              Some code \<Rightarrow>
                Inl (''account '' @ code @ '' does not belong to this organization or does not exist'')
            | None \<Rightarrow>
                let entryID = gen (uuid_draws db)
                in Inr (entryID,
                     db\<lparr>journal_entries := journal_entries db @ [posted_entry entryID (entry_kind_of input) input],
                        journal_lines := journal_lines db
                          @ posted_lines gen (Suc (uuid_draws db)) entryID ids (pj_lines input),
                        uuid_draws := Suc (uuid_draws db) + length (pj_lines input)\<rparr>))))))"

section \<open>Trial balance\<close>

record trialBalanceLine =
  tb_code :: string
  tb_name :: string
  tb_currency :: string
  tb_debitMinor :: int
  tb_creditMinor :: int

text \<open>The rows of the join over accounts, lines and entries of one organization.\<close>

definition trial_rows :: "'a books_scheme \<Rightarrow> string \<Rightarrow> trialBalanceLine list" where
  "trial_rows db orgID =
     concat (map (\<lambda>a. concat (map (\<lambda>l. map (\<lambda>e.
         \<lparr>tb_code = acc_code a, tb_name = acc_name a, tb_currency = je_currency e,
          tb_debitMinor = jl_debitMinor l, tb_creditMinor = jl_creditMinor l\<rparr>)
       (filter (\<lambda>e. je_id e = jl_entryID l \<and> je_orgID e = orgID) (journal_entries db)))
       (filter (\<lambda>l. jl_accountID l = acc_id a) (journal_lines db))))
     (filter (\<lambda>a. acc_orgID a = orgID) (accounts db)))"

definition trial_key :: "trialBalanceLine \<Rightarrow> string \<times> string \<times> string" where
  "trial_key r = (tb_code r, tb_name r, tb_currency r)"

definition trial_group :: "trialBalanceLine list \<Rightarrow> string \<times> string \<times> string \<Rightarrow> trialBalanceLine" where
  "trial_group rows key =
     (case key of (code, name, currency) \<Rightarrow>
        \<lparr>tb_code = code, tb_name = name, tb_currency = currency,
         tb_debitMinor = sum_list (map tb_debitMinor (filter (\<lambda>r. trial_key r = key) rows)),
         tb_creditMinor = sum_list (map tb_creditMinor (filter (\<lambda>r. trial_key r = key) rows))\<rparr>)"

definition trial_groups :: "'a books_scheme \<Rightarrow> string \<Rightarrow> trialBalanceLine list" where
  "trial_groups db orgID =
     stable_sort (\<lambda>a b. tb_code a < tb_code b \<or> tb_code a = tb_code b \<and> tb_currency a < tb_currency b)
       (map (trial_group (trial_rows db orgID)) (remdups (map trial_key (trial_rows db orgID))))"

definition currency_debits :: "trialBalanceLine list \<Rightarrow> string \<Rightarrow> int" where
  "currency_debits rows currency = sum_list (map tb_debitMinor (filter (\<lambda>r. tb_currency r = currency) rows))"

definition currency_credits :: "trialBalanceLine list \<Rightarrow> string \<Rightarrow> int" where
  "currency_credits rows currency = sum_list (map tb_creditMinor (filter (\<lambda>r. tb_currency r = currency) rows))"

definition trialBalance :: "string \<Rightarrow> 'a books_scheme \<Rightarrow> (trialBalanceLine list \<times> bool) result" where
  "trialBalance orgID db =
     (let groups = trial_groups db orgID
      in if list_ex (\<lambda>g. tb_debitMinor g < 0 \<or> maxSafeInteger < tb_debitMinor g \<or>
                         tb_creditMinor g < 0 \<or> maxSafeInteger < tb_creditMinor g) groups
         then Inl ''trial balance exceeds the supported amount range''
         else Inr (groups, list_all (\<lambda>c. currency_debits groups c = currency_credits groups c)
                             (map tb_currency groups)))"

section \<open>Reversal\<close>

text \<open>The lines of an entry joined with their accounts' codes, by line id, sides swapped.\<close>

definition entry_line_rows :: "'a books_scheme \<Rightarrow> string \<Rightarrow> journal_line list" where
  "entry_line_rows db entryID =
     stable_sort (\<lambda>a b. jl_id a < jl_id b) (filter (\<lambda>l. jl_entryID l = entryID) (journal_lines db))"

definition mirror_lines :: "'a books_scheme \<Rightarrow> string \<Rightarrow> string \<Rightarrow> journalEntryLineInput list" where
  "mirror_lines db orgID entryID =
     concat (map (\<lambda>l. map (\<lambda>a. \<lparr>pl_accountCode = acc_code a, pl_debitMinor = jl_creditMinor l,
                                 pl_creditMinor = jl_debitMinor l\<rparr>)
         (filter (\<lambda>a. acc_id a = jl_accountID l \<and> acc_orgID a = orgID) (accounts db)))
       (entry_line_rows db entryID))"

definition reverseEntryDomainRoutes :: "(string \<times> string) list" where
  "reverseEntryDomainRoutes =
    [(''payment'', ''accounting.reversePayment on the payment''),
     (''vendor_payment'', ''purchasing.reverseVendorPayment on the vendor payment''),
     (''pos_sale'', ''pos.returnSale on the sale invoice''),
     (''payroll_run'', ''hr.reversePayrollPosting on the payroll run''),
     (''invoice'', ''accounting.creditNote against the invoice''),
     (''inventory-valuation'', ''inventory.reverseValuationSummary on the summary''),
     (''year_end_close'', ''accounting.closeYear (reopen December first): it replaces the closing entry'')]"

definition executeReverseEntry ::
  "uuid_source \<Rightarrow> string \<Rightarrow> string \<Rightarrow> string option \<Rightarrow> string \<Rightarrow> int \<Rightarrow> 'a books_scheme
   \<Rightarrow> (string \<times> 'a books_scheme) result" where
  "executeReverseEntry gen orgID actorType actorID entryID now db =
     (case find (\<lambda>e. je_id e = entryID \<and> je_orgID e = orgID) (journal_entries db) of
        None \<Rightarrow> Inl ''entry not found''
      | Some original \<Rightarrow>
          if je_sourceType original = ''reversal'' \<or> je_sourceType original = ''payment-reversal''
          then Inl ''cannot reverse a reversal''
          else if je_sourceType original = ''invoice_credit_note''
          then Inl ''an invoice credit note changes the invoice subledger and cannot be reversed with accounting.reverseEntry; issue a follow-up invoice to restore the receivable''
          else (case map_of reverseEntryDomainRoutes (je_sourceType original) of
            Some route \<Rightarrow>
              Inl (''a '' @ je_sourceType original @ '' entry is undone by its domain workflow: use '' @ route)
          | None \<Rightarrow>
            if je_entryKind original = ''year_end_close''
            then Inl ''a year-end closing entry is replaced by accounting.closeYear (reopen December first), not mirrored''
            else let lines = mirror_lines db orgID (je_id original)
                 in if length lines < 2 then Inl ''journal entry has no lines to reverse''
                    else postJournalEntry gen
                      \<lparr>pj_orgID = orgID, pj_memo = ''Reversal of: '' @ je_memo original,
                       pj_sourceType = ''reversal'', pj_sourceID = None,
                       pj_reversalOfID = Some (je_id original), pj_currency = je_currency original,
                       pj_entryKind = ''correction'', pj_businessAt = Some (je_postedAt original),
                       pj_postedAt = now, pj_actorType = actorType, pj_actorID = actorID,
                       pj_lines = lines\<rparr> db))"


section \<open>The posting door: lemmas\<close>

definition valid_line :: "journalEntryLineInput \<Rightarrow> bool" where
  "valid_line line \<longleftrightarrow>
     pl_accountCode line \<noteq> [] \<and> 0 \<le> pl_debitMinor line \<and> pl_debitMinor line \<le> maxDatabaseInteger \<and>
     0 \<le> pl_creditMinor line \<and> pl_creditMinor line \<le> maxDatabaseInteger \<and>
     (pl_debitMinor line = 0 \<longleftrightarrow> pl_creditMinor line \<noteq> 0)"

lemma check_line_Inr:
  "check_line (d, c, codes) line = Inr st \<longleftrightarrow>
     valid_line line \<and> st = (d + pl_debitMinor line, c + pl_creditMinor line,
       if pl_accountCode line \<in> set codes then codes else codes @ [pl_accountCode line])"
  by (auto simp: check_line_def valid_line_def)

lemma fold_check_line:
  "fold_result check_line (d, c, codes) lines = Inr (d', c', codes') \<Longrightarrow>
     d' = d + sum_list (map pl_debitMinor lines) \<and> c' = c + sum_list (map pl_creditMinor lines) \<and>
     set codes' = set codes \<union> pl_accountCode ` set lines \<and> (\<forall>line \<in> set lines. valid_line line)"
proof (induction lines arbitrary: d c codes)
  case (Cons line lines)
  from Cons.prems obtain st where "check_line (d, c, codes) line = Inr st"
    and rest: "fold_result check_line st lines = Inr (d', c', codes')" by auto
  then have v: "valid_line line" and st: "st = (d + pl_debitMinor line, c + pl_creditMinor line,
      if pl_accountCode line \<in> set codes then codes else codes @ [pl_accountCode line])"
    by (simp_all add: check_line_Inr)
  from Cons.IH [OF rest [unfolded st]] v show ?case by (auto split: if_splits)
qed simp

lemma fold_check_line_ok:
  "\<forall>line \<in> set lines. valid_line line \<Longrightarrow>
   \<exists>codes'. fold_result check_line (d, c, codes) lines =
     Inr (d + sum_list (map pl_debitMinor lines), c + sum_list (map pl_creditMinor lines), codes')"
proof (induction lines arbitrary: d c codes)
  case (Cons line lines)
  then show ?case by (simp add: check_line_Inr [THEN iffD2] add.assoc [symmetric])
qed simp

lemma account_row_step_Inr:
  "account_row_step ids a = Inr ids' \<longleftrightarrow> \<not> acc_archived a \<and> ids' = ids(acc_code a := acc_id a)"
  by (auto simp: account_row_step_def)

lemma fold_account_rows:
  "fold_result account_row_step ids rows = Inr ids' \<Longrightarrow>
     (\<forall>a \<in> set rows. \<not> acc_archived a) \<and>
     (ids' code = ids code \<or> (\<exists>a \<in> set rows. acc_code a = code \<and> ids' code = acc_id a))"
proof (induction rows arbitrary: ids)
  case (Cons a rows)
  from Cons.prems have "\<not> acc_archived a"
    and rest: "fold_result account_row_step (ids(acc_code a := acc_id a)) rows = Inr ids'"
    by (auto simp: account_row_step_Inr)
  with Cons.IH [OF rest] show ?case by (cases "acc_code a = code") auto
qed simp

lemma account_ids_sound:
  assumes "account_ids db orgID codes = Inr ids" and "ids code \<noteq> []"
  obtains a where "a \<in> set (accounts db)" and "acc_orgID a = orgID" and "acc_code a = code"
    and "acc_id a = ids code" and "\<not> acc_archived a"
  using fold_account_rows [OF assms(1)[unfolded account_ids_def], of code] assms(2) that by auto

lemma account_ids_unique:
  assumes "account_ids db orgID codes = Inr ids"
    and "distinct (map (\<lambda>a. (acc_orgID a, acc_code a)) (accounts db))"
    and "a \<in> set (accounts db)" and "acc_orgID a = orgID" and "acc_code a \<in> set codes"
    and "ids (acc_code a) \<noteq> []"
  shows "ids (acc_code a) = acc_id a"
proof -
  from assms(1,6) obtain b where b: "b \<in> set (accounts db)" "acc_orgID b = orgID"
    "acc_code b = acc_code a" "acc_id b = ids (acc_code a)" by (rule account_ids_sound)
  with assms(2-4) have "a = b" by (auto simp: distinct_map inj_on_def)
  with b show ?thesis by simp
qed

lemma posted_lines_sums [simp]:
  "sum_list (map jl_debitMinor (posted_lines gen k e ids lines)) = sum_list (map pl_debitMinor lines)"
  "sum_list (map jl_creditMinor (posted_lines gen k e ids lines)) = sum_list (map pl_creditMinor lines)"
  "length (posted_lines gen k e ids lines) = length lines"
  by (induction gen k e ids lines rule: posted_lines.induct) auto

lemma posted_lines_set:
  "l \<in> set (posted_lines gen k e ids lines) \<Longrightarrow>
     \<exists>line \<in> set lines. jl_entryID l = e \<and> jl_accountID l = ids (pl_accountCode line) \<and>
       jl_debitMinor l = pl_debitMinor line \<and> jl_creditMinor l = pl_creditMinor line"
  by (induction gen k e ids lines rule: posted_lines.induct) auto

lemma posted_lines_filter [simp]:
  "filter (\<lambda>l. jl_entryID l = e') (posted_lines gen k e ids lines) =
     (if e' = e then posted_lines gen k e ids lines else [])"
  by (induction gen k e ids lines rule: posted_lines.induct) auto

text \<open>What a successful posting means, in one elimination rule.\<close>

lemma post_Inr:
  assumes "postJournalEntry gen input db = Inr (entryID, db')"
  obtains ids where "entryID = gen (uuid_draws db)"
    and "db' = db\<lparr>journal_entries := journal_entries db @ [posted_entry entryID (entry_kind_of input) input],
                  journal_lines := journal_lines db
                    @ posted_lines gen (Suc (uuid_draws db)) entryID ids (pj_lines input),
                  uuid_draws := Suc (uuid_draws db) + length (pj_lines input)\<rparr>"
    and "(pj_orgID input, utc_year (pj_postedAt input), utc_month (pj_postedAt input)) \<notin> set (periods db)"
    and "check_reversal (pj_orgID input) (pj_reversalOfID input) db = Inr ()"
    and "\<forall>line \<in> set (pj_lines input). valid_line line"
    and "2 \<le> length (pj_lines input)"
    and "0 < sum_list (map pl_debitMinor (pj_lines input))"
    and "sum_list (map pl_debitMinor (pj_lines input)) = sum_list (map pl_creditMinor (pj_lines input))"
    and "\<forall>line \<in> set (pj_lines input). \<exists>a \<in> set (accounts db). acc_orgID a = pj_orgID input \<and>
           acc_code a = pl_accountCode line \<and> acc_id a = ids (pl_accountCode line) \<and> \<not> acc_archived a"
proof -
  from assms obtain d c codes ids where
    lines: "fold_result check_line (0, 0, []) (pj_lines input) = Inr (d, c, codes)"
    and bal: "0 < d" "d = c" and len: "2 \<le> length (pj_lines input)"
    and period: "lockAccountingPeriod (pj_orgID input) (pj_postedAt input) db = Inr ()"
    and rev: "check_reversal (pj_orgID input) (pj_reversalOfID input) db = Inr ()"
    and ids: "account_ids db (pj_orgID input) codes = Inr ids"
    and found: "find (\<lambda>code. ids code = []) codes = None"
    and res: "entryID = gen (uuid_draws db)"
      "db' = db\<lparr>journal_entries := journal_entries db @ [posted_entry entryID (entry_kind_of input) input],
                  journal_lines := journal_lines db
                    @ posted_lines gen (Suc (uuid_draws db)) entryID ids (pj_lines input),
                  uuid_draws := Suc (uuid_draws db) + length (pj_lines input)\<rparr>"
    by (auto simp: postJournalEntry_def Let_def not_less not_le split: if_splits option.splits)
  from fold_check_line [OF lines] have sums: "d = sum_list (map pl_debitMinor (pj_lines input))"
    "c = sum_list (map pl_creditMinor (pj_lines input))"
    and codes: "set codes = pl_accountCode ` set (pj_lines input)"
    and valid: "\<forall>line \<in> set (pj_lines input). valid_line line" by auto
  have "\<exists>a \<in> set (accounts db). acc_orgID a = pj_orgID input \<and> acc_code a = pl_accountCode line \<and>
        acc_id a = ids (pl_accountCode line) \<and> \<not> acc_archived a" if "line \<in> set (pj_lines input)" for line
  proof -
    from that codes found have "ids (pl_accountCode line) \<noteq> []" by (auto simp: find_None_iff)
    with ids show ?thesis by (rule account_ids_sound) auto
  qed
  moreover from period have
    "(pj_orgID input, utc_year (pj_postedAt input), utc_month (pj_postedAt input)) \<notin> set (periods db)"
    by (simp add: lockAccountingPeriod_def split: if_splits)
  ultimately show thesis using that res rev valid len bal sums by auto
qed

lemma fold_account_rows_ok:
  "\<forall>a \<in> set rows. \<not> acc_archived a \<and> acc_id a \<noteq> [] \<Longrightarrow>
   \<exists>ids'. fold_result account_row_step ids rows = Inr ids' \<and>
     (\<forall>code. ids code \<noteq> [] \<or> code \<in> acc_code ` set rows \<longrightarrow> ids' code \<noteq> [])"
proof (induction rows arbitrary: ids)
  case (Cons a rows)
  then obtain ids' where r: "fold_result account_row_step (ids(acc_code a := acc_id a)) rows = Inr ids'"
    and n: "\<forall>code. (ids(acc_code a := acc_id a)) code \<noteq> [] \<or> code \<in> acc_code ` set rows \<longrightarrow> ids' code \<noteq> []"
    by (metis list.set_intros(2))
  from Cons.prems have "account_row_step ids a = Inr (ids(acc_code a := acc_id a))" by (simp add: account_row_step_Inr)
  with r n Cons.prems show ?case by auto
qed simp

definition postable :: "postJournalEntryInput \<Rightarrow> 'a books_scheme \<Rightarrow> bool" where
  "postable input db \<longleftrightarrow>
     pj_orgID input \<noteq> [] \<and> pj_actorType input \<noteq> [] \<and> trim_space (pj_memo input) \<noteq> [] \<and>
     trim_space (pj_sourceType input) \<noteq> [] \<and> 2 \<le> length (pj_lines input) \<and>
     pj_postedAt input \<noteq> zero_time \<and>
     pj_entryKind input \<in> {'''', ''operational'', ''year_end_close'', ''correction''} \<and>
     (pj_orgID input, utc_year (pj_postedAt input), utc_month (pj_postedAt input)) \<notin> set (periods db) \<and>
     (\<forall>original. pj_reversalOfID input = Some original \<longrightarrow>
        (\<exists>e \<in> set (journal_entries db). je_id e = original \<and> je_orgID e = pj_orgID input) \<and>
        (\<forall>e \<in> set (journal_entries db). je_reversalOfID e = Some original \<longrightarrow> je_orgID e \<noteq> pj_orgID input)) \<and>
     (\<forall>line \<in> set (pj_lines input). valid_line line \<and>
        (\<exists>a \<in> set (accounts db). acc_orgID a = pj_orgID input \<and> acc_code a = pl_accountCode line \<and> \<not> acc_archived a)) \<and>
     0 < sum_list (map pl_debitMinor (pj_lines input)) \<and>
     sum_list (map pl_debitMinor (pj_lines input)) = sum_list (map pl_creditMinor (pj_lines input))"

lemma check_reversal_Inr:
  "check_reversal orgID reversalOfID db = Inr () \<longleftrightarrow>
     (\<forall>original. reversalOfID = Some original \<longrightarrow>
        (\<exists>e \<in> set (journal_entries db). je_id e = original \<and> je_orgID e = orgID) \<and>
        (\<forall>e \<in> set (journal_entries db). je_reversalOfID e = Some original \<longrightarrow> je_orgID e \<noteq> orgID))"
  by (auto simp: check_reversal_def list_ex_iff split: option.splits)

lemma lockAccountingPeriod_Inr:
  "lockAccountingPeriod orgID at db = Inr () \<longleftrightarrow> (orgID, utc_year at, utc_month at) \<notin> set (periods db)"
  by (simp add: lockAccountingPeriod_def)

lemma post_accepts:
  assumes p: "postable input db" and u: "distinct (map (\<lambda>a. (acc_orgID a, acc_code a)) (accounts db))"
    and ne: "\<forall>a \<in> set (accounts db). acc_id a \<noteq> []"
  shows "\<exists>entryID db'. postJournalEntry gen input db = Inr (entryID, db')"
proof -
  from p have valid: "\<forall>line \<in> set (pj_lines input). valid_line line" by (auto simp: postable_def)
  then obtain codes where fold: "fold_result check_line (0, 0, []) (pj_lines input) =
      Inr (sum_list (map pl_debitMinor (pj_lines input)), sum_list (map pl_creditMinor (pj_lines input)), codes)"
    using fold_check_line_ok [of "pj_lines input" 0 0 "[]"] by auto
  from fold_check_line [OF fold] have codes: "set codes = pl_accountCode ` set (pj_lines input)" by simp
  let ?rows = "filter (\<lambda>a. acc_orgID a = pj_orgID input \<and> acc_code a \<in> set codes) (accounts db)"
  have acc: "\<exists>a \<in> set (accounts db). acc_orgID a = pj_orgID input \<and> acc_code a = code \<and> \<not> acc_archived a"
    if "code \<in> set codes" for code using that p codes by (auto simp: postable_def)
  have "\<not> acc_archived a" if "a \<in> set ?rows" for a
  proof -
    from that acc obtain b where "b \<in> set (accounts db)" "acc_orgID b = pj_orgID input"
      "acc_code b = acc_code a" "\<not> acc_archived b" by auto
    with that u have "a = b" by (auto simp: distinct_map inj_on_def)
    with \<open>\<not> acc_archived b\<close> show ?thesis by simp
  qed
  with ne have "\<forall>a \<in> set ?rows. \<not> acc_archived a \<and> acc_id a \<noteq> []" by auto
  from fold_account_rows_ok [OF this, of "\<lambda>_. []"] obtain ids where
    ids: "account_ids db (pj_orgID input) codes = Inr ids"
    and found: "\<forall>code \<in> acc_code ` set ?rows. ids code \<noteq> []" by (auto simp: account_ids_def)
  have "find (\<lambda>code. ids code = []) codes = None"
    using acc found by (fastforce simp: find_None_iff)
  moreover from p have "lockAccountingPeriod (pj_orgID input) (pj_postedAt input) db = Inr ()"
    "check_reversal (pj_orgID input) (pj_reversalOfID input) db = Inr ()"
    "entry_kind_of input \<in> set [''operational'', ''year_end_close'', ''correction'']"
    by (auto simp: postable_def lockAccountingPeriod_Inr check_reversal_Inr entry_kind_of_def)
  ultimately show ?thesis using p fold ids
    by (simp add: postJournalEntry_def postable_def Let_def)
qed

lemma post_refuses:
  assumes "postJournalEntry gen input db = Inr (entryID, db')"
  shows "postable input db"
proof -
  from assms have head: "pj_orgID input \<noteq> [] \<and> pj_actorType input \<noteq> [] \<and> trim_space (pj_memo input) \<noteq> [] \<and>
     trim_space (pj_sourceType input) \<noteq> [] \<and> pj_postedAt input \<noteq> zero_time \<and>
     entry_kind_of input \<in> set [''operational'', ''year_end_close'', ''correction'']"
    by (simp add: postJournalEntry_def split: if_splits)
  then have kind: "pj_entryKind input \<in> {'''', ''operational'', ''year_end_close'', ''correction''}"
    by (auto simp: entry_kind_of_def split: if_splits)
  from assms show ?thesis
    by (rule post_Inr) (use head kind in \<open>auto simp: postable_def check_reversal_Inr\<close>)
qed

section \<open>Well-formed books\<close>

definition entry_debits :: "'a books_scheme \<Rightarrow> string \<Rightarrow> int" where
  "entry_debits db e = sum_list (map jl_debitMinor (filter (\<lambda>l. jl_entryID l = e) (journal_lines db)))"

definition entry_credits :: "'a books_scheme \<Rightarrow> string \<Rightarrow> int" where
  "entry_credits db e = sum_list (map jl_creditMinor (filter (\<lambda>l. jl_entryID l = e) (journal_lines db)))"

definition line_ok :: "'a books_scheme \<Rightarrow> journal_line \<Rightarrow> bool" where
  "line_ok db l \<longleftrightarrow>
     (\<exists>e \<in> set (journal_entries db). je_id e = jl_entryID l \<and>
        (\<exists>a \<in> set (accounts db). acc_id a = jl_accountID l \<and> acc_orgID a = je_orgID e)) \<and>
     0 \<le> jl_debitMinor l \<and> 0 \<le> jl_creditMinor l \<and> (jl_debitMinor l = 0 \<longleftrightarrow> jl_creditMinor l \<noteq> 0)"

definition accounts_ok :: "uuid_source \<Rightarrow> 'a books_scheme \<Rightarrow> bool" where
  "accounts_ok gen db \<longleftrightarrow>
     distinct (map acc_id (accounts db)) \<and>
     distinct (map (\<lambda>a. (acc_orgID a, acc_code a)) (accounts db)) \<and>
     (\<forall>a \<in> set (accounts db). acc_id a \<noteq> []) \<and>
     (\<forall>n \<ge> uuid_draws db. gen n \<notin> acc_id ` set (accounts db))"

definition entries_ok :: "uuid_source \<Rightarrow> 'a books_scheme \<Rightarrow> bool" where
  "entries_ok gen db \<longleftrightarrow>
     distinct (map je_id (journal_entries db)) \<and>
     (\<forall>n \<ge> uuid_draws db. gen n \<notin> je_id ` set (journal_entries db))"

text \<open>
  The books invariant: row identities are unique and will stay so, every line belongs to
  an entry and to an account of the same organization, and every entry has at least two
  lines whose debits equal its credits.
\<close>

definition books_ok :: "uuid_source \<Rightarrow> 'a books_scheme \<Rightarrow> bool" where
  "books_ok gen db \<longleftrightarrow>
     accounts_ok gen db \<and> entries_ok gen db \<and>
     (\<forall>l \<in> set (journal_lines db). line_ok db l) \<and>
     (\<forall>e \<in> set (journal_entries db).
        0 < entry_debits db (je_id e) \<and> entry_debits db (je_id e) = entry_credits db (je_id e) \<and>
        2 \<le> length (filter (\<lambda>l. jl_entryID l = je_id e) (journal_lines db)))"

lemma books_ok_lines_of_fresh:
  assumes "books_ok gen db"
  shows "filter (\<lambda>l. jl_entryID l = gen (uuid_draws db)) (journal_lines db) = []"
proof -
  have "jl_entryID l \<noteq> gen (uuid_draws db)" if "l \<in> set (journal_lines db)" for l
  proof -
    from that assms obtain e where "e \<in> set (journal_entries db)" "je_id e = jl_entryID l"
      by (auto simp: books_ok_def line_ok_def)
    then have "jl_entryID l \<in> je_id ` set (journal_entries db)" by force
    with assms show ?thesis by (auto simp: books_ok_def entries_ok_def)
  qed
  then show ?thesis by (simp add: filter_empty_conv)
qed

lemma post_books_ok [inv_intros]:
  assumes ok: "books_ok gen db" and gen: "inj gen"
    and post: "postJournalEntry gen input db = Inr (entryID, db')"
  shows "books_ok gen db'"
  using post
proof (rule post_Inr)
  fix ids
  let ?new = "posted_lines gen (Suc (uuid_draws db)) entryID ids (pj_lines input)"
  let ?entry = "posted_entry entryID (entry_kind_of input) input"
  assume e: "entryID = gen (uuid_draws db)"
    and db': "db' = db\<lparr>journal_entries := journal_entries db @ [?entry],
                  journal_lines := journal_lines db @ ?new,
                  uuid_draws := Suc (uuid_draws db) + length (pj_lines input)\<rparr>"
    and valid: "\<forall>line \<in> set (pj_lines input). valid_line line" and len: "2 \<le> length (pj_lines input)"
    and bal: "0 < sum_list (map pl_debitMinor (pj_lines input))"
      "sum_list (map pl_debitMinor (pj_lines input)) = sum_list (map pl_creditMinor (pj_lines input))"
    and accs: "\<forall>line \<in> set (pj_lines input). \<exists>a \<in> set (accounts db). acc_orgID a = pj_orgID input \<and>
           acc_code a = pl_accountCode line \<and> acc_id a = ids (pl_accountCode line) \<and> \<not> acc_archived a"
  have fresh: "entryID \<notin> je_id ` set (journal_entries db)"
    using ok e by (auto simp: books_ok_def entries_ok_def)
  note none = books_ok_lines_of_fresh [OF ok, folded e]
  have ent: "je_id ?entry = entryID" "je_orgID ?entry = pj_orgID input" by (simp_all add: posted_entry_def)
  have A: "accounts_ok gen db'" using ok db' by (auto simp: books_ok_def accounts_ok_def)
  have E: "entries_ok gen db'"
    using ok fresh ent e unfolding db' by (auto simp: books_ok_def entries_ok_def inj_eq [OF gen])
  have L: "line_ok db' l" if "l \<in> set (journal_lines db')" for l
  proof -
    from that db' consider "l \<in> set (journal_lines db)" | "l \<in> set ?new" by auto
    then show ?thesis
    proof cases
      case 1
      with ok db' show ?thesis by (fastforce simp: books_ok_def line_ok_def)
    next
      case 2
      then obtain line where "line \<in> set (pj_lines input)" "jl_entryID l = entryID"
        "jl_accountID l = ids (pl_accountCode line)" "jl_debitMinor l = pl_debitMinor line"
        "jl_creditMinor l = pl_creditMinor line" using posted_lines_set by blast
      with valid accs db' ent show ?thesis by (fastforce simp: line_ok_def valid_line_def)
    qed
  qed
  have B: "0 < entry_debits db' (je_id q) \<and> entry_debits db' (je_id q) = entry_credits db' (je_id q) \<and>
           2 \<le> length (filter (\<lambda>l. jl_entryID l = je_id q) (journal_lines db'))"
    if "q \<in> set (journal_entries db')" for q
  proof (cases "je_id q = entryID")
    case True
    then show ?thesis using db' none bal len by (simp add: entry_debits_def entry_credits_def)
  next
    case False
    with that db' ent have "q \<in> set (journal_entries db)" by auto
    with False ok db' show ?thesis by (auto simp: books_ok_def entry_debits_def entry_credits_def)
  qed
  show ?thesis unfolding books_ok_def using A E L B by blast
qed

section \<open>The trial balance of well-formed books\<close>

lemma line_account_unique:
  fixes v :: int
  assumes "books_ok gen db" and "l \<in> set (journal_lines db)"
    and "e \<in> set (journal_entries db)" and "je_id e = jl_entryID l"
  shows "sum_list (map (\<lambda>a. if acc_orgID a = je_orgID e \<and> jl_accountID l = acc_id a then v else 0) (accounts db)) = v"
proof -
  from assms(1,2) have "line_ok db l" by (simp add: books_ok_def)
  then obtain e' a where e': "e' \<in> set (journal_entries db)" "je_id e' = jl_entryID l"
    and a: "a \<in> set (accounts db)" "acc_id a = jl_accountID l" "acc_orgID a = je_orgID e'"
    by (auto simp: line_ok_def)
  from assms e' have "e' = e" by (auto simp: books_ok_def entries_ok_def distinct_map inj_on_def)
  from assms have d: "distinct (map acc_id (accounts db))" by (simp add: books_ok_def accounts_ok_def)
  have "sum_list (map (\<lambda>b. if acc_orgID b = je_orgID e \<and> jl_accountID l = acc_id b then v else 0) (accounts db)) =
        sum_list (map (\<lambda>b. if acc_id b = acc_id a then v else 0) (accounts db))"
    using a d \<open>e' = e\<close> by (intro sum_list_map_cong) (auto simp: distinct_map inj_on_def)
  with sum_list_single [OF d a(1), of v] show ?thesis by simp
qed

lemma trial_rows_total:
  fixes val :: "journal_line \<Rightarrow> int"
  assumes ok: "books_ok gen db"
    and f: "\<And>(a :: account_row) (l :: journal_line) (e :: journal_entry). f \<lparr>tb_code = acc_code a, tb_name = acc_name a, tb_currency = je_currency e,
          tb_debitMinor = jl_debitMinor l, tb_creditMinor = jl_creditMinor l\<rparr> = val l"
  shows "sum_list (map f (filter (\<lambda>r. tb_currency r = c) (trial_rows db orgID))) =
    sum_list (map (\<lambda>e. sum_list (map val (filter (\<lambda>l. jl_entryID l = je_id e) (journal_lines db))))
      (filter (\<lambda>e. je_orgID e = orgID \<and> je_currency e = c) (journal_entries db)))"
proof -
  let ?A = "accounts db" and ?L = "journal_lines db" and ?E = "journal_entries db"
  let ?v = "\<lambda>a l e. if acc_orgID a = orgID \<and> jl_accountID l = acc_id a \<and>
     je_id e = jl_entryID l \<and> je_orgID e = orgID \<and> je_currency e = c then val l else 0"
  have "sum_list (map f (filter (\<lambda>r. tb_currency r = c) (trial_rows db orgID))) =
        sum_list (map (\<lambda>a. sum_list (map (\<lambda>l. sum_list (map (\<lambda>e. ?v a l e) ?E)) ?L)) ?A)"
    unfolding trial_rows_def concat_filter_map sum_list_map_concat map_map comp_def
    by (subst (1) sum_list_filter_if)
      (auto simp: filter_map comp_def sum_list_filter_if intro!: sum_list_map_cong f)
  also have "\<dots> = sum_list (map (\<lambda>a. sum_list (map (\<lambda>e. sum_list (map (\<lambda>l. ?v a l e) ?L)) ?E)) ?A)"
    by (intro sum_list_map_cong sum_list_swap)
  also have "\<dots> = sum_list (map (\<lambda>e. sum_list (map (\<lambda>a. sum_list (map (\<lambda>l. ?v a l e) ?L)) ?A)) ?E)"
    by (rule sum_list_swap)
  also have "\<dots> = sum_list (map (\<lambda>e. sum_list (map (\<lambda>l. sum_list (map (\<lambda>a. ?v a l e) ?A)) ?L)) ?E)"
    by (intro sum_list_map_cong sum_list_swap)
  also have "\<dots> = sum_list (map (\<lambda>e. if je_orgID e = orgID \<and> je_currency e = c
        then sum_list (map (\<lambda>l. if jl_entryID l = je_id e then val l else 0) ?L) else 0) ?E)"
  proof (intro sum_list_map_cong)
    fix e assume e: "e \<in> set ?E"
    have "sum_list (map (\<lambda>a. ?v a l e) ?A) =
          (if je_orgID e = orgID \<and> je_currency e = c \<and> jl_entryID l = je_id e then val l else 0)"
      if "l \<in> set ?L" for l
    proof (cases "je_orgID e = orgID \<and> je_currency e = c \<and> jl_entryID l = je_id e")
      case True
      with line_account_unique [OF ok that e, of "val l"] show ?thesis by simp
    next
      case False
      then have zero: "sum_list (map (\<lambda>a. ?v a l e) ?A) = sum_list (map (\<lambda>a. 0) ?A)"
        by (intro sum_list_map_cong) auto
      show ?thesis unfolding zero if_not_P [OF False] by simp
    qed
    then have "sum_list (map (\<lambda>l. sum_list (map (\<lambda>a. ?v a l e) ?A)) ?L) =
      sum_list (map (\<lambda>l. if je_orgID e = orgID \<and> je_currency e = c \<and> jl_entryID l = je_id e then val l else 0) ?L)"
      by (intro sum_list_map_cong)
    then show "sum_list (map (\<lambda>l. sum_list (map (\<lambda>a. ?v a l e) ?A)) ?L) =
      (if je_orgID e = orgID \<and> je_currency e = c
        then sum_list (map (\<lambda>l. if jl_entryID l = je_id e then val l else 0) ?L) else 0)"
      by (simp only: sum_list_if_const conj_assoc [symmetric])
  qed
  finally show ?thesis by (simp add: sum_list_filter_if)
qed

lemma trial_group_fields [simp]:
  "tb_currency (trial_group rows key) = snd (snd key)"
  "tb_debitMinor (trial_group rows key) = sum_list (map tb_debitMinor (filter (\<lambda>r. trial_key r = key) rows))"
  "tb_creditMinor (trial_group rows key) = sum_list (map tb_creditMinor (filter (\<lambda>r. trial_key r = key) rows))"
  by (simp_all add: trial_group_def split: prod.split)

lemma trial_groups_total:
  fixes f :: "trialBalanceLine \<Rightarrow> int"
  assumes "\<And>rows key. f (trial_group rows key) = sum_list (map f (filter (\<lambda>r. trial_key r = key) rows))"
  shows "sum_list (map f (filter (\<lambda>r. tb_currency r = c) (trial_groups db orgID))) =
         sum_list (map f (filter (\<lambda>r. tb_currency r = c) (trial_rows db orgID)))"
proof -
  have "sum_list (map f (filter (\<lambda>r. tb_currency r = c) (trial_groups db orgID))) =
    sum_list (map (\<lambda>k. sum_list (map f (filter (\<lambda>r. trial_key r = k) (trial_rows db orgID))))
      (filter (\<lambda>k. snd (snd k) = c) (remdups (map trial_key (trial_rows db orgID)))))"
    by (simp add: trial_groups_def filter_map comp_def assms)
  also have "\<dots> = sum_list (map f (filter (\<lambda>r. snd (snd (trial_key r)) = c) (trial_rows db orgID)))"
    by (rule sum_list_by_key) auto
  finally show ?thesis by (simp add: trial_key_def)
qed

lemma currency_totals:
  assumes "books_ok gen db"
  shows "currency_debits (trial_groups db orgID) c =
      sum_list (map (\<lambda>e. entry_debits db (je_id e)) (filter (\<lambda>e. je_orgID e = orgID \<and> je_currency e = c) (journal_entries db)))"
    and "currency_credits (trial_groups db orgID) c =
      sum_list (map (\<lambda>e. entry_credits db (je_id e)) (filter (\<lambda>e. je_orgID e = orgID \<and> je_currency e = c) (journal_entries db)))"
  unfolding currency_debits_def currency_credits_def entry_debits_def entry_credits_def
  by (subst trial_groups_total, simp, rule trial_rows_total [OF assms], simp)+

lemma currency_totals_agree:
  assumes "books_ok gen db"
  shows "currency_debits (trial_groups db orgID) c = currency_credits (trial_groups db orgID) c"
  unfolding currency_totals [OF assms] using assms
  by (intro sum_list_map_cong) (auto simp: books_ok_def)

section \<open>Reversal: lemmas\<close>

definition account_net :: "'a books_scheme \<Rightarrow> string \<Rightarrow> string \<Rightarrow> int" where
  "account_net db entryID accountID =
     sum_list (map (\<lambda>l. jl_debitMinor l - jl_creditMinor l)
       (filter (\<lambda>l. jl_entryID l = entryID \<and> jl_accountID l = accountID) (journal_lines db)))"

definition line_account :: "journal_line \<Rightarrow> string \<times> int \<times> int" where
  "line_account l = (jl_accountID l, jl_debitMinor l, jl_creditMinor l)"

lemma posted_lines_accounts:
  "map line_account (posted_lines gen k e ids lines) =
     map (\<lambda>line. (ids (pl_accountCode line), pl_debitMinor line, pl_creditMinor line)) lines"
  by (induction gen k e ids lines rule: posted_lines.induct) (auto simp: line_account_def)

lemma filter_single:
  "distinct (map key xs) \<Longrightarrow> x \<in> set xs \<Longrightarrow> P x \<Longrightarrow> filter (\<lambda>y. key y = key x \<and> P y) xs = [x]"
proof (induction xs)
  case (Cons y ys)
  show ?case
  proof (cases "x = y")
    case True
    with Cons.prems have "filter (\<lambda>z. key z = key x \<and> P z) ys = []" by (auto simp: filter_empty_conv image_iff)
    with True Cons.prems show ?thesis by simp
  next
    case False
    with Cons show ?thesis by auto
  qed
qed simp

lemma mirror_line_account:
  assumes ok: "books_ok gen db" and e: "e \<in> set (journal_entries db)" and l: "l \<in> set (journal_lines db)" "jl_entryID l = je_id e"
  obtains a where "a \<in> set (accounts db)" and "acc_id a = jl_accountID l" and "acc_orgID a = je_orgID e"
    and "filter (\<lambda>b. acc_id b = jl_accountID l \<and> acc_orgID b = je_orgID e) (accounts db) = [a]"
proof -
  from ok l have "line_ok db l" by (simp add: books_ok_def)
  then obtain e' a where e': "e' \<in> set (journal_entries db)" "je_id e' = jl_entryID l"
    and a: "a \<in> set (accounts db)" "acc_id a = jl_accountID l" "acc_orgID a = je_orgID e'"
    by (auto simp: line_ok_def)
  from ok e l e' have "e' = e" by (auto simp: books_ok_def entries_ok_def distinct_map inj_on_def)
  moreover from ok have "distinct (map acc_id (accounts db))" by (simp add: books_ok_def accounts_ok_def)
  ultimately show thesis
    using that [of a] a filter_single [of acc_id "accounts db" a "\<lambda>b. acc_orgID b = je_orgID e"] by simp
qed

lemma mirror_lines_accounts:
  assumes ok: "books_ok gen db" and e: "e \<in> set (journal_entries db)"
    and ids: "\<forall>line \<in> set (mirror_lines db (je_orgID e) (je_id e)). \<exists>a \<in> set (accounts db).
        acc_orgID a = je_orgID e \<and> acc_code a = pl_accountCode line \<and> acc_id a = ids (pl_accountCode line)"
  shows "map (\<lambda>line. (ids (pl_accountCode line), pl_debitMinor line, pl_creditMinor line))
           (mirror_lines db (je_orgID e) (je_id e)) =
         map (\<lambda>l. (jl_accountID l, jl_creditMinor l, jl_debitMinor l)) (entry_line_rows db (je_id e))"
proof -
  have "\<forall>l \<in> set rows. l \<in> set (journal_lines db) \<and> jl_entryID l = je_id e \<Longrightarrow>
    \<forall>line \<in> set (concat (map (\<lambda>l. map (\<lambda>a. \<lparr>pl_accountCode = acc_code a, pl_debitMinor = jl_creditMinor l,
                                 pl_creditMinor = jl_debitMinor l\<rparr>)
         (filter (\<lambda>a. acc_id a = jl_accountID l \<and> acc_orgID a = je_orgID e) (accounts db))) rows)).
        \<exists>a \<in> set (accounts db). acc_orgID a = je_orgID e \<and> acc_code a = pl_accountCode line \<and> acc_id a = ids (pl_accountCode line) \<Longrightarrow>
    map (\<lambda>line. (ids (pl_accountCode line), pl_debitMinor line, pl_creditMinor line))
      (concat (map (\<lambda>l. map (\<lambda>a. \<lparr>pl_accountCode = acc_code a, pl_debitMinor = jl_creditMinor l,
                                 pl_creditMinor = jl_debitMinor l\<rparr>)
         (filter (\<lambda>a. acc_id a = jl_accountID l \<and> acc_orgID a = je_orgID e) (accounts db))) rows)) =
    map (\<lambda>l. (jl_accountID l, jl_creditMinor l, jl_debitMinor l)) rows" for rows
  proof (induction rows)
    case (Cons l rows)
    from Cons.prems(1) ok e obtain a where a: "a \<in> set (accounts db)" "acc_id a = jl_accountID l"
      "acc_orgID a = je_orgID e"
      and f: "filter (\<lambda>b. acc_id b = jl_accountID l \<and> acc_orgID b = je_orgID e) (accounts db) = [a]"
      by (auto elim: mirror_line_account [of gen db e l])
    from Cons.prems(2) f obtain b where "b \<in> set (accounts db)" "acc_orgID b = je_orgID e"
      "acc_code b = acc_code a" "acc_id b = ids (acc_code a)" by auto
    with a ok have "b = a" by (auto simp: books_ok_def accounts_ok_def distinct_map inj_on_def)
    with \<open>acc_id b = ids (acc_code a)\<close> f a Cons show ?case by auto
  qed simp
  from this [of "entry_line_rows db (je_id e)"] ids show ?thesis
    by (simp add: mirror_lines_def entry_line_rows_def)
qed

lemma account_net_of_rows:
  "account_net db entryID accountID =
     sum_list (map (\<lambda>(a, d, c). if a = accountID then d - c else 0)
       (map line_account (filter (\<lambda>l. jl_entryID l = entryID) (journal_lines db))))"
proof -
  have "sum_list (map (\<lambda>l. jl_debitMinor l - jl_creditMinor l)
      (filter (\<lambda>l. jl_entryID l = entryID \<and> jl_accountID l = accountID) xs)) =
    sum_list (map (\<lambda>(a, d, c). if a = accountID then d - c else 0)
       (map line_account (filter (\<lambda>l. jl_entryID l = entryID) xs)))" for xs
    by (induction xs) (auto simp: line_account_def)
  then show ?thesis by (simp add: account_net_def)
qed

lemma net_swap:
  "sum_list (map (\<lambda>(a, d, c). if a = x then d - c else 0) (map (\<lambda>l. (jl_accountID l, jl_creditMinor l, jl_debitMinor l)) ls))
   = - sum_list (map (\<lambda>(a, d, c). if a = x then d - c else (0::int)) (map line_account ls))"
  by (induction ls) (auto simp: line_account_def)

lemma net_perm:
  fixes f :: "'a \<Rightarrow> int"
  shows "mset xs = mset ys \<Longrightarrow> sum_list (map f xs) = sum_list (map f ys)"
  by (metis mset_map sum_mset_sum_list)

lemma post_lines_Inr:
  assumes "postJournalEntry gen input db = Inr (entryID, db')"
  obtains ids where "entryID = gen (uuid_draws db)"
    and "journal_lines db' = journal_lines db @ posted_lines gen (Suc (uuid_draws db)) entryID ids (pj_lines input)"
    and "\<forall>line \<in> set (pj_lines input). \<exists>a \<in> set (accounts db). acc_orgID a = pj_orgID input \<and>
           acc_code a = pl_accountCode line \<and> acc_id a = ids (pl_accountCode line)"
  using assms
proof (rule post_Inr, goal_cases)
  case (1 ids)
  then show thesis by (intro that [of ids]) auto
qed

lemma reverse_Inr:
  assumes "executeReverseEntry gen orgID actorType actorID entryID now db = Inr (newID, db')"
  obtains original input where "original \<in> set (journal_entries db)" and "je_id original = entryID"
    and "je_orgID original = orgID" and "postJournalEntry gen input db = Inr (newID, db')"
    and "pj_orgID input = orgID" and "pj_reversalOfID input = Some entryID" and "pj_postedAt input = now"
    and "pj_currency input = je_currency original" and "pj_lines input = mirror_lines db orgID entryID"
    and "find (\<lambda>e. je_id e = entryID \<and> je_orgID e = orgID) (journal_entries db) = Some original"
proof -
  from assms obtain original where f: "find (\<lambda>e. je_id e = entryID \<and> je_orgID e = orgID) (journal_entries db) = Some original"
    by (auto simp: executeReverseEntry_def split: option.splits)
  then have "original \<in> set (journal_entries db)" "je_id original = entryID" "je_orgID original = orgID"
    by (auto simp: find_Some_iff)
  with assms f that show thesis
    by (auto simp: executeReverseEntry_def Let_def split: option.splits if_splits)
qed

lemma reverse_keeps_books [inv_intros]:
  assumes "books_ok gen db" and "inj gen"
    and "executeReverseEntry gen orgID actorType actorID entryID now db = Inr (newID, db')"
  shows "books_ok gen db'"
  using assms(3) by (rule reverse_Inr) (rule post_books_ok [OF assms(1,2)])

lemma reverse_nets:
  assumes ok: "books_ok gen db" and gen: "inj gen"
    and rev: "executeReverseEntry gen orgID actorType actorID entryID now db = Inr (newID, db')"
  shows "account_net db' newID a = - account_net db entryID a" and "account_net db' entryID a = account_net db entryID a"
    and "newID \<noteq> entryID"
proof -
  obtain original input where o: "original \<in> set (journal_entries db)" "je_id original = entryID" "je_orgID original = orgID"
    and post: "postJournalEntry gen input db = Inr (newID, db')" and io: "pj_orgID input = orgID"
    and lines: "pj_lines input = mirror_lines db orgID entryID" using rev by (rule reverse_Inr)
  obtain ids where new: "newID = gen (uuid_draws db)"
    and jl: "journal_lines db' = journal_lines db @ posted_lines gen (Suc (uuid_draws db)) newID ids (pj_lines input)"
    and accs: "\<forall>line \<in> set (pj_lines input). \<exists>a \<in> set (accounts db). acc_orgID a = pj_orgID input \<and>
           acc_code a = pl_accountCode line \<and> acc_id a = ids (pl_accountCode line)"
    using post by (rule post_lines_Inr)
  show ne: "newID \<noteq> entryID" using ok new o by (force simp: books_ok_def entries_ok_def)
  have none: "filter (\<lambda>l. jl_entryID l = newID) (journal_lines db) = []"
    using books_ok_lines_of_fresh [OF ok] new by simp
  have rows: "mset (map (\<lambda>l. (jl_accountID l, jl_creditMinor l, jl_debitMinor l)) (entry_line_rows db entryID)) =
    mset (map (\<lambda>l. (jl_accountID l, jl_creditMinor l, jl_debitMinor l)) (filter (\<lambda>l. jl_entryID l = entryID) (journal_lines db)))"
    by (simp add: entry_line_rows_def)
  have "map line_account (filter (\<lambda>l. jl_entryID l = newID) (journal_lines db')) =
        map (\<lambda>l. (jl_accountID l, jl_creditMinor l, jl_debitMinor l)) (entry_line_rows db entryID)"
    using jl none lines accs io o mirror_lines_accounts [OF ok o(1), of ids] by (simp add: posted_lines_accounts)
  then show "account_net db' newID a = - account_net db entryID a"
    unfolding account_net_of_rows by (simp only: net_perm [OF rows] net_swap)
  show "account_net db' entryID a = account_net db entryID a"
    unfolding account_net_of_rows using jl ne by simp
qed

lemma reverse_once:
  assumes "books_ok gen db" and "inj gen"
    and rev: "executeReverseEntry gen orgID actorType actorID entryID now db = Inr (newID, db')"
  shows "isl (executeReverseEntry gen orgID actorType' actorID' entryID now' db')"
proof (rule ccontr)
  assume "\<not> ?thesis"
  then obtain newID' db'' where rev': "executeReverseEntry gen orgID actorType' actorID' entryID now' db' = Inr (newID', db'')"
    by (cases "executeReverseEntry gen orgID actorType' actorID' entryID now' db'") auto
  obtain input where post: "postJournalEntry gen input db = Inr (newID, db')" and io: "pj_orgID input = orgID"
    "pj_reversalOfID input = Some entryID" using rev by (rule reverse_Inr)
  have "posted_entry newID (entry_kind_of input) input \<in> set (journal_entries db')"
    using post by (rule post_Inr) simp
  then have "\<exists>e \<in> set (journal_entries db'). je_reversalOfID e = Some entryID \<and> je_orgID e = orgID"
    using io by (intro bexI) (auto simp: posted_entry_def)
  moreover obtain input' where "postJournalEntry gen input' db' = Inr (newID', db'')" and "pj_orgID input' = orgID"
    "pj_reversalOfID input' = Some entryID" using rev' by (rule reverse_Inr)
  ultimately show False using post_refuses by (fastforce simp: postable_def)
qed

section \<open>Account balances by code\<close>

definition has_code :: "'a books_scheme \<Rightarrow> string \<Rightarrow> string \<Rightarrow> journal_line \<Rightarrow> bool" where
  "has_code db orgID code l \<longleftrightarrow>
     list_ex (\<lambda>a. acc_id a = jl_accountID l \<and> acc_orgID a = orgID \<and> acc_code a = code) (accounts db)"

definition entry_code_net :: "'a books_scheme \<Rightarrow> string \<Rightarrow> string \<Rightarrow> string \<Rightarrow> int" where
  "entry_code_net db orgID code e =
     sum_list (map (\<lambda>l. if has_code db orgID code l then jl_debitMinor l - jl_creditMinor l else 0)
       (filter (\<lambda>l. jl_entryID l = e) (journal_lines db)))"

definition code_balance :: "'a books_scheme \<Rightarrow> string \<Rightarrow> string \<Rightarrow> string \<Rightarrow> int" where
  "code_balance db orgID currency code =
     sum_list (map (\<lambda>e. entry_code_net db orgID code (je_id e))
       (filter (\<lambda>e. je_orgID e = orgID \<and> je_currency e = currency) (journal_entries db)))"

definition input_code_net :: "string \<Rightarrow> journalEntryLineInput list \<Rightarrow> int" where
  "input_code_net code lines =
     sum_list (map (\<lambda>line. if pl_accountCode line = code then pl_debitMinor line - pl_creditMinor line else 0) lines)"

lemma has_code_unique:
  assumes "accounts_ok gen db" and "a \<in> set (accounts db)" and "acc_id a = jl_accountID l" and "acc_orgID a = orgID"
  shows "has_code db orgID code l \<longleftrightarrow> acc_code a = code"
proof -
  have "b = a" if "b \<in> set (accounts db)" "acc_id b = jl_accountID l" for b
    using assms that by (intro distinct_keyD [of acc_id "accounts db"]) (auto simp: accounts_ok_def)
  with assms show ?thesis unfolding has_code_def list_ex_iff by blast
qed

lemma posted_lines_code_net:
  assumes ok: "accounts_ok gen db" and accs: "\<forall>line \<in> set lines. \<exists>a \<in> set (accounts db). acc_orgID a = orgID \<and>
           acc_code a = pl_accountCode line \<and> acc_id a = ids (pl_accountCode line)"
  shows "sum_list (map (\<lambda>l. if has_code db orgID code l then jl_debitMinor l - jl_creditMinor l else 0)
           (posted_lines gen k e ids lines)) = input_code_net code lines"
  using accs
proof (induction lines arbitrary: k)
  case (Cons line lines)
  then obtain a where a: "a \<in> set (accounts db)" "acc_orgID a = orgID" "acc_code a = pl_accountCode line"
    "acc_id a = ids (pl_accountCode line)" by auto
  let ?l = "\<lparr>jl_id = gen k, jl_entryID = e, jl_accountID = ids (pl_accountCode line),
      jl_debitMinor = pl_debitMinor line, jl_creditMinor = pl_creditMinor line\<rparr>"
  have "has_code db orgID code ?l \<longleftrightarrow> pl_accountCode line = code"
    using has_code_unique [OF ok a(1), of ?l orgID code] a by simp
  with Cons show ?case by (simp add: input_code_net_def)
qed (simp add: input_code_net_def)

lemma post_entry_code_net:
  assumes ok: "books_ok gen db" and post: "postJournalEntry gen input db = Inr (entryID, db')"
  shows "entry_code_net db' (pj_orgID input) code entryID = input_code_net code (pj_lines input)"
    and "e \<noteq> entryID \<Longrightarrow> entry_code_net db' orgID code e = entry_code_net db orgID code e"
proof -
  obtain ids where e: "entryID = gen (uuid_draws db)"
    and jl: "journal_lines db' = journal_lines db @ posted_lines gen (Suc (uuid_draws db)) entryID ids (pj_lines input)"
    and accs: "\<forall>line \<in> set (pj_lines input). \<exists>a \<in> set (accounts db). acc_orgID a = pj_orgID input \<and>
           acc_code a = pl_accountCode line \<and> acc_id a = ids (pl_accountCode line)"
    using post by (rule post_lines_Inr)
  have acc: "accounts db' = accounts db" using post by (rule post_Inr) simp
  from ok have aok: "accounts_ok gen db" by (simp add: books_ok_def)
  show "entry_code_net db' (pj_orgID input) code entryID = input_code_net code (pj_lines input)"
    using posted_lines_code_net [OF aok accs, of code] books_ok_lines_of_fresh [OF ok] e
    by (simp add: entry_code_net_def jl has_code_def acc)
  show "e \<noteq> entryID \<Longrightarrow> entry_code_net db' orgID code e = entry_code_net db orgID code e"
    by (simp add: entry_code_net_def jl has_code_def acc)
qed

lemma post_code_balance:
  assumes ok: "books_ok gen db" and post: "postJournalEntry gen input db = Inr (entryID, db')"
  shows "code_balance db' orgID currency code = code_balance db orgID currency code +
    (if pj_orgID input = orgID \<and> pj_currency input = currency then input_code_net code (pj_lines input) else 0)"
proof -
  have je: "journal_entries db' = journal_entries db @ [posted_entry entryID (entry_kind_of input) input]"
    and fresh: "entryID \<notin> je_id ` set (journal_entries db)"
    using post by (rule post_Inr, simp) (use post in \<open>rule post_Inr, use ok in \<open>auto simp: books_ok_def entries_ok_def\<close>\<close>)
  have "sum_list (map (\<lambda>e. entry_code_net db' orgID code (je_id e))
       (filter (\<lambda>e. je_orgID e = orgID \<and> je_currency e = currency) (journal_entries db))) = code_balance db orgID currency code"
    unfolding code_balance_def
    by (intro sum_list_map_cong post_entry_code_net(2) [OF ok post]) (use fresh in force)
  then show ?thesis
    using post_entry_code_net(1) [OF ok post]
    by (auto simp: code_balance_def je posted_entry_def)
qed

lemma mirror_code_net:
  assumes ok: "books_ok gen db" and e: "e \<in> set (journal_entries db)"
  shows "input_code_net code (mirror_lines db (je_orgID e) (je_id e)) = - entry_code_net db (je_orgID e) code (je_id e)"
proof -
  let ?one = "\<lambda>l. map (\<lambda>a. \<lparr>pl_accountCode = acc_code a, pl_debitMinor = jl_creditMinor l, pl_creditMinor = jl_debitMinor l\<rparr>)
         (filter (\<lambda>a. acc_id a = jl_accountID l \<and> acc_orgID a = je_orgID e) (accounts db))"
  let ?net = "\<lambda>l. if has_code db (je_orgID e) code l then jl_debitMinor l - jl_creditMinor l else 0"
  have one: "input_code_net code (?one l) = - ?net l"
    if l: "l \<in> set (journal_lines db)" "jl_entryID l = je_id e" for l
  proof -
    obtain a where a: "a \<in> set (accounts db)" "acc_id a = jl_accountID l" "acc_orgID a = je_orgID e"
      and f: "filter (\<lambda>b. acc_id b = jl_accountID l \<and> acc_orgID b = je_orgID e) (accounts db) = [a]"
      using ok e l by (rule mirror_line_account)
    from ok a have "has_code db (je_orgID e) code l \<longleftrightarrow> acc_code a = code"
      by (intro has_code_unique) (auto simp: books_ok_def)
    with f show ?thesis by (simp add: input_code_net_def)
  qed
  have "input_code_net code (mirror_lines db (je_orgID e) (je_id e)) =
        sum_list (map (\<lambda>l. input_code_net code (?one l)) (entry_line_rows db (je_id e)))"
    by (simp add: mirror_lines_def input_code_net_def sum_list_map_concat comp_def)
  also have "\<dots> = sum_list (map (\<lambda>l. - ?net l) (entry_line_rows db (je_id e)))"
    by (intro sum_list_map_cong one) (simp_all add: entry_line_rows_def)
  also have "\<dots> = sum_list (map (\<lambda>l. - ?net l) (filter (\<lambda>l. jl_entryID l = je_id e) (journal_lines db)))"
    by (rule net_perm) (simp add: entry_line_rows_def)
  finally show ?thesis by (simp add: entry_code_net_def uminus_sum_list_map comp_def)
qed

section \<open>Properties of the journal\<close>

definition example_gen :: uuid_source where
  "example_gen n = replicate (Suc n) (CHR ''g'')"

definition example_account :: "string \<Rightarrow> string \<Rightarrow> string \<Rightarrow> account_row" where
  "example_account rid code kind = \<lparr>acc_id = rid, acc_orgID = ''org'', acc_code = code,
     acc_name = code, acc_type = kind, acc_archived = False\<rparr>"

definition example_books :: books where
  "example_books = \<lparr>accounts = [example_account ''a1'' ''1000'' ''asset'', example_account ''a2'' ''1100'' ''asset'',
       example_account ''a3'' ''4000'' ''income'', example_account ''a4'' ''3100'' ''equity''],
     journal_entries = [], journal_lines = [], periods = [(''org'', 2023, 12)], uuid_draws = 0\<rparr>"

definition example_posting :: postJournalEntryInput where
  "example_posting = \<lparr>pj_orgID = ''org'', pj_memo = ''Sale'', pj_sourceType = ''manual'', pj_sourceID = None,
     pj_reversalOfID = None, pj_currency = ''USD'', pj_entryKind = [], pj_businessAt = None,
     pj_postedAt = 1710000000000, pj_actorType = ''human'', pj_actorID = None,
     pj_lines = [debit_line ''1000'' 250, credit_line ''4000'' 250]\<rparr>"

definition example_sale_books :: books where
  "example_sale_books = (case postJournalEntry example_gen example_posting example_books of
     Inr (_, db) \<Rightarrow> db | Inl _ \<Rightarrow> example_books)"

lemma example_gen_inj: "inj example_gen"
  by (rule injI) (simp add: example_gen_def replicate_eq_replicate)

lemma example_books_ok: "books_ok example_gen example_books"
  by (auto simp: books_ok_def accounts_ok_def entries_ok_def example_books_def example_account_def example_gen_def)

lemma example_sale: "postJournalEntry example_gen example_posting example_books = Inr (example_gen 0, example_sale_books)"
  by code_simp

lemma example_sale_books_ok: "books_ok example_gen example_sale_books"
  by (rule post_books_ok [OF example_books_ok example_gen_inj example_sale])



text \<open>
  C12. A posting only adds: it appends one entry with the caller's header and exactly the
  caller's lines, each on the account of that organization carrying the line's code, leaves
  accounts, closed periods and every earlier entry and line as they were, and keeps the
  books invariant (unique identities, every line on an account of its entry's organization,
  debits equal to credits in every entry).
\<close>
theorem journal_posting_keeps_books:
  assumes "books_ok gen db" and "inj gen"
    and "postJournalEntry gen input db = Inr (entryID, db')"
  shows "books_ok gen db' \<and> accounts db' = accounts db \<and> periods db' = periods db \<and>
    journal_entries db' = journal_entries db @ [posted_entry entryID (entry_kind_of input) input] \<and>
    entryID \<notin> je_id ` set (journal_entries db) \<and>
    (\<exists>new. journal_lines db' = journal_lines db @ new \<and>
       list_all2 (\<lambda>l line. jl_entryID l = entryID \<and> jl_debitMinor l = pl_debitMinor line \<and>
          jl_creditMinor l = pl_creditMinor line \<and>
          (\<exists>a \<in> set (accounts db). acc_orgID a = pj_orgID input \<and> acc_code a = pl_accountCode line \<and>
             acc_id a = jl_accountID l \<and> \<not> acc_archived a)) new (pj_lines input))"
proof -
  have "books_ok gen db'" using assms by (rule post_books_ok)
  moreover have "entryID \<notin> je_id ` set (journal_entries db)"
    using assms(3) by (rule post_Inr) (use assms(1) in \<open>auto simp: books_ok_def entries_ok_def\<close>)
  moreover obtain ids where
    db': "db' = db\<lparr>journal_entries := journal_entries db @ [posted_entry entryID (entry_kind_of input) input],
                  journal_lines := journal_lines db
                    @ posted_lines gen (Suc (uuid_draws db)) entryID ids (pj_lines input),
                  uuid_draws := Suc (uuid_draws db) + length (pj_lines input)\<rparr>"
    and accs: "\<forall>line \<in> set (pj_lines input). \<exists>a \<in> set (accounts db). acc_orgID a = pj_orgID input \<and>
           acc_code a = pl_accountCode line \<and> acc_id a = ids (pl_accountCode line) \<and> \<not> acc_archived a"
    using assms(3) by (rule post_Inr)
  moreover have "list_all2 (\<lambda>l line. jl_entryID l = entryID \<and> jl_debitMinor l = pl_debitMinor line \<and>
          jl_creditMinor l = pl_creditMinor line \<and>
          (\<exists>a \<in> set (accounts db). acc_orgID a = pj_orgID input \<and> acc_code a = pl_accountCode line \<and>
             acc_id a = jl_accountID l \<and> \<not> acc_archived a)) (posted_lines gen k entryID ids ls) ls"
    if "set ls \<subseteq> set (pj_lines input)" for ls k
    using that accs by (induction ls arbitrary: k) auto
  ultimately show ?thesis by auto
qed

theorem journal_posting_keeps_books_witness:
  "books_ok example_gen example_sale_books \<and> accounts example_sale_books = accounts example_books"
  using journal_posting_keeps_books [OF example_books_ok example_gen_inj example_sale] by blast

text \<open>
  The trial balance of well-formed books balances: whenever the report is produced its
  \<open>Balanced\<close> flag is true, in every currency its debit and credit columns are equal, and the
  column total is the sum of the debits of the organization's entries in that currency.
\<close>
theorem trial_balance_balances:
  assumes "books_ok gen db" and "trialBalance orgID db = Inr (report, balanced)"
  shows "balanced \<and> currency_debits report c = currency_credits report c \<and>
    currency_debits report c =
      sum_list (map (\<lambda>e. entry_debits db (je_id e))
        (filter (\<lambda>e. je_orgID e = orgID \<and> je_currency e = c) (journal_entries db)))"
proof -
  from assms(2) have "report = trial_groups db orgID"
    and "balanced = list_all (\<lambda>c. currency_debits report c = currency_credits report c) (map tb_currency report)"
    by (auto simp: trialBalance_def Let_def split: if_splits)
  with currency_totals_agree [OF assms(1)] currency_totals(1) [OF assms(1)] show ?thesis
    by (simp add: list_all_iff)
qed

theorem trial_balance_balances_witness:
  "trialBalance ''org'' example_sale_books = Inr (trial_groups example_sale_books ''org'', True) \<and>
   currency_debits (trial_groups example_sale_books ''org'') ''USD'' = 250"
proof -
  have r: "trialBalance ''org'' example_sale_books = Inr (trial_groups example_sale_books ''org'', True)" by code_simp
  have "sum_list (map (\<lambda>e. entry_debits example_sale_books (je_id e))
        (filter (\<lambda>e. je_orgID e = ''org'' \<and> je_currency e = ''USD'') (journal_entries example_sale_books))) = 250"
    by code_simp
  with r trial_balance_balances [OF example_sale_books_ok r, of "''USD''"] show ?thesis by simp
qed

text \<open>
  C17. Reversing an entry undoes it exactly once: the books stay well-formed, the original
  entry keeps its lines, on every account the reversal moves the opposite of what the
  original moved, and a second reversal of the same entry, at any time and by any actor, is
  refused.
\<close>
theorem reversal_undoes_exactly_once:
  assumes "books_ok gen db" and "inj gen"
    and "executeReverseEntry gen orgID actorType actorID entryID now db = Inr (newID, db')"
  shows "books_ok gen db' \<and> newID \<noteq> entryID \<and>
    account_net db' entryID a = account_net db entryID a \<and>
    account_net db' entryID a + account_net db' newID a = 0 \<and>
    isl (executeReverseEntry gen orgID actorType' actorID' entryID now' db')"
  using reverse_keeps_books [OF assms] reverse_nets [OF assms] reverse_once [OF assms] by simp

definition example_reversed_books :: books where
  "example_reversed_books = (case executeReverseEntry example_gen ''org'' ''human'' None (example_gen 0) 1711000000000
     example_sale_books of Inr (_, db) \<Rightarrow> db | Inl _ \<Rightarrow> example_books)"

theorem reversal_undoes_exactly_once_witness:
  "account_net example_reversed_books (example_gen 0) ''a1'' = 250 \<and>
   account_net example_reversed_books (example_gen 0) ''a1'' +
   account_net example_reversed_books (example_gen 3) ''a1'' = 0"
proof -
  have "executeReverseEntry example_gen ''org'' ''human'' None (example_gen 0) 1711000000000
     example_sale_books = Inr (example_gen 3, example_reversed_books)" by code_simp
  from reversal_undoes_exactly_once [OF example_sale_books_ok example_gen_inj this]
  have "account_net example_reversed_books (example_gen 0) ''a1'' + account_net example_reversed_books (example_gen 3) ''a1'' = 0"
    by blast
  moreover have "account_net example_reversed_books (example_gen 0) ''a1'' = 250" by code_simp
  ultimately show ?thesis by simp
qed

end
