(* ===== verification/Receivables.thy ===== *)
theory Receivables
  imports Journal Claims "HOL-Library.AList"
begin

text \<open>
  Receivables (src/apps/api/internal/capability/accounting.go, accounting_payments.go and
  accounting_invoice_ops.go): invoice creation, the payment of an invoice in the base or in
  a foreign currency, the reversal of a payment and the credit note. The state extends the
  books with the tables these operations read and write; every operation posts through
  \<^verbatim>\<open>postJournalEntry\<close>. An operation that returns \<open>Inl\<close> leaves no change behind, as its
  transaction is rolled back.
\<close>

section \<open>Tables\<close>

record customer_row =
  cus_id :: string
  cus_orgID :: string
  cus_paymentTermDays :: "int option"

record tax_code_row =
  tc_id :: string
  tc_orgID :: string
  tc_jurisdictionCode :: string
  tc_direction :: string
  tc_rateBasisPoints :: int
  tc_priceIncludesTax :: bool
  tc_liabilityAccountCode :: string
  tc_active :: bool

record fx_rate_row =
  fr_orgID :: string
  fr_base :: string
  fr_quote :: string
  fr_effectiveAt :: int
  fr_num :: int
  fr_den :: int

record invoice_row =
  inv_id :: string
  inv_orgID :: string
  inv_customerID :: string
  inv_number :: int
  inv_status :: string
  inv_currency :: string
  inv_fxRateNum :: "int option"
  inv_fxRateDen :: "int option"
  inv_subtotalMinor :: int
  inv_taxMinor :: int
  inv_totalMinor :: int
  inv_paidMinor :: int
  inv_creditedMinor :: int
  inv_memo :: "string option"
  inv_issuedAt :: int
  inv_dueAt :: int \<comment> \<open>nanoseconds\<close>

record invoice_line_row =
  il_invoiceID :: string
  il_description :: string
  il_quantity :: int
  il_unitPriceMinor :: int
  il_taxMinor :: int
  il_taxCodeID :: "string option"
  il_rateBasisPoints :: "int option"
  il_priceIncludesTax :: bool

record payment_row =
  pay_id :: string
  pay_orgID :: string
  pay_invoiceID :: string
  pay_amountMinor :: int
  pay_method :: string
  pay_entryID :: "string option"
  pay_receivedAt :: int

record fx_settlement_row =
  fs_orgID :: string
  fs_paymentID :: string
  fs_invoiceID :: string
  fs_currency :: string
  fs_settledForeignMinor :: int
  fs_baseSettledMinor :: int
  fs_gainLossMinor :: int
  fs_settleRateNum :: int
  fs_settleRateDen :: int
  fs_baseEntryID :: string
  fs_foreignEntryID :: string

record receivables = books +
  organizations :: "(string \<times> string) list" \<comment> \<open>id and base currency\<close>
  customers :: "customer_row list"
  tax_profiles :: "(string \<times> string) list" \<comment> \<open>organization and jurisdiction\<close>
  tax_codes :: "tax_code_row list"
  fx_rates :: "fx_rate_row list"
  invoices :: "invoice_row list"
  invoice_lines :: "invoice_line_row list"
  doc_counters :: "((string \<times> string) \<times> int) list"
  payments :: "payment_row list"
  fx_settlements :: "fx_settlement_row list"

section \<open>Instants\<close>

text \<open>
  \<^verbatim>\<open>time.Parse(time.RFC3339Nano, value)\<close> for a value that ends in \<open>Z\<close>: four digits of year,
  two of month and day, one or two of the hour, two of minute and second, an optional
  fraction after a period or a comma of which nine digits count, then \<open>Z\<close> and nothing else.
\<close>

definition take_ndigits :: "nat \<Rightarrow> string \<Rightarrow> (int \<times> string) option" where
  "take_ndigits n s =
     (if n \<le> length s \<and> list_all is_digit (take n s) then Some (digits_value (take n s), drop n s) else None)"

definition take_hour :: "string \<Rightarrow> (int \<times> string) option" where
  "take_hour s = (case take_ndigits 2 s of Some r \<Rightarrow> Some r | None \<Rightarrow> take_ndigits 1 s)"

definition take_char :: "char \<Rightarrow> string \<Rightarrow> string option" where
  "take_char c s = (case s of [] \<Rightarrow> None | d # rest \<Rightarrow> if d = c then Some rest else None)"

definition take_fraction :: "string \<Rightarrow> int \<times> string" where
  "take_fraction s =
     (case s of
        c # d # rest \<Rightarrow>
          if (c = CHR ''.'' \<or> c = CHR '','') \<and> is_digit d
          then let ds = takeWhile is_digit (d # rest); used = take 9 ds
               in (digits_value used * 10 ^ (9 - length used), dropWhile is_digit (d # rest))
          else (0, s)
      | _ \<Rightarrow> (0, s))"

definition leap_year :: "int \<Rightarrow> bool" where
  "leap_year y \<longleftrightarrow> y mod 4 = 0 \<and> (y mod 100 \<noteq> 0 \<or> y mod 400 = 0)"

definition days_in_month :: "int \<Rightarrow> int \<Rightarrow> int" where
  "days_in_month y mo =
     (if mo = 2 then if leap_year y then 29 else 28 else if mo \<in> {4, 6, 9, 11} then 30 else 31)"

text \<open>Days from 1970-01-01 to a civil date, with years counted from March.\<close>

definition days_of_civil :: "int \<Rightarrow> int \<Rightarrow> int \<Rightarrow> int" where
  "days_of_civil y mo d =
     (let y' = (if mo \<le> 2 then y - 1 else y);
          doy = (153 * (if mo > 2 then mo - 3 else mo + 9) + 2) div 5 + d - 1;
          yoe = y' mod 400
      in (y' div 400) * 146097 + yoe * 365 + yoe div 4 - yoe div 100 + doy - 719468)"

definition parseLegacyDateTime :: "string \<Rightarrow> int option" where
  "parseLegacyDateTime value =
     (if \<not> has_suffix value ''Z'' then None else
        Option.bind (take_ndigits 4 value) (\<lambda>(y, s).
        Option.bind (take_char (CHR ''-'') s) (\<lambda>s.
        Option.bind (take_ndigits 2 s) (\<lambda>(mo, s).
        Option.bind (take_char (CHR ''-'') s) (\<lambda>s.
        Option.bind (take_ndigits 2 s) (\<lambda>(d, s).
        Option.bind (take_char (CHR ''T'') s) (\<lambda>s.
        Option.bind (take_hour s) (\<lambda>(h, s).
        Option.bind (take_char (CHR '':'') s) (\<lambda>s.
        Option.bind (take_ndigits 2 s) (\<lambda>(mi, s).
        Option.bind (take_char (CHR '':'') s) (\<lambda>s.
        Option.bind (take_ndigits 2 s) (\<lambda>(sec, s).
          case take_fraction s of (nanos, s) \<Rightarrow>
          if s = ''Z'' \<and> 1 \<le> mo \<and> mo \<le> 12 \<and> 1 \<le> d \<and> d \<le> days_in_month y mo \<and>
             h < 24 \<and> mi < 60 \<and> sec < 60
          then Some ((((days_of_civil y mo d * 24 + h) * 60 + mi) * 60 + sec) * 1000000000 + nanos)
          else None))))))))))))"

section \<open>Invoices\<close>

record createInvoiceLine =
  ci_description :: string
  ci_quantity :: int
  ci_unitPriceMinor :: int
  ci_taxMinor :: "int option"
  ci_taxCodeID :: "string option"

record createInvoiceInput =
  ci_customerID :: string
  ci_memo :: "string option"
  ci_lines :: "createInvoiceLine list"
  ci_currency :: "string option"
  ci_fxRate :: "string option"
  ci_dueAt :: "string option"

record createInvoiceOutput =
  co_invoiceID :: string
  co_invoiceNumber :: int
  co_totalMinor :: int
  co_entryID :: string
  co_currency :: string

record invoiceResolvedLine =
  rl_input :: createInvoiceLine
  rl_netMinor :: int
  rl_taxMinor :: int
  rl_grossMinor :: int
  rl_rateBasisPoints :: "int option"
  rl_priceIncludesTax :: bool
  rl_taxCodeID :: "string option"
  rl_taxLiabilityCode :: string

definition latestFXRate ::
  "string \<Rightarrow> string \<Rightarrow> string \<Rightarrow> int \<Rightarrow> 'a receivables_scheme \<Rightarrow> fxRateSnapshot option result" where
  "latestFXRate orgID base quote at db =
     (case stable_sort (\<lambda>a b. fr_effectiveAt b < fr_effectiveAt a)
             (filter (\<lambda>r. fr_orgID r = orgID \<and> fr_base r = base \<and> fr_quote r = quote \<and> fr_effectiveAt r \<le> at)
               (fx_rates db)) of
        [] \<Rightarrow> Inr None
      | r # _ \<Rightarrow>
          if fr_num r \<le> 0 \<or> fr_den r \<le> 0 \<or> maxSafeInteger < fr_num r \<or> maxDatabaseInteger < fr_den r
          then Inl ''stored FX rate is outside the supported range''
          else Inr (Some \<lparr>Num = fr_num r, Den = fr_den r\<rparr>))"

definition taxed_line ::
  "tax_code_row \<Rightarrow> createInvoiceLine \<Rightarrow> invoiceResolvedLine result" where
  "taxed_line code line =
     bind_result (calculateInvoiceLine (ci_quantity line) (ci_unitPriceMinor line)
                    (Some (tc_rateBasisPoints code)) (tc_priceIncludesTax code) None) (\<lambda>(net, tax, gross).
       Inr \<lparr>rl_input = line, rl_netMinor = net, rl_taxMinor = tax, rl_grossMinor = gross,
            rl_rateBasisPoints = Some (tc_rateBasisPoints code), rl_priceIncludesTax = tc_priceIncludesTax code,
            rl_taxCodeID = ci_taxCodeID line, rl_taxLiabilityCode = tc_liabilityAccountCode code\<rparr>)"

definition resolve_line ::
  "'a receivables_scheme \<Rightarrow> string \<Rightarrow> createInvoiceLine \<Rightarrow> invoiceResolvedLine result" where
  "resolve_line db orgID line =
     (if maxDatabaseInteger < ci_quantity line \<or> maxDatabaseInteger < ci_unitPriceMinor line \<or>
         (case ci_taxMinor line of None \<Rightarrow> False | Some t \<Rightarrow> maxDatabaseInteger < t)
      then Inl ''invoice line amount exceeds the database integer range''
      else
        bind_result
          (case ci_taxCodeID line of
             Some codeID \<Rightarrow>
               (case map_of (tax_profiles db) orgID of
                  None \<Rightarrow> Inl ''set the organization tax jurisdiction before using tax codes''
                | Some jurisdiction \<Rightarrow>
                  (case find (\<lambda>c. tc_id c = codeID \<and> tc_orgID c = orgID) (tax_codes db) of
                     None \<Rightarrow> Inl ''tax code not found or inactive''
                   | Some code \<Rightarrow>
                       if \<not> tc_active code then Inl ''tax code not found or inactive''
                       else if tc_jurisdictionCode code \<noteq> jurisdiction
                       then Inl ''tax code jurisdiction does not match the organization tax profile''
                       else if tc_direction code \<noteq> ''output''
                       then Inl (''tax code is configured for '' @ tc_direction code @ '' tax'')
                       else taxed_line code line))
           | None \<Rightarrow>
               bind_result (calculateInvoiceLine (ci_quantity line) (ci_unitPriceMinor line) None False (ci_taxMinor line))
                 (\<lambda>(net, tax, gross).
                   Inr \<lparr>rl_input = line, rl_netMinor = net, rl_taxMinor = tax, rl_grossMinor = gross,
                        rl_rateBasisPoints = None, rl_priceIncludesTax = False, rl_taxCodeID = None,
                        rl_taxLiabilityCode = ''2100''\<rparr>))
          (\<lambda>last.
            if maxDatabaseInteger < rl_netMinor last \<or> maxDatabaseInteger < rl_taxMinor last \<or>
               maxDatabaseInteger < rl_grossMinor last
            then Inl ''invoice line amount exceeds the database integer range''
            else Inr last))"

definition resolve_step ::
  "'a receivables_scheme \<Rightarrow> string \<Rightarrow> invoiceResolvedLine list \<Rightarrow> createInvoiceLine \<Rightarrow> invoiceResolvedLine list result" where
  "resolve_step db orgID resolved line =
     bind_result (resolve_line db orgID line) (\<lambda>last. Inr (resolved @ [last]))"

text \<open>The resolved lines with subtotal, taxes and total.\<close>

definition resolveInvoiceLines ::
  "string \<Rightarrow> createInvoiceLine list \<Rightarrow> 'a receivables_scheme \<Rightarrow> (invoiceResolvedLine list \<times> int \<times> int \<times> int) result" where
  "resolveInvoiceLines orgID lines db =
     bind_result (fold_result (resolve_step db orgID) [] lines) (\<lambda>resolved.
       let subtotal = sum_list (map rl_netMinor resolved);
           taxes = sum_list (map rl_taxMinor resolved);
           total = sum_list (map rl_grossMinor resolved)
       in if maxSafeInteger < subtotal \<or> maxSafeInteger < taxes \<or> maxSafeInteger < total
          then Inl ''document total exceeds the supported amount range''
          else Inr (resolved, subtotal, taxes, total))"

text \<open>
  The counter row of the organization is created from the highest number in use, or
  incremented when it exists.
\<close>

definition nextInvoiceNumber :: "string \<Rightarrow> 'a receivables_scheme \<Rightarrow> (int \<times> 'a receivables_scheme) result" where
  "nextInvoiceNumber orgID db =
     (let number =
        (case map_of (doc_counters db) (orgID, ''invoice'') of
           Some n \<Rightarrow> n + 1
         | None \<Rightarrow>
             (case map inv_number (filter (\<lambda>i. inv_orgID i = orgID) (invoices db)) of
                [] \<Rightarrow> 0 | n # ns \<Rightarrow> foldr max ns n) + 1)
      in if number \<le> 0 \<or> maxDatabaseInteger < number
         then Inl ''invoice number exceeds the database integer range''
         else Inr (number, db\<lparr>doc_counters := AList.update (orgID, ''invoice'') number (doc_counters db)\<rparr>))"

text \<open>The taxes per liability account, in the order the accounts first appear.\<close>

definition add_tax :: "(string \<times> int) list \<Rightarrow> invoiceResolvedLine \<Rightarrow> (string \<times> int) list" where
  "add_tax acc line =
     (case map_of acc (rl_taxLiabilityCode line) of
        None \<Rightarrow> acc @ [(rl_taxLiabilityCode line, rl_taxMinor line)]
      | Some t \<Rightarrow> AList.update (rl_taxLiabilityCode line) (t + rl_taxMinor line) acc)"

definition tax_by_account :: "invoiceResolvedLine list \<Rightarrow> (string \<times> int) list" where
  "tax_by_account resolved = foldl add_tax [] resolved"

definition invoice_posting_lines :: "int \<Rightarrow> invoiceResolvedLine list \<Rightarrow> journalEntryLineInput list" where
  "invoice_posting_lines totalMinor resolved =
     debit_line ''1100'' totalMinor
     # map (\<lambda>line. credit_line ''4000'' (rl_netMinor line)) (filter (\<lambda>line. rl_netMinor line \<noteq> 0) resolved)
     @ map (\<lambda>(code, tax). credit_line code tax) (filter (\<lambda>(code, tax). tax \<noteq> 0) (tax_by_account resolved))"

definition invoice_currency ::
  "capabilityClaims \<Rightarrow> createInvoiceInput \<Rightarrow> string \<Rightarrow> int \<Rightarrow> 'a receivables_scheme
   \<Rightarrow> (string \<times> fxRateSnapshot option) result" where
  "invoice_currency claims input baseCurrency now db =
     (case ci_currency input of
        None \<Rightarrow> Inr (baseCurrency, None)
      | Some cur \<Rightarrow>
          if cur = [] then Inr (baseCurrency, None)
          else if currencyMinorUnits cur = None then Inl (''unknown currency code: '' @ cur)
          else if cur \<noteq> baseCurrency then
            bind_result
              (case ci_fxRate input of
                 Some r \<Rightarrow> if r \<noteq> [] then bind_result (parseFXRateDecimal r) (\<lambda>rate. Inr (Some rate))
                           else latestFXRate (OrganizationID claims) baseCurrency cur now db
               | None \<Rightarrow> latestFXRate (OrganizationID claims) baseCurrency cur now db)
              (\<lambda>rate. case rate of
                 None \<Rightarrow> Inl (''no FX rate for '' @ baseCurrency @ ''/'' @ cur @ ''; post one with accounting.recordFxRate'')
               | Some r \<Rightarrow>
                   if maxDatabaseInteger < Den r then Inl ''FX rate denominator exceeds the database integer range''
                   else Inr (cur, Some r))
          else if ci_fxRate input \<noteq> None \<and> ci_fxRate input \<noteq> Some []
          then Inl ''fxRate applies only when currency differs from the base''
          else Inr (baseCurrency, None))"

definition invoice_due :: "createInvoiceInput \<Rightarrow> int \<Rightarrow> int \<Rightarrow> int result" where
  "invoice_due input paymentTermDays now =
     (if 3000000 < paymentTermDays then Inl ''customer payment terms exceed the supported date range''
      else case ci_dueAt input of
        None \<Rightarrow> Inr ((if 0 < paymentTermDays then now + paymentTermDays * millis_per_day else now) * 1000000)
      | Some d \<Rightarrow>
          (case parseLegacyDateTime d of
             None \<Rightarrow> Inl ''dueAt must be a UTC ISO datetime''
           | Some t \<Rightarrow> Inr t))"

definition new_invoice_row ::
  "string \<Rightarrow> capabilityClaims \<Rightarrow> createInvoiceInput \<Rightarrow> int \<Rightarrow> string \<Rightarrow> fxRateSnapshot option \<Rightarrow> int \<Rightarrow> int \<Rightarrow> int
   \<Rightarrow> int \<Rightarrow> int \<Rightarrow> invoice_row" where
  "new_invoice_row invoiceID claims input number currency rate subtotalMinor taxMinor totalMinor now dueAt =
     \<lparr>inv_id = invoiceID, inv_orgID = OrganizationID claims, inv_customerID = ci_customerID input,
      inv_number = number, inv_status = ''sent'', inv_currency = currency,
      inv_fxRateNum = map_option Num rate, inv_fxRateDen = map_option Den rate,
      inv_subtotalMinor = subtotalMinor, inv_taxMinor = taxMinor, inv_totalMinor = totalMinor,
      inv_paidMinor = 0, inv_creditedMinor = 0, inv_memo = ci_memo input, inv_issuedAt = now, inv_dueAt = dueAt\<rparr>"

definition new_invoice_line :: "string \<Rightarrow> invoiceResolvedLine \<Rightarrow> invoice_line_row" where
  "new_invoice_line invoiceID line =
     \<lparr>il_invoiceID = invoiceID, il_description = ci_description (rl_input line),
      il_quantity = ci_quantity (rl_input line), il_unitPriceMinor = ci_unitPriceMinor (rl_input line),
      il_taxMinor = rl_taxMinor line, il_taxCodeID = rl_taxCodeID line,
      il_rateBasisPoints = rl_rateBasisPoints line, il_priceIncludesTax = rl_priceIncludesTax line\<rparr>"

definition operational_posting ::
  "capabilityClaims \<Rightarrow> string \<Rightarrow> string \<Rightarrow> string option \<Rightarrow> string option \<Rightarrow> string \<Rightarrow> int
   \<Rightarrow> journalEntryLineInput list \<Rightarrow> postJournalEntryInput" where
  "operational_posting claims memo sourceType sourceID reversalOfID currency now lines =
     \<lparr>pj_orgID = OrganizationID claims, pj_memo = memo, pj_sourceType = sourceType, pj_sourceID = sourceID,
      pj_reversalOfID = reversalOfID, pj_currency = currency, pj_entryKind = [], pj_businessAt = None,
      pj_postedAt = now, pj_actorType = ActorType claims, pj_actorID = ActorID claims, pj_lines = lines\<rparr>"

definition createInvoice ::
  "uuid_source \<Rightarrow> capabilityClaims \<Rightarrow> createInvoiceInput \<Rightarrow> int \<Rightarrow> 'a receivables_scheme
   \<Rightarrow> (createInvoiceOutput \<times> 'a receivables_scheme) result" where
  "createInvoice gen claims input now db =
     (if OrganizationID claims = [] then Inl ''organization id is required''
      else if ci_lines input = [] then Inl ''lines must contain at least one line''
      else case map_of (organizations db) (OrganizationID claims) of
        None \<Rightarrow> Inl ''organization not found''
      | Some baseCurrency \<Rightarrow>
        bind_result (invoice_currency claims input baseCurrency now db) (\<lambda>(currency, rate).
        case find (\<lambda>c. cus_id c = ci_customerID input \<and> cus_orgID c = OrganizationID claims) (customers db) of
          None \<Rightarrow> Inl ''customer not found''
        | Some customer \<Rightarrow>
          bind_result (resolveInvoiceLines (OrganizationID claims) (ci_lines input) db)
            (\<lambda>(resolved, subtotalMinor, taxMinor, totalMinor).
          if totalMinor \<le> 0 then Inl ''invoice total must be greater than zero''
          else if maxDatabaseInteger < subtotalMinor \<or> maxDatabaseInteger < taxMinor \<or> maxDatabaseInteger < totalMinor
          then Inl ''invoice totals exceed the database integer range''
          else
            bind_result (invoice_due input (case cus_paymentTermDays customer of None \<Rightarrow> 0 | Some n \<Rightarrow> n) now) (\<lambda>dueAt.
            bind_result (nextInvoiceNumber (OrganizationID claims) db) (\<lambda>(number, db1).
              let invoiceID = gen (uuid_draws db1);
                  db2 = db1\<lparr>uuid_draws := Suc (uuid_draws db1),
                            invoices := invoices db1 @ [new_invoice_row invoiceID claims input number currency rate
                              subtotalMinor taxMinor totalMinor now dueAt],
                            invoice_lines := invoice_lines db1 @ map (new_invoice_line invoiceID) resolved\<rparr>;
                  memo = ''Invoice '' @ show_int number
                         @ (if currency \<noteq> baseCurrency then '' ('' @ currency @ '')'' else [])
              in bind_result (postJournalEntry gen
                    (operational_posting claims memo ''invoice'' (Some invoiceID) None currency now
                       (invoice_posting_lines totalMinor resolved)) db2) (\<lambda>(entryID, db3).
                 Inr (\<lparr>co_invoiceID = invoiceID, co_invoiceNumber = number, co_totalMinor = totalMinor,
                       co_entryID = entryID, co_currency = currency\<rparr>, db3)))))))"

section \<open>Payments\<close>

record recordPaymentInput =
  rp_invoiceNumber :: int
  rp_amountMinor :: int
  rp_method :: string
  rp_settleFXRate :: "string option"

record recordPaymentOutput =
  ro_paymentID :: string
  ro_entryID :: string
  ro_fullyPaid :: bool
  ro_gainLossMinor :: "int option"
  ro_baseEntryID :: "string option"
  ro_foreignEntryID :: "string option"

record reversePaymentInput =
  vp_paymentID :: string
  vp_reason :: string

record reversePaymentOutput =
  vo_reversalEntryIDs :: "string list"
  vo_refundedMinor :: int
  vo_invoiceNumber :: int
  vo_outstandingMinor :: int

definition fxClearingAccountCode :: string where "fxClearingAccountCode = ''1305''"

definition realizedFXAccountCode :: string where "realizedFXAccountCode = ''7900''"

text \<open>The update of the invoice row \<^verbatim>\<open>WHERE id = ... AND org_id = ...\<close>.\<close>

definition update_invoice ::
  "string \<Rightarrow> string \<Rightarrow> (invoice_row \<Rightarrow> invoice_row) \<Rightarrow> 'a receivables_scheme \<Rightarrow> 'a receivables_scheme" where
  "update_invoice orgID invoiceID f db =
     db\<lparr>invoices := map (\<lambda>i. if inv_id i = invoiceID \<and> inv_orgID i = orgID then f i else i) (invoices db)\<rparr>"

definition insert_payment ::
  "uuid_source \<Rightarrow> string \<Rightarrow> string \<Rightarrow> recordPaymentInput \<Rightarrow> int \<Rightarrow> string \<Rightarrow> 'a receivables_scheme
   \<Rightarrow> string \<times> 'a receivables_scheme" where
  "insert_payment gen orgID invoiceID input now entryID db =
     (gen (uuid_draws db),
      db\<lparr>uuid_draws := Suc (uuid_draws db),
         payments := payments db @ [\<lparr>pay_id = gen (uuid_draws db), pay_orgID = orgID, pay_invoiceID = invoiceID,
           pay_amountMinor = rp_amountMinor input, pay_method = rp_method input, pay_entryID = Some entryID,
           pay_receivedAt = now\<rparr>]\<rparr>)"

definition mark_paid :: "int \<Rightarrow> bool \<Rightarrow> invoice_row \<Rightarrow> invoice_row" where
  "mark_paid paidMinor fullyPaid i =
     i\<lparr>inv_paidMinor := paidMinor, inv_status := (if fullyPaid then ''paid'' else inv_status i)\<rparr>"

definition finishPayment ::
  "uuid_source \<Rightarrow> string \<Rightarrow> invoice_row \<Rightarrow> recordPaymentInput \<Rightarrow> int \<Rightarrow> string \<Rightarrow> 'a receivables_scheme
   \<Rightarrow> recordPaymentOutput \<times> 'a receivables_scheme" where
  "finishPayment gen orgID invoice input now entryID db =
     (case insert_payment gen orgID (inv_id invoice) input now entryID db of (paymentID, db1) \<Rightarrow>
        let paidMinor = inv_paidMinor invoice + rp_amountMinor input;
            fullyPaid = (inv_totalMinor invoice \<le> paidMinor + inv_creditedMinor invoice)
        in (\<lparr>ro_paymentID = paymentID, ro_entryID = entryID, ro_fullyPaid = fullyPaid,
             ro_gainLossMinor = None, ro_baseEntryID = None, ro_foreignEntryID = None\<rparr>,
            update_invoice orgID (inv_id invoice) (mark_paid paidMinor fullyPaid) db1))"

definition settleFXRate ::
  "string \<Rightarrow> string \<Rightarrow> string \<Rightarrow> string option \<Rightarrow> int \<Rightarrow> 'a receivables_scheme \<Rightarrow> fxRateSnapshot option result" where
  "settleFXRate orgID base quote explicit at db =
     (if explicit \<noteq> None \<and> explicit \<noteq> Some []
      then bind_result (parseFXRateDecimal (the explicit)) (\<lambda>rate. Inr (Some rate))
      else latestFXRate orgID base quote at db)"

definition ensureFXAccount ::
  "uuid_source \<Rightarrow> string \<Rightarrow> string \<Rightarrow> string \<Rightarrow> string \<Rightarrow> 'a books_scheme \<Rightarrow> 'a books_scheme" where
  "ensureFXAccount gen orgID code name accountType db =
     (if list_ex (\<lambda>a. acc_orgID a = orgID \<and> acc_code a = code) (accounts db) then db
      else db\<lparr>uuid_draws := Suc (uuid_draws db),
              accounts := accounts db @ [\<lparr>acc_id = gen (uuid_draws db), acc_orgID = orgID, acc_code = code,
                acc_name = name, acc_type = accountType, acc_archived = False\<rparr>]\<rparr>)"

definition fx_base_lines :: "int \<Rightarrow> int \<Rightarrow> journalEntryLineInput list" where
  "fx_base_lines cashBase bookedBase =
     [debit_line ''1000'' cashBase, credit_line fxClearingAccountCode bookedBase]
     @ (if 0 < cashBase - bookedBase then [credit_line realizedFXAccountCode (cashBase - bookedBase)]
        else if cashBase - bookedBase < 0 then [debit_line realizedFXAccountCode (- (cashBase - bookedBase))]
        else [])"

definition booked_base ::
  "invoice_row \<Rightarrow> int \<Rightarrow> int \<Rightarrow> string \<Rightarrow> int result" where
  "booked_base invoice amountMinor cashBase baseCurrency =
     (case (inv_fxRateNum invoice, inv_fxRateDen invoice) of
        (Some n, Some d) \<Rightarrow> toBaseMinorExact amountMinor \<lparr>Num = n, Den = d\<rparr> (inv_currency invoice) baseCurrency
      | _ \<Rightarrow> Inr cashBase)"

text \<open>
  The foreign-currency half of \<^verbatim>\<open>recordPayment\<close>: the two postings and the rows, once the
  amounts in the base currency are known, and before it the settlement rate and the amounts.
\<close>

definition settlement_memo :: "invoice_row \<Rightarrow> int \<Rightarrow> fxRateSnapshot \<Rightarrow> string" where
  "settlement_memo invoice amount rate =
     ''Settlement of invoice '' @ show_int (inv_number invoice) @ '' ('' @ inv_currency invoice @ '' '' @ show_int amount
     @ '') @ '' @ show_int (Num rate) @ ''/'' @ show_int (Den rate)"

definition clearing_memo :: "invoice_row \<Rightarrow> string" where
  "clearing_memo invoice = ''FX clearing of invoice '' @ show_int (inv_number invoice)"

definition post_fx_payment ::
  "uuid_source \<Rightarrow> capabilityClaims \<Rightarrow> recordPaymentInput \<Rightarrow> int \<Rightarrow> invoice_row \<Rightarrow> string \<Rightarrow> fxRateSnapshot \<Rightarrow> int \<Rightarrow> int
   \<Rightarrow> 'a receivables_scheme \<Rightarrow> (recordPaymentOutput \<times> 'a receivables_scheme) result" where
  "post_fx_payment gen claims input now invoice baseCurrency settleRate cashBase bookedBase db =
     (let orgID = OrganizationID claims; currency = inv_currency invoice; amount = rp_amountMinor input;
          gainLoss = cashBase - bookedBase;
          db1 = ensureFXAccount gen orgID fxClearingAccountCode ''FX Clearing'' ''asset'' db;
          db2 = ensureFXAccount gen orgID realizedFXAccountCode ''Realized FX Gain/Loss''
                  (if gainLoss < 0 then ''expense'' else ''income'') db1
      in bind_result (postJournalEntry gen (operational_posting claims
             (settlement_memo invoice amount settleRate) ''payment'' None None baseCurrency now
             (fx_base_lines cashBase bookedBase)) db2) (\<lambda>(baseEntryID, db3).
         bind_result (postJournalEntry gen (operational_posting claims
             (clearing_memo invoice) ''payment'' (Some (inv_id invoice)) None
             currency now [debit_line fxClearingAccountCode amount, credit_line ''1100'' amount]) db3)
           (\<lambda>(foreignEntryID, db4).
         case insert_payment gen orgID (inv_id invoice) input now baseEntryID db4 of (paymentID, db5) \<Rightarrow>
         let db6 = db5\<lparr>fx_settlements := fx_settlements db5 @ [\<lparr>fs_orgID = orgID, fs_paymentID = paymentID,
               fs_invoiceID = inv_id invoice, fs_currency = currency, fs_settledForeignMinor = amount,
               fs_baseSettledMinor = cashBase, fs_gainLossMinor = gainLoss, fs_settleRateNum = Num settleRate,
               fs_settleRateDen = Den settleRate, fs_baseEntryID = baseEntryID,
               fs_foreignEntryID = foreignEntryID\<rparr>]\<rparr>;
             paidMinor = inv_paidMinor invoice + amount;
             fullyPaid = (inv_totalMinor invoice \<le> paidMinor)
         in Inr (\<lparr>ro_paymentID = paymentID, ro_entryID = baseEntryID, ro_fullyPaid = fullyPaid,
                  ro_gainLossMinor = Some gainLoss, ro_baseEntryID = Some baseEntryID,
                  ro_foreignEntryID = Some foreignEntryID\<rparr>,
                 update_invoice orgID (inv_id invoice) (mark_paid paidMinor fullyPaid) db6))))"

definition record_fx_payment ::
  "uuid_source \<Rightarrow> capabilityClaims \<Rightarrow> recordPaymentInput \<Rightarrow> int \<Rightarrow> invoice_row \<Rightarrow> string \<Rightarrow> 'a receivables_scheme
   \<Rightarrow> (recordPaymentOutput \<times> 'a receivables_scheme) result" where
  "record_fx_payment gen claims input now invoice baseCurrency db =
     bind_result (settleFXRate (OrganizationID claims) baseCurrency (inv_currency invoice) (rp_settleFXRate input) now db)
       (\<lambda>rate.
       case rate of
         None \<Rightarrow> Inl (''no settlement rate for '' @ baseCurrency @ ''/'' @ inv_currency invoice)
       | Some settleRate \<Rightarrow>
         if maxDatabaseInteger < Den settleRate
         then Inl ''settlement rate denominator exceeds the database integer range''
         else
           bind_result (toBaseMinorExact (rp_amountMinor input) settleRate (inv_currency invoice) baseCurrency) (\<lambda>cashBase.
           bind_result (booked_base invoice (rp_amountMinor input) cashBase baseCurrency) (\<lambda>bookedBase.
           if maxDatabaseInteger < cashBase \<or> maxDatabaseInteger < bookedBase \<or>
              maxDatabaseInteger < cashBase - bookedBase \<or> cashBase - bookedBase < - maxDatabaseInteger
           then Inl ''FX settlement amount exceeds the database integer range''
           else post_fx_payment gen claims input now invoice baseCurrency settleRate cashBase bookedBase db)))"

definition recordPayment ::
  "uuid_source \<Rightarrow> capabilityClaims \<Rightarrow> recordPaymentInput \<Rightarrow> int \<Rightarrow> 'a receivables_scheme
   \<Rightarrow> (recordPaymentOutput \<times> 'a receivables_scheme) result" where
  "recordPayment gen claims input now db =
     (if maxDatabaseInteger < rp_amountMinor input then Inl ''payment amount exceeds the database integer range''
      else case find (\<lambda>i. inv_orgID i = OrganizationID claims \<and> inv_number i = rp_invoiceNumber input) (invoices db) of
        None \<Rightarrow> Inl ''invoice not found''
      | Some invoice \<Rightarrow>
        if inv_status invoice = ''draft'' \<or> inv_status invoice = ''void''
        then Inl (''document is '' @ inv_status invoice @ '' and cannot receive money'')
        else if inv_totalMinor invoice < 0 \<or> inv_paidMinor invoice < 0 \<or> inv_creditedMinor invoice < 0
        then Inl ''invoice balance contains an invalid negative amount''
        else
          let allocated = i64 (inv_paidMinor invoice + inv_creditedMinor invoice);
              outstanding = max 0 (inv_totalMinor invoice - allocated)
          in if allocated < inv_paidMinor invoice then Inl ''invoice balance exceeds the supported amount range''
             else if outstanding < rp_amountMinor input
             then Inl (''overpayment: outstanding is '' @ show_int outstanding @ '' minor (total '' @
                    show_int (inv_totalMinor invoice) @ '', credited '' @ show_int (inv_creditedMinor invoice) @
                    '', paid '' @ show_int (inv_paidMinor invoice) @ '')'')
             else (case map_of (organizations db) (OrganizationID claims) of
               None \<Rightarrow> Inl ''no rows in result set''
             | Some baseCurrency \<Rightarrow>
               if inv_currency invoice = baseCurrency then
                 bind_result (postJournalEntry gen (operational_posting claims
                     (''Payment for invoice '' @ show_int (inv_number invoice) @ '' ('' @ rp_method input @ '')'')
                     ''payment'' None None baseCurrency now
                     [debit_line ''1000'' (rp_amountMinor input), credit_line ''1100'' (rp_amountMinor input)]) db)
                   (\<lambda>(entryID, db1). Inr (finishPayment gen (OrganizationID claims) invoice input now entryID db1))
               else record_fx_payment gen claims input now invoice baseCurrency db))"

section \<open>Payment reversal\<close>

text \<open>One turn of the loop that posts the mirror of each entry of the payment.\<close>

definition reverse_payment_entry ::
  "uuid_source \<Rightarrow> capabilityClaims \<Rightarrow> invoice_row \<Rightarrow> string \<Rightarrow> int \<Rightarrow> string list \<times> 'a receivables_scheme \<Rightarrow> string
   \<Rightarrow> (string list \<times> 'a receivables_scheme) result" where
  "reverse_payment_entry gen claims invoice memo now st originalID =
     (case st of (reversalIDs, db) \<Rightarrow>
        case find (\<lambda>e. je_id e = originalID \<and> je_orgID e = OrganizationID claims) (journal_entries db) of
          None \<Rightarrow> Inl ''payment has no journal entry to reverse''
        | Some original \<Rightarrow>
            let lines = mirror_lines db (OrganizationID claims) originalID
            in if length lines < 2 then Inl ''payment journal entry has no lines to reverse''
               else bind_result (postJournalEntry gen (operational_posting claims memo ''payment-reversal''
                      (Some (inv_id invoice)) (Some originalID) (je_currency original) now lines) db)
                    (\<lambda>(reversalID, db'). Inr (reversalIDs @ [reversalID], db')))"

definition payment_entry_ids :: "string \<Rightarrow> payment_row \<Rightarrow> string \<Rightarrow> 'a receivables_scheme \<Rightarrow> string list" where
  "payment_entry_ids orgID payment entryID db =
     entryID # (case find (\<lambda>s. fs_orgID s = orgID \<and> fs_paymentID s = pay_id payment) (fx_settlements db) of
                  None \<Rightarrow> [] | Some s \<Rightarrow> [fs_foreignEntryID s])"

definition settle_reversal ::
  "payment_row \<Rightarrow> invoice_row \<Rightarrow> string list \<times> 'a receivables_scheme \<Rightarrow> (reversePaymentOutput \<times> 'a receivables_scheme) result" where
  "settle_reversal payment invoice st =
     (case st of (reversalIDs, db) \<Rightarrow>
        if pay_amountMinor payment \<le> 0 \<or> inv_paidMinor invoice < pay_amountMinor payment
        then Inl ''payment allocation is inconsistent with invoice balance''
        else
          let paidMinor = inv_paidMinor invoice - pay_amountMinor payment;
              allocated = i64 (paidMinor + inv_creditedMinor invoice);
              status = (if \<not> inv_totalMinor invoice \<le> allocated \<and> inv_status invoice = ''paid'' then ''sent''
                        else inv_status invoice)
          in if allocated < paidMinor then Inl ''invoice balance exceeds the supported amount range''
             else Inr (\<lparr>vo_reversalEntryIDs = reversalIDs, vo_refundedMinor = pay_amountMinor payment,
                        vo_invoiceNumber = inv_number invoice,
                        vo_outstandingMinor = max 0 (inv_totalMinor invoice - allocated)\<rparr>,
                       update_invoice (inv_orgID invoice) (inv_id invoice)
                         (\<lambda>i. i\<lparr>inv_paidMinor := paidMinor, inv_status := status\<rparr>) db))"

definition reversePayment ::
  "uuid_source \<Rightarrow> capabilityClaims \<Rightarrow> reversePaymentInput \<Rightarrow> int \<Rightarrow> 'a receivables_scheme
   \<Rightarrow> (reversePaymentOutput \<times> 'a receivables_scheme) result" where
  "reversePayment gen claims input now db =
     (let orgID = OrganizationID claims in
      case find (\<lambda>p. pay_id p = vp_paymentID input \<and> pay_orgID p = orgID) (payments db) of
        None \<Rightarrow> Inl ''payment not found''
      | Some payment \<Rightarrow>
        (case find (\<lambda>i. inv_id i = pay_invoiceID payment \<and> inv_orgID i = orgID) (invoices db) of
           None \<Rightarrow> Inl ''payment's invoice not found''
         | Some invoice \<Rightarrow>
           if inv_status invoice = ''void'' then Inl ''invoice is void; a void compensates its payments''
           else if pay_entryID payment = None \<or> pay_entryID payment = Some []
           then Inl ''payment has no journal entry to reverse''
           else (case find (\<lambda>e. je_id e = the (pay_entryID payment) \<and> je_orgID e = orgID) (journal_entries db) of
             None \<Rightarrow> Inl ''payment has no journal entry to reverse''
           | Some entry \<Rightarrow>
             if je_sourceType entry = ''pos_sale''
             then Inl ''register sales are undone with pos.returnSale, not a payment reversal''
             else
               let entryIDs = payment_entry_ids orgID payment (je_id entry) db;
                   memo = ''Payment reversal for invoice '' @ show_int (inv_number invoice) @ '': '' @ vp_reason input
               in if list_ex (\<lambda>originalID. list_ex (\<lambda>e. je_orgID e = orgID \<and> je_reversalOfID e = Some originalID)
                       (journal_entries db)) entryIDs
                  then Inl ''payment has already been reversed''
                  else bind_result (fold_result (reverse_payment_entry gen claims invoice memo now) ([], db) entryIDs)
                         (settle_reversal payment invoice))))"

section \<open>Credit notes\<close>

record creditNoteInput =
  cn_invoiceID :: string
  cn_amountMinor :: int
  cn_reason :: string

record creditNoteOutput =
  cno_entryID :: string
  cno_creditedMinor :: int
  cno_invoiceBalanceMinor :: int

definition credit_note_lines :: "int \<Rightarrow> int \<Rightarrow> int \<Rightarrow> journalEntryLineInput list" where
  "credit_note_lines amountMinor totalMinor taxMinor =
     (let revenueShare = creditNoteRevenueShare amountMinor totalMinor taxMinor;
          taxShare = amountMinor - revenueShare
      in (if 0 < revenueShare then [debit_line ''4000'' revenueShare] else [])
         @ (if 0 < taxShare then [debit_line ''2100'' taxShare] else [])
         @ [credit_line ''1100'' amountMinor])"

definition credit_note_reversal_of :: "string \<Rightarrow> string \<Rightarrow> 'a books_scheme \<Rightarrow> string option" where
  "credit_note_reversal_of orgID invoiceID db =
     (case find (\<lambda>e. je_orgID e = orgID \<and> je_sourceType e = ''invoice'' \<and> je_sourceID e = Some invoiceID)
             (journal_entries db) of
        None \<Rightarrow> None
      | Some original \<Rightarrow>
          if list_ex (\<lambda>e. je_orgID e = orgID \<and> je_reversalOfID e = Some (je_id original)) (journal_entries db)
          then None else Some (je_id original))"

definition executeCreditNote ::
  "uuid_source \<Rightarrow> capabilityClaims \<Rightarrow> creditNoteInput \<Rightarrow> int \<Rightarrow> 'a receivables_scheme
   \<Rightarrow> (creditNoteOutput \<times> 'a receivables_scheme) result" where
  "executeCreditNote gen claims input now db =
     (let orgID = OrganizationID claims; amount = cn_amountMinor input in
      case find (\<lambda>i. inv_id i = cn_invoiceID input \<and> inv_orgID i = orgID) (invoices db) of
        None \<Rightarrow> Inl ''invoice not found''
      | Some invoice \<Rightarrow>
        if inv_status invoice = ''void'' then Inl ''invoice is void; nothing to credit''
        else
          let balance = inv_totalMinor invoice - inv_paidMinor invoice - inv_creditedMinor invoice
          in if balance < amount
             then Inl (''credit '' @ show_int amount @ '' exceeds the open balance '' @ show_int balance @
                    '' (total '' @ show_int (inv_totalMinor invoice) @ '' - paid '' @ show_int (inv_paidMinor invoice) @
                    '' - credited '' @ show_int (inv_creditedMinor invoice) @ '')'')
             else if inv_totalMinor invoice \<le> 0
             then Inl ''invoice total must be positive to compute a credit note split''
             else bind_result (postJournalEntry gen (operational_posting claims
                    (''Credit note on invoice '' @ show_int (inv_number invoice) @ '': '' @ cn_reason input)
                    ''invoice_credit_note'' (Some (inv_id invoice)) (credit_note_reversal_of orgID (inv_id invoice) db)
                    (inv_currency invoice) now
                    (credit_note_lines amount (inv_totalMinor invoice) (inv_taxMinor invoice))) db) (\<lambda>(entryID, db1).
                  let credited = inv_creditedMinor invoice + amount
                  in Inr (\<lparr>cno_entryID = entryID, cno_creditedMinor = credited,
                           cno_invoiceBalanceMinor = inv_totalMinor invoice - inv_paidMinor invoice - credited\<rparr>,
                          update_invoice orgID (inv_id invoice) (\<lambda>i. i\<lparr>inv_creditedMinor := credited\<rparr>) db1)))"

end
