(* ===== verification/Governance.thy ===== *)
theory Governance
  imports Ledger Claims Receivables
begin

text \<open>
  What the capability pipeline consults before it acts
  (src/apps/api/internal/capability/executor.go): the session and membership behind a call
  (\<^verbatim>\<open>verifyIdentity\<close>), the permissions in force (\<^verbatim>\<open>effectivePermissions\<close>), the module switch
  (\<^verbatim>\<open>isModuleEnabled\<close>) and the approval policy (\<^verbatim>\<open>requiresApproval\<close>). The lower-casing of
  golang.org/x/text is the argument \<open>lower\<close>. \<^verbatim>\<open>sort.Slice\<close> leaves rules that compare equal in no
  particular order; the model keeps the order of the table among them.
\<close>

section \<open>Tables\<close>

record auth_session_row =
  as_id :: string
  as_email :: string
  as_emailVerified :: bool
  as_expiresAt :: int

record agent_session_row =
  ag_id :: string
  ag_orgID :: string
  ag_userID :: string
  ag_status :: string

record policy_row =
  po_orgID :: string
  po_capabilityPattern :: string
  po_maxRiskAutonomous :: string
  po_moneyThresholdMinor :: "int option"
  po_requiresApprovalFor :: json

record approval_row =
  ap_id :: string
  ap_orgID :: string
  ap_sessionID :: "string option"
  ap_requestedByUserID :: "string option"
  ap_capabilityID :: string
  ap_riskClass :: string
  ap_payload :: string
  ap_rationale :: string
  ap_status :: string
  ap_expiresAt :: "int option"
  ap_intentID :: "string option"
  ap_inputHash :: "string option"
  ap_version :: int
  ap_supersedesApprovalID :: "string option"
  ap_decidedByUserID :: "string option"
  ap_decisionComment :: "string option"
  ap_decidedAt :: "int option"

record action_receipt =
  rc_orgID :: string
  rc_intentKey :: string
  rc_capabilityID :: string
  rc_inputHash :: string
  rc_ok :: bool
  rc_data :: string
  rc_error :: string

record job_row =
  jb_id :: string
  jb_orgID :: string
  jb_type :: string
  jb_payload :: string
  jb_status :: string
  jb_attempts :: int
  jb_maxAttempts :: int
  jb_lastError :: "string option"
  jb_availableAt :: int
  jb_createdAt :: int
  jb_leaseOwner :: "string option"
  jb_fencingToken :: int
  jb_leaseExpiresAt :: "int option"
  jb_runID :: "string option"
  jb_runStepIndex :: "int option"
  jb_approvedApprovalID :: "string option"

record governance = ledger_db +
  auth_sessions :: "auth_session_row list"
  memberships :: "(string \<times> string) list" \<comment> \<open>organization and user\<close>
  users :: "(string \<times> string) list" \<comment> \<open>id and email\<close>
  agent_sessions :: "agent_session_row list"
  user_roles :: "(string \<times> string \<times> string) list" \<comment> \<open>organization, user, role\<close>
  role_permissions :: "(string \<times> string \<times> string) list" \<comment> \<open>organization, role, permission key\<close>
  org_modules :: "(string \<times> json option) list" \<comment> \<open>organization and its enabled modules column\<close>
  policies :: "policy_row list"
  approvals :: "approval_row list"
  action_receipts :: "action_receipt list"
  outbox :: "(string \<times> string \<times> string \<times> string) list" \<comment> \<open>organization, kind, dedupe key, payload\<close>
  notifications :: "(string \<times> string) list" \<comment> \<open>organization and title\<close>
  jobs :: "job_row list"
  gov_draws :: nat

section \<open>Identity\<close>

definition ErrSessionInvalid :: string where
  "ErrSessionInvalid = ''authenticated session is no longer valid''"

definition ErrNotMember :: string where
  "ErrNotMember = ''user is not a member of the requested organization''"

definition ErrScopeMismatch :: string where
  "ErrScopeMismatch = ''capability assertion does not match the input''"

definition identity_space_len :: "string \<Rightarrow> nat" where
  "identity_space_len s =
     (if take 3 s = map char_of [239, 187, 191 :: nat] then 3 else space_len s)"

lemma identity_space_len_le: "identity_space_len s \<le> length s"
proof -
  have "length (take 3 s) = 3 \<Longrightarrow> 3 \<le> length s" by simp
  then show ?thesis using space_len_le [of s] by (auto simp: identity_space_len_def simp del: length_take)
qed

function identity_trim_left :: "string \<Rightarrow> string" where
  "identity_trim_left s =
     (if identity_space_len s = 0 then s else identity_trim_left (drop (identity_space_len s) s))"
  by pat_completeness auto
termination
proof (relation "measure length")
  fix s
  assume "identity_space_len s \<noteq> 0"
  then show "(drop (identity_space_len s) s, s) \<in> measure length"
    using identity_space_len_le [of s] by auto
qed simp

declare identity_trim_left.simps [simp del]

fun identity_trim_right :: "string \<Rightarrow> string" where
  "identity_trim_right [] = []"
| "identity_trim_right (c # s) =
     (if identity_trim_left (c # s) = [] then [] else c # identity_trim_right s)"

definition normalizeIdentityEmail :: "(string \<Rightarrow> string) \<Rightarrow> string \<Rightarrow> string" where
  "normalizeIdentityEmail lower value = lower (identity_trim_right (identity_trim_left value))"

definition agent_session_open :: "capabilityClaims \<Rightarrow> 'a governance_scheme \<Rightarrow> bool" where
  "agent_session_open claims db \<longleftrightarrow>
     list_ex (\<lambda>s. ag_id s = AgentSessionID claims \<and> ag_orgID s = OrganizationID claims \<and>
                  ag_userID s = Subject claims \<and> ag_status s = ''open'') (agent_sessions db)"

definition verifyIdentity ::
  "(string \<Rightarrow> string) \<Rightarrow> capabilityClaims \<Rightarrow> int \<Rightarrow> 'a governance_scheme \<Rightarrow> unit result" where
  "verifyIdentity lower claims now db =
     (if AuthSessionID claims = [] then Inl ErrSessionInvalid
      else case find (\<lambda>s. as_id s = AuthSessionID claims \<and> as_emailVerified s \<and> now < as_expiresAt s)
                  (auth_sessions db) of
        None \<Rightarrow> Inl ErrSessionInvalid
      | Some session \<Rightarrow>
          if as_expiresAt session = zero_time \<or> \<not> now < as_expiresAt session then Inl ErrSessionInvalid
          else if (OrganizationID claims, Subject claims) \<notin> set (memberships db) then Inl ErrNotMember
          else (case map_of (users db) (Subject claims) of
            None \<Rightarrow> Inl ErrSessionInvalid
          | Some domainEmail \<Rightarrow>
              if normalizeIdentityEmail lower (as_email session) \<noteq> normalizeIdentityEmail lower domainEmail
              then Inl ErrSessionInvalid
              else if ActorType claims = ''agent'' then
                (if AgentSessionID claims = [] \<or> \<not> isUUID (AgentSessionID claims) then Inl ErrSessionInvalid
                 else if \<not> agent_session_open claims db then Inl ErrSessionInvalid
                 else Inr ())
              else if AgentSessionID claims \<noteq> [] then Inl ErrSessionInvalid
              else Inr ()))"

section \<open>Permissions\<close>

definition role_grants :: "capabilityClaims \<Rightarrow> 'a governance_scheme \<Rightarrow> string list" where
  "role_grants claims db =
     remdups (concat (map (\<lambda>(uo, uu, ur).
         map (\<lambda>(po, pr, key). key)
           (filter (\<lambda>(po, pr, key). pr = ur \<and> po = uo) (role_permissions db)))
       (filter (\<lambda>(uo, uu, ur). uo = OrganizationID claims \<and> uu = Subject claims) (user_roles db))))"

text \<open>One turn of the loop over the permissions of the assertion.\<close>

definition grant_permission :: "string list \<Rightarrow> string list \<Rightarrow> string \<Rightarrow> string list" where
  "grant_permission grants effective permission =
     (if permission = ''*'' \<and> ''*'' \<in> set grants then ''*'' # effective
      else if permission = ''*'' then grants @ effective
      else if permission \<in> set grants \<or> ''*'' \<in> set grants then permission # effective
      else effective)"

definition effectivePermissions :: "capabilityClaims \<Rightarrow> 'a governance_scheme \<Rightarrow> string list" where
  "effectivePermissions claims db =
     foldl (grant_permission (role_grants claims db)) [] (Permissions claims)"

section \<open>Modules\<close>

definition alwaysEnabledModuleIDs :: "string list" where
  "alwaysEnabledModuleIDs = [''settings'', ''iam'', ''signals'', ''routines'', ''operations'']"

text \<open>\<^verbatim>\<open>json.Unmarshal\<close> of a JSON value into a \<^verbatim>\<open>[]string\<close>: a null element leaves the empty string.\<close>

fun string_element :: "json \<Rightarrow> string option" where
  "string_element (JStr s) = Some s"
| "string_element JNull = Some []"
| "string_element _ = None"

fun string_slice :: "json \<Rightarrow> string list option" where
  "string_slice JNull = Some []"
| "string_slice (JArr vs) = those (map string_element vs)"
| "string_slice _ = None"

definition isModuleEnabled :: "string \<Rightarrow> string \<Rightarrow> 'a governance_scheme \<Rightarrow> bool result" where
  "isModuleEnabled orgID moduleID db =
     (if moduleID \<in> set alwaysEnabledModuleIDs then Inr True
      else if orgID = [] then Inr True
      else case map_of (org_modules db) orgID of
        None \<Rightarrow> Inl ''no rows in result set''
      | Some None \<Rightarrow> Inr True
      | Some (Some JNull) \<Rightarrow> Inr True
      | Some (Some value) \<Rightarrow>
          (case string_slice value of
             None \<Rightarrow> Inr False
           | Some modules \<Rightarrow> Inr (moduleID \<in> set modules)))"

section \<open>Approval policy\<close>

record capabilitySpec =
  sp_module :: string
  sp_permission :: string
  sp_risk :: string
  sp_humanOnly :: bool
  sp_approvalExempt :: bool
  sp_oneTimeOutput :: bool
  sp_moneyThresholdMinor :: int
  sp_executionScope :: string
  sp_inverseCapabilityID :: string
  sp_inverseInputSource :: string
  sp_inverseFields :: "string list"

record policyRule =
  CapabilityPattern :: string
  MaxRiskAutonomous :: string
  MoneyThresholdMinor :: "int option"
  RequiresApprovalFor :: "string list"

text \<open>The parsed inputs whose amount the policy looks at, and every other input by its JSON value.\<close>

datatype capability_input =
    CreateInvoiceI createInvoiceInput
  | RecordPaymentI recordPaymentInput
  | ReversePaymentI reversePaymentInput
  | CreditNoteI creditNoteInput
  | PayExpenseClaimI string int
  | PayBillI string int
  | ReverseVendorPaymentI string
  | PosReturnSaleI string
  | PosCompleteSaleI string "posSaleLineInput list"
  | ExecutePayrollRunI string int
  | CreatePurchaseOrderI string "createPurchaseOrderLineInput list"
  | OtherI json

text \<open>The amount pointer and whether the input is one the policy knows.\<close>

fun moneyAmount :: "capability_input \<Rightarrow> int option \<times> bool" where
  "moneyAmount (RecordPaymentI p) = (Some (rp_amountMinor p), True)"
| "moneyAmount (ReversePaymentI p) = (None, True)"
| "moneyAmount (PayExpenseClaimI claim amount) = (Some amount, True)"
| "moneyAmount (PayBillI bill amount) = (Some amount, True)"
| "moneyAmount (ReverseVendorPaymentI payment) = (None, True)"
| "moneyAmount (PosReturnSaleI sale) = (None, True)"
| "moneyAmount (PosCompleteSaleI session lines) =
     (case posComputeSaleTotals lines of
        Inl _ \<Rightarrow> (None, False)
      | Inr (subtotal, tax, t) \<Rightarrow> (Some t, True))"
| "moneyAmount (ExecutePayrollRunI run net) = (Some net, True)"
| "moneyAmount (CreatePurchaseOrderI vendor lines) =
     (case purchaseOrderCommitmentMinor lines of None \<Rightarrow> (None, False) | Some t \<Rightarrow> (Some t, True))"
| "moneyAmount _ = (None, False)"

definition matchesCapability :: "string \<Rightarrow> string \<Rightarrow> bool" where
  "matchesCapability pattern capabilityID =
     (if pattern = ''*'' \<or> pattern = ''*.*'' then True
      else if has_suffix pattern ''.*'' then has_prefix capabilityID (trim_suffix pattern ''*'')
      else pattern = capabilityID)"

definition riskRank :: "string \<Rightarrow> int" where
  "riskRank risk =
     (if risk = ''read'' then 0 else if risk = ''write'' then 1 else if risk = ''money'' then 2
      else if risk = ''identity'' then 3 else if risk = ''destructive'' then 4
      else if risk = ''secret'' then 5 else 0)"

definition policy_rule :: "policy_row \<Rightarrow> policyRule" where
  "policy_rule row =
     \<lparr>CapabilityPattern = po_capabilityPattern row, MaxRiskAutonomous = po_maxRiskAutonomous row,
      MoneyThresholdMinor = po_moneyThresholdMinor row,
      RequiresApprovalFor = (case string_slice (po_requiresApprovalFor row) of None \<Rightarrow> [] | Some rs \<Rightarrow> rs)\<rparr>"

definition matching_rules :: "string \<Rightarrow> string \<Rightarrow> 'a governance_scheme \<Rightarrow> policyRule list" where
  "matching_rules orgID capabilityID db =
     filter (\<lambda>rule. matchesCapability (CapabilityPattern rule) capabilityID)
       (map policy_rule (filter (\<lambda>row. po_orgID row = orgID) (policies db)))"

definition rule_before :: "policyRule \<Rightarrow> policyRule \<Rightarrow> bool" where
  "rule_before a b =
     (if length (CapabilityPattern a) \<noteq> length (CapabilityPattern b)
      then length (CapabilityPattern b) < length (CapabilityPattern a)
      else riskRank (MaxRiskAutonomous a) < riskRank (MaxRiskAutonomous b))"

definition policy_in_force :: "policyRule list \<Rightarrow> int \<Rightarrow> string \<times> int" where
  "policy_in_force matching fallback =
     (case stable_sort rule_before matching of
        [] \<Rightarrow> (''write'', fallback)
      | rule # _ \<Rightarrow> (MaxRiskAutonomous rule,
                     case MoneyThresholdMinor rule of None \<Rightarrow> fallback | Some t \<Rightarrow> t))"

definition quoted :: "string \<Rightarrow> string" where "quoted s = CHR 0x22 # s @ [CHR 0x22]"

definition money_gate :: "capability_input \<Rightarrow> int \<Rightarrow> string option" where
  "money_gate input threshold =
     (case moneyAmount input of
        (Some amount, True) \<Rightarrow>
          if threshold < amount
          then Some (''amount '' @ show_int amount @ '' exceeds autonomous threshold '' @ show_int threshold)
          else None
      | _ \<Rightarrow> Some ''amount is not knowable before execution; human approval required'')"

definition human_strict :: "policyRule list \<Rightarrow> string \<Rightarrow> bool" where
  "human_strict matching risk \<longleftrightarrow>
     list_ex (\<lambda>rule. list_ex (\<lambda>r. r = ''*'' \<or> r = risk) (RequiresApprovalFor rule)) matching"

definition autonomous_gate :: "capabilitySpec \<Rightarrow> capability_input \<Rightarrow> string \<Rightarrow> int \<Rightarrow> bool \<times> string" where
  "autonomous_gate spec input maxRisk threshold =
     (if sp_risk spec = ''identity'' \<or> sp_risk spec = ''destructive''
      then (True, ''risk class '' @ quoted (sp_risk spec) @ '' always requires human authority'')
      else if sp_risk spec = ''money'' then
        (case money_gate input threshold of None \<Rightarrow> (False, ''within policy'') | Some why \<Rightarrow> (True, why))
      else if riskRank maxRisk < riskRank (sp_risk spec)
      then (True, ''org policy caps autonomy at '' @ quoted maxRisk)
      else (False, ''within policy''))"

definition requiresApproval ::
  "capabilityClaims \<Rightarrow> string \<Rightarrow> capabilitySpec \<Rightarrow> capability_input \<Rightarrow> 'a governance_scheme \<Rightarrow> bool \<times> string" where
  "requiresApproval claims capabilityID spec input db =
     (if sp_approvalExempt spec
      then (False, ''private reversible draft staging; final message send remains governed'')
      else
        let matching = matching_rules (OrganizationID claims) capabilityID db
        in if ActorType claims \<notin> set [''human'', ''agent'', ''system''] then (False, ''within policy'')
           else case policy_in_force matching (sp_moneyThresholdMinor spec) of (maxRisk, threshold) \<Rightarrow>
             if ActorType claims = ''human'' then
               (if human_strict matching (sp_risk spec) then
                  (if sp_risk spec = ''money'' then
                     (case money_gate input threshold of None \<Rightarrow> (False, ''within policy'') | Some why \<Rightarrow> (True, why))
                   else (True, ''risk class '' @ quoted (sp_risk spec) @ '' requires human approval by organization policy''))
                else (False, ''within policy''))
             else autonomous_gate spec input maxRisk threshold)"

section \<open>Policy lemmas\<close>

interpretation rule_order: strict_weak_order rule_before
  by unfold_locales (auto simp: rule_before_def split: if_splits)

lemma hd_stable_sort:
  assumes "stable_sort rule_before rules = r # rs"
  shows "r \<in> set rules \<and> (\<forall>q \<in> set rules. \<not> rule_before q r)"
proof -
  have rules: "set rules = set (r # rs)" using set_stable_sort [of rule_before rules] assms by simp
  have "sorted_wrt (\<lambda>a b. \<not> rule_before b a) (r # rs)"
    using rule_order.stable_sort_sorted [of rules] assms by simp
  then show ?thesis unfolding rules using rule_order.irrefl by auto
qed

lemma money_gate_None:
  "money_gate input threshold = None \<longleftrightarrow> (\<exists>amount. moneyAmount input = (Some amount, True) \<and> amount \<le> threshold)"
  by (auto simp: money_gate_def split: prod.splits option.splits bool.splits)

lemma grant_permission_set:
  "set (grant_permission grants effective permission) = set effective \<union>
     (if permission = ''*'' then if ''*'' \<in> set grants then {''*''} else set grants
      else if permission \<in> set grants \<or> ''*'' \<in> set grants then {permission} else {})"
  by (auto simp: grant_permission_def)

lemma foldl_grant_set:
  "set (foldl (grant_permission grants) effective ps) = set effective \<union>
     (\<Union>p \<in> set ps. if p = ''*'' then if ''*'' \<in> set grants then {''*''} else set grants
      else if p \<in> set grants \<or> ''*'' \<in> set grants then {p} else {})"
  by (induction ps arbitrary: effective) (simp_all only: foldl.simps grant_permission_set list.set, auto)

section \<open>Properties of the governance checks\<close>


definition example_spec :: capabilitySpec where
  "example_spec = \<lparr>sp_module = ''accounting'', sp_permission = ''accounting.post'', sp_risk = ''money'',
     sp_humanOnly = False, sp_approvalExempt = False, sp_oneTimeOutput = False, sp_moneyThresholdMinor = 50000,
     sp_executionScope = [], sp_inverseCapabilityID = ''accounting.reversePayment'', sp_inverseInputSource = [], sp_inverseFields = []\<rparr>"

definition example_policy :: "string \<Rightarrow> int option \<Rightarrow> policy_row" where
  "example_policy pattern limit = \<lparr>po_orgID = ''org'', po_capabilityPattern = pattern, po_maxRiskAutonomous = ''write'',
     po_moneyThresholdMinor = limit, po_requiresApprovalFor = JArr [JStr ''money'']\<rparr>"

definition example_governance :: governance where
  "example_governance = \<lparr>ledger_events = [], ledger_next_seq = 1,
     auth_sessions = [\<lparr>as_id = ''s1'', as_email = ''a@b.c'', as_emailVerified = True, as_expiresAt = 2000000000000\<rparr>],
     memberships = [(''org'', ''u1'')], users = [(''u1'', ''a@b.c'')], agent_sessions = [],
     user_roles = [(''org'', ''u1'', ''r1'')], role_permissions = [(''org'', ''r1'', ''accounting.post'')],
     org_modules = [(''org'', None)], policies = [example_policy ''*'' None, example_policy ''accounting.*'' (Some 100)],
     approvals = [], action_receipts = [], outbox = [], notifications = [], jobs = [], gov_draws = 0\<rparr>"

definition agent_claims :: capabilityClaims where
  "agent_claims = \<lparr>Audience = [], Subject = ''u1'', OrganizationID = ''org'', CapabilityID = ''accounting.recordPayment'',
     InputSHA256 = [], ActorID = Some ''u1'', ActorType = ''agent'', Permissions = [''*''], AuthSessionID = ''s1'',
     AgentSessionID = [], IntentID = [], IssuedAt = 0, ExpiresAt = 0\<rparr>"

definition example_pay :: "int \<Rightarrow> capability_input" where
  "example_pay amount = RecordPaymentI \<lparr>rp_invoiceNumber = 1, rp_amountMinor = amount, rp_method = ''cash'', rp_settleFXRate = None\<rparr>"


text \<open>
  The rule in force is the most specific one: when any rule of the organization matches
  the capability, the autonomy and threshold come from a matching rule with the longest
  pattern and, among those, the least autonomous risk class; with no matching rule they are
  write and the threshold the capability declares.
\<close>
theorem most_specific_policy_wins:
  "matching_rules orgID capabilityID db = [] \<and>
     policy_in_force (matching_rules orgID capabilityID db) fallback = (''write'', fallback) \<or>
   (\<exists>rule \<in> set (matching_rules orgID capabilityID db).
      matchesCapability (CapabilityPattern rule) capabilityID \<and>
      policy_in_force (matching_rules orgID capabilityID db) fallback =
        (MaxRiskAutonomous rule, case MoneyThresholdMinor rule of None \<Rightarrow> fallback | Some t \<Rightarrow> t) \<and>
      (\<forall>other. other \<in> set (matching_rules orgID capabilityID db) \<longrightarrow>
         length (CapabilityPattern other) \<le> length (CapabilityPattern rule) \<and>
         (length (CapabilityPattern other) = length (CapabilityPattern rule) \<longrightarrow>
            riskRank (MaxRiskAutonomous rule) \<le> riskRank (MaxRiskAutonomous other))))"
proof (cases "stable_sort rule_before (matching_rules orgID capabilityID db)")
  case Nil
  then have "matching_rules orgID capabilityID db = []"
    using length_stable_sort [of rule_before "matching_rules orgID capabilityID db"] by simp
  then show ?thesis by (simp add: policy_in_force_def stable_sort_def)
next
  case (Cons r rs)
  note r = hd_stable_sort [OF Cons]
  then have "matchesCapability (CapabilityPattern r) capabilityID" by (auto simp: matching_rules_def)
  with r Cons show ?thesis
    by (intro disjI2 bexI [of _ r]) (auto simp: policy_in_force_def rule_before_def not_less split: if_splits)
qed

theorem most_specific_policy_wins_witness:
  "\<exists>rule \<in> set (matching_rules ''org'' ''accounting.recordPayment'' example_governance).
     MoneyThresholdMinor rule = Some 100 \<and> CapabilityPattern rule = ''accounting.*''"
proof -
  have n: "matching_rules ''org'' ''accounting.recordPayment'' example_governance \<noteq> []"
    and all: "\<forall>rule \<in> set (matching_rules ''org'' ''accounting.recordPayment'' example_governance).
      (CapabilityPattern rule, MoneyThresholdMinor rule) \<in> {(''*'', None), (''accounting.*'', Some 100)}"
    and f: "policy_in_force (matching_rules ''org'' ''accounting.recordPayment'' example_governance) 7 = (''write'', 100)"
    by code_simp+
  from most_specific_policy_wins [of "''org''" "''accounting.recordPayment''" example_governance 7] n obtain rule where
    "rule \<in> set (matching_rules ''org'' ''accounting.recordPayment'' example_governance)"
    "policy_in_force (matching_rules ''org'' ''accounting.recordPayment'' example_governance) 7 =
        (MaxRiskAutonomous rule, case MoneyThresholdMinor rule of None \<Rightarrow> 7 | Some t \<Rightarrow> t)" by blast
  with all f show ?thesis by (intro bexI [of _ rule]) auto
qed

text \<open>
  The permissions of a call never exceed what the signed assertion carries or what the
  user's roles grant: the wildcard is in force exactly when both sides have it, and any
  other permission exactly when the roles grant it (by name or by the wildcard) and the
  assertion names it, or the assertion carries the wildcard and the roles grant it by name
  without the wildcard.
\<close>
theorem permissions_are_intersection:
  "(''*'' \<in> set (effectivePermissions claims db) \<longleftrightarrow>
      ''*'' \<in> set (Permissions claims) \<and> ''*'' \<in> set (role_grants claims db)) \<and>
   (p \<noteq> ''*'' \<longrightarrow>
     (p \<in> set (effectivePermissions claims db) \<longleftrightarrow>
       p \<in> set (Permissions claims) \<and> (p \<in> set (role_grants claims db) \<or> ''*'' \<in> set (role_grants claims db)) \<or>
       ''*'' \<in> set (Permissions claims) \<and> p \<in> set (role_grants claims db) \<and> ''*'' \<notin> set (role_grants claims db)))"
  unfolding effectivePermissions_def foldl_grant_set by auto

theorem permissions_are_intersection_witness:
  "''accounting.post'' \<in> set (effectivePermissions agent_claims example_governance) \<and>
   ''*'' \<notin> set (effectivePermissions agent_claims example_governance)"
proof -
  have "role_grants agent_claims example_governance = [''accounting.post'']" "Permissions agent_claims = [''*'']" by code_simp+
  with permissions_are_intersection [of agent_claims example_governance "''accounting.post''"] show ?thesis by simp
qed

text \<open>
  C25. A verified identity is a live one: the auth session exists, its address is verified
  and it expires after now, the subject is a member of the organization and a user whose
  address agrees with the session's, and an agent session is named exactly when the actor is
  an agent, in which case it is an open session of that user in that organization.
\<close>
theorem verified_identity_is_live:
  assumes "verifyIdentity lower claims now db = Inr ()"
  shows "(\<exists>session \<in> set (auth_sessions db). as_id session = AuthSessionID claims \<and> as_emailVerified session \<and>
      now < as_expiresAt session \<and>
      (\<exists>email. map_of (users db) (Subject claims) = Some email \<and>
         normalizeIdentityEmail lower (as_email session) = normalizeIdentityEmail lower email)) \<and>
    (OrganizationID claims, Subject claims) \<in> set (memberships db) \<and>
    (if ActorType claims = ''agent'' then agent_session_open claims db else AgentSessionID claims = [])"
proof -
  from assms obtain session where
    f: "find (\<lambda>s. as_id s = AuthSessionID claims \<and> as_emailVerified s \<and> now < as_expiresAt s) (auth_sessions db) = Some session"
    by (auto simp: verifyIdentity_def split: if_splits option.splits)
  then have "session \<in> set (auth_sessions db)" "as_id session = AuthSessionID claims" "as_emailVerified session"
    "now < as_expiresAt session" by (auto simp: find_Some_iff)
  with assms f show ?thesis by (auto simp: verifyIdentity_def split: if_splits option.splits)
qed

theorem verified_identity_is_live_witness:
  "(''org'', ''u1'') \<in> set (memberships example_governance)"
proof -
  have "verifyIdentity (\<lambda>s. s) (agent_claims\<lparr>ActorType := ''human''\<rparr>) 1700000000000 example_governance = Inr ()" by code_simp
  from verified_identity_is_live [OF this] show ?thesis by (simp add: agent_claims_def)
qed

end
