(* ===== verification/Executor.thy ===== *)
theory Executor
  imports Governance
begin

text \<open>
  The capability pipeline (src/apps/api/internal/capability/executor.go): scope checks,
  identity, module and permission gates, replay of an intent from its receipt, the approval
  gate, the handler, the audit event, the receipt and the finalizer, all in one transaction
  of the organization. A Go error is \<open>Inl\<close> and rolls the transaction back; a returned
  \<^verbatim>\<open>Result\<close> commits. The parsers and handlers of the capabilities are the fields of the
  argument \<open>impl\<close> and work on the business state \<open>domain\<close>; the pipeline is the same for all
  of them. The SHA-256 digest, the identity folding, the uuid generator and the normal form in
  which PostgreSQL returns a \<^verbatim>\<open>jsonb\<close> column are fields of \<open>exec_env\<close>. The SCIM entry (\<^verbatim>\<open>externalSCIM\<close>), the replay check of customer imports,
  the inverse envelope of lead-conversion receipts and the two-pass document OCR are not
  part of the model.
\<close>

section \<open>State and environment\<close>

record 'd exec_db = governance +
  domain :: 'd

record exec_result =
  res_OK :: bool
  res_Data :: string
  res_Error :: string
  res_PendingApproval :: bool
  res_ApprovalID :: string
  res_ApprovalRationale :: string
  res_Replayed :: bool

record exec_env =
  env_digest :: "string \<Rightarrow> string"
  env_lower :: "string \<Rightarrow> string"
  env_uuid :: uuid_source
  env_jsonb :: "string \<Rightarrow> string"
  env_specs :: "(string \<times> capabilitySpec) list"
  env_webhookURL :: string
  env_smtpHost :: string
  env_smtpTo :: string

record 'd capability_impl =
  impl_parse :: "string \<Rightarrow> string \<Rightarrow> capability_input result"
  impl_value :: "capability_input \<Rightarrow> json"
  impl_run :: "capabilityClaims \<Rightarrow> capability_input \<Rightarrow> int \<Rightarrow> 'd \<Rightarrow> (json \<times> 'd) result"

record systemJobLease =
  lease_jobID :: string
  lease_orgID :: string
  lease_owner :: string
  lease_fencingToken :: int
  lease_extensionMS :: int

definition failed :: "string \<Rightarrow> exec_result" where
  "failed message = \<lparr>res_OK = False, res_Data = [], res_Error = message, res_PendingApproval = False,
     res_ApprovalID = [], res_ApprovalRationale = [], res_Replayed = False\<rparr>"

definition pending :: "string \<Rightarrow> string \<Rightarrow> exec_result" where
  "pending approvalID rationale = \<lparr>res_OK = False, res_Data = [], res_Error = ''pending human approval'',
     res_PendingApproval = True, res_ApprovalID = approvalID, res_ApprovalRationale = rationale, res_Replayed = False\<rparr>"

text \<open>How a stage of the pipeline ends: a Go error, an early result, or going on.\<close>

datatype 'x flow = Fail string | Return exec_result | Proceed 'x

fun bind_flow :: "'x flow \<Rightarrow> ('x \<Rightarrow> 'y flow) \<Rightarrow> 'y flow" where
  "bind_flow (Fail e) f = Fail e"
| "bind_flow (Return r) f = Return r"
| "bind_flow (Proceed x) f = f x"

section \<open>Scope checks\<close>

definition minSystemLeaseExtensionMillis :: int where "minSystemLeaseExtensionMillis = 150000"

definition maxSystemLeaseExtensionMillis :: int where "maxSystemLeaseExtensionMillis = 300000"

definition human_bound :: "capabilityClaims \<Rightarrow> bool" where
  "human_bound claims \<longleftrightarrow> ActorType claims = ''human'' \<and> ActorID claims = Some (Subject claims)"

definition exec_scope ::
  "exec_env \<Rightarrow> capabilityClaims \<Rightarrow> string \<Rightarrow> string \<Rightarrow> systemJobLease option \<Rightarrow> bool \<Rightarrow> capabilitySpec flow" where
  "exec_scope env claims capabilityID rawInput lease system =
     (case map_of (env_specs env) capabilityID of
        None \<Rightarrow> Return (failed (''unknown capability: '' @ capabilityID))
      | Some spec \<Rightarrow>
        if CapabilityID claims \<noteq> capabilityID then Return (failed (''unknown capability: '' @ capabilityID))
        else if InputHash (env_digest env) rawInput \<noteq> Inr (InputSHA256 claims) then Fail ErrScopeMismatch
        else if system \<and>
          (ActorType claims \<noteq> ''system'' \<or> Subject claims \<noteq> [] \<or> ActorID claims \<noteq> None \<or> AuthSessionID claims \<noteq> [] \<or>
           AgentSessionID claims \<noteq> [] \<and> \<not> isUUID (AgentSessionID claims) \<or>
           (case lease of None \<Rightarrow> True | Some l \<Rightarrow>
              \<not> isUUID (lease_jobID l) \<or> lease_orgID l \<noteq> OrganizationID claims \<or> lease_owner l = [] \<or>
              200 < length (lease_owner l) \<or> lease_fencingToken l < 1))
        then Fail ErrSessionInvalid
        else if \<not> system \<and>
          (\<not> isUUID (Subject claims) \<or> \<not> isUUID (OrganizationID claims) \<or>
           (case ActorID claims of None \<Rightarrow> True | Some a \<Rightarrow> \<not> isUUID a \<or> a \<noteq> Subject claims))
        then Fail ErrSessionInvalid
        else if sp_humanOnly spec \<and> (system \<or> \<not> human_bound claims \<or> trim_space (AuthSessionID claims) = [])
        then Return (failed ''forbidden: capability requires an authenticated human session'')
        else if capabilityID \<in> set [''crm.saveCustomerView'', ''crm.restoreCustomerView''] \<and>
          (system \<or> \<not> human_bound claims \<or> AuthSessionID claims = [])
        then Fail ErrSessionInvalid
        else Proceed spec)"

section \<open>Admission\<close>

definition lease_ok :: "systemJobLease \<Rightarrow> bool" where
  "lease_ok l \<longleftrightarrow> isUUID (lease_jobID l) \<and> isUUID (lease_orgID l) \<and> lease_owner l \<noteq> [] \<and>
     length (lease_owner l) \<le> 200 \<and> 1 \<le> lease_fencingToken l \<and>
     minSystemLeaseExtensionMillis \<le> lease_extensionMS l \<and> lease_extensionMS l \<le> maxSystemLeaseExtensionMillis"

definition lease_held :: "systemJobLease \<Rightarrow> int \<Rightarrow> job_row \<Rightarrow> bool" where
  "lease_held l clock j \<longleftrightarrow> jb_id j = lease_jobID l \<and> jb_orgID j = lease_orgID l \<and> jb_status j = ''processing'' \<and>
     jb_leaseOwner j = Some (lease_owner l) \<and> jb_fencingToken j = lease_fencingToken l \<and>
     (case jb_leaseExpiresAt j of None \<Rightarrow> False | Some e \<Rightarrow> clock < e)"

definition ErrSystemJobLeaseLost :: string where
  "ErrSystemJobLeaseLost = ''system capability job lease is no longer owned''"

definition requireSystemJobLease ::
  "systemJobLease \<Rightarrow> int \<Rightarrow> 'a governance_scheme \<Rightarrow> 'a governance_scheme result" where
  "requireSystemJobLease l clock db =
     (if \<not> lease_ok l then Inl ErrScopeMismatch
      else if \<not> list_ex (lease_held l clock) (jobs db) then Inl ErrSystemJobLeaseLost
      else Inr (db\<lparr>jobs := map (\<lambda>j. if lease_held l clock j
                  then j\<lparr>jb_leaseExpiresAt := map_option (max (clock + lease_extensionMS l)) (jb_leaseExpiresAt j)\<rparr> else j) (jobs db)\<rparr>))"

definition legacy_marketplace :: "capabilityClaims \<Rightarrow> string \<Rightarrow> bool \<Rightarrow> bool" where
  "legacy_marketplace claims capabilityID system \<longleftrightarrow> \<not> system \<and> ActorType claims = ''human'' \<and>
     capabilityID \<in> set [''creator.listMarketplace'', ''creator.verifyPlugin'']"

definition legacy_notification :: "capabilityClaims \<Rightarrow> string \<Rightarrow> bool \<Rightarrow> bool" where
  "legacy_notification claims capabilityID system \<longleftrightarrow>
     \<not> system \<and> (ActorType claims = ''human'' \<or> ActorType claims = ''agent'') \<and>
     capabilityID \<in> set [''notifications.markRead'', ''notifications.restoreRead'']"

text \<open>The first statement of the transaction: the job lease of a system call, the identity of any other.\<close>

definition exec_enter ::
  "exec_env \<Rightarrow> capabilityClaims \<Rightarrow> systemJobLease option \<Rightarrow> bool \<Rightarrow> int \<Rightarrow> 'a governance_scheme \<Rightarrow> 'a governance_scheme result" where
  "exec_enter env claims lease system now db =
     (if system then (case lease of None \<Rightarrow> Inl ErrScopeMismatch | Some l \<Rightarrow> requireSystemJobLease l now db)
      else bind_result (verifyIdentity (env_lower env) claims now db) (\<lambda>_. Inr db))"

definition exec_admission ::
  "capabilityClaims \<Rightarrow> string \<Rightarrow> capabilitySpec \<Rightarrow> bool \<Rightarrow> 'a governance_scheme \<Rightarrow> unit flow" where
  "exec_admission claims capabilityID spec system db =
     (if \<not> isUUID (OrganizationID claims) then Fail ErrScopeMismatch
      else if system \<and> IntentID claims = [] then Fail ErrScopeMismatch
      else if system \<and> AgentSessionID claims \<noteq> [] \<and>
        \<not> list_ex (\<lambda>s. ag_id s = AgentSessionID claims \<and> ag_orgID s = OrganizationID claims) (agent_sessions db)
      then Fail ErrSessionInvalid
      else if legacy_marketplace claims capabilityID system \<or> legacy_notification claims capabilityID system
      then Proceed ()
      else (case isModuleEnabled (OrganizationID claims) (sp_module spec) db of
              Inl e \<Rightarrow> Fail e
            | Inr enabled \<Rightarrow>
                if enabled then Proceed ()
                else Return (failed (''module '' @ quoted (sp_module spec) @ '' is disabled for this organization''))))"

definition exec_permission ::
  "capabilityClaims \<Rightarrow> string \<Rightarrow> capabilitySpec \<Rightarrow> bool \<Rightarrow> 'a governance_scheme \<Rightarrow> bool" where
  "exec_permission claims capabilityID spec system db \<longleftrightarrow>
     (let permissions = (if system then [sp_permission spec] else effectivePermissions claims db)
      in legacy_marketplace claims capabilityID system \<or> legacy_notification claims capabilityID system \<or>
         \<not> system \<and> capabilityID = ''harness.listCompositions'' \<and> ActorType claims = ''human'' \<and>
           ''iam.admin'' \<in> set permissions \<or>
         ''*'' \<in> set permissions \<or> sp_permission spec \<in> set permissions)"

section \<open>Replay\<close>

definition intent_key :: "capabilityClaims \<Rightarrow> string" where
  "intent_key claims = (if IntentID claims = [] then [] else OrganizationID claims @ '':'' @ IntentID claims)"

definition loadReceipt :: "string \<Rightarrow> string \<Rightarrow> 'a governance_scheme \<Rightarrow> action_receipt option" where
  "loadReceipt orgID key db = find (\<lambda>r. rc_orgID r = orgID \<and> rc_intentKey r = key) (action_receipts db)"

definition loadApprovalByIntent :: "string \<Rightarrow> string \<Rightarrow> 'a governance_scheme \<Rightarrow> approval_row option" where
  "loadApprovalByIntent orgID intentID db =
     find (\<lambda>a. ap_orgID a = orgID \<and> ap_intentID a = Some intentID) (approvals db)"

definition approvalVerificationError :: string where
  "approvalVerificationError = ''approval verification failed for the supplied approval id''"

definition replay_result :: "action_receipt \<Rightarrow> exec_result" where
  "replay_result r = \<lparr>res_OK = rc_ok r, res_Data = rc_data r, res_Error = rc_error r, res_PendingApproval = False,
     res_ApprovalID = [], res_ApprovalRationale = [], res_Replayed = True\<rparr>"

definition approval_state_result :: "approval_row \<Rightarrow> exec_result" where
  "approval_state_result a =
     (if ap_status a \<in> set [''pending'', ''executing'', ''approved''] then pending (ap_id a) (ap_rationale a)
      else if ap_status a = ''executed'' then failed ''action intent already completed; reload the current record''
      else if ap_status a \<in> set [''rejected'', ''expired'', ''failed'']
      then failed (''approval '' @ ap_status a @ ''; use a new action intent to try again'')
      else failed ''approval state is unavailable; reload the current record'')"

definition exec_replay ::
  "capabilityClaims \<Rightarrow> string \<Rightarrow> string \<Rightarrow> string \<Rightarrow> bool \<Rightarrow> 'a governance_scheme \<Rightarrow> unit flow" where
  "exec_replay claims capabilityID inputHash approvedApprovalID finalizing db =
     (if IntentID claims = [] then Proceed ()
      else case loadReceipt (OrganizationID claims) (intent_key claims) db of
        Some prior \<Rightarrow>
          if rc_capabilityID prior \<noteq> capabilityID
          then Return (failed (''action intent conflict: key already used for '' @ rc_capabilityID prior))
          else if rc_inputHash prior \<noteq> inputHash
          then Return (failed ''action intent conflict: same action key used with a different payload'')
          else Return (replay_result prior)
      | None \<Rightarrow>
          (case loadApprovalByIntent (OrganizationID claims) (IntentID claims) db of
             None \<Rightarrow> Proceed ()
           | Some approval \<Rightarrow>
               if ap_inputHash approval = None then Fail ''cannot scan NULL into *string''
               else if ap_capabilityID approval \<noteq> capabilityID
               then Return (failed (''action intent conflict: key already used for '' @ ap_capabilityID approval))
               else if ap_inputHash approval \<noteq> Some inputHash
               then Return (failed ''action intent conflict: same action key used with a different payload'')
               else if approvedApprovalID \<noteq> [] then
                 (if ap_id approval \<noteq> approvedApprovalID \<or>
                     ap_status approval \<noteq> ''approved'' \<and> ap_status approval \<noteq> ''executing''
                  then Return (failed approvalVerificationError) else Proceed ())
               else if finalizing \<and> ap_status approval = ''executing'' then Proceed ()
               else Return (approval_state_result approval)))"

section \<open>Requesting approval\<close>

definition approvalTTL :: int where "approvalTTL = 7 * millis_per_day"

text \<open>Whether a byte string is valid UTF-8, as the database demands of a text column.\<close>

function utf8_valid :: "string \<Rightarrow> bool" where
  "utf8_valid [] = True"
| "utf8_valid (c # s) =
     (if utf8_len (c # s) = 0 then False else utf8_valid (drop (utf8_len (c # s)) (c # s)))"
  by pat_completeness auto
termination
  by (relation "measure length") (auto simp del: utf8_len.simps)

definition insertOutbox ::
  "exec_env \<Rightarrow> string \<Rightarrow> string \<Rightarrow> string \<Rightarrow> json \<Rightarrow> json \<Rightarrow> 'a governance_scheme \<Rightarrow> 'a governance_scheme result" where
  "insertOutbox env orgID kind keyKind keyValue payload db =
     (case decodeJSON (marshalJS keyValue) of
        None \<Rightarrow> Inl ''invalid JSON''
      | Some keyObject \<Rightarrow>
          let dedupeKey = ''notification:'' @ keyKind @ '':'' @ env_digest env (marshalJS keyObject)
          in if list_ex (\<lambda>(o', k, d, p). o' = orgID \<and> d = dedupeKey) (outbox db) then Inr db
             else Inr (db\<lparr>outbox := outbox db @ [(orgID, kind, dedupeKey, env_jsonb env (marshalJS payload))]\<rparr>))"

definition approval_email_text :: "string \<Rightarrow> string \<Rightarrow> string \<Rightarrow> string" where
  "approval_email_text capabilityID risk rationale =
     ''An action is waiting for human approval.'' @ [CHR 0x0A, CHR 0x0A] @ ''Capability: '' @ capabilityID @ [CHR 0x0A]
     @ ''Risk class: '' @ risk @ [CHR 0x0A] @ ''Rationale: '' @ rationale @ [CHR 0x0A, CHR 0x0A]
     @ ''Open the Approvals inbox to decide.''"

definition enqueueApprovalNotifications ::
  "exec_env \<Rightarrow> string \<Rightarrow> string \<Rightarrow> string \<Rightarrow> string \<Rightarrow> json \<Rightarrow> 'a governance_scheme \<Rightarrow> 'a governance_scheme result" where
  "enqueueApprovalNotifications env orgID capabilityID risk rationale request db =
     bind_result
       (if env_webhookURL env = [] then Inr db
        else insertOutbox env orgID ''webhook'' ''approval.webhook''
               (JObj [(''orgId'', JStr orgID), (''req'', request)])
               (JObj [(''body'', JObj [(''event'', JStr ''approval.requested''), (''capabilityId'', JStr capabilityID),
                        (''risk'', JStr risk), (''rationale'', JStr rationale)]),
                      (''url'', JStr (env_webhookURL env))]) db) (\<lambda>db1.
     if env_smtpHost env = [] \<or> env_smtpTo env = [] then Inr db1
     else insertOutbox env orgID ''email'' ''approval.email''
            (JObj [(''orgId'', JStr orgID), (''req'', request)])
            (JObj [(''subject'', JStr (''[Chaste] Approval needed: '' @ capabilityID)),
                   (''text'', JStr (approval_email_text capabilityID risk rationale)),
                   (''to'', JStr (env_smtpTo env))]) db1)"

definition bestEffortApprovalFeed :: "string \<Rightarrow> string \<Rightarrow> string \<Rightarrow> 'a governance_scheme \<Rightarrow> 'a governance_scheme" where
  "bestEffortApprovalFeed orgID capabilityID rationale db =
     (let title = take 200 (capabilityID @ '' needs approval - '' @ rationale)
      in if utf8_valid title then db\<lparr>notifications := notifications db @ [(orgID, title)]\<rparr> else db)"

definition optional :: "string \<Rightarrow> string option" where
  "optional s = (if s = [] then None else Some s)"

text \<open>
  Purchase commitments supersede the requester's earlier pending proposals of the same
  capability: the result is the version, the first superseded approval and the table.
\<close>

definition supersede ::
  "capabilityClaims \<Rightarrow> string \<Rightarrow> string \<Rightarrow> int \<Rightarrow> approval_row list \<Rightarrow> int \<times> string option \<times> approval_row list" where
  "supersede claims capabilityID risk now rows =
     (let mine = (\<lambda>a. ap_orgID a = OrganizationID claims \<and> ap_capabilityID a = capabilityID \<and>
                       ap_requestedByUserID a = Some (Subject claims));
          old = (\<lambda>a. mine a \<and> ap_status a = ''pending'')
      in if ActorType claims \<noteq> ''system'' \<and> risk = ''money'' \<and>
            capabilityID \<in> set [''purchasing.createPurchaseOrder'', ''purchasing.selectWinningQuote'']
         then (foldr max (map ap_version (filter mine rows)) 0 + 1,
               map_option ap_id (find old rows),
               map (\<lambda>a. if old a then a\<lparr>ap_status := ''superseded'', ap_decidedAt := Some now,
                      ap_decisionComment := Some ''Superseded by a newer proposal version''\<rparr> else a) rows)
         else (1, None, rows))"

definition approval_request ::
  "string \<Rightarrow> string \<Rightarrow> json \<Rightarrow> string \<Rightarrow> int \<Rightarrow> string option \<Rightarrow> json" where
  "approval_request capabilityID risk value rationale version supersedes =
     JObj ([(''capabilityId'', JStr capabilityID), (''riskClass'', JStr risk), (''payload'', value),
            (''rationale'', JStr rationale), (''version'', JNum (show_int version))]
           @ (case supersedes of None \<Rightarrow> [] | Some a \<Rightarrow> [(''supersedesApprovalId'', JStr a)]))"

definition requestApproval ::
  "exec_env \<Rightarrow> capabilityClaims \<Rightarrow> string \<Rightarrow> string \<Rightarrow> json \<Rightarrow> string \<Rightarrow> string \<Rightarrow> int
   \<Rightarrow> 'a governance_scheme \<Rightarrow> (string \<times> 'a governance_scheme) result" where
  "requestApproval env claims capabilityID risk value inputHash rationale now db =
     (case supersede claims capabilityID risk now (approvals db) of (version, supersedes, rows) \<Rightarrow>
        let approvalID = env_uuid env (gov_draws db);
            row = \<lparr>ap_id = approvalID, ap_orgID = OrganizationID claims, ap_sessionID = optional (AgentSessionID claims),
                   ap_requestedByUserID = (if ActorType claims \<noteq> ''system'' then Some (Subject claims) else None),
                   ap_capabilityID = capabilityID, ap_riskClass = risk, ap_payload = env_jsonb env (marshalJS value),
                   ap_rationale = rationale, ap_status = ''pending'', ap_expiresAt = Some (now + approvalTTL),
                   ap_intentID = optional (IntentID claims),
                   ap_inputHash = (if IntentID claims = [] then None else Some inputHash),
                   ap_version = version, ap_supersedesApprovalID = supersedes, ap_decidedByUserID = None,
                   ap_decisionComment = None, ap_decidedAt = None\<rparr>;
            request = approval_request capabilityID risk value rationale version supersedes;
            db1 = db\<lparr>approvals := rows @ [row], gov_draws := Suc (gov_draws db)\<rparr>
        in bind_result (enqueueApprovalNotifications env (OrganizationID claims) capabilityID risk rationale request db1) (\<lambda>db2.
           bind_result (AppendTx (env_digest env)
             \<lparr>ev_orgID = OrganizationID claims, ev_actorType = ActorType claims, ev_actorID = ActorID claims,
              ev_kind = ''approval.requested'', ev_capabilityID = Some capabilityID,
              ev_sessionID = optional (AgentSessionID claims), ev_authSessionID = None,
              ev_payload = marshalJS request, ev_occurredAt = now * 1000000\<rparr>
             (bestEffortApprovalFeed (OrganizationID claims) capabilityID rationale db2)) (\<lambda>(seq, hash, db3).
           Inr (approvalID, db3))))"

definition verifySystemApproval ::
  "(string \<Rightarrow> string) \<Rightarrow> string \<Rightarrow> string \<Rightarrow> string \<Rightarrow> string \<Rightarrow> int \<Rightarrow> 'a governance_scheme \<Rightarrow> bool" where
  "verifySystemApproval H orgID capabilityID approvalID inputHash now db =
     (case find (\<lambda>a. ap_id a = approvalID \<and> ap_orgID a = orgID) (approvals db) of
        None \<Rightarrow> False
      | Some a \<Rightarrow>
          ap_capabilityID a = capabilityID \<and> (case ap_expiresAt a of None \<Rightarrow> True | Some t \<Rightarrow> now < t) \<and>
          ap_status a = ''executing'' \<and> InputHash H (ap_payload a) = Inr inputHash)"

text \<open>
  The approval gate: the early result with the state it leaves behind, or the state to go on
  with. The third component says whether the gate ended the call.
\<close>

definition exec_gate ::
  "exec_env \<Rightarrow> capabilityClaims \<Rightarrow> string \<Rightarrow> capabilitySpec \<Rightarrow> capability_input \<Rightarrow> json \<Rightarrow> string \<Rightarrow> bool \<Rightarrow> string \<Rightarrow> bool
   \<Rightarrow> int \<Rightarrow> 'a governance_scheme \<Rightarrow> (exec_result option \<times> 'a governance_scheme) result" where
  "exec_gate env claims capabilityID spec input value inputHash system approvedApprovalID finalizing now db =
     (case (if legacy_notification claims capabilityID system then (False, ''within policy'')
            else requiresApproval claims capabilityID spec input db) of (required, rationale) \<Rightarrow>
        if \<not> required then Inr (None, db)
        else if system \<and> approvedApprovalID = [] \<and> sp_risk spec = ''money''
        then Inr (Some (failed ''system money actions require a verified human approval''), db)
        else if system \<and> approvedApprovalID \<noteq> [] \<and>
          \<not> verifySystemApproval (env_digest env) (OrganizationID claims) capabilityID approvedApprovalID inputHash now db
        then Inr (Some (failed approvalVerificationError), db)
        else if sp_oneTimeOutput spec
        then Inr (Some (failed ''one-time secret output cannot be deferred for approval''), db)
        else if approvedApprovalID = [] then
          (if finalizing then Inr (None, db)
           else bind_result (requestApproval env claims capabilityID (sp_risk spec) value inputHash rationale now db)
                  (\<lambda>(approvalID, db1). Inr (Some (pending approvalID rationale), db1)))
        else
          bind_result (AppendTx (env_digest env)
            \<lparr>ev_orgID = OrganizationID claims, ev_actorType = ActorType claims, ev_actorID = ActorID claims,
             ev_kind = ''approval.granted'', ev_capabilityID = Some capabilityID, ev_sessionID = None,
             ev_authSessionID = None,
             ev_payload = marshalJS (JObj [(''capabilityId'', JStr capabilityID), (''approvalId'', JStr approvedApprovalID)]),
             ev_occurredAt = now * 1000000\<rparr> db) (\<lambda>(seq, hash, db1). Inr (None, db1)))"

section \<open>The effect\<close>

definition insertReceipt ::
  "exec_env \<Rightarrow> string \<Rightarrow> string \<Rightarrow> string \<Rightarrow> string \<Rightarrow> exec_result \<Rightarrow> 'a governance_scheme \<Rightarrow> 'a governance_scheme result" where
  "insertReceipt env orgID key capabilityID inputHash result db =
     (if list_ex (\<lambda>r. rc_orgID r = orgID \<and> rc_intentKey r = key) (action_receipts db)
      then Inl ''duplicate key value violates unique constraint action_receipt_org_intent_idx''
      else Inr (db\<lparr>action_receipts := action_receipts db @
             [\<lparr>rc_orgID = orgID, rc_intentKey = key, rc_capabilityID = capabilityID, rc_inputHash = inputHash,
               rc_ok = res_OK result, rc_data = env_jsonb env (res_Data result), rc_error = res_Error result\<rparr>]\<rparr>))"

definition executed_result :: "json \<Rightarrow> exec_result" where
  "executed_result output = \<lparr>res_OK = True, res_Data = marshalJS output, res_Error = [], res_PendingApproval = False,
     res_ApprovalID = [], res_ApprovalRationale = [], res_Replayed = False\<rparr>"

definition executed_event :: "capabilityClaims \<Rightarrow> string \<Rightarrow> capabilitySpec \<Rightarrow> json \<Rightarrow> int \<Rightarrow> append_event" where
  "executed_event claims capabilityID spec value now =
     \<lparr>ev_orgID = OrganizationID claims, ev_actorType = ActorType claims, ev_actorID = ActorID claims,
      ev_kind = ''capability.executed'', ev_capabilityID = Some capabilityID,
      ev_sessionID = optional (AgentSessionID claims), ev_authSessionID = None,
      ev_payload = marshalJS (JObj [(''input'',
        if sp_risk spec = ''secret'' then JStr ''[REDACTED: secret-class]'' else value)]),
      ev_occurredAt = now * 1000000\<rparr>"

definition exec_effect ::
  "exec_env \<Rightarrow> 'd capability_impl \<Rightarrow> capabilityClaims \<Rightarrow> string \<Rightarrow> capabilitySpec \<Rightarrow> capability_input \<Rightarrow> string
   \<Rightarrow> ('d exec_db \<Rightarrow> 'd exec_db result) option \<Rightarrow> int \<Rightarrow> 'd exec_db \<Rightarrow> (exec_result \<times> 'd exec_db) result" where
  "exec_effect env impl claims capabilityID spec input inputHash finalize now db =
     bind_result (impl_run impl claims input now (domain db)) (\<lambda>(output, effect).
     bind_result (AppendTx (env_digest env) (executed_event claims capabilityID spec (impl_value impl input) now)
       (db\<lparr>domain := effect\<rparr>)) (\<lambda>(seq, hash, db1).
     let result = executed_result output
     in bind_result (if intent_key claims = [] then Inr db1
                     else insertReceipt env (OrganizationID claims) (intent_key claims) capabilityID inputHash result db1) (\<lambda>db2.
        bind_result (case finalize of None \<Rightarrow> Inr db2 | Some f \<Rightarrow> f db2) (\<lambda>db3. Inr (result, db3)))))"

section \<open>The pipeline\<close>

definition exec_checks ::
  "exec_env \<Rightarrow> 'd capability_impl \<Rightarrow> capabilityClaims \<Rightarrow> string \<Rightarrow> string \<Rightarrow> capabilitySpec \<Rightarrow> bool \<Rightarrow> string \<Rightarrow> bool
   \<Rightarrow> 'a governance_scheme \<Rightarrow> (capability_input \<times> string) flow" where
  "exec_checks env impl claims capabilityID rawInput spec system approvedApprovalID finalizing db =
     bind_flow (exec_admission claims capabilityID spec system db) (\<lambda>_.
     case impl_parse impl capabilityID rawInput of
       Inl e \<Rightarrow> Return (failed (''invalid input: '' @ e))
     | Inr input \<Rightarrow>
         (case canonicalHash (env_digest env) (impl_value impl input) of
            Inl e \<Rightarrow> Fail e
          | Inr inputHash \<Rightarrow>
              if \<not> exec_permission claims capabilityID spec system db
              then Return (failed (''forbidden: missing permission: '' @ sp_permission spec))
              else bind_flow (exec_replay claims capabilityID inputHash approvedApprovalID finalizing db)
                     (\<lambda>_. Proceed (input, inputHash))))"

definition ErrMissingOrgID :: string where "ErrMissingOrgID = ''organization id is required''"

definition executeWithFinalizer ::
  "exec_env \<Rightarrow> 'd capability_impl \<Rightarrow> capabilityClaims \<Rightarrow> string \<Rightarrow> string \<Rightarrow> bool \<Rightarrow> string
   \<Rightarrow> ('d exec_db \<Rightarrow> 'd exec_db result) option \<Rightarrow> systemJobLease option \<Rightarrow> int \<Rightarrow> 'd exec_db
   \<Rightarrow> (exec_result \<times> 'd exec_db) result" where
  "executeWithFinalizer env impl claims capabilityID rawInput system approvedApprovalID finalize lease now db =
     (case exec_scope env claims capabilityID rawInput lease system of
        Fail e \<Rightarrow> Inl e
      | Return r \<Rightarrow> Inr (r, db)
      | Proceed spec \<Rightarrow>
          if OrganizationID claims = [] then Inl ErrMissingOrgID
          else bind_result (exec_enter env claims lease system now db) (\<lambda>db1.
            case exec_checks env impl claims capabilityID rawInput spec system approvedApprovalID (finalize \<noteq> None) db1 of
              Fail e \<Rightarrow> Inl e
            | Return r \<Rightarrow> Inr (r, db1)
            | Proceed (input, inputHash) \<Rightarrow>
                bind_result (exec_gate env claims capabilityID spec input (impl_value impl input) inputHash system
                    approvedApprovalID (finalize \<noteq> None) now db1) (\<lambda>(early, db2).
                case early of
                  Some r \<Rightarrow> Inr (r, db2)
                | None \<Rightarrow> exec_effect env impl claims capabilityID spec input inputHash finalize now db2)))"

definition execute_call ::
  "exec_env \<Rightarrow> 'd capability_impl \<Rightarrow> capabilityClaims \<Rightarrow> string \<Rightarrow> string \<Rightarrow> bool \<Rightarrow> string
   \<Rightarrow> systemJobLease option \<Rightarrow> int \<Rightarrow> 'd exec_db \<Rightarrow> (exec_result \<times> 'd exec_db) result" where
  "execute_call env impl claims capabilityID rawInput system approvedApprovalID lease now db =
     executeWithFinalizer env impl claims capabilityID rawInput system approvedApprovalID None lease now db"

definition Execute ::
  "exec_env \<Rightarrow> 'd capability_impl \<Rightarrow> capabilityClaims \<Rightarrow> string \<Rightarrow> string \<Rightarrow> int \<Rightarrow> 'd exec_db
   \<Rightarrow> (exec_result \<times> 'd exec_db) result" where
  "Execute env impl claims capabilityID rawInput now db =
     execute_call env impl claims capabilityID rawInput False [] None now db"

definition ExecuteWithApprovalFinalizer ::
  "exec_env \<Rightarrow> 'd capability_impl \<Rightarrow> capabilityClaims \<Rightarrow> string \<Rightarrow> string \<Rightarrow> ('d exec_db \<Rightarrow> 'd exec_db result) option
   \<Rightarrow> int \<Rightarrow> 'd exec_db \<Rightarrow> (exec_result \<times> 'd exec_db) result" where
  "ExecuteWithApprovalFinalizer env impl claims capabilityID rawInput finalize now db =
     (case finalize of
        None \<Rightarrow> Inl ''approval finalizer is required''
      | Some f \<Rightarrow> executeWithFinalizer env impl claims capabilityID rawInput False [] (Some f) None now db)"

record systemClaims =
  sy_OrganizationID :: string
  sy_CapabilityID :: string
  sy_Permission :: string
  sy_IntentID :: string
  sy_ApprovedApprovalID :: string
  sy_AgentSessionID :: string
  sy_JobID :: string
  sy_LeaseOwner :: string
  sy_FencingToken :: int
  sy_LeaseExtensionMillis :: int

definition CapabilityExecuteAudience :: string where
  "CapabilityExecuteAudience = ''go.capability.execute''"

definition system_claims :: "systemClaims \<Rightarrow> capabilitySpec \<Rightarrow> string \<Rightarrow> capabilityClaims" where
  "system_claims request spec digest =
     \<lparr>Audience = CapabilityExecuteAudience, Subject = [], OrganizationID = sy_OrganizationID request,
      CapabilityID = sy_CapabilityID request, InputSHA256 = digest, ActorID = None, ActorType = ''system'',
      Permissions = [sp_permission spec], AuthSessionID = [], AgentSessionID = sy_AgentSessionID request,
      IntentID = sy_IntentID request, IssuedAt = 0, ExpiresAt = 0\<rparr>"

definition system_lease :: "systemClaims \<Rightarrow> systemJobLease" where
  "system_lease request =
     \<lparr>lease_jobID = sy_JobID request, lease_orgID = sy_OrganizationID request, lease_owner = sy_LeaseOwner request,
      lease_fencingToken = sy_FencingToken request, lease_extensionMS = sy_LeaseExtensionMillis request\<rparr>"

definition ErrSystemPermissionMismatch :: string where
  "ErrSystemPermissionMismatch = ''system capability permission does not match its declaration''"

definition ExecuteSystem ::
  "exec_env \<Rightarrow> 'd capability_impl \<Rightarrow> systemClaims \<Rightarrow> string \<Rightarrow> int \<Rightarrow> 'd exec_db \<Rightarrow> (exec_result \<times> 'd exec_db) result" where
  "ExecuteSystem env impl request rawInput now db =
     (case map_of (env_specs env) (sy_CapabilityID request) of
        None \<Rightarrow> Inr (failed (''unknown capability: '' @ sy_CapabilityID request), db)
      | Some spec \<Rightarrow>
          if \<not> isUUID (sy_IntentID request) \<or> \<not> lease_ok (system_lease request) then Inl ErrScopeMismatch
          else if sy_Permission request \<noteq> sp_permission spec then Inl ErrSystemPermissionMismatch
          else if sy_ApprovedApprovalID request \<noteq> [] \<and> \<not> isUUID (sy_ApprovedApprovalID request) then Inl ErrScopeMismatch
          else if sy_AgentSessionID request \<noteq> [] \<and> \<not> isUUID (sy_AgentSessionID request) then Inl ErrScopeMismatch
          else bind_result (InputHash (env_digest env) rawInput) (\<lambda>digest.
            execute_call env impl (system_claims request spec digest) (sy_CapabilityID request) rawInput True
              (sy_ApprovedApprovalID request) (Some (system_lease request)) now db))"

definition RequiresActionIntent :: "exec_env \<Rightarrow> string \<Rightarrow> bool" where
  "RequiresActionIntent env capabilityID =
     (case map_of (env_specs env) capabilityID of
        None \<Rightarrow> False
      | Some spec \<Rightarrow> sp_risk spec \<in> set [''money'', ''destructive'', ''identity''])"

section \<open>What each stage leaves alone\<close>

lemma ledger_ok_cong:
  "ledger_events db' = ledger_events db \<Longrightarrow> ledger_next_seq db' = ledger_next_seq db \<Longrightarrow> ledger_ok H db' = ledger_ok H db"
  by (simp add: ledger_ok_def)

lemma exec_enter_frame:
  assumes "exec_enter env claims lease system now db = Inr db1"
  shows "db1 = db\<lparr>jobs := jobs db1\<rparr>" and "\<not> system \<Longrightarrow> db1 = db"
  using assms by (auto simp: exec_enter_def requireSystemJobLease_def split: if_splits option.splits)

lemma insertOutbox_frame:
  "insertOutbox env orgID kind keyKind keyValue payload db = Inr db' \<Longrightarrow> db' = db\<lparr>outbox := outbox db'\<rparr>"
  by (auto simp: insertOutbox_def Let_def split: option.splits if_splits)

lemma outbox_frame_trans:
  assumes "db1 = db\<lparr>outbox := outbox db1\<rparr>" and "db2 = db1\<lparr>outbox := outbox db2\<rparr>"
  shows "db2 = db\<lparr>outbox := outbox db2\<rparr>"
proof -
  from assms obtain xs ys where "db1 = db\<lparr>outbox := xs\<rparr>" "db2 = db1\<lparr>outbox := ys\<rparr>" by blast
  then show ?thesis by simp
qed

lemma enqueueApprovalNotifications_frame:
  assumes "enqueueApprovalNotifications env orgID capabilityID risk rationale request db = Inr db'"
  shows "db' = db\<lparr>outbox := outbox db'\<rparr>"
  using assms unfolding enqueueApprovalNotifications_def
  apply (rule bind_result_InrE)
  subgoal for db1
    by (rule outbox_frame_trans [of db1]) (auto split: if_splits dest: insertOutbox_frame)
  done

lemma bestEffortApprovalFeed_frame:
  "bestEffortApprovalFeed orgID capabilityID rationale db =
     db\<lparr>notifications := notifications (bestEffortApprovalFeed orgID capabilityID rationale db)\<rparr>"
  by (simp add: bestEffortApprovalFeed_def Let_def)

definition requested_row ::
  "exec_env \<Rightarrow> capabilityClaims \<Rightarrow> string \<Rightarrow> string \<Rightarrow> json \<Rightarrow> string \<Rightarrow> string \<Rightarrow> int \<Rightarrow> 'a governance_scheme \<Rightarrow> approval_row" where
  "requested_row env claims capabilityID risk value inputHash rationale now db =
     (case supersede claims capabilityID risk now (approvals db) of (version, supersedes, rows) \<Rightarrow>
        \<lparr>ap_id = env_uuid env (gov_draws db), ap_orgID = OrganizationID claims, ap_sessionID = optional (AgentSessionID claims),
         ap_requestedByUserID = (if ActorType claims \<noteq> ''system'' then Some (Subject claims) else None),
         ap_capabilityID = capabilityID, ap_riskClass = risk, ap_payload = env_jsonb env (marshalJS value),
         ap_rationale = rationale, ap_status = ''pending'', ap_expiresAt = Some (now + approvalTTL),
         ap_intentID = optional (IntentID claims),
         ap_inputHash = (if IntentID claims = [] then None else Some inputHash),
         ap_version = version, ap_supersedesApprovalID = supersedes, ap_decidedByUserID = None,
         ap_decisionComment = None, ap_decidedAt = None\<rparr>)"

lemma requestApproval_Inr:
  assumes "requestApproval env claims capabilityID risk value inputHash rationale now db = Inr (approvalID, db')"
  obtains event obx ns payload where "approvalID = env_uuid env (gov_draws db)" and "ev_kind event = ''approval.requested''"
    and "ev_orgID event = OrganizationID claims" and "ev_capabilityID event = Some capabilityID"
    and "db' = db\<lparr>approvals := snd (snd (supersede claims capabilityID risk now (approvals db)))
                   @ [requested_row env claims capabilityID risk value inputHash rationale now db],
               gov_draws := Suc (gov_draws db), outbox := obx, notifications := ns,
               ledger_events := ledger_events db
                 @ [new_row (env_digest env) event payload (chain_head (ledger_events db)) (ledger_next_seq db)],
               ledger_next_seq := ledger_next_seq db + 1\<rparr>"
proof -
  obtain version supersedes rows where
    s: "supersede claims capabilityID risk now (approvals db) = (version, supersedes, rows)" by (cases "supersede claims capabilityID risk now (approvals db)") auto
  let ?row = "requested_row env claims capabilityID risk value inputHash rationale now db"
  let ?db1 = "db\<lparr>approvals := rows @ [?row], gov_draws := Suc (gov_draws db)\<rparr>"
  from assms s obtain db2 seq hash event where
    q: "enqueueApprovalNotifications env (OrganizationID claims) capabilityID risk rationale
          (approval_request capabilityID risk value rationale version supersedes) ?db1 = Inr db2"
    and a: "AppendTx (env_digest env) event (bestEffortApprovalFeed (OrganizationID claims) capabilityID rationale db2) = Inr (seq, hash, db')"
    and e: "ev_kind event = ''approval.requested''" "ev_orgID event = OrganizationID claims" "ev_capabilityID event = Some capabilityID"
    and i: "approvalID = env_uuid env (gov_draws db)"
    by (auto simp: requestApproval_def Let_def requested_row_def)
  obtain obx where 2: "db2 = ?db1\<lparr>outbox := obx\<rparr>" using enqueueApprovalNotifications_frame [OF q] by blast
  obtain ns where f: "bestEffortApprovalFeed (OrganizationID claims) capabilityID rationale db2 = db2\<lparr>notifications := ns\<rparr>"
    using bestEffortApprovalFeed_frame by blast
  from a obtain payload where "db' = db2\<lparr>notifications := ns, ledger_events := ledger_events (db2\<lparr>notifications := ns\<rparr>)
      @ [new_row (env_digest env) event payload (chain_head (ledger_events (db2\<lparr>notifications := ns\<rparr>))) (ledger_next_seq (db2\<lparr>notifications := ns\<rparr>))],
      ledger_next_seq := ledger_next_seq (db2\<lparr>notifications := ns\<rparr>) + 1\<rparr>"
    unfolding f by (rule AppendTx_Inr)
  then show thesis by (intro that [OF i e, where obx = obx and ns = ns and payload = payload]) (simp add: 2 s)
qed

definition executed_rows :: "'a ledger_db_scheme \<Rightarrow> ledger_row list" where
  "executed_rows db = filter (\<lambda>r. le_kind r = ''capability.executed'') (ledger_events db)"

text \<open>What a stage that is not the effect keeps: the business state, the receipts and the audit of effects.\<close>

definition no_effect :: "'d exec_db \<Rightarrow> 'd exec_db \<Rightarrow> bool" where
  "no_effect db db' \<longleftrightarrow> domain db' = domain db \<and> action_receipts db' = action_receipts db \<and>
     executed_rows db' = executed_rows db"

lemma no_effect_refl [simp]: "no_effect db db"
  by (simp add: no_effect_def)

lemma no_effect_jobs [simp]: "no_effect db (db\<lparr>jobs := js\<rparr>)"
  by (simp add: no_effect_def executed_rows_def)

lemma no_effect_trans [trans]: "no_effect db db1 \<Longrightarrow> no_effect db1 db2 \<Longrightarrow> no_effect db db2"
  by (simp add: no_effect_def)

lemma exec_enter_no_effect:
  assumes "exec_enter env claims lease system now db = Inr db1"
  shows "no_effect db db1" and "ledger_ok H db1 = ledger_ok H db"
proof -
  from exec_enter_frame(1) [OF assms] obtain js where "db1 = db\<lparr>jobs := js\<rparr>" by blast
  then show "no_effect db db1" and "ledger_ok H db1 = ledger_ok H db" by (simp_all add: ledger_ok_def)
qed

lemma AppendTx_no_effect:
  assumes "AppendTx H event db = Inr (seq, hash, db1)" and "ev_kind event \<noteq> ''capability.executed''"
  shows "no_effect db db1"
  using assms by (auto elim!: AppendTx_Inr simp: no_effect_def executed_rows_def)

lemma requestApproval_no_effect:
  assumes "requestApproval env claims capabilityID risk value inputHash rationale now db = Inr (approvalID, db1)"
  shows "no_effect db db1"
  using assms by (rule requestApproval_Inr) (simp add: no_effect_def executed_rows_def)

lemma requestApproval_ledger_ok [inv_intros]:
  assumes "requestApproval env claims capabilityID risk value inputHash rationale now db = Inr (approvalID, db1)"
    and "ledger_ok (env_digest env) db"
  shows "ledger_ok (env_digest env) db1"
proof -
  from assms(1) obtain event payload where
    e: "ledger_events db1 = ledger_events db @ [new_row (env_digest env) event payload (chain_head (ledger_events db)) (ledger_next_seq db)]"
    "ledger_next_seq db1 = ledger_next_seq db + 1"
    by (rule requestApproval_Inr) auto
  from ledger_ok_snoc [OF assms(2), of event payload] show ?thesis using e by (simp add: ledger_ok_def)
qed

lemma exec_gate_no_effect:
  assumes "exec_gate env claims capabilityID spec input value inputHash system approvedApprovalID finalizing now db = Inr (early, db1)"
  shows "no_effect db db1"
  using assms
  by (auto simp: exec_gate_def split: prod.splits if_splits intro: requestApproval_no_effect AppendTx_no_effect)

lemma exec_gate_ledger_ok [inv_intros]:
  assumes "exec_gate env claims capabilityID spec input value inputHash system approvedApprovalID finalizing now db = Inr (early, db1)"
    and "ledger_ok (env_digest env) db"
  shows "ledger_ok (env_digest env) db1"
  using assms
  by (auto simp: exec_gate_def split: prod.splits if_splits intro: requestApproval_ledger_ok AppendTx_ledger_ok)

lemma exec_gate_early_not_OK:
  "exec_gate env claims capabilityID spec input value inputHash system approvedApprovalID finalizing now db = Inr (Some r, db1)
   \<Longrightarrow> \<not> res_OK r"
  by (auto simp: exec_gate_def failed_def pending_def split: prod.splits if_splits)

lemma exec_scope_Return_not_OK: "exec_scope env claims capabilityID rawInput lease system = Return r \<Longrightarrow> \<not> res_OK r"
  by (auto simp: exec_scope_def failed_def split: option.splits if_splits)

lemma bind_flow_Proceed [simp]: "bind_flow m f = Proceed y \<longleftrightarrow> (\<exists>x. m = Proceed x \<and> f x = Proceed y)"
  by (cases m) auto

lemma bind_flow_Return [simp]: "bind_flow m f = Return r \<longleftrightarrow> m = Return r \<or> (\<exists>x. m = Proceed x \<and> f x = Return r)"
  by (cases m) auto

definition replayed_from :: "capabilityClaims \<Rightarrow> string \<Rightarrow> 'a governance_scheme \<Rightarrow> exec_result \<Rightarrow> bool" where
  "replayed_from claims capabilityID db r \<longleftrightarrow> IntentID claims \<noteq> [] \<and>
     (\<exists>prior. loadReceipt (OrganizationID claims) (intent_key claims) db = Some prior \<and>
        rc_capabilityID prior = capabilityID \<and> r = replay_result prior)"

lemma replayed_from_Replayed: "replayed_from claims capabilityID db r \<Longrightarrow> res_Replayed r"
  by (auto simp: replayed_from_def replay_result_def)

lemma exec_checks_Return_OK:
  "exec_checks env impl claims capabilityID rawInput spec system approvedApprovalID finalizing db = Return r
   \<Longrightarrow> res_OK r \<Longrightarrow> replayed_from claims capabilityID db r"
  by (auto simp: replayed_from_def exec_checks_def exec_admission_def exec_replay_def failed_def pending_def replay_result_def
    approval_state_result_def Let_def split: option.splits if_splits sum.splits)

text \<open>The stages at which a call that commits may end.\<close>

lemma executeWithFinalizer_stages:
  assumes "executeWithFinalizer env impl claims capabilityID rawInput system approvedApprovalID finalize lease now db = Inr (r, db')"
  obtains
    (scope) "exec_scope env claims capabilityID rawInput lease system = Return r" and "db' = db"
  | (checks) spec
      where "exec_scope env claims capabilityID rawInput lease system = Proceed spec"
        and "exec_enter env claims lease system now db = Inr db'"
        and "exec_checks env impl claims capabilityID rawInput spec system approvedApprovalID (finalize \<noteq> None) db' = Return r"
  | (gate) spec db1 input inputHash
      where "exec_scope env claims capabilityID rawInput lease system = Proceed spec"
        and "exec_enter env claims lease system now db = Inr db1"
        and "exec_checks env impl claims capabilityID rawInput spec system approvedApprovalID (finalize \<noteq> None) db1 = Proceed (input, inputHash)"
        and "exec_gate env claims capabilityID spec input (impl_value impl input) inputHash system approvedApprovalID
               (finalize \<noteq> None) now db1 = Inr (Some r, db')"
  | (effect) spec db1 input inputHash db2
      where "exec_scope env claims capabilityID rawInput lease system = Proceed spec"
        and "exec_enter env claims lease system now db = Inr db1"
        and "exec_checks env impl claims capabilityID rawInput spec system approvedApprovalID (finalize \<noteq> None) db1 = Proceed (input, inputHash)"
        and "exec_gate env claims capabilityID spec input (impl_value impl input) inputHash system approvedApprovalID
               (finalize \<noteq> None) now db1 = Inr (None, db2)"
        and "exec_effect env impl claims capabilityID spec input inputHash finalize now db2 = Inr (r, db')"
proof (cases "exec_scope env claims capabilityID rawInput lease system")
  case (Proceed spec)
  with assms obtain db1 where e: "exec_enter env claims lease system now db = Inr db1"
    and rest: "(case exec_checks env impl claims capabilityID rawInput spec system approvedApprovalID (finalize \<noteq> None) db1 of
              Fail e \<Rightarrow> Inl e
            | Return r \<Rightarrow> Inr (r, db1)
            | Proceed (input, inputHash) \<Rightarrow>
                bind_result (exec_gate env claims capabilityID spec input (impl_value impl input) inputHash system
                    approvedApprovalID (finalize \<noteq> None) now db1) (\<lambda>(early, db2).
                case early of
                  Some r \<Rightarrow> Inr (r, db2)
                | None \<Rightarrow> exec_effect env impl claims capabilityID spec input inputHash finalize now db2)) = Inr (r, db')"
    by (auto simp: executeWithFinalizer_def split: if_splits)
  show thesis
  proof (cases "exec_checks env impl claims capabilityID rawInput spec system approvedApprovalID (finalize \<noteq> None) db1")
    case (Return q)
    with rest e show thesis by (intro checks [OF Proceed]) auto
  next
    case p: (Proceed x)
    obtain input inputHash where x: "x = (input, inputHash)" by (cases x)
    with rest p obtain early db2 where
      g: "exec_gate env claims capabilityID spec input (impl_value impl input) inputHash system
                    approvedApprovalID (finalize \<noteq> None) now db1 = Inr (early, db2)"
      and f: "(case early of Some r \<Rightarrow> Inr (r, db2)
                | None \<Rightarrow> exec_effect env impl claims capabilityID spec input inputHash finalize now db2) = Inr (r, db')"
      by auto
    show thesis
    proof (cases early)
      case None
      with g f show thesis by (intro effect [OF Proceed e p [unfolded x]]) auto
    next
      case (Some q)
      with g f show thesis by (intro gate [OF Proceed e p [unfolded x]]) auto
    qed
  qed (use rest in simp)
qed (use assms scope in \<open>auto simp: executeWithFinalizer_def\<close>)

text \<open>Either no effect at all, or all stages passed.\<close>

lemma executeWithFinalizer_cases:
  assumes "executeWithFinalizer env impl claims capabilityID rawInput system approvedApprovalID finalize lease now db = Inr (r, db')"
  obtains
    (kept) "no_effect db db'" and "res_OK r \<Longrightarrow> replayed_from claims capabilityID db' r"
      and "ledger_ok (env_digest env) db \<Longrightarrow> ledger_ok (env_digest env) db'"
  | (effect) spec db1 input inputHash db2
      where "exec_scope env claims capabilityID rawInput lease system = Proceed spec"
        and "exec_enter env claims lease system now db = Inr db1"
        and "exec_checks env impl claims capabilityID rawInput spec system approvedApprovalID (finalize \<noteq> None) db1 = Proceed (input, inputHash)"
        and "exec_gate env claims capabilityID spec input (impl_value impl input) inputHash system approvedApprovalID
               (finalize \<noteq> None) now db1 = Inr (None, db2)"
        and "exec_effect env impl claims capabilityID spec input inputHash finalize now db2 = Inr (r, db')"
  using assms
proof (cases rule: executeWithFinalizer_stages)
  case scope
  with exec_scope_Return_not_OK show thesis by (intro kept) auto
next
  case (checks spec)
  show thesis using exec_enter_no_effect [OF checks(2)] exec_checks_Return_OK [OF checks(3)] by (intro kept) auto
next
  case (gate spec db1 input inputHash)
  show thesis
    using no_effect_trans [OF exec_enter_no_effect(1) [OF gate(2)] exec_gate_no_effect [OF gate(4)]]
      exec_gate_early_not_OK [OF gate(4)] exec_gate_ledger_ok [OF gate(4)] exec_enter_no_effect(2) [OF gate(2)]
    by (intro kept) auto
qed (rule effect)

definition receipt_of ::
  "exec_env \<Rightarrow> capabilityClaims \<Rightarrow> string \<Rightarrow> string \<Rightarrow> exec_result \<Rightarrow> action_receipt" where
  "receipt_of env claims capabilityID inputHash result =
     \<lparr>rc_orgID = OrganizationID claims, rc_intentKey = intent_key claims, rc_capabilityID = capabilityID,
      rc_inputHash = inputHash, rc_ok = res_OK result, rc_data = env_jsonb env (res_Data result), rc_error = res_Error result\<rparr>"

lemma exec_effect_Inr:
  assumes "exec_effect env impl claims capabilityID spec input inputHash finalize now db = Inr (r, db')"
  obtains out effect payload db1 where "impl_run impl claims input now (domain db) = Inr (out, effect)"
    and "r = executed_result out"
    and "stringifyPayload (ev_payload (executed_event claims capabilityID spec (impl_value impl input) now)) = Inr payload"
    and "db1 = db\<lparr>domain := effect,
           ledger_events := ledger_events db @ [new_row (env_digest env)
             (executed_event claims capabilityID spec (impl_value impl input) now) payload
             (chain_head (ledger_events db)) (ledger_next_seq db)],
           ledger_next_seq := ledger_next_seq db + 1,
           action_receipts := action_receipts db @
             (if IntentID claims = [] then [] else [receipt_of env claims capabilityID inputHash r])\<rparr>"
    and "IntentID claims \<noteq> [] \<Longrightarrow> loadReceipt (OrganizationID claims) (intent_key claims) db = None"
    and "(case finalize of None \<Rightarrow> Inr db1 | Some f \<Rightarrow> f db1) = Inr db'"
proof -
  from assms obtain out effect seq hash db0 db1 where
    run: "impl_run impl claims input now (domain db) = Inr (out, effect)"
    and ap: "AppendTx (env_digest env) (executed_event claims capabilityID spec (impl_value impl input) now)
       (db\<lparr>domain := effect\<rparr>) = Inr (seq, hash, db0)"
    and rc: "(if intent_key claims = [] then Inr db0
       else insertReceipt env (OrganizationID claims) (intent_key claims) capabilityID inputHash (executed_result out) db0) = Inr db1"
    and fin: "(case finalize of None \<Rightarrow> Inr db1 | Some f \<Rightarrow> f db1) = Inr db'" "r = executed_result out"
    by (auto simp: exec_effect_def Let_def)
  have k: "intent_key claims = [] \<longleftrightarrow> IntentID claims = []" by (simp add: intent_key_def)
  from ap obtain payload where
    pl: "stringifyPayload (ev_payload (executed_event claims capabilityID spec (impl_value impl input) now)) = Inr payload"
    and 0: "db0 = db\<lparr>domain := effect, ledger_events := ledger_events db @ [new_row (env_digest env)
             (executed_event claims capabilityID spec (impl_value impl input) now) payload
             (chain_head (ledger_events db)) (ledger_next_seq db)], ledger_next_seq := ledger_next_seq db + 1\<rparr>"
    by (rule AppendTx_Inr) auto
  show thesis
  proof (rule that [OF run fin(2) pl _ _ fin(1)])
    show "db1 = db\<lparr>domain := effect,
           ledger_events := ledger_events db @ [new_row (env_digest env)
             (executed_event claims capabilityID spec (impl_value impl input) now) payload
             (chain_head (ledger_events db)) (ledger_next_seq db)],
           ledger_next_seq := ledger_next_seq db + 1,
           action_receipts := action_receipts db @
             (if IntentID claims = [] then [] else [receipt_of env claims capabilityID inputHash r])\<rparr>"
      using rc by (auto simp: 0 k insertReceipt_def receipt_of_def fin(2) split: if_splits)
    show "loadReceipt (OrganizationID claims) (intent_key claims) db = None" if "IntentID claims \<noteq> []"
      using rc that by (auto simp: 0 k insertReceipt_def loadReceipt_def find_None_iff list_ex_iff split: if_splits)
  qed
qed

lemma exec_gate_passed:
  assumes "exec_gate env claims capabilityID spec input value inputHash system approvedApprovalID finalizing now db = Inr (None, db1)"
  shows "legacy_notification claims capabilityID system \<or> \<not> fst (requiresApproval claims capabilityID spec input db) \<or>
    \<not> sp_oneTimeOutput spec \<and> (approvedApprovalID = [] \<longrightarrow> finalizing) \<and>
    (system \<longrightarrow> approvedApprovalID = [] \<and> sp_risk spec \<noteq> ''money'' \<or>
       verifySystemApproval (env_digest env) (OrganizationID claims) capabilityID approvedApprovalID inputHash now db)"
  using assms by (auto simp: exec_gate_def split: prod.splits if_splits)

lemma exec_checks_passed:
  assumes "exec_checks env impl claims capabilityID rawInput spec system approvedApprovalID finalizing db = Proceed (input, inputHash)"
  shows "exec_admission claims capabilityID spec system db = Proceed ()"
    and "impl_parse impl capabilityID rawInput = Inr input"
    and "canonicalHash (env_digest env) (impl_value impl input) = Inr inputHash"
    and "exec_permission claims capabilityID spec system db"
    and "exec_replay claims capabilityID inputHash approvedApprovalID finalizing db = Proceed ()"
  using assms by (auto simp: exec_checks_def split: sum.splits if_splits)

lemma find_snoc: "find P xs = None \<Longrightarrow> P x \<Longrightarrow> find P (xs @ [x]) = Some x"
  by (induction xs) (auto split: if_splits)

lemma execute_receipt:
  assumes "Execute env impl claims capabilityID rawInput now db = Inr (r, db')" and "res_OK r" and "IntentID claims \<noteq> []"
  obtains receipt where "loadReceipt (OrganizationID claims) (intent_key claims) db' = Some receipt"
    and "rc_data receipt = (if res_Replayed r then res_Data r else env_jsonb env (res_Data r))"
    and "rc_capabilityID receipt = capabilityID" and "rc_ok receipt"
proof -
  from assms(1) have "executeWithFinalizer env impl claims capabilityID rawInput False [] None None now db = Inr (r, db')"
    by (simp add: Execute_def execute_call_def)
  then show thesis
  proof (cases rule: executeWithFinalizer_cases)
    case kept
    from kept(2) [OF assms(2)] that assms(2) show thesis by (auto simp: replayed_from_def replay_result_def)
  next
    case (effect spec db1 input inputHash db2)
    from effect(5) obtain out where n: "loadReceipt (OrganizationID claims) (intent_key claims) db2 = None"
      and a: "action_receipts db' = action_receipts db2 @ [receipt_of env claims capabilityID inputHash r]"
      and o: "r = executed_result out"
      by (rule exec_effect_Inr) (auto simp: assms(3))
    have "loadReceipt (OrganizationID claims) (intent_key claims) db' = Some (receipt_of env claims capabilityID inputHash r)"
      using n unfolding loadReceipt_def a by (rule find_snoc) (simp add: receipt_of_def)
    then show thesis by (rule that) (simp_all add: receipt_of_def o executed_result_def)
  qed
qed

lemma execute_replays:
  assumes "Execute env impl claims capabilityID rawInput now db = Inr (r, db')"
    and "loadReceipt (OrganizationID claims) (intent_key claims) db = Some prior" and "IntentID claims \<noteq> []"
  shows "db' = db" and "res_OK r \<Longrightarrow> r = replay_result prior \<and> rc_capabilityID prior = capabilityID"
proof -
  from assms(1) have run: "executeWithFinalizer env impl claims capabilityID rawInput False [] None None now db = Inr (r, db')"
    by (simp add: Execute_def execute_call_def)
  have stop: "exec_checks env impl claims capabilityID rawInput spec False [] False db \<noteq> Proceed x" for spec x
    using assms(2,3) by (auto simp: exec_checks_def exec_replay_def split: sum.splits if_splits)
  from run show d: "db' = db"
  proof (cases rule: executeWithFinalizer_stages)
    case (gate spec db1 input inputHash)
    then show ?thesis using stop exec_enter_frame(2) [OF gate(2)] by auto
  next
    case (effect spec db1 input inputHash db2)
    then show ?thesis using stop exec_enter_frame(2) [OF effect(2)] by auto
  qed (auto dest: exec_enter_frame(2))
  assume "res_OK r"
  from run show "r = replay_result prior \<and> rc_capabilityID prior = capabilityID"
  proof (cases rule: executeWithFinalizer_cases)
    case kept
    from kept(2) [OF \<open>res_OK r\<close>] assms(2) d show ?thesis by (auto simp: replayed_from_def)
  next
    case (effect spec db1 input inputHash db2)
    then show ?thesis using assms(2,3) exec_checks_passed(5) [OF effect(3)] exec_enter_frame(2) [OF effect(2)]
      by (auto simp: exec_replay_def split: if_splits)
  qed
qed

lemma exec_checks_pending:
  assumes "exec_checks env impl claims capabilityID rawInput spec system approvedApprovalID finalizing db = Return r"
    and "res_PendingApproval r"
  shows "\<exists>a \<in> set (approvals db). ap_id a = res_ApprovalID r \<and> ap_intentID a = Some (IntentID claims) \<and>
    ap_capabilityID a = capabilityID \<and> ap_status a \<in> {''pending'', ''executing'', ''approved''}"
proof -
  from assms obtain a where "loadApprovalByIntent (OrganizationID claims) (IntentID claims) db = Some a"
    "ap_capabilityID a = capabilityID" "r = approval_state_result a"
    by (auto simp: exec_checks_def exec_admission_def exec_replay_def failed_def replay_result_def
      split: option.splits if_splits sum.splits)
  with assms(2) show ?thesis
    by (auto simp: loadApprovalByIntent_def find_Some_iff approval_state_result_def failed_def pending_def split: if_splits intro!: bexI [of _ a])
qed

lemma exec_gate_pending:
  assumes "exec_gate env claims capabilityID spec input value inputHash system approvedApprovalID finalizing now db = Inr (Some r, db1)"
    and "res_PendingApproval r"
  shows "\<exists>rationale. requestApproval env claims capabilityID (sp_risk spec) value inputHash rationale now db = Inr (res_ApprovalID r, db1)"
  using assms by (auto simp: exec_gate_def failed_def pending_def split: prod.splits if_splits)

lemma length_superseded: "length (snd (snd (supersede claims capabilityID risk now rows))) = length rows"
  by (simp add: supersede_def Let_def)

lemma requested_approval:
  assumes "requestApproval env claims capabilityID risk value inputHash rationale now db = Inr (approvalID, db')"
  obtains olds a where "approvals db' = olds @ [a]" "length olds = length (approvals db)" "ap_id a = approvalID"
      "ap_status a = ''pending''" "ap_orgID a = OrganizationID claims" "ap_capabilityID a = capabilityID"
      "ap_expiresAt a = Some (now + 604800000)" "ap_payload a = env_jsonb env (marshalJS value)"
proof -
  let ?a = "requested_row env claims capabilityID risk value inputHash rationale now db"
  from assms have a: "approvals db' = snd (snd (supersede claims capabilityID risk now (approvals db))) @ [?a]"
    and i: "approvalID = env_uuid env (gov_draws db)"
    by (auto elim!: requestApproval_Inr)
  show thesis
    by (rule that [OF a]) (simp_all add: i length_superseded requested_row_def split_beta approvalTTL_def millis_per_day_def)
qed

section \<open>A concrete pipeline\<close>

definition example_org :: string where "example_org = ''00000000-0000-4000-8000-00000000000a''"

definition example_user :: string where "example_user = ''00000000-0000-4000-8000-00000000000b''"

definition example_job :: string where "example_job = ''00000000-0000-4000-8000-00000000000c''"

definition example_input :: string where "example_input = ''{ \"amountMinor\": 5 }''"

definition example_exec_env :: exec_env where
  "example_exec_env = \<lparr>env_digest = (\<lambda>s. s), env_lower = (\<lambda>s. s), env_uuid = (\<lambda>n. replicate n CHR ''x''),
     env_jsonb = (\<lambda>s. s),
     env_specs = [(''accounting.recordPayment'', example_spec), (''settings.key'', example_spec\<lparr>sp_risk := ''secret''\<rparr>)],
     env_webhookURL = [], env_smtpHost = [], env_smtpTo = []\<rparr>"

definition example_exec_impl :: "int capability_impl" where
  "example_exec_impl = \<lparr>impl_parse = (\<lambda>capabilityID raw. if raw = example_input then Inr (example_pay 5) else Inl ''unexpected''),
     impl_value = (\<lambda>input. JObj [(''amountMinor'', JNum ''5'')]),
     impl_run = (\<lambda>claims input now cash. Inr (JObj [(''paid'', JBool True)], cash + 5))\<rparr>"

definition example_claims :: "string \<Rightarrow> string \<Rightarrow> capabilityClaims" where
  "example_claims actor intent = \<lparr>Audience = CapabilityExecuteAudience, Subject = example_user, OrganizationID = example_org,
     CapabilityID = ''accounting.recordPayment'', InputSHA256 = ''{\"amountMinor\":5}'', ActorID = Some example_user,
     ActorType = actor, Permissions = [''*''], AuthSessionID = ''s1'', AgentSessionID = (if actor = ''agent'' then example_job else []),
     IntentID = intent, IssuedAt = 0, ExpiresAt = 0\<rparr>"

definition example_job_row :: "int \<Rightarrow> job_row" where
  "example_job_row expires = \<lparr>jb_id = example_job, jb_orgID = example_org, jb_type = ''accounting.recordPayment'', jb_payload = ''{}'',
     jb_status = ''processing'', jb_attempts = 1, jb_maxAttempts = 3, jb_lastError = None, jb_availableAt = 1700000000000,
     jb_createdAt = 1700000000000, jb_leaseOwner = Some ''w'', jb_fencingToken = 1, jb_leaseExpiresAt = Some expires, jb_runID = None, jb_runStepIndex = None,
     jb_approvedApprovalID = None\<rparr>"

definition example_exec_db :: "int \<Rightarrow> int exec_db" where
  "example_exec_db limit = \<lparr>ledger_events = [], ledger_next_seq = 1,
     auth_sessions = [\<lparr>as_id = ''s1'', as_email = ''a@b.c'', as_emailVerified = True, as_expiresAt = 2000000000000\<rparr>],
     memberships = [(example_org, example_user)], users = [(example_user, ''a@b.c'')],
     agent_sessions = [\<lparr>ag_id = example_job, ag_orgID = example_org, ag_userID = example_user, ag_status = ''open''\<rparr>],
     user_roles = [(example_org, example_user, ''r1'')], role_permissions = [(example_org, ''r1'', ''accounting.post'')],
     org_modules = [(example_org, None)],
     policies = [\<lparr>po_orgID = example_org, po_capabilityPattern = ''*'', po_maxRiskAutonomous = ''write'',
       po_moneyThresholdMinor = Some limit, po_requiresApprovalFor = JArr []\<rparr>],
     approvals = [], action_receipts = [], outbox = [], notifications = [],
     jobs = [example_job_row 1700000001000], gov_draws = 1, domain = 0\<rparr>"

lemma AppendTx_plain:
  "ev_authSessionID event = None \<Longrightarrow> stringifyPayload (ev_payload event) = Inr payload \<Longrightarrow>
   AppendTx H event db = Inr (ledger_next_seq db, le_hash (new_row H event payload (chain_head (ledger_events db)) (ledger_next_seq db)),
     db\<lparr>ledger_events := ledger_events db @ [new_row H event payload (chain_head (ledger_events db)) (ledger_next_seq db)],
        ledger_next_seq := ledger_next_seq db + 1\<rparr>)"
  by (simp add: AppendTx_def Let_def)

lemma example_payload_text:
  "stringifyPayload (marshalJS (JObj [(''input'', JObj [(''amountMinor'', JNum ''5'')])])) = Inr ''{\"input\":{\"amountMinor\":5}}''"
  by code_simp

definition example_outcome :: exec_result where
  "example_outcome = executed_result (JObj [(''paid'', JBool True)])"

lemma example_effect:
  assumes "action_receipts db = []" and "IntentID claims \<noteq> []"
  shows "\<exists>row. exec_effect example_exec_env example_exec_impl claims ''accounting.recordPayment'' example_spec (example_pay 5) h None now db =
   Inr (example_outcome, db\<lparr>domain := domain db + 5, ledger_events := ledger_events db @ [row], ledger_next_seq := ledger_next_seq db + 1,
     action_receipts := [receipt_of example_exec_env claims ''accounting.recordPayment'' h example_outcome]\<rparr>)"
proof -
  let ?e = "executed_event claims ''accounting.recordPayment'' example_spec (impl_value example_exec_impl (example_pay 5)) now"
  have p: "stringifyPayload (ev_payload ?e) = Inr ''{\"input\":{\"amountMinor\":5}}''"
    using example_payload_text by (simp add: executed_event_def example_spec_def example_exec_impl_def)
  have a: "ev_authSessionID ?e = None" by (simp add: executed_event_def)
  show ?thesis unfolding exec_effect_def AppendTx_plain [OF a p] using assms
    by (intro exI) (simp add: example_exec_impl_def insertReceipt_def receipt_of_def intent_key_def Let_def example_outcome_def)
qed

lemma example_scope:
  "exec_scope example_exec_env (example_claims ''human'' ''i'') ''accounting.recordPayment'' example_input None False = Proceed example_spec"
  "exec_scope example_exec_env (example_claims ''agent'' ''i'') ''accounting.recordPayment'' example_input None False = Proceed example_spec"
  by code_simp+

lemma example_identity:
  "verifyIdentity (env_lower example_exec_env) (example_claims ''human'' ''i'') 1700000000000 (example_exec_db 10) = Inr ()"
  "verifyIdentity (env_lower example_exec_env) (example_claims ''agent'' ''i'') 1700000000000 (example_exec_db 1) = Inr ()"
  by code_simp+

lemma example_checks:
  "exec_checks example_exec_env example_exec_impl (example_claims ''human'' ''i'') ''accounting.recordPayment'' example_input example_spec
     False [] False (example_exec_db 10) = Proceed (example_pay 5, ''{\"amountMinor\":5}'')"
  "exec_checks example_exec_env example_exec_impl (example_claims ''agent'' ''i'') ''accounting.recordPayment'' example_input example_spec
     False [] False (example_exec_db 1) = Proceed (example_pay 5, ''{\"amountMinor\":5}'')"
  by code_simp+

lemma example_gate:
  "requiresApproval (example_claims ''human'' ''i'') ''accounting.recordPayment'' example_spec (example_pay 5) (example_exec_db 10) =
     (False, ''within policy'')"
  "requiresApproval (example_claims ''agent'' ''i'') ''accounting.recordPayment'' example_spec (example_pay 5) (example_exec_db 1) =
     (True, ''amount 5 exceeds autonomous threshold 1'')"
  by code_simp+

definition example_receipt :: action_receipt where
  "example_receipt = receipt_of example_exec_env (example_claims ''human'' ''i'') ''accounting.recordPayment'' ''{\"amountMinor\":5}'' example_outcome"

lemma example_call:
  "\<exists>row. Execute example_exec_env example_exec_impl (example_claims ''human'' ''i'') ''accounting.recordPayment'' example_input
     1700000000000 (example_exec_db 10) =
   Inr (example_outcome, (example_exec_db 10)\<lparr>domain := 5, ledger_events := [row], ledger_next_seq := 2, action_receipts := [example_receipt]\<rparr>)"
proof -
  let ?c = "example_claims ''human'' ''i''"
  have e: "exec_enter example_exec_env ?c None False 1700000000000 (example_exec_db 10) = Inr (example_exec_db 10)"
    by (simp add: exec_enter_def example_identity)
  have g: "exec_gate example_exec_env ?c ''accounting.recordPayment'' example_spec (example_pay 5) v h False [] False now (example_exec_db 10)
      = Inr (None, example_exec_db 10)" for v h now
    by (simp add: exec_gate_def example_gate)
  have o: "OrganizationID ?c \<noteq> []" and r: "action_receipts (example_exec_db 10) = []" "IntentID ?c \<noteq> []"
    by (simp_all add: example_claims_def example_org_def example_exec_db_def)
  obtain row where "exec_effect example_exec_env example_exec_impl ?c ''accounting.recordPayment'' example_spec (example_pay 5)
      ''{\"amountMinor\":5}'' None 1700000000000 (example_exec_db 10) =
    Inr (example_outcome, (example_exec_db 10)\<lparr>domain := 5, ledger_events := [row], ledger_next_seq := 2,
      action_receipts := [example_receipt]\<rparr>)"
    using example_effect [OF r, of "''{\"amountMinor\":5}''" 1700000000000]
    by (auto simp: example_exec_db_def example_receipt_def)
  then show ?thesis
    by (intro exI [of _ row]) (simp add: Execute_def execute_call_def executeWithFinalizer_def example_scope o e example_checks g)
qed

lemma example_pending:
  "\<exists>db' r. Execute example_exec_env example_exec_impl (example_claims ''agent'' ''i'') ''accounting.recordPayment'' example_input
     1700000000000 (example_exec_db 1) = Inr (r, db') \<and> res_PendingApproval r \<and> res_ApprovalID r = ''x''"
proof -
  let ?c = "example_claims ''agent'' ''i''" and ?v = "JObj [(''amountMinor'', JNum ''5'')]"
  let ?why = "''amount 5 exceeds autonomous threshold 1''"
  have e: "exec_enter example_exec_env ?c None False 1700000000000 (example_exec_db 1) = Inr (example_exec_db 1)"
    by (simp add: exec_enter_def example_identity)
  have p: "\<exists>payload. stringifyPayload (marshalJS (approval_request ''accounting.recordPayment'' ''money'' ?v ?why 1 None)) = Inr payload"
    by (intro exI) code_simp
  have q: "\<exists>db'. requestApproval example_exec_env ?c ''accounting.recordPayment'' ''money'' ?v h ?why 1700000000000 (example_exec_db 1) = Inr (''x'', db')" for h
    using p by (auto simp: requestApproval_def supersede_def Let_def enqueueApprovalNotifications_def AppendTx_def example_exec_env_def
      example_exec_db_def)
  have "sp_risk example_spec = ''money''" "\<not> sp_oneTimeOutput example_spec" by (simp_all add: example_spec_def)
  then have g: "\<exists>db'. exec_gate example_exec_env ?c ''accounting.recordPayment'' example_spec (example_pay 5) ?v h False [] False
      1700000000000 (example_exec_db 1) = Inr (Some (pending ''x'' ?why), db')" for h
    using q [of h] by (auto simp: exec_gate_def example_gate legacy_notification_def)
  have o: "OrganizationID ?c \<noteq> []" by (simp add: example_claims_def example_org_def)
  have v: "impl_value example_exec_impl (example_pay 5) = ?v" by (simp add: example_exec_impl_def)
  obtain db' where "exec_gate example_exec_env ?c ''accounting.recordPayment'' example_spec (example_pay 5) ?v ''{\"amountMinor\":5}'' False [] False
      1700000000000 (example_exec_db 1) = Inr (Some (pending ''x'' ?why), db')" using g by blast
  then show ?thesis
    by (intro exI [of _ db'] exI [of _ "pending ''x'' ?why"])
      (simp add: Execute_def execute_call_def executeWithFinalizer_def example_scope o e example_checks v pending_def)
qed

definition example_system :: systemClaims where
  "example_system = \<lparr>sy_OrganizationID = example_org, sy_CapabilityID = ''accounting.recordPayment'', sy_Permission = ''accounting.post'',
     sy_IntentID = example_user, sy_ApprovedApprovalID = [], sy_AgentSessionID = [], sy_JobID = example_job, sy_LeaseOwner = ''w'',
     sy_FencingToken = 1, sy_LeaseExtensionMillis = 150000\<rparr>"

lemma example_system_paid:
  "\<exists>r db'. ExecuteSystem example_exec_env example_exec_impl example_system example_input 1700000000000 (example_exec_db 10) = Inr (r, db') \<and>
     res_OK r \<and> \<not> res_Replayed r"
proof -
  let ?c = "system_claims example_system example_spec ''{\"amountMinor\":5}''" and ?l = "Some (system_lease example_system)"
  let ?db1 = "(example_exec_db 10)\<lparr>jobs := [example_job_row 1700000150000]\<rparr>"
  have spec: "map_of (env_specs example_exec_env) ''accounting.recordPayment'' = Some example_spec" by (simp add: example_exec_env_def)
  have pre: "isUUID (sy_IntentID example_system)" "lease_ok (system_lease example_system)"
    "sy_Permission example_system = sp_permission example_spec" "sy_ApprovedApprovalID example_system = []"
    "sy_AgentSessionID example_system = []" "sy_CapabilityID example_system = ''accounting.recordPayment''"
    "InputHash (env_digest example_exec_env) example_input = Inr ''{\"amountMinor\":5}''" by code_simp+
  have s: "exec_scope example_exec_env ?c ''accounting.recordPayment'' example_input ?l True = Proceed example_spec" by code_simp
  have e: "exec_enter example_exec_env ?c ?l True 1700000000000 (example_exec_db 10) = Inr ?db1" by code_simp
  have k: "exec_checks example_exec_env example_exec_impl ?c ''accounting.recordPayment'' example_input example_spec True [] False ?db1
    = Proceed (example_pay 5, ''{\"amountMinor\":5}'')" by code_simp
  have q: "requiresApproval ?c ''accounting.recordPayment'' example_spec (example_pay 5) ?db1 = (False, ''within policy'')" by code_simp
  have g: "exec_gate example_exec_env ?c ''accounting.recordPayment'' example_spec (example_pay 5) v h True [] False now ?db1 = Inr (None, ?db1)" for v h now
    by (simp add: exec_gate_def q)
  have o: "OrganizationID ?c \<noteq> []" and r: "action_receipts ?db1 = []" "IntentID ?c \<noteq> []"
    by (simp_all add: system_claims_def example_system_def example_org_def example_user_def example_exec_db_def)
  obtain db' where "exec_effect example_exec_env example_exec_impl ?c ''accounting.recordPayment'' example_spec (example_pay 5)
      ''{\"amountMinor\":5}'' None 1700000000000 ?db1 = Inr (example_outcome, db')"
    using example_effect [OF r] by blast
  then have "ExecuteSystem example_exec_env example_exec_impl example_system example_input 1700000000000 (example_exec_db 10) = Inr (example_outcome, db')"
    by (simp add: ExecuteSystem_def execute_call_def executeWithFinalizer_def spec pre o e k g s)
  then show ?thesis by (auto simp: example_outcome_def executed_result_def)
qed

definition example_secret_claims :: capabilityClaims where
  "example_secret_claims = (example_claims ''human'' [])\<lparr>CapabilityID := ''settings.key''\<rparr>"

lemma example_secret_run:
  "\<exists>r db' row. execute_call example_exec_env example_exec_impl example_secret_claims ''settings.key'' example_input False [] None
      1700000000000 (example_exec_db 10) = Inr (r, db') \<and> executed_rows db' = [row]"
proof -
  let ?c = example_secret_claims and ?s = "example_spec\<lparr>sp_risk := ''secret''\<rparr>" and ?db = "example_exec_db 10"
  have s: "exec_scope example_exec_env ?c ''settings.key'' example_input None False = Proceed ?s" by code_simp
  have e: "exec_enter example_exec_env ?c None False 1700000000000 ?db = Inr ?db" by code_simp
  have k: "exec_checks example_exec_env example_exec_impl ?c ''settings.key'' example_input ?s False [] False ?db
    = Proceed (example_pay 5, ''{\"amountMinor\":5}'')" by code_simp
  have "requiresApproval ?c ''settings.key'' ?s (example_pay 5) ?db = (False, ''within policy'')" by code_simp
  then have g: "exec_gate example_exec_env ?c ''settings.key'' ?s (example_pay 5) v h False [] False now ?db = Inr (None, ?db)" for v h now
    by (simp add: exec_gate_def)
  let ?e = "executed_event ?c ''settings.key'' ?s (impl_value example_exec_impl (example_pay 5)) 1700000000000"
  have "\<exists>payload. stringifyPayload (ev_payload ?e) = Inr payload"
    unfolding executed_event_def by (intro exI) code_simp
  then obtain payload where p: "stringifyPayload (ev_payload ?e) = Inr payload" by blast
  have a: "ev_authSessionID ?e = None" "ev_kind ?e = ''capability.executed''" by (simp_all add: executed_event_def)
  have i: "intent_key ?c = []" "OrganizationID ?c \<noteq> []" by (simp_all add: example_secret_claims_def example_claims_def intent_key_def example_org_def)
  have "exec_effect example_exec_env example_exec_impl ?c ''settings.key'' ?s (example_pay 5) h None 1700000000000 ?db =
    Inr (example_outcome, ?db\<lparr>domain := 5, ledger_events := [new_row (env_digest example_exec_env) ?e payload (chain_head []) 1], ledger_next_seq := 2\<rparr>)" for h
    unfolding exec_effect_def AppendTx_plain [OF a(1) p] by (simp add: i example_exec_impl_def example_exec_db_def Let_def example_outcome_def)
  then show ?thesis by (simp add: execute_call_def executeWithFinalizer_def s e k g i executed_rows_def a)
qed

lemma execute_authority:
  assumes run: "Execute env impl claims capabilityID rawInput now db = Inr (r, db')"
    and act: "domain db' \<noteq> domain db \<or> res_OK r \<and> \<not> res_Replayed r"
  shows "\<exists>spec input. map_of (env_specs env) capabilityID = Some spec \<and> CapabilityID claims = capabilityID \<and>
    InputHash (env_digest env) rawInput = Inr (InputSHA256 claims) \<and>
    verifyIdentity (env_lower env) claims now db = Inr () \<and>
    (legacy_marketplace claims capabilityID False \<or> legacy_notification claims capabilityID False \<or>
      isModuleEnabled (OrganizationID claims) (sp_module spec) db = Inr True) \<and>
    exec_permission claims capabilityID spec False db \<and>
    (sp_humanOnly spec \<longrightarrow> human_bound claims) \<and>
    impl_parse impl capabilityID rawInput = Inr input \<and>
    (legacy_notification claims capabilityID False \<or> \<not> fst (requiresApproval claims capabilityID spec input db)) \<and>
    (\<exists>out. impl_run impl claims input now (domain db) = Inr (out, domain db') \<and> res_Data r = marshalJS out)"
proof -
  from run have "executeWithFinalizer env impl claims capabilityID rawInput False [] None None now db = Inr (r, db')"
    by (simp add: Execute_def execute_call_def)
  then show ?thesis
  proof (cases rule: executeWithFinalizer_cases)
    case kept
    with act show ?thesis by (auto simp: no_effect_def dest: replayed_from_Replayed)
  next
    case (effect spec db1 input inputHash db2)
    note checks = exec_checks_passed [OF effect(3)] and gate = exec_gate_passed [OF effect(4)]
    have e: "db1 = db" using exec_enter_frame(2) [OF effect(2)] by simp
    have d: "domain db2 = domain db" using exec_gate_no_effect [OF effect(4)] e by (simp add: no_effect_def)
    have i: "verifyIdentity (env_lower env) claims now db = Inr ()" using effect(2) by (auto simp: exec_enter_def)
    from effect(5) obtain out where "impl_run impl claims input now (domain db) = Inr (out, domain db')" "res_Data r = marshalJS out"
      by (rule exec_effect_Inr) (auto simp: d executed_result_def)
    moreover have "legacy_marketplace claims capabilityID False \<or> legacy_notification claims capabilityID False \<or>
      isModuleEnabled (OrganizationID claims) (sp_module spec) db = Inr True"
      using checks(1) unfolding e by (auto simp: exec_admission_def split: if_splits sum.splits)
    moreover have "map_of (env_specs env) capabilityID = Some spec \<and> CapabilityID claims = capabilityID \<and>
      InputHash (env_digest env) rawInput = Inr (InputSHA256 claims) \<and> (sp_humanOnly spec \<longrightarrow> human_bound claims)"
      using effect(1) by (auto simp: exec_scope_def split: option.splits if_splits)
    ultimately show ?thesis using i checks(2,4) gate unfolding e by (intro exI [of _ spec] exI [of _ input]) auto
  qed
qed

section \<open>Properties of the pipeline\<close>

text \<open>
  C6. Nothing acts for a user or an agent without authority: a call that changes the
  business state or reports a fresh success names a registered capability that its signed
  assertion is bound to, carries the input the assertion was signed over, comes from a
  verified identity, passes the module and permission gates, is human-made where the
  capability demands it, needs no approval, and its change is the handler's own change on
  the parsed input.
\<close>
theorem execute_needs_authority:
  assumes run: "Execute env impl claims capabilityID rawInput now db = Inr (r, db')"
    and act: "domain db' \<noteq> domain db \<or> res_OK r \<and> \<not> res_Replayed r"
  shows "\<exists>spec input. map_of (env_specs env) capabilityID = Some spec \<and> CapabilityID claims = capabilityID \<and>
    InputHash (env_digest env) rawInput = Inr (InputSHA256 claims) \<and>
    verifyIdentity (env_lower env) claims now db = Inr () \<and>
    (legacy_marketplace claims capabilityID False \<or> legacy_notification claims capabilityID False \<or>
      isModuleEnabled (OrganizationID claims) (sp_module spec) db = Inr True) \<and>
    exec_permission claims capabilityID spec False db \<and>
    (sp_humanOnly spec \<longrightarrow> human_bound claims) \<and>
    impl_parse impl capabilityID rawInput = Inr input \<and>
    (legacy_notification claims capabilityID False \<or> \<not> fst (requiresApproval claims capabilityID spec input db)) \<and>
    (\<exists>out. impl_run impl claims input now (domain db) = Inr (out, domain db') \<and> res_Data r = marshalJS out)"
  using assms by (rule execute_authority)

theorem execute_needs_authority_witness:
  "\<exists>r db'. Execute example_exec_env example_exec_impl (example_claims ''human'' ''i'') ''accounting.recordPayment'' example_input
     1700000000000 (example_exec_db 10) = Inr (r, db') \<and> res_OK r \<and>
     exec_permission (example_claims ''human'' ''i'') ''accounting.recordPayment'' example_spec False (example_exec_db 10)"
proof -
  from example_call obtain row where p: "Execute example_exec_env example_exec_impl (example_claims ''human'' ''i'') ''accounting.recordPayment'' example_input
     1700000000000 (example_exec_db 10) =
   Inr (example_outcome, (example_exec_db 10)\<lparr>domain := 5, ledger_events := [row], ledger_next_seq := 2, action_receipts := [example_receipt]\<rparr>)"
    by blast
  have "res_OK example_outcome \<and> \<not> res_Replayed example_outcome" by (simp add: example_outcome_def executed_result_def)
  with execute_needs_authority [OF p] have
    "exec_permission (example_claims ''human'' ''i'') ''accounting.recordPayment'' example_spec False (example_exec_db 10)"
    by (auto simp: example_exec_env_def)
  with p show ?thesis by (auto simp: example_outcome_def executed_result_def)
qed



text \<open>
  C4. An action intent takes effect once: after a call with an intent has succeeded, any
  later call under the same intent and organization that finds the receipt changes nothing
  at all, whatever its capability, payload or time, and it reports success only for the
  capability of the first call, replaying the recorded outcome and output.
\<close>
theorem intent_takes_effect_once:
  assumes first: "Execute env impl claims capabilityID rawInput now db = Inr (r, db1)" "res_OK r" "IntentID claims \<noteq> []"
    and kept: "loadReceipt (OrganizationID claims) (intent_key claims) db2 = loadReceipt (OrganizationID claims) (intent_key claims) db1"
    and same: "OrganizationID claims' = OrganizationID claims" "IntentID claims' = IntentID claims"
    and second: "Execute env impl claims' capabilityID' rawInput' later db2 = Inr (r', db3)"
  shows "db3 = db2 \<and>
    (res_OK r' \<longrightarrow> capabilityID' = capabilityID \<and> res_Replayed r' \<and>
       res_Data r' = (if res_Replayed r then res_Data r else env_jsonb env (res_Data r)))"
proof -
  from first obtain receipt where
    l: "loadReceipt (OrganizationID claims) (intent_key claims) db1 = Some receipt"
    and d: "rc_data receipt = (if res_Replayed r then res_Data r else env_jsonb env (res_Data r))"
    and c: "rc_capabilityID receipt = capabilityID" by (rule execute_receipt)
  have "intent_key claims' = intent_key claims" using same by (simp add: intent_key_def)
  with l kept same have l': "loadReceipt (OrganizationID claims') (intent_key claims') db2 = Some receipt" by simp
  from execute_replays [OF second l'] same first(3) d c show ?thesis by (auto simp: replay_result_def)
qed

theorem intent_takes_effect_once_witness:
  "\<exists>r'. Execute example_exec_env example_exec_impl (example_claims ''human'' ''i'') ''accounting.recordPayment'' example_input
     1700000000000 ((example_exec_db 10)\<lparr>action_receipts := [example_receipt]\<rparr>)
       = Inr (r', (example_exec_db 10)\<lparr>action_receipts := [example_receipt]\<rparr>) \<and> res_OK r' \<and> res_Replayed r'"
proof -
  let ?c = "example_claims ''human'' ''i''" and ?db2 = "(example_exec_db 10)\<lparr>action_receipts := [example_receipt]\<rparr>"
  from example_call obtain row where p: "Execute example_exec_env example_exec_impl ?c ''accounting.recordPayment'' example_input
     1700000000000 (example_exec_db 10) =
   Inr (example_outcome, (example_exec_db 10)\<lparr>domain := 5, ledger_events := [row], ledger_next_seq := 2, action_receipts := [example_receipt]\<rparr>)"
    by blast
  have ok: "res_OK example_outcome" "IntentID ?c \<noteq> []" by (simp_all add: example_outcome_def executed_result_def example_claims_def)
  have "case Execute example_exec_env example_exec_impl ?c ''accounting.recordPayment'' example_input 1700000000000 ?db2 of
     Inl _ \<Rightarrow> False | Inr (r, _) \<Rightarrow> res_OK r" by code_simp
  then obtain r' db3 where s: "Execute example_exec_env example_exec_impl ?c ''accounting.recordPayment'' example_input 1700000000000 ?db2 = Inr (r', db3)"
    and "res_OK r'" by (auto split: sum.splits prod.splits)
  from intent_takes_effect_once [OF p ok _ refl refl s] \<open>res_OK r'\<close> s show ?thesis by (auto simp: loadReceipt_def)
qed

text \<open>
  A call held for approval does nothing but ask: the business state, the receipts and
  the executed events stay as they were, and either the intent already had an approval of
  that id waiting, or exactly one new approval is appended, pending, for the organization and
  capability of the call, expiring seven days later, with the stored form of the input.
\<close>
theorem pending_call_only_asks:
  assumes run: "Execute env impl claims capabilityID rawInput now db = Inr (r, db')" and "res_PendingApproval r"
  shows "no_effect db db' \<and>
    (db' = db \<and> (\<exists>a \<in> set (approvals db). ap_id a = res_ApprovalID r \<and> ap_intentID a = Some (IntentID claims) \<and>
        ap_capabilityID a = capabilityID \<and> ap_status a \<in> {''pending'', ''executing'', ''approved''}) \<or>
     (\<exists>input olds a. impl_parse impl capabilityID rawInput = Inr input \<and> approvals db' = olds @ [a] \<and>
        length olds = length (approvals db) \<and> ap_id a = res_ApprovalID r \<and> ap_status a = ''pending'' \<and>
        ap_orgID a = OrganizationID claims \<and> ap_capabilityID a = capabilityID \<and> ap_expiresAt a = Some (now + 604800000) \<and>
        ap_payload a = env_jsonb env (marshalJS (impl_value impl input))))"
proof -
  from run have run': "executeWithFinalizer env impl claims capabilityID rawInput False [] None None now db = Inr (r, db')"
    by (simp add: Execute_def execute_call_def)
  then show ?thesis
  proof (cases rule: executeWithFinalizer_stages)
    case scope
    then show ?thesis using assms(2) by (auto simp: exec_scope_def failed_def split: option.splits if_splits)
  next
    case (checks spec)
    have "db' = db" using exec_enter_frame(2) [OF checks(2)] by simp
    with exec_checks_pending [OF checks(3) assms(2)] show ?thesis by auto
  next
    case (gate spec db1 input inputHash)
    have e: "db1 = db" using exec_enter_frame(2) [OF gate(2)] by simp
    from exec_gate_pending [OF gate(4) assms(2)] obtain rationale where
      q: "requestApproval env claims capabilityID (sp_risk spec) (impl_value impl input) inputHash rationale now db = Inr (res_ApprovalID r, db')"
      unfolding e by blast
    from q obtain olds a where "approvals db' = olds @ [a]" "length olds = length (approvals db)" "ap_id a = res_ApprovalID r"
      "ap_status a = ''pending''" "ap_orgID a = OrganizationID claims" "ap_capabilityID a = capabilityID"
      "ap_expiresAt a = Some (now + 604800000)" "ap_payload a = env_jsonb env (marshalJS (impl_value impl input))"
      by (rule requested_approval)
    with requestApproval_no_effect [OF q] exec_checks_passed(2) [OF gate(3)] show ?thesis by blast
  next
    case (effect spec db1 input inputHash db2)
    from effect(5) assms(2) show ?thesis by (auto elim!: exec_effect_Inr simp: executed_result_def)
  qed
qed

theorem pending_call_only_asks_witness:
  "\<exists>r db'. Execute example_exec_env example_exec_impl (example_claims ''agent'' ''i'') ''accounting.recordPayment'' example_input
     1700000000000 (example_exec_db 1) = Inr (r, db') \<and> domain db' = 0 \<and> length (approvals db') = 1"
proof -
  from example_pending obtain r db' where p: "Execute example_exec_env example_exec_impl (example_claims ''agent'' ''i'') ''accounting.recordPayment'' example_input
     1700000000000 (example_exec_db 1) = Inr (r, db')" and "res_PendingApproval r" by blast
  moreover have "approvals (example_exec_db 1) = []" "domain (example_exec_db 1) = 0" by (simp_all add: example_exec_db_def)
  ultimately show ?thesis using pending_call_only_asks [OF p] by (auto simp: no_effect_def)
qed

text \<open>
  C23. A background job acts only as the owner of its lease and only with authority: a system
  call that changes the business state or reports a fresh success holds a processing job of
  that organization under its own owner and fencing token that has not expired, declares the
  permission the capability asks for, is not reserved to humans and, where approval is
  required, cites an unexpired approval of that organization and capability in state
  executing whose stored payload has the digest of the input.
\<close>
theorem system_call_needs_lease_and_approval:
  assumes run: "ExecuteSystem env impl request rawInput now db = Inr (r, db')"
    and act: "domain db' \<noteq> domain db \<or> res_OK r \<and> \<not> res_Replayed r"
  shows "\<exists>spec input inputHash. map_of (env_specs env) (sy_CapabilityID request) = Some spec \<and>
    sy_Permission request = sp_permission spec \<and> \<not> sp_humanOnly spec \<and>
    (\<exists>job \<in> set (jobs db). lease_held (system_lease request) now job) \<and>
    impl_parse impl (sy_CapabilityID request) rawInput = Inr input \<and>
    canonicalHash (env_digest env) (impl_value impl input) = Inr inputHash \<and>
    (\<forall>digest. InputHash (env_digest env) rawInput = Inr digest \<longrightarrow>
      fst (requiresApproval (system_claims request spec digest) (sy_CapabilityID request) spec input db) \<longrightarrow>
      (\<exists>a \<in> set (approvals db). ap_id a = sy_ApprovedApprovalID request \<and> ap_orgID a = sy_OrganizationID request \<and>
         ap_capabilityID a = sy_CapabilityID request \<and> ap_status a = ''executing'' \<and>
         (\<forall>t. ap_expiresAt a = Some t \<longrightarrow> now < t) \<and>
         InputHash (env_digest env) (ap_payload a) = Inr inputHash))"
proof -
  from run act obtain spec digest where
    s: "map_of (env_specs env) (sy_CapabilityID request) = Some spec" "sy_Permission request = sp_permission spec"
    and d: "InputHash (env_digest env) rawInput = Inr digest"
    and x: "executeWithFinalizer env impl (system_claims request spec digest) (sy_CapabilityID request) rawInput True
      (sy_ApprovedApprovalID request) None (Some (system_lease request)) now db = Inr (r, db')"
    by (auto simp: ExecuteSystem_def execute_call_def failed_def split: option.splits if_splits)
  let ?c = "system_claims request spec digest"
  from x show ?thesis
  proof (cases rule: executeWithFinalizer_cases)
    case kept
    with act show ?thesis by (auto simp: no_effect_def dest: replayed_from_Replayed)
  next
    case (effect spec' db1 input inputHash db2)
    note checks = exec_checks_passed [OF effect(3)] and gate = exec_gate_passed [OF effect(4)]
    have spec: "spec' = spec" "\<not> sp_humanOnly spec" using effect(1) s by (auto simp: exec_scope_def split: if_splits)
    have l: "\<exists>job \<in> set (jobs db). lease_held (system_lease request) now job"
      using effect(2) by (auto simp: exec_enter_def requireSystemJobLease_def list_ex_iff split: if_splits)
    from exec_enter_frame(1) [OF effect(2)] obtain js where j: "db1 = db\<lparr>jobs := js\<rparr>" by blast
    have "requiresApproval ?c (sy_CapabilityID request) spec input db1 = requiresApproval ?c (sy_CapabilityID request) spec input db"
      by (simp add: j requiresApproval_def matching_rules_def)
    with gate spec(1) have v: "fst (requiresApproval ?c (sy_CapabilityID request) spec input db) \<Longrightarrow>
      verifySystemApproval (env_digest env) (OrganizationID ?c) (sy_CapabilityID request) (sy_ApprovedApprovalID request) inputHash now db1"
      by (auto simp: legacy_notification_def)
    have w: "verifySystemApproval (env_digest env) (OrganizationID ?c) (sy_CapabilityID request) (sy_ApprovedApprovalID request) inputHash now db1 \<Longrightarrow>
      \<exists>a \<in> set (approvals db). ap_id a = sy_ApprovedApprovalID request \<and> ap_orgID a = sy_OrganizationID request \<and>
         ap_capabilityID a = sy_CapabilityID request \<and> ap_status a = ''executing'' \<and>
         (\<forall>t. ap_expiresAt a = Some t \<longrightarrow> now < t) \<and> InputHash (env_digest env) (ap_payload a) = Inr inputHash"
      by (auto simp: verifySystemApproval_def j system_claims_def find_Some_iff split: option.splits)
    show ?thesis
      using s spec l checks(2,3) v w d by (intro exI [of _ spec] exI [of _ input] exI [of _ inputHash]) simp
  qed
qed

theorem system_call_needs_lease_and_approval_witness:
  "\<exists>r db'. ExecuteSystem example_exec_env example_exec_impl example_system example_input 1700000000000 (example_exec_db 10) = Inr (r, db') \<and>
     res_OK r \<and> (\<exists>job \<in> set (jobs (example_exec_db 10)). lease_held (system_lease example_system) 1700000000000 job)"
proof -
  from example_system_paid obtain r db' where p: "ExecuteSystem example_exec_env example_exec_impl example_system example_input
    1700000000000 (example_exec_db 10) = Inr (r, db')" and ok: "res_OK r \<and> \<not> res_Replayed r" by blast
  from system_call_needs_lease_and_approval [OF p disjI2 [OF ok]] p ok show ?thesis by blast
qed

text \<open>
  Secrets stay out of the audit trail: every executed event that a call of a
  secret-class capability adds to the ledger carries the fixed redaction notice in place of
  the input.
\<close>
theorem secret_inputs_are_redacted:
  assumes run: "execute_call env impl claims capabilityID rawInput system approvedApprovalID lease now db = Inr (r, db')"
    and secret: "map_of (env_specs env) capabilityID = Some spec" "sp_risk spec = ''secret''"
    and row: "row \<in> set (executed_rows db')" "row \<notin> set (executed_rows db)"
  shows "le_payload row = ''{\"input\":\"[REDACTED: secret-class]\"}''"
proof -
  from run have "executeWithFinalizer env impl claims capabilityID rawInput system approvedApprovalID None lease now db = Inr (r, db')"
    by (simp add: execute_call_def)
  then show ?thesis
  proof (cases rule: executeWithFinalizer_cases)
    case kept
    with row show ?thesis by (simp add: no_effect_def)
  next
    case (effect spec' db1 input inputHash db2)
    have s: "spec' = spec" using effect(1) secret by (auto simp: exec_scope_def split: if_splits)
    have x: "executed_rows db2 = executed_rows db"
      using no_effect_trans [OF exec_enter_no_effect(1) [OF effect(2)] exec_gate_no_effect [OF effect(4)]] by (simp add: no_effect_def)
    have red: "stringifyPayload (marshalJS (JObj [(''input'', JStr ''[REDACTED: secret-class]'')])) = Inr ''{\"input\":\"[REDACTED: secret-class]\"}''"
      by code_simp
    from effect(5) obtain payload where
      p: "stringifyPayload (ev_payload (executed_event claims capabilityID spec (impl_value impl input) now)) = Inr payload"
      and l: "ledger_events db' = ledger_events db2 @ [new_row (env_digest env)
         (executed_event claims capabilityID spec (impl_value impl input) now) payload (chain_head (ledger_events db2)) (ledger_next_seq db2)]"
      unfolding s by (rule exec_effect_Inr) auto
    have "payload = ''{\"input\":\"[REDACTED: secret-class]\"}''" using p red secret(2) by (simp add: executed_event_def)
    moreover from l have "\<exists>event prev seq. executed_rows db' = executed_rows db2 @ [new_row (env_digest env) event payload prev seq]"
      by (auto simp: executed_rows_def executed_event_def)
    ultimately show ?thesis using row x by auto
  qed
qed

text \<open>
  A requester has one live purchase proposal per capability: asking for approval of a
  purchase commitment leaves the new approval as the only pending one of that organization,
  capability and requester, with a version above every earlier one of theirs, and every
  other approval row exactly as it was.
\<close>
theorem one_live_purchase_proposal:
  assumes req: "requestApproval env claims capabilityID risk value inputHash rationale now db = Inr (approvalID, db')"
    and kind: "ActorType claims \<noteq> ''system''" "risk = ''money''"
      "capabilityID \<in> {''purchasing.createPurchaseOrder'', ''purchasing.selectWinningQuote''}"
  shows "\<exists>olds a. approvals db' = olds @ [a] \<and> ap_id a = approvalID \<and> ap_status a = ''pending'' \<and>
    list_all2 (\<lambda>old new. if ap_orgID old = OrganizationID claims \<and> ap_capabilityID old = capabilityID \<and>
                            ap_requestedByUserID old = Some (Subject claims)
                         then ap_status new \<noteq> ''pending'' \<and> ap_version new = ap_version old \<and> ap_version old < ap_version a
                         else new = old)
      (approvals db) olds"
proof -
  let ?mine = "\<lambda>a. ap_orgID a = OrganizationID claims \<and> ap_capabilityID a = capabilityID \<and> ap_requestedByUserID a = Some (Subject claims)"
  let ?a = "requested_row env claims capabilityID risk value inputHash rationale now db"
  let ?olds = "snd (snd (supersede claims capabilityID risk now (approvals db)))"
  have a: "approvals db' = ?olds @ [?a]" "approvalID = env_uuid env (gov_draws db)"
    using req by (auto elim!: requestApproval_Inr)
  have v: "ap_version ?a = foldr max (map ap_version (filter ?mine (approvals db))) 0 + 1"
    using kind by (simp add: requested_row_def supersede_def Let_def)
  have below: "ap_version old < ap_version ?a" if "old \<in> set (approvals db)" "?mine old" for old
  proof -
    have "x \<in> set xs \<Longrightarrow> x \<le> foldr max xs (0 :: int)" for x xs by (induction xs) auto
    with that have "ap_version old \<le> foldr max (map ap_version (filter ?mine (approvals db))) 0" by auto
    then show ?thesis unfolding v by simp
  qed
  have "list_all2 (\<lambda>old new. if ?mine old
                         then ap_status new \<noteq> ''pending'' \<and> ap_version new = ap_version old \<and> ap_version old < ap_version ?a
                         else new = old) (approvals db) ?olds"
    using kind below by (auto simp: supersede_def Let_def list_all2_conv_all_nth)
  with a show ?thesis by (intro exI [of _ ?olds] exI [of _ ?a]) (simp add: requested_row_def split_beta)
qed

lemma example_proposal:
  "\<exists>db'. requestApproval example_exec_env (example_claims ''agent'' ''i'') ''purchasing.createPurchaseOrder'' ''money'' (JObj []) h [] 0
     (example_exec_db 1) = Inr (''x'', db')"
proof -
  have "\<exists>payload. stringifyPayload (marshalJS (approval_request ''purchasing.createPurchaseOrder'' ''money'' (JObj []) [] 1 None)) = Inr payload"
    by (intro exI) code_simp
  then show ?thesis
    by (auto simp: requestApproval_def supersede_def Let_def enqueueApprovalNotifications_def AppendTx_def example_exec_env_def
      example_exec_db_def example_claims_def)
qed

theorem one_live_purchase_proposal_witness:
  "\<exists>db'. requestApproval example_exec_env (example_claims ''agent'' ''i'') ''purchasing.createPurchaseOrder'' ''money'' (JObj []) [] [] 0
     (example_exec_db 1) = Inr (''x'', db') \<and> length (approvals db') = 1"
proof -
  obtain db' where p: "requestApproval example_exec_env (example_claims ''agent'' ''i'') ''purchasing.createPurchaseOrder'' ''money''
     (JObj []) [] [] 0 (example_exec_db 1) = Inr (''x'', db')" using example_proposal by blast
  have "approvals (example_exec_db 1) = []" by (simp add: example_exec_db_def)
  with one_live_purchase_proposal [OF p] p show ?thesis by (auto simp: example_claims_def)
qed

theorem secret_inputs_are_redacted_witness:
  "\<exists>r db' row. execute_call example_exec_env example_exec_impl example_secret_claims ''settings.key'' example_input False [] None
      1700000000000 (example_exec_db 10) = Inr (r, db') \<and> executed_rows db' = [row] \<and>
      le_payload row = ''{\"input\":\"[REDACTED: secret-class]\"}''"
proof -
  from example_secret_run obtain r db' row where p: "execute_call example_exec_env example_exec_impl example_secret_claims ''settings.key''
      example_input False [] None 1700000000000 (example_exec_db 10) = Inr (r, db')" and x: "executed_rows db' = [row]" by blast
  have s: "map_of (env_specs example_exec_env) ''settings.key'' = Some (example_spec\<lparr>sp_risk := ''secret''\<rparr>)"
    by (simp add: example_exec_env_def)
  have "executed_rows (example_exec_db 10) = []" by (simp add: example_exec_db_def executed_rows_def)
  with secret_inputs_are_redacted [OF p s] p x show ?thesis by auto
qed

end
