(* ===== verification/Approval.thy ===== *)
theory Approval
  imports Executor
begin

text \<open>
  Deciding a pending approval (src/apps/api/internal/capability/approval.go,
  \<^verbatim>\<open>DecideForSession\<close> and \<^verbatim>\<open>Decide\<close>). A decision is up to three transactions: the first
  rejects, expires or claims the approval, the second runs the approved action together
  with the final status, the third records the outcome when the second did not. The result
  of the model is what the caller sees (\<open>Inl\<close> a Go error) with the state that is left
  behind. The capabilities whose stored payload \<^verbatim>\<open>Decide\<close> knows how to re-read are the
  argument \<open>env_verifiable\<close>, the permissions \<^verbatim>\<open>permissionForCapability\<close> falls back on are
  \<open>env_fallbackPermission\<close>. The executor reads its own clock, \<open>later\<close>.
\<close>

section \<open>Data\<close>

record approvalDecisionInput =
  di_ApprovalID :: string
  di_Decision :: string
  di_Comment :: "string option"

record approvalDecisionResult =
  dr_OK :: bool
  dr_Status :: string
  dr_Result :: "exec_result option"
  dr_Error :: string
  dr_HTTPStatus :: int

record approval_env = exec_env +
  env_fallbackPermission :: "string \<Rightarrow> string option"
  env_verifiable :: "string list"

definition decisionFailure :: "int \<Rightarrow> string \<Rightarrow> approvalDecisionResult" where
  "decisionFailure status message =
     \<lparr>dr_OK = False, dr_Status = [], dr_Result = None, dr_Error = message, dr_HTTPStatus = status\<rparr>"

definition approvalAlreadyDecided :: "string \<Rightarrow> approvalDecisionResult" where
  "approvalAlreadyDecided status =
     (if status = ''executing'' then decisionFailure 409 ''this approval is being executed elsewhere; refresh to see the outcome''
      else decisionFailure 409 (''already '' @ status))"

definition permissionForCapability :: "approval_env \<Rightarrow> string \<Rightarrow> string option" where
  "permissionForCapability env capabilityID =
     (case map_of (env_specs env) capabilityID of
        Some spec \<Rightarrow> if sp_permission spec \<noteq> [] then Some (sp_permission spec) else env_fallbackPermission env capabilityID
      | None \<Rightarrow> env_fallbackPermission env capabilityID)"

section \<open>Status changes\<close>

definition set_status ::
  "(approval_row \<Rightarrow> bool) \<Rightarrow> (approval_row \<Rightarrow> approval_row) \<Rightarrow> 'a governance_scheme \<Rightarrow> 'a governance_scheme" where
  "set_status sel change db = db\<lparr>approvals := map (\<lambda>a. if sel a then change a else a) (approvals db)\<rparr>"

definition decided :: "string \<Rightarrow> string \<Rightarrow> string option \<Rightarrow> int \<Rightarrow> approval_row \<Rightarrow> approval_row" where
  "decided status subject comment decidedAt a =
     a\<lparr>ap_status := status, ap_decidedByUserID := Some subject, ap_decisionComment := comment, ap_decidedAt := Some decidedAt\<rparr>"

definition finishTx ::
  "capabilityClaims \<Rightarrow> string \<Rightarrow> string \<Rightarrow> string option \<Rightarrow> int \<Rightarrow> 'a governance_scheme \<Rightarrow> 'a governance_scheme result" where
  "finishTx claims approvalID status comment decidedAt db =
     (let sel = (\<lambda>a. ap_id a = approvalID \<and> ap_orgID a = OrganizationID claims \<and> ap_status a = ''executing'')
      in if length (filter sel (approvals db)) \<noteq> 1 then Inl ''approval execution claim was lost before finalization''
         else Inr (set_status sel (decided status (Subject claims) comment decidedAt) db))"

definition restorePending :: "capabilityClaims \<Rightarrow> string \<Rightarrow> 'a governance_scheme \<Rightarrow> 'a governance_scheme" where
  "restorePending claims approvalID db =
     set_status (\<lambda>a. ap_id a = approvalID \<and> ap_orgID a = OrganizationID claims \<and> ap_status a = ''executing'')
       (\<lambda>a. a\<lparr>ap_status := ''pending'', ap_decidedByUserID := None, ap_decisionComment := None, ap_decidedAt := None\<rparr>) db"

definition appendApprovalDecisionEventTx ::
  "(string \<Rightarrow> string) \<Rightarrow> capabilityClaims \<Rightarrow> approval_row \<Rightarrow> string \<Rightarrow> json \<Rightarrow> int \<Rightarrow> 'a governance_scheme \<Rightarrow> 'a governance_scheme result" where
  "appendApprovalDecisionEventTx H claims row kind payload now db =
     bind_result (AppendTx H
       \<lparr>ev_orgID = OrganizationID claims, ev_actorType = ''human'', ev_actorID = Some (Subject claims), ev_kind = kind,
        ev_capabilityID = Some (ap_capabilityID row), ev_sessionID = None, ev_authSessionID = None,
        ev_payload = marshalJS payload, ev_occurredAt = now * 1000000\<rparr> db) (\<lambda>(seq, hash, db'). Inr db')"

definition rejectionPayload :: "string \<Rightarrow> string option \<Rightarrow> json" where
  "rejectionPayload approvalID comment =
     JObj [(''approvalId'', JStr approvalID), (''comment'', case comment of None \<Rightarrow> JNull | Some c \<Rightarrow> JStr c)]"

section \<open>The first transaction\<close>

text \<open>What it ends with: an answer for the caller, or the claimed row.\<close>

datatype transition = Answer approvalDecisionResult | Claimed approval_row

definition decide_claim ::
  "approval_env \<Rightarrow> capabilityClaims \<Rightarrow> approvalDecisionInput \<Rightarrow> int \<Rightarrow> 'a governance_scheme
   \<Rightarrow> (transition \<times> 'a governance_scheme) result" where
  "decide_claim env claims input now db =
     bind_result (verifyIdentity (env_lower env) claims now db) (\<lambda>_.
     case find (\<lambda>a. ap_id a = di_ApprovalID input \<and> ap_orgID a = OrganizationID claims) (approvals db) of
       None \<Rightarrow> Inr (Answer (decisionFailure 404 ''not found''), db)
     | Some row \<Rightarrow>
         let pending_row = (\<lambda>a. ap_id a = ap_id row \<and> ap_status a = ''pending'')
         in if ap_status row = ''pending'' \<and> (case ap_expiresAt row of None \<Rightarrow> False | Some t \<Rightarrow> t \<le> now)
            then Inr (Answer (decisionFailure 410 ''this approval has expired; request it again''),
                      set_status pending_row (ap_status_update (\<lambda>_. ''expired'')) db)
            else if ap_status row \<noteq> ''pending'' then Inr (Answer (approvalAlreadyDecided (ap_status row)), db)
            else case permissionForCapability env (ap_capabilityID row) of
              None \<Rightarrow> Inr (Answer (decisionFailure 422 (''unknown capability: '' @ ap_capabilityID row)), db)
            | Some permission \<Rightarrow>
                let permissions = effectivePermissions claims db
                in if ''*'' \<notin> set permissions \<and> permission \<notin> set permissions
                   then Inr (Answer (decisionFailure 403 ''you lack authority over this action''), db)
                   else if di_Decision input = ''reject'' then
                     bind_result (appendApprovalDecisionEventTx (env_digest env) claims row ''approval.rejected''
                         (rejectionPayload (ap_id row) (di_Comment input)) now
                         (set_status pending_row (decided ''rejected'' (Subject claims) (di_Comment input) now) db)) (\<lambda>db1.
                     Inr (Answer \<lparr>dr_OK = True, dr_Status = ''rejected'', dr_Result = None, dr_Error = [], dr_HTTPStatus = 200\<rparr>, db1))
                   else Inr (Claimed (row\<lparr>ap_status := ''executing''\<rparr>),
                             set_status pending_row (ap_status_update (\<lambda>_. ''executing'')) db))"

section \<open>Verification and execution\<close>

definition verified_payload ::
  "approval_env \<Rightarrow> 'd capability_impl \<Rightarrow> capabilityClaims \<Rightarrow> approval_row \<Rightarrow> int \<Rightarrow> bool" where
  "verified_payload env impl claims row now \<longleftrightarrow>
     (case InputHash (env_digest env) (ap_payload row) of
        Inl _ \<Rightarrow> False
      | Inr digest \<Rightarrow>
          CapabilityID claims = ap_capabilityID row \<and> InputSHA256 claims = digest \<and> ap_orgID row = OrganizationID claims \<and>
          ap_status row = ''executing'' \<and> (case ap_expiresAt row of None \<Rightarrow> True | Some t \<Rightarrow> now < t) \<and>
          ap_capabilityID row \<in> set (env_verifiable env) \<and>
          (case impl_parse impl (ap_capabilityID row) (ap_payload row) of
             Inl _ \<Rightarrow> ap_capabilityID row \<noteq> ''accounting.overview''
           | Inr input \<Rightarrow> canonicalHash (env_digest env) (impl_value impl input) = Inr digest))"

definition decide_outcome :: "exec_result \<Rightarrow> string" where
  "decide_outcome r = (if res_OK r then ''executed'' else if res_PendingApproval r then ''approved'' else ''failed'')"

definition decide_answer :: "exec_result \<Rightarrow> approvalDecisionResult" where
  "decide_answer r =
     (if \<not> res_OK r \<and> \<not> res_PendingApproval r
      then decisionFailure 422 (if res_Error r = [] then ''execution failed'' else res_Error r)
      else \<lparr>dr_OK = True, dr_Status = decide_outcome r, dr_Result = Some r, dr_Error = [], dr_HTTPStatus = 200\<rparr>)"

definition decide_execute ::
  "approval_env \<Rightarrow> 'd capability_impl \<Rightarrow> capabilityClaims \<Rightarrow> approvalDecisionInput \<Rightarrow> approval_row \<Rightarrow> int \<Rightarrow> int \<Rightarrow> 'd exec_db
   \<Rightarrow> approvalDecisionResult result \<times> 'd exec_db" where
  "decide_execute env impl claims input row now later db =
     (if \<not> verified_payload env impl claims row now then
        (case finishTx claims (ap_id row) ''failed'' (di_Comment input) now db of
           Inl e \<Rightarrow> (Inl e, db)
         | Inr db1 \<Rightarrow> (Inr (decisionFailure 422 approvalVerificationError), db1))
      else
        (case ExecuteWithApprovalFinalizer (exec_env.truncate env) impl (claims\<lparr>IntentID := (case ap_intentID row of None \<Rightarrow> [] | Some i \<Rightarrow> i)\<rparr>)
                (ap_capabilityID row) (ap_payload row)
                (Some (finishTx claims (ap_id row) ''executed'' (di_Comment input) now)) later db of
           Inl e \<Rightarrow> (Inl e, restorePending claims (ap_id row) db)
         | Inr (r, db1) \<Rightarrow>
             if res_OK r then (Inr (decide_answer r), db1)
             else (case finishTx claims (ap_id row) (decide_outcome r) (di_Comment input) now db1 of
                     Inl e \<Rightarrow> (Inl e, db1)
                   | Inr db2 \<Rightarrow> (Inr (decide_answer r), db2))))"

section \<open>Decisions\<close>

definition Decide ::
  "approval_env \<Rightarrow> 'd capability_impl \<Rightarrow> capabilityClaims \<Rightarrow> approvalDecisionInput \<Rightarrow> int \<Rightarrow> int \<Rightarrow> 'd exec_db
   \<Rightarrow> approvalDecisionResult result \<times> 'd exec_db" where
  "Decide env impl claims input now later db =
     (if \<not> isUUID (OrganizationID claims) then (Inr (decisionFailure 428 ''onboarding required''), db)
      else if di_Decision input \<noteq> ''approve'' \<and> di_Decision input \<noteq> ''reject'' \<or>
              (case di_Comment input of None \<Rightarrow> False | Some c \<Rightarrow> 2000 < utf16Length c)
      then (Inr (decisionFailure 400 ''invalid request''), db)
      else if \<not> isUUID (di_ApprovalID input) then (Inr (decisionFailure 404 ''not found''), db)
      else if \<not> human_bound claims \<or> \<not> isUUID (Subject claims) then (Inr (decisionFailure 401 ErrSessionInvalid), db)
      else case decide_claim env claims input now db of
        Inl e \<Rightarrow>
          if e = ErrSessionInvalid then (Inr (decisionFailure 401 ErrSessionInvalid), db)
          else if e = ErrNotMember then (Inr (decisionFailure 403 ErrNotMember), db)
          else (Inl e, db)
      | Inr (Answer answer, db1) \<Rightarrow> (Inr answer, db1)
      | Inr (Claimed row, db1) \<Rightarrow> decide_execute env impl claims input row now later db1)"

definition DecideForSession ::
  "approval_env \<Rightarrow> 'd capability_impl \<Rightarrow> string \<Rightarrow> string \<Rightarrow> string \<Rightarrow> string list \<Rightarrow> approvalDecisionInput \<Rightarrow> int \<Rightarrow> int \<Rightarrow> 'd exec_db
   \<Rightarrow> approvalDecisionResult result \<times> 'd exec_db" where
  "DecideForSession env impl subject organizationID authSessionID permissions input now later db =
     (if \<not> isUUID subject \<or> \<not> isUUID organizationID \<or> authSessionID = []
      then (Inr (decisionFailure 401 ErrSessionInvalid), db)
      else if \<not> isUUID (di_ApprovalID input) then (Inr (decisionFailure 404 ''not found''), db)
      else case find (\<lambda>a. ap_id a = di_ApprovalID input \<and> ap_orgID a = organizationID) (approvals db) of
        None \<Rightarrow> (Inr (decisionFailure 404 ''not found''), db)
      | Some row \<Rightarrow>
          if ap_capabilityID row = [] then (Inr (decisionFailure 404 ''not found''), db)
          else (case InputHash (env_digest env) (ap_payload row) of
            Inl _ \<Rightarrow> (Inr (decisionFailure 422 ''invalid approval payload''), db)
          | Inr inputHash \<Rightarrow>
              Decide env impl
                \<lparr>Audience = [], Subject = subject, OrganizationID = organizationID, CapabilityID = ap_capabilityID row,
                 InputSHA256 = inputHash, ActorID = Some subject, ActorType = ''human'', Permissions = permissions,
                 AuthSessionID = authSessionID, AgentSessionID = [], IntentID = [], IssuedAt = 0, ExpiresAt = 0\<rparr>
                input now later db))"

section \<open>The life of an approval\<close>

text \<open>
  The abstract specification: the statuses an approval may go through, and that everything
  but the decision columns of a row is fixed when it is requested.
\<close>

inductive lifecycle :: "string \<Rightarrow> string \<Rightarrow> bool" where
  claim: "lifecycle ''pending'' ''executing''"
| expire: "lifecycle ''pending'' ''expired''"
| reject: "lifecycle ''pending'' ''rejected''"
| supersede: "lifecycle ''pending'' ''superseded''"
| finish: "status \<in> {''executed'', ''failed'', ''approved''} \<Longrightarrow> lifecycle ''executing'' status"
| restore: "lifecycle ''executing'' ''pending''"

inductive_simps lifecycle_from_pending: "lifecycle ''pending'' status"
inductive_simps lifecycle_from_executing: "lifecycle ''executing'' status"

definition open_status :: "string \<Rightarrow> bool" where
  "open_status status \<longleftrightarrow> status = ''pending'' \<or> status = ''executing''"

lemma lifecycle_open: "lifecycle s t \<Longrightarrow> open_status s"
  by (auto simp: open_status_def elim: lifecycle.cases)

definition same_request :: "approval_row \<Rightarrow> approval_row \<Rightarrow> bool" where
  "same_request a b \<longleftrightarrow>
     b = a\<lparr>ap_status := ap_status b, ap_decidedByUserID := ap_decidedByUserID b,
          ap_decisionComment := ap_decisionComment b, ap_decidedAt := ap_decidedAt b\<rparr>"

definition row_evolves :: "approval_row \<Rightarrow> approval_row \<Rightarrow> bool" where
  "row_evolves a b \<longleftrightarrow> same_request a b \<and> lifecycle\<^sup>*\<^sup>* (ap_status a) (ap_status b) \<and> (open_status (ap_status a) \<or> b = a)"

lemma row_evolves_refl [simp]: "row_evolves a a"
  by (simp add: row_evolves_def same_request_def)

lemma row_evolves_trans:
  assumes "row_evolves a b" and "row_evolves b c"
  shows "row_evolves a c"
proof -
  have "same_request a c"
  proof -
    from assms obtain s u m d s' u' m' d' where
      "b = a\<lparr>ap_status := s, ap_decidedByUserID := u, ap_decisionComment := m, ap_decidedAt := d\<rparr>"
      "c = b\<lparr>ap_status := s', ap_decidedByUserID := u', ap_decisionComment := m', ap_decidedAt := d'\<rparr>"
      unfolding row_evolves_def same_request_def by blast
    then show ?thesis by (simp add: same_request_def)
  qed
  with assms show ?thesis by (auto simp: row_evolves_def)
qed

lemma row_evolves_step:
  "lifecycle (ap_status a) status \<Longrightarrow>
   row_evolves a (a\<lparr>ap_status := status, ap_decidedByUserID := u, ap_decisionComment := m, ap_decidedAt := d\<rparr>)"
  by (auto simp: row_evolves_def same_request_def dest: lifecycle_open)

definition approvals_evolve :: "approval_row list \<Rightarrow> approval_row list \<Rightarrow> bool" where
  "approvals_evolve rows rows' \<longleftrightarrow> (\<exists>olds news. rows' = olds @ news \<and> list_all2 row_evolves rows olds)"

lemma approvals_evolve_refl [simp]: "approvals_evolve rows rows"
  unfolding approvals_evolve_def by (intro exI [of _ rows] exI [of _ "[]"]) (simp add: list_all2_refl)

lemma approvals_evolve_trans:
  assumes "approvals_evolve xs ys" and "approvals_evolve ys zs"
  shows "approvals_evolve xs zs"
proof -
  from assms obtain o1 n1 o2 n2 where 1: "ys = o1 @ n1" "list_all2 row_evolves xs o1"
    and 2: "zs = o2 @ n2" "list_all2 row_evolves ys o2" by (auto simp: approvals_evolve_def)
  from 1 2 obtain o3 n3 where 3: "o2 = o3 @ n3" "list_all2 row_evolves o1 o3"
    by (auto simp: list_all2_append1)
  have "list_all2 row_evolves xs o3" using 1(2) 3(2) by (rule list_all2_trans [rotated]) (rule row_evolves_trans)
  with 2 3 show ?thesis by (auto simp: approvals_evolve_def)
qed

lemma set_status_evolves:
  assumes "\<And>a. sel a \<Longrightarrow> row_evolves a (change a)"
  shows "approvals_evolve (approvals db) (approvals (set_status sel change db))"
  unfolding approvals_evolve_def set_status_def
  using assms by (intro exI [of _ "approvals (set_status sel change db)"] exI [of _ "[]"])
    (auto simp: set_status_def list_all2_conv_all_nth)

lemma supersede_evolves:
  "list_all2 row_evolves rows (snd (snd (supersede claims capabilityID risk now rows)))"
proof -
  have "lifecycle ''pending'' ''superseded''" by (rule lifecycle.supersede)
  then have "ap_status a = ''pending'' \<Longrightarrow>
    row_evolves a (a\<lparr>ap_status := ''superseded'', ap_decidedAt := Some now, ap_decisionComment := Some m\<rparr>)" for a m
    using row_evolves_step [where a = a and status = "''superseded''" and u = "ap_decidedByUserID a" and m = "Some m" and d = "Some now"] by (cases a) simp
  then show ?thesis by (auto simp: supersede_def Let_def list_all2_conv_all_nth)
qed

lemma requestApproval_evolves:
  assumes "requestApproval env claims capabilityID risk value inputHash rationale now db = Inr (approvalID, db')"
  shows "approvals_evolve (approvals db) (approvals db')"
  using assms
proof (rule requestApproval_Inr)
  fix event obx ns payload
  assume "db' = db\<lparr>approvals := snd (snd (supersede claims capabilityID risk now (approvals db)))
                   @ [requested_row env claims capabilityID risk value inputHash rationale now db],
               gov_draws := Suc (gov_draws db), outbox := obx, notifications := ns,
               ledger_events := ledger_events db
                 @ [new_row (env_digest env) event payload (chain_head (ledger_events db)) (ledger_next_seq db)],
               ledger_next_seq := ledger_next_seq db + 1\<rparr>"
  then show ?thesis using supersede_evolves by (auto simp: approvals_evolve_def)
qed

lemma AppendTx_approvals:
  "AppendTx H event db = Inr (seq, hash, db') \<Longrightarrow> approvals db' = approvals db"
  by (auto elim!: AppendTx_Inr)

lemma exec_gate_evolves:
  assumes "exec_gate env claims capabilityID spec input value inputHash system approvedApprovalID finalizing now db = Inr (early, db')"
  shows "approvals_evolve (approvals db) (approvals db')"
  using assms
  by (auto simp: exec_gate_def split: prod.splits if_splits dest: requestApproval_evolves AppendTx_approvals)

lemma exec_enter_approvals:
  assumes "exec_enter env claims lease system now db = Inr db1"
  shows "approvals db1 = approvals db"
proof -
  from exec_enter_frame(1) [OF assms] obtain js where "db1 = db\<lparr>jobs := js\<rparr>" by blast
  then show ?thesis by simp
qed

lemma exec_effect_approvals:
  assumes "exec_effect env impl claims capabilityID spec input inputHash finalize now db = Inr (r, db')"
  obtains db1 out where "approvals db1 = approvals db" and "(case finalize of None \<Rightarrow> Inr db1 | Some f \<Rightarrow> f db1) = Inr db'"
    and "impl_run impl claims input now (domain db) = Inr (out, domain db1)" and "r = executed_result out"
proof (rule exec_effect_Inr [OF assms])
  fix out effect payload db1
  assume run: "impl_run impl claims input now (domain db) = Inr (out, effect)" "r = executed_result out"
    and fin: "(case finalize of None \<Rightarrow> Inr db1 | Some f \<Rightarrow> f db1) = Inr db'"
    and "db1 = db\<lparr>domain := effect,
           ledger_events := ledger_events db @ [new_row (env_digest env)
             (executed_event claims capabilityID spec (impl_value impl input) now) payload
             (chain_head (ledger_events db)) (ledger_next_seq db)],
           ledger_next_seq := ledger_next_seq db + 1,
           action_receipts := action_receipts db @
             (if IntentID claims = [] then [] else [receipt_of env claims capabilityID inputHash r])\<rparr>"
  then have "approvals db1 = approvals db" "domain db1 = effect" by simp_all
  with run fin show thesis by (intro that [of db1 out]) auto
qed

lemma executeWithFinalizer_evolves:
  assumes run: "executeWithFinalizer env impl claims capabilityID rawInput system approvedApprovalID finalize lease now db = Inr (r, db')"
    and fin: "\<And>f db1 db2. finalize = Some f \<Longrightarrow> f db1 = Inr db2 \<Longrightarrow> approvals_evolve (approvals db1) (approvals db2)"
  shows "approvals_evolve (approvals db) (approvals db')"
  using run
proof (cases rule: executeWithFinalizer_stages)
  case (checks spec)
  then show ?thesis using exec_enter_approvals by fastforce
next
  case (gate spec db1 input inputHash)
  then show ?thesis using exec_enter_approvals [OF gate(2)] exec_gate_evolves [OF gate(4)] by simp
next
  case (effect spec db1 input inputHash db2)
  from effect(5) obtain db3 where 3: "approvals db3 = approvals db2" and f: "(case finalize of None \<Rightarrow> Inr db3 | Some f \<Rightarrow> f db3) = Inr db'"
    by (rule exec_effect_approvals)
  have "approvals_evolve (approvals db3) (approvals db')" using f fin by (cases finalize) auto
  moreover have "approvals_evolve (approvals db) (approvals db2)"
    using exec_enter_approvals [OF effect(2)] exec_gate_evolves [OF effect(4)] by simp
  ultimately show ?thesis using 3 by (auto intro: approvals_evolve_trans)
qed simp

lemma finishTx_Inr:
  assumes "finishTx claims approvalID status comment decidedAt db = Inr db'"
  shows "db' = set_status (\<lambda>a. ap_id a = approvalID \<and> ap_orgID a = OrganizationID claims \<and> ap_status a = ''executing'')
                 (decided status (Subject claims) comment decidedAt) db"
    and "length (filter (\<lambda>a. ap_id a = approvalID \<and> ap_orgID a = OrganizationID claims \<and> ap_status a = ''executing'') (approvals db)) = 1"
  using assms by (auto simp: finishTx_def Let_def split: if_splits)

lemma finishTx_evolves:
  assumes "finishTx claims approvalID status comment decidedAt db = Inr db'"
    and "status \<in> {''executed'', ''failed'', ''approved''}"
  shows "approvals_evolve (approvals db) (approvals db')"
  unfolding finishTx_Inr(1) [OF assms(1)] decided_def
  by (intro set_status_evolves row_evolves_step) (use lifecycle.finish [OF assms(2)] in auto)

lemma restorePending_evolves: "approvals_evolve (approvals db) (approvals (restorePending claims approvalID db))"
  unfolding restorePending_def by (intro set_status_evolves row_evolves_step) (auto intro: lifecycle.restore)

lemma row_evolves_status:
  "lifecycle (ap_status a) status \<Longrightarrow> row_evolves a (a\<lparr>ap_status := status\<rparr>)"
  using row_evolves_step [where a = a and status = status and u = "ap_decidedByUserID a" and m = "ap_decisionComment a" and d = "ap_decidedAt a"] by simp

lemma appendApprovalDecisionEventTx_approvals:
  "appendApprovalDecisionEventTx H claims row kind payload now db = Inr db' \<Longrightarrow> approvals db' = approvals db"
  by (auto simp: appendApprovalDecisionEventTx_def dest: AppendTx_approvals)

lemma decide_claim_evolves:
  assumes "decide_claim env claims input now db = Inr (t, db')"
  shows "approvals_evolve (approvals db) (approvals db')"
proof -
  have "approvals_evolve (approvals db) (approvals (set_status (\<lambda>a. ap_id a = i \<and> ap_status a = ''pending'') (ap_status_update (\<lambda>_. s)) db))"
    if "lifecycle ''pending'' s" for i s
    using that by (intro set_status_evolves row_evolves_status) auto
  moreover have "approvals_evolve (approvals db) (approvals (set_status (\<lambda>a. ap_id a = i \<and> ap_status a = ''pending'') (decided ''rejected'' u c d) db))" for i u c d
    unfolding decided_def by (intro set_status_evolves row_evolves_step) (auto intro: lifecycle.reject)
  ultimately show ?thesis using assms
    by (auto simp: decide_claim_def Let_def dest!: appendApprovalDecisionEventTx_approvals intro: lifecycle.intros
      split: option.splits if_splits)
qed

lemma decide_outcome_final: "decide_outcome r \<in> {''executed'', ''failed'', ''approved''}"
  by (simp add: decide_outcome_def)

lemma decide_execute_evolves:
  "approvals_evolve (approvals db) (approvals (snd (decide_execute env impl claims input row now later db)))"
proof (cases "verified_payload env impl claims row now")
  case False
  then show ?thesis by (auto simp: decide_execute_def dest: finishTx_evolves split: sum.splits)
next
  case True
  let ?run = "ExecuteWithApprovalFinalizer (exec_env.truncate env) impl (claims\<lparr>IntentID := (case ap_intentID row of None \<Rightarrow> [] | Some i \<Rightarrow> i)\<rparr>)
                (ap_capabilityID row) (ap_payload row)
                (Some (finishTx claims (ap_id row) ''executed'' (di_Comment input) now)) later db"
  show ?thesis
  proof (cases ?run)
    case (Inl e)
    with True show ?thesis by (simp add: decide_execute_def restorePending_evolves)
  next
    case (Inr x)
    obtain r db1 where x: "x = (r, db1)" by (cases x)
    have 1: "approvals_evolve (approvals db) (approvals db1)"
      using Inr unfolding x ExecuteWithApprovalFinalizer_def option.case
      by (rule executeWithFinalizer_evolves) (auto dest: finishTx_evolves)
    show ?thesis
    proof (cases "finishTx claims (ap_id row) (decide_outcome r) (di_Comment input) now db1")
      case i: (Inr db2)
      have "approvals_evolve (approvals db1) (approvals db2)" by (rule finishTx_evolves [OF i decide_outcome_final])
      with 1 Inr x True i show ?thesis by (auto simp: decide_execute_def intro: approvals_evolve_trans)
    qed (use 1 Inr x True in \<open>auto simp: decide_execute_def\<close>)
  qed
qed

section \<open>Histories\<close>

text \<open>
  The transactions that touch approvals, in any interleaving: calls of users, agents and
  jobs, the claiming transaction of a decision and its execution.
\<close>

inductive approval_step :: "approval_env \<Rightarrow> 'd capability_impl \<Rightarrow> 'd exec_db \<Rightarrow> 'd exec_db \<Rightarrow> bool"
  for env impl where
  call: "Execute (exec_env.truncate env) impl claims capabilityID rawInput now db = Inr (r, db') \<Longrightarrow> approval_step env impl db db'"
| job: "ExecuteSystem (exec_env.truncate env) impl request rawInput now db = Inr (r, db') \<Longrightarrow> approval_step env impl db db'"
| claim: "decide_claim env claims input now db = Inr (t, db') \<Longrightarrow> approval_step env impl db db'"
| execute: "decide_execute env impl claims input row now later db = (answer, db') \<Longrightarrow> approval_step env impl db db'"

abbreviation approval_history where "approval_history env impl \<equiv> (approval_step env impl)\<^sup>*\<^sup>*"

lemma execute_call_evolves:
  "execute_call env impl claims capabilityID rawInput system approvedApprovalID lease now db = Inr (r, db') \<Longrightarrow>
   approvals_evolve (approvals db) (approvals db')"
  unfolding execute_call_def by (erule executeWithFinalizer_evolves) simp

lemma approval_step_evolves:
  assumes "approval_step env impl db db'"
  shows "approvals_evolve (approvals db) (approvals db')"
  using assms
proof cases
  case (call claims capabilityID rawInput now r)
  then show ?thesis by (simp add: Execute_def execute_call_evolves)
next
  case (job request rawInput now r)
  then show ?thesis by (auto simp: ExecuteSystem_def dest: execute_call_evolves split: option.splits if_splits)
next
  case (claim claims input now t)
  then show ?thesis by (rule decide_claim_evolves)
next
  case (execute claims input row now later answer)
  then show ?thesis using decide_execute_evolves [of db env impl claims input row now later] by simp
qed

lemma history_evolves: "approval_history env impl db db' \<Longrightarrow> approvals_evolve (approvals db) (approvals db')"
  by (induction rule: rtranclp_induct) (auto intro: approval_step_evolves approvals_evolve_trans)

section \<open>A concrete decision\<close>

definition example_approval_env :: approval_env where
  "example_approval_env = \<lparr>env_digest = (\<lambda>s. s), env_lower = (\<lambda>s. s), env_uuid = (\<lambda>n. replicate n CHR ''x''),
     env_jsonb = (\<lambda>s. s),
     env_specs = [(''accounting.recordPayment'', example_spec), (''settings.key'', example_spec\<lparr>sp_risk := ''secret''\<rparr>)],
     env_webhookURL = [], env_smtpHost = [], env_smtpTo = [],
     env_fallbackPermission = (\<lambda>_. None), env_verifiable = [''accounting.recordPayment'']\<rparr>"

definition example_asked :: approval_row where
  "example_asked = \<lparr>ap_id = example_job, ap_orgID = example_org, ap_sessionID = None, ap_requestedByUserID = Some example_user,
     ap_capabilityID = ''accounting.recordPayment'', ap_riskClass = ''money'', ap_payload = example_input, ap_rationale = [],
     ap_status = ''pending'', ap_expiresAt = Some 1700000000001, ap_intentID = None, ap_inputHash = None, ap_version = 1,
     ap_supersedesApprovalID = None, ap_decidedByUserID = None, ap_decisionComment = None, ap_decidedAt = None\<rparr>"

definition example_asked_db :: "int exec_db" where
  "example_asked_db = (example_exec_db 10)\<lparr>approvals := [example_asked]\<rparr>"

definition example_claimed_db :: "int exec_db" where
  "example_claimed_db = (example_exec_db 10)\<lparr>approvals := [example_asked\<lparr>ap_status := ''executing''\<rparr>]\<rparr>"

definition example_decision :: approvalDecisionInput where
  "example_decision = \<lparr>di_ApprovalID = example_job, di_Decision = ''approve'', di_Comment = None\<rparr>"

lemma example_claim:
  "decide_claim example_approval_env (example_claims ''human'' []) example_decision 1700000000000 example_asked_db
     = Inr (Claimed (example_asked\<lparr>ap_status := ''executing''\<rparr>), example_claimed_db)"
  by code_simp

lemma example_reclaim:
  "decide_claim example_approval_env (example_claims ''human'' []) example_decision 1700000000000 example_claimed_db
     = Inr (Answer (approvalAlreadyDecided ''executing''), example_claimed_db)"
  by code_simp

lemma example_truncate: "exec_env.truncate example_approval_env = example_exec_env"
  by (simp add: example_approval_env_def example_exec_env_def exec_env.truncate_def)

lemma example_verified:
  "verified_payload example_approval_env example_exec_impl (example_claims ''human'' []) (example_asked\<lparr>ap_status := ''executing''\<rparr>) 1700000000000"
  by code_simp

definition example_approved_db :: "ledger_row \<Rightarrow> int exec_db" where
  "example_approved_db row = (example_exec_db 10)\<lparr>domain := 5, ledger_events := [row], ledger_next_seq := 2,
     approvals := [decided ''executed'' example_user None 1700000000000 (example_asked\<lparr>ap_status := ''executing''\<rparr>)]\<rparr>"

lemma example_run:
  "\<exists>row. ExecuteWithApprovalFinalizer example_exec_env example_exec_impl (example_claims ''human'' []) ''accounting.recordPayment'' example_input
     (Some (finishTx (example_claims ''human'' []) example_job ''executed'' None 1700000000000)) 1700000000000 example_claimed_db
     = Inr (example_outcome, example_approved_db row)"
proof -
  let ?c = "example_claims ''human'' []" and ?db = example_claimed_db
  have s: "exec_scope example_exec_env ?c ''accounting.recordPayment'' example_input None False = Proceed example_spec" by code_simp
  have e: "exec_enter example_exec_env ?c None False 1700000000000 ?db = Inr ?db" by code_simp
  have k: "exec_checks example_exec_env example_exec_impl ?c ''accounting.recordPayment'' example_input example_spec False [] True ?db
    = Proceed (example_pay 5, ''{\"amountMinor\":5}'')" by code_simp
  have "requiresApproval ?c ''accounting.recordPayment'' example_spec (example_pay 5) ?db = (False, ''within policy'')" by code_simp
  then have g: "exec_gate example_exec_env ?c ''accounting.recordPayment'' example_spec (example_pay 5) v h False [] True now ?db = Inr (None, ?db)" for v h now
    by (simp add: exec_gate_def)
  let ?e = "executed_event ?c ''accounting.recordPayment'' example_spec (impl_value example_exec_impl (example_pay 5)) 1700000000000"
  have p: "stringifyPayload (ev_payload ?e) = Inr ''{\"input\":{\"amountMinor\":5}}''"
    using example_payload_text by (simp add: executed_event_def example_spec_def example_exec_impl_def)
  have a: "ev_authSessionID ?e = None" by (simp add: executed_event_def)
  have i: "intent_key ?c = []" "OrganizationID ?c \<noteq> []" "OrganizationID ?c = example_org" "Subject ?c = example_user" "example_org \<noteq> []"
    by (simp_all add: example_claims_def intent_key_def example_org_def)
  let ?row = "new_row (env_digest example_exec_env) ?e ''{\"input\":{\"amountMinor\":5}}'' (chain_head []) 1"
  have f: "exec_effect example_exec_env example_exec_impl ?c ''accounting.recordPayment'' example_spec (example_pay 5) h
      (Some (finishTx ?c example_job ''executed'' None 1700000000000)) 1700000000000 ?db = Inr (example_outcome, example_approved_db ?row)" for h
    unfolding exec_effect_def AppendTx_plain [OF a p]
    by (simp add: i example_exec_impl_def example_claimed_db_def example_exec_db_def Let_def example_outcome_def finishTx_def set_status_def
      example_asked_def example_approved_db_def)
  show ?thesis
    by (intro exI [of _ ?row]) (simp add: ExecuteWithApprovalFinalizer_def executeWithFinalizer_def s e k g f i)
qed

lemma example_decided:
  "\<exists>answer row. Decide example_approval_env example_exec_impl (example_claims ''human'' []) example_decision 1700000000000 1700000000000 example_asked_db
     = (answer, example_approved_db row)"
proof -
  let ?c = "example_claims ''human'' []"
  have guards: "isUUID (OrganizationID ?c)" "isUUID (di_ApprovalID example_decision)" "human_bound ?c" "isUUID (Subject ?c)" by code_simp+
  have fields: "di_Decision example_decision = ''approve''" "di_Comment example_decision = None" "ap_intentID example_asked = None"
    "ap_capabilityID example_asked = ''accounting.recordPayment''" "ap_payload example_asked = example_input" "ap_id example_asked = example_job"
    by (simp_all add: example_decision_def example_asked_def)
  have c: "?c\<lparr>IntentID := []\<rparr> = ?c" by (simp add: example_claims_def)
  have ok: "res_OK example_outcome" by (simp add: example_outcome_def executed_result_def)
  obtain row where "ExecuteWithApprovalFinalizer example_exec_env example_exec_impl ?c ''accounting.recordPayment'' example_input
     (Some (finishTx ?c example_job ''executed'' None 1700000000000)) 1700000000000 example_claimed_db
     = Inr (example_outcome, example_approved_db row)" using example_run by blast
  then have "Decide example_approval_env example_exec_impl ?c example_decision 1700000000000 1700000000000 example_asked_db
     = (Inr (decide_answer example_outcome), example_approved_db row)"
    by (simp add: Decide_def guards fields example_claim decide_execute_def example_verified example_truncate c ok)
  then show ?thesis by blast
qed

section \<open>Properties of decisions\<close>

text \<open>
  C10. Approvals follow their life cycle: through every interleaving of calls, jobs, claims
  and executions, each approval keeps its place, what was requested (organization,
  capability, payload, intent, digest, expiry) never changes, its status only moves along
  the life cycle, and a row that is neither pending nor executing never changes again.
\<close>
theorem approvals_follow_lifecycle:
  assumes "approval_history env impl db db'" and "i < length (approvals db)"
  shows "i < length (approvals db') \<and> same_request (approvals db ! i) (approvals db' ! i) \<and>
    lifecycle\<^sup>*\<^sup>* (ap_status (approvals db ! i)) (ap_status (approvals db' ! i)) \<and>
    (ap_status (approvals db ! i) \<notin> {''pending'', ''executing''} \<longrightarrow> approvals db' ! i = approvals db ! i)"
proof -
  from history_evolves [OF assms(1)] obtain olds news where
    "approvals db' = olds @ news" "list_all2 row_evolves (approvals db) olds" by (auto simp: approvals_evolve_def)
  with assms(2) show ?thesis
    by (auto simp: list_all2_conv_all_nth nth_append row_evolves_def open_status_def)
qed

theorem approvals_follow_lifecycle_witness:
  "approval_history example_approval_env example_exec_impl example_asked_db example_claimed_db \<and>
   lifecycle\<^sup>*\<^sup>* (ap_status (approvals example_asked_db ! 0)) (ap_status (approvals example_claimed_db ! 0))"
proof -
  have h: "approval_history example_approval_env example_exec_impl example_asked_db example_claimed_db"
    by (rule r_into_rtranclp) (rule approval_step.claim [OF example_claim])
  have "0 < length (approvals example_asked_db)" by (simp add: example_asked_db_def)
  from approvals_follow_lifecycle [OF h this] h show ?thesis by simp
qed

text \<open>
  A claim is exclusive: once a decision has claimed an approval for execution, a second
  decision on the same approval answers that it is being executed elsewhere and changes
  nothing, whoever makes it and whatever it decides.
\<close>
theorem claim_is_exclusive:
  assumes "decide_claim env claims input now db = Inr (Claimed row, db1)"
    and "di_ApprovalID input' = di_ApprovalID input" "OrganizationID claims' = OrganizationID claims"
    and "decide_claim env claims' input' later db1 = Inr (t, db2)"
  shows "t = Answer (approvalAlreadyDecided ''executing'') \<and> db2 = db1"
proof -
  let ?sel = "\<lambda>a. ap_id a = di_ApprovalID input \<and> ap_orgID a = OrganizationID claims"
  let ?claim = "\<lambda>a. if ap_id a = di_ApprovalID input \<and> ap_status a = ''pending'' then a\<lparr>ap_status := ''executing''\<rparr> else a"
  from assms(1) obtain a where f: "find ?sel (approvals db) = Some a" and p: "ap_status a = ''pending''"
    and d: "db1 = set_status (\<lambda>b. ap_id b = ap_id a \<and> ap_status b = ''pending'') (ap_status_update (\<lambda>_. ''executing'')) db"
    by (auto simp: decide_claim_def Let_def split: option.splits if_splits)
  have i: "ap_id a = di_ApprovalID input" using f by (auto simp: find_Some_iff)
  have "find P (map h xs) = map_option h (find P xs)" if "\<And>x. P (h x) = P x" for P and h :: "approval_row \<Rightarrow> approval_row" and xs
    using that by (induction xs) auto
  from this [of ?sel ?claim "approvals db"] have "find ?sel (approvals db1) = Some (a\<lparr>ap_status := ''executing''\<rparr>)"
    using f p i by (simp add: d set_status_def)
  with assms(2-4) show ?thesis by (auto simp: decide_claim_def Let_def split: if_splits)
qed

theorem claim_is_exclusive_witness:
  "approvalAlreadyDecided ''executing'' \<noteq> approvalAlreadyDecided ''pending'' \<and>
   decide_claim example_approval_env (example_claims ''human'' []) example_decision 1700000000000 example_claimed_db
     = Inr (Answer (approvalAlreadyDecided ''executing''), example_claimed_db)"
  using claim_is_exclusive [OF example_claim refl refl example_reclaim] example_reclaim
  by (simp add: approvalAlreadyDecided_def decisionFailure_def)

lemma set_status_domain [simp]: "domain (set_status sel change db) = domain db"
  by (simp add: set_status_def)

lemma finishTx_domain: "finishTx claims approvalID status comment decidedAt db = Inr db' \<Longrightarrow> domain db' = domain db"
  using finishTx_Inr(1) [of claims approvalID status comment decidedAt db db'] by simp

lemma finishTx_decided:
  assumes "finishTx claims approvalID status comment decidedAt db = Inr db'"
  obtains a where "a \<in> set (approvals db')" and "ap_id a = approvalID" and "ap_orgID a = OrganizationID claims"
    and "ap_status a = status" and "ap_decidedByUserID a = Some (Subject claims)"
proof -
  let ?sel = "\<lambda>a. ap_id a = approvalID \<and> ap_orgID a = OrganizationID claims \<and> ap_status a = ''executing''"
  from finishTx_Inr(2) [OF assms] obtain a where "filter ?sel (approvals db) = [a]" by (auto simp: length_Suc_conv)
  then have "a \<in> set (filter ?sel (approvals db))" by simp
  then have "a \<in> set (approvals db)" "?sel a" by auto
  then have "decided status (Subject claims) comment decidedAt a \<in> set (approvals db')"
    unfolding finishTx_Inr(1) [OF assms] by (auto simp: set_status_def intro!: rev_image_eqI)
  with \<open>?sel a\<close> show thesis by (intro that) (auto simp: decided_def)
qed

lemma decide_claim_domain:
  assumes "decide_claim env claims input now db = Inr (t, db')"
  shows "domain db' = domain db"
  using assms
  by (auto simp: decide_claim_def Let_def appendApprovalDecisionEventTx_def elim!: AppendTx_Inr split: option.splits if_splits)

lemma decide_claim_Claimed:
  assumes "decide_claim env claims input now db = Inr (Claimed row, db')"
  obtains a permission where "a \<in> set (approvals db)" and "ap_id a = di_ApprovalID input" and "ap_orgID a = OrganizationID claims"
    and "ap_status a = ''pending''" and "\<forall>t. ap_expiresAt a = Some t \<longrightarrow> now < t" and "di_Decision input \<noteq> ''reject''"
    and "permissionForCapability env (ap_capabilityID a) = Some permission"
    and "''*'' \<in> set (effectivePermissions claims db) \<or> permission \<in> set (effectivePermissions claims db)"
    and "row = a\<lparr>ap_status := ''executing''\<rparr>"
    and "verifyIdentity (env_lower env) claims now db = Inr ()"
proof -
  from assms obtain a permission where
    f: "find (\<lambda>a. ap_id a = di_ApprovalID input \<and> ap_orgID a = OrganizationID claims) (approvals db) = Some a"
    and r: "ap_status a = ''pending''" "\<forall>t. ap_expiresAt a = Some t \<longrightarrow> now < t" "di_Decision input \<noteq> ''reject''"
      "permissionForCapability env (ap_capabilityID a) = Some permission"
      "''*'' \<in> set (effectivePermissions claims db) \<or> permission \<in> set (effectivePermissions claims db)"
      "row = a\<lparr>ap_status := ''executing''\<rparr>" "verifyIdentity (env_lower env) claims now db = Inr ()"
    by (fastforce simp: decide_claim_def Let_def split: option.splits if_splits)
  from f have "a \<in> set (approvals db)" "ap_id a = di_ApprovalID input" "ap_orgID a = OrganizationID claims" by (auto simp: find_Some_iff)
  then show thesis using r by (rule that)
qed

lemma decide_execute_acts:
  assumes run: "decide_execute env impl claims input row now later db = (answer, db')" and act: "domain db' \<noteq> domain db"
  shows "verified_payload env impl claims row now \<and>
    (\<exists>i out. impl_parse impl (ap_capabilityID row) (ap_payload row) = Inr i \<and>
       impl_run impl (claims\<lparr>IntentID := (case ap_intentID row of None \<Rightarrow> [] | Some i \<Rightarrow> i)\<rparr>) i later (domain db) = Inr (out, domain db') \<and>
       answer = Inr (decide_answer (executed_result out))) \<and>
    (\<exists>a \<in> set (approvals db'). ap_id a = ap_id row \<and> ap_orgID a = OrganizationID claims \<and> ap_status a = ''executed'' \<and>
       ap_decidedByUserID a = Some (Subject claims))"
proof -
  let ?c = "claims\<lparr>IntentID := (case ap_intentID row of None \<Rightarrow> [] | Some i \<Rightarrow> i)\<rparr>"
  let ?fin = "finishTx claims (ap_id row) ''executed'' (di_Comment input) now"
  from run act have v: "verified_payload env impl claims row now"
    by (auto simp: decide_execute_def dest: finishTx_domain split: if_splits sum.splits)
  with run act obtain r db1 where
    x: "executeWithFinalizer (exec_env.truncate env) impl ?c (ap_capabilityID row) (ap_payload row) False [] (Some ?fin) None later db = Inr (r, db1)"
    and d: "domain db1 = domain db'" and ans: "res_OK r \<Longrightarrow> answer = Inr (decide_answer r) \<and> db' = db1"
    by (auto simp: decide_execute_def ExecuteWithApprovalFinalizer_def restorePending_def dest: finishTx_domain
      split: if_splits sum.splits prod.splits)
  from x show ?thesis
  proof (cases rule: executeWithFinalizer_cases)
    case kept
    with act d show ?thesis by (simp add: no_effect_def)
  next
    case (effect spec db2 i inputHash db3)
    have d3: "domain db3 = domain db"
      using no_effect_trans [OF exec_enter_no_effect(1) [OF effect(2)] exec_gate_no_effect [OF effect(4)]] by (simp add: no_effect_def)
    from effect(5) obtain out db4 where
      o: "impl_run impl ?c i later (domain db3) = Inr (out, domain db4)" "r = executed_result out" "?fin db4 = Inr db1"
      by (rule exec_effect_approvals) simp
    have ok: "res_OK r" using o(2) by (simp add: executed_result_def)
    from o(3) obtain a where "a \<in> set (approvals db1)" "ap_id a = ap_id row" "ap_orgID a = OrganizationID claims"
      "ap_status a = ''executed''" "ap_decidedByUserID a = Some (Subject claims)" by (rule finishTx_decided)
    moreover have "domain db4 = domain db1" using finishTx_domain [OF o(3)] by simp
    ultimately show ?thesis
      using v o(1,2) d3 ans [OF ok] exec_checks_passed(2) [OF effect(3)] by auto
  qed
qed

text \<open>
  C7. A decision acts only as approved and leaves the approval marked in the same
  transaction: if deciding changes the business state, the decision was to approve, the
  approval was pending and unexpired in the approver's organization, the approver's identity
  was verified and carries the permission of the capability, the digest of the stored
  payload is the one the assertion was signed over, the change is the handler's on that
  stored payload, the answer says executed, and the approval stands executed by the approver.
\<close>
theorem decision_acts_as_approved:
  assumes run: "Decide env impl claims input now later db = (answer, db')" and act: "domain db' \<noteq> domain db"
  shows "di_Decision input = ''approve'' \<and> verifyIdentity (env_lower env) claims now db = Inr () \<and>
    (\<exists>a \<in> set (approvals db). ap_id a = di_ApprovalID input \<and> ap_orgID a = OrganizationID claims \<and>
       ap_status a = ''pending'' \<and> (\<forall>t. ap_expiresAt a = Some t \<longrightarrow> now < t) \<and>
       (\<exists>permission. permissionForCapability env (ap_capabilityID a) = Some permission \<and>
          (''*'' \<in> set (effectivePermissions claims db) \<or> permission \<in> set (effectivePermissions claims db))) \<and>
       CapabilityID claims = ap_capabilityID a \<and> InputHash (env_digest env) (ap_payload a) = Inr (InputSHA256 claims) \<and>
       (\<exists>i out. impl_parse impl (ap_capabilityID a) (ap_payload a) = Inr i \<and>
          impl_run impl (claims\<lparr>IntentID := (case ap_intentID a of None \<Rightarrow> [] | Some i \<Rightarrow> i)\<rparr>) i later (domain db)
            = Inr (out, domain db'))) \<and>
    (\<exists>result. answer = Inr result \<and> dr_OK result \<and> dr_Status result = ''executed'') \<and>
    (\<exists>a \<in> set (approvals db'). ap_id a = di_ApprovalID input \<and> ap_orgID a = OrganizationID claims \<and>
       ap_status a = ''executed'' \<and> ap_decidedByUserID a = Some (Subject claims))"
proof -
  from run act have g: "di_Decision input = ''approve'' \<or> di_Decision input = ''reject''" by (auto simp: Decide_def split: if_splits)
  have dom: "domain db1 = domain db" if "decide_claim env claims input now db = Inr (t, db1)" for t db1
    using that by (rule decide_claim_domain)
  from run act obtain row db1 where c: "decide_claim env claims input now db = Inr (Claimed row, db1)"
    and x: "decide_execute env impl claims input row now later db1 = (answer, db')"
    using dom by (fastforce simp: Decide_def split: if_splits sum.splits prod.splits transition.splits)
  from c obtain a permission where a: "a \<in> set (approvals db)" "ap_id a = di_ApprovalID input" "ap_orgID a = OrganizationID claims"
    "ap_status a = ''pending''" "\<forall>t. ap_expiresAt a = Some t \<longrightarrow> now < t" "di_Decision input \<noteq> ''reject''"
    "permissionForCapability env (ap_capabilityID a) = Some permission"
    "''*'' \<in> set (effectivePermissions claims db) \<or> permission \<in> set (effectivePermissions claims db)"
    and row: "row = a\<lparr>ap_status := ''executing''\<rparr>" and i: "verifyIdentity (env_lower env) claims now db = Inr ()"
    by (rule decide_claim_Claimed)
  have d: "domain db1 = domain db" using dom c by blast
  note acts = decide_execute_acts [OF x] act
  then have v: "verified_payload env impl claims row now" using d by simp
  then have vp: "CapabilityID claims = ap_capabilityID a \<and> InputHash (env_digest env) (ap_payload a) = Inr (InputSHA256 claims)"
    by (auto simp: verified_payload_def row split: sum.splits)
  from acts d obtain j out where
    j: "impl_parse impl (ap_capabilityID a) (ap_payload a) = Inr j"
    "impl_run impl (claims\<lparr>IntentID := (case ap_intentID a of None \<Rightarrow> [] | Some i \<Rightarrow> i)\<rparr>) j later (domain db) = Inr (out, domain db')"
    "answer = Inr (decide_answer (executed_result out))"
    by (auto simp: row)
  have "\<exists>b \<in> set (approvals db'). ap_id b = di_ApprovalID input \<and> ap_orgID b = OrganizationID claims \<and> ap_status b = ''executed'' \<and>
       ap_decidedByUserID b = Some (Subject claims)" using acts d a(2) by (auto simp: row)
  moreover have "\<exists>result. answer = Inr result \<and> dr_OK result \<and> dr_Status result = ''executed''"
    using j(3) by (simp add: decide_answer_def decide_outcome_def executed_result_def)
  ultimately show ?thesis using g a i vp j(1,2) by blast
qed

theorem decision_acts_as_approved_witness:
  "\<exists>answer db'. Decide example_approval_env example_exec_impl (example_claims ''human'' []) example_decision 1700000000000 1700000000000
     example_asked_db = (answer, db') \<and> domain db' = 5 \<and> (\<exists>a \<in> set (approvals db'). ap_status a = ''executed'')"
proof -
  from example_decided obtain answer row where
    d: "Decide example_approval_env example_exec_impl (example_claims ''human'' []) example_decision 1700000000000 1700000000000 example_asked_db
     = (answer, example_approved_db row)" by blast
  have c: "domain (example_approved_db row) = 5" "domain example_asked_db = 0"
    by (simp_all add: example_approved_db_def example_asked_db_def example_exec_db_def)
  from decision_acts_as_approved [OF d] c d show ?thesis by auto
qed

lemma exec_gate_finalizing:
  assumes "exec_gate env claims capabilityID spec input value inputHash False [] True now db = Inr (early, db')"
  shows "db' = db"
  using assms by (auto simp: exec_gate_def split: prod.splits if_splits)

text \<open>The run of an approved action: either no row of the approvals table changes, or the finalizer ran.\<close>

lemma finalizing_run_approvals:
  assumes "executeWithFinalizer env impl claims capabilityID rawInput False [] (Some f) None now db = Inr (r, db')"
  shows "approvals db' = approvals db \<and> (res_OK r \<longrightarrow> replayed_from claims capabilityID db r) \<or>
    res_OK r \<and> (\<exists>db1. approvals db1 = approvals db \<and> f db1 = Inr db')"
  using assms
proof (cases rule: executeWithFinalizer_stages)
  case scope
  then show ?thesis using exec_scope_Return_not_OK by auto
next
  case (checks spec)
  then have "db' = db" using exec_enter_frame(2) [OF checks(2)] by simp
  then show ?thesis using exec_checks_Return_OK [OF checks(3)] by auto
next
  case (gate spec db1 input inputHash)
  have "db' = db" using exec_enter_frame(2) [OF gate(2)] exec_gate_finalizing [OF gate(4) [simplified]] by simp
  then show ?thesis using exec_gate_early_not_OK [OF gate(4)] by auto
next
  case (effect spec db1 input inputHash db2)
  have "db2 = db" using exec_enter_frame(2) [OF effect(2)] exec_gate_finalizing [OF effect(4) [simplified]] by simp
  with effect(5) show ?thesis by (elim exec_effect_approvals) (auto simp: executed_result_def)
qed

definition approval_ids_unique :: "'a governance_scheme \<Rightarrow> bool" where
  "approval_ids_unique db \<longleftrightarrow> distinct (map ap_id (approvals db))"

lemma unique_executing:
  assumes "approval_ids_unique db" and "a \<in> set (approvals db)" and "ap_status a = ''executing''"
  shows "filter (\<lambda>b. ap_id b = ap_id a \<and> ap_orgID b = ap_orgID a \<and> ap_status b = ''executing'') (approvals db) = [a]"
  using filter_single [of ap_id "approvals db" a "\<lambda>b. ap_orgID b = ap_orgID a \<and> ap_status b = ''executing''"] assms
  by (simp add: approval_ids_unique_def)

lemma finishTx_succeeds:
  assumes "approval_ids_unique db" and "a \<in> set (approvals db)" and "ap_status a = ''executing''" and "ap_orgID a = OrganizationID claims"
  shows "\<exists>db'. finishTx claims (ap_id a) status comment decidedAt db = Inr db'"
  using unique_executing [OF assms(1-3)] assms(4) by (simp add: finishTx_def Let_def)

text \<open>No row of that id and organization is left in state executing.\<close>

definition released :: "string \<Rightarrow> string \<Rightarrow> 'a governance_scheme \<Rightarrow> bool" where
  "released orgID approvalID db \<longleftrightarrow>
     (\<forall>a \<in> set (approvals db). ap_id a = approvalID \<and> ap_orgID a = orgID \<longrightarrow> ap_status a \<noteq> ''executing'')"

lemma set_status_released:
  assumes "\<And>a. ap_id a = approvalID \<and> ap_orgID a = orgID \<and> ap_status a = ''executing'' \<Longrightarrow> sel a"
    and "\<And>a. sel a \<Longrightarrow> ap_status (change a) \<noteq> ''executing''"
  shows "released orgID approvalID (set_status sel change db)"
  unfolding released_def
proof (intro ballI impI)
  fix b
  assume b: "b \<in> set (approvals (set_status sel change db))" "ap_id b = approvalID \<and> ap_orgID b = orgID"
  from b(1) have "b \<in> (\<lambda>a. if sel a then change a else a) ` set (approvals db)" by (simp add: set_status_def)
  then obtain a where a: "b = (if sel a then change a else a)" by (rule imageE)
  show "ap_status b \<noteq> ''executing''"
  proof (cases "sel a")
    case True
    then show ?thesis using a assms(2) by simp
  next
    case False
    then have "b = a" using a by simp
    then show ?thesis using b(2) assms(1) [of a] False by metis
  qed
qed

lemma finishTx_released:
  assumes "finishTx claims approvalID status comment decidedAt db = Inr db'" and "status \<noteq> ''executing''"
  shows "released (OrganizationID claims) approvalID db'"
  unfolding finishTx_Inr(1) [OF assms(1)]
proof (rule set_status_released)
  show "ap_status (decided status (Subject claims) comment decidedAt a) \<noteq> ''executing''" for a
    using assms(2) by (simp add: decided_def)
qed

lemma restorePending_released: "released (OrganizationID claims) approvalID (restorePending claims approvalID db)"
  unfolding restorePending_def
proof (rule set_status_released)
  show "ap_status (a\<lparr>ap_status := ''pending'', ap_decidedByUserID := None, ap_decisionComment := None, ap_decidedAt := None\<rparr>) \<noteq> ''executing''" for a
    by simp
qed

lemma decide_execute_released:
  assumes u: "approval_ids_unique db" and row: "row \<in> set (approvals db)" "ap_status row = ''executing''" "ap_orgID row = OrganizationID claims"
    and fresh: "case ap_intentID row of None \<Rightarrow> True | Some i \<Rightarrow>
      loadReceipt (OrganizationID claims) (OrganizationID claims @ '':'' @ i) db = None"
  shows "released (OrganizationID claims) (ap_id row) (snd (decide_execute env impl claims input row now later db))"
proof (cases "verified_payload env impl claims row now")
  case False
  obtain db1 where "finishTx claims (ap_id row) ''failed'' (di_Comment input) now db = Inr db1"
    using finishTx_succeeds [OF u row] by blast
  with False show ?thesis using finishTx_released [of claims "ap_id row" "''failed''"] by (simp add: decide_execute_def)
next
  case True
  let ?c = "claims\<lparr>IntentID := (case ap_intentID row of None \<Rightarrow> [] | Some i \<Rightarrow> i)\<rparr>"
  let ?fin = "finishTx claims (ap_id row) ''executed'' (di_Comment input) now"
  let ?run = "executeWithFinalizer (exec_env.truncate env) impl ?c (ap_capabilityID row) (ap_payload row) False [] (Some ?fin) None later db"
  show ?thesis
  proof (cases ?run)
    case (Inl e)
    with True show ?thesis by (simp add: decide_execute_def ExecuteWithApprovalFinalizer_def restorePending_released)
  next
    case (Inr x)
    obtain r db1 where x: "?run = Inr (r, db1)" using Inr by (cases x) auto
    have nr: "\<not> replayed_from ?c (ap_capabilityID row) db r"
      using fresh by (auto simp: replayed_from_def intent_key_def split: option.splits)
    from finalizing_run_approvals [OF x] nr consider
      (kept) "approvals db1 = approvals db" "\<not> res_OK r" | (ran) db2 where "res_OK r" "?fin db2 = Inr db1" by blast
    then show ?thesis
    proof cases
      case ran
      with True x show ?thesis using finishTx_released [OF ran(2)] by (simp add: decide_execute_def ExecuteWithApprovalFinalizer_def)
    next
      case kept
      have "approval_ids_unique db1" "row \<in> set (approvals db1)" using kept u row by (simp_all add: approval_ids_unique_def)
      then obtain db2 where 2: "finishTx claims (ap_id row) (decide_outcome r) (di_Comment input) now db1 = Inr db2"
        using finishTx_succeeds row by blast
      have "released (OrganizationID claims) (ap_id row) db2"
        by (rule finishTx_released [OF 2]) (simp add: decide_outcome_def)
      with True x kept 2 show ?thesis by (simp add: decide_execute_def ExecuteWithApprovalFinalizer_def)
    qed
  qed
qed

lemma decide_claim_marks:
  assumes "decide_claim env claims input now db = Inr (Claimed row, db')"
  shows "db' = set_status (\<lambda>b. ap_id b = ap_id row \<and> ap_status b = ''pending'') (ap_status_update (\<lambda>_. ''executing'')) db"
  using assms by (auto simp: decide_claim_def Let_def split: option.splits if_splits)

lemma released_set_status:
  assumes "released orgID approvalID db"
    and "\<And>a. ap_id (change a) = ap_id a \<and> ap_orgID (change a) = ap_orgID a \<and> ap_status (change a) \<noteq> ''executing''"
  shows "released orgID approvalID (set_status sel change db)"
  unfolding released_def
proof (intro ballI impI)
  fix b
  assume b: "b \<in> set (approvals (set_status sel change db))" "ap_id b = approvalID \<and> ap_orgID b = orgID"
  from b(1) have "b \<in> (\<lambda>a. if sel a then change a else a) ` set (approvals db)" by (simp add: set_status_def)
  then obtain a where a: "b = (if sel a then change a else a)" "a \<in> set (approvals db)" by (rule imageE)
  then show "ap_status b \<noteq> ''executing''" using assms b(2) by (cases "sel a") (auto simp: released_def)
qed

lemma decide_claim_answered:
  assumes "decide_claim env claims input now db = Inr (Answer answer, db')" and "released orgID approvalID db"
  shows "released orgID approvalID db'"
proof -
  have 1: "released orgID approvalID (set_status sel (ap_status_update (\<lambda>_. ''expired'')) db)" for sel
    using assms(2) by (rule released_set_status) simp
  have 2: "released orgID approvalID (set_status sel (decided ''rejected'' u c d) db)" for sel u c d
    using assms(2) by (rule released_set_status) (simp add: decided_def)
  have 3: "released orgID approvalID db2"
    if "appendApprovalDecisionEventTx H claims row kind payload now db1 = Inr db2" "released orgID approvalID db1" for H row kind payload db1 db2
    using that appendApprovalDecisionEventTx_approvals [OF that(1)] by (simp add: released_def)
  from assms show ?thesis
    by (auto simp: decide_claim_def Let_def split: option.splits if_splits intro: 1 3 [OF _ 2])
qed



end
