(* ===== verification/Catalog.thy ===== *)
theory Catalog
  imports Approval
begin

text \<open>
  The declared capabilities: the table \<^verbatim>\<open>capabilitySpecs\<close> of
  src/apps/api/internal/capability/executor.go, and the capabilities whose stored payload
  \<^verbatim>\<open>Decide\<close> of approval.go re-reads before it executes an approval. Titles, intents and
  schemas shown to models and the field mappings of inverse inputs are left out; the documents, messaging and notification tables
  merged in at start-up are not part of the literal.
\<close>

section \<open>The table\<close>

definition spec :: "string \<Rightarrow> string \<Rightarrow> string \<Rightarrow> capabilitySpec" where
  "spec module permission risk =
     \<lparr>sp_module = module, sp_permission = permission, sp_risk = risk, sp_humanOnly = False, sp_approvalExempt = False,
      sp_oneTimeOutput = False, sp_moneyThresholdMinor = 0, sp_executionScope = [], sp_inverseCapabilityID = [],
      sp_inverseInputSource = [], sp_inverseFields = []\<rparr>"

definition capabilitySpecs_first :: "(string \<times> capabilitySpec) list" where
  "capabilitySpecs_first =
    [(''crm.createCustomer'', (spec ''crm'' ''crm.write'' ''write'')\<lparr>sp_inverseCapabilityID := ''crm.deactivateCustomer''\<rparr>),
     (''crm.saveCustomerView'', (spec ''crm'' ''crm.write'' ''write'')\<lparr>sp_inverseCapabilityID := ''crm.restoreCustomerView''\<rparr>),
     (''crm.restoreCustomerView'', spec ''crm'' ''crm.write'' ''write''),
     (''crm.deactivateCustomer'', spec ''crm'' ''crm.write'' ''write''),
     (''crm.mergeCustomers'', (spec ''crm'' ''crm.write'' ''write'')\<lparr>sp_inverseCapabilityID := ''crm.restoreCustomerMerge''\<rparr>),
     (''crm.restoreCustomerMerge'', (spec ''crm'' ''crm.write'' ''write'')\<lparr>sp_inverseCapabilityID := ''crm.mergeCustomers''\<rparr>),
     (''crm.importCustomers'', (spec ''crm'' ''crm.write'' ''write'')\<lparr>sp_inverseCapabilityID := ''crm.undoCustomerImport''\<rparr>),
     (''crm.undoCustomerImport'', (spec ''crm'' ''crm.write'' ''write'')\<lparr>sp_inverseCapabilityID := ''crm.restoreImportedCustomers''\<rparr>),
     (''crm.restoreImportedCustomers'', (spec ''crm'' ''crm.write'' ''write'')\<lparr>sp_inverseCapabilityID := ''crm.undoCustomerImport''\<rparr>),
     (''crm.updateCustomerProfiles'', (spec ''crm'' ''crm.write'' ''write'')\<lparr>sp_inverseCapabilityID := ''crm.restoreCustomerProfiles''\<rparr>),
     (''crm.restoreCustomerProfiles'', (spec ''crm'' ''crm.write'' ''write'')\<lparr>sp_inverseCapabilityID := ''crm.reapplyCustomerProfiles''\<rparr>),
     (''crm.reapplyCustomerProfiles'', (spec ''crm'' ''crm.write'' ''write'')\<lparr>sp_inverseCapabilityID := ''crm.restoreCustomerProfiles''\<rparr>),
     (''crm.listCustomers'', spec ''crm'' ''crm.read'' ''read''),
     (''crm.getCustomerProfile'', spec ''crm'' ''crm.read'' ''read''),
     (''crm.listCustomerCollection'', (spec ''crm'' ''crm.read'' ''read'')\<lparr>sp_humanOnly := True\<rparr>),
     (''crm.listCustomerViews'', spec ''crm'' ''crm.read'' ''read''),
     (''crm.listDeals'', spec ''crm'' ''crm.read'' ''read''),
     (''documents.listDocs'', spec ''documents'' ''documents.read'' ''read''),
     (''documents.listIngestedDocuments'', spec ''documents'' ''documents.read'' ''read''),
     (''documents.listDocVersions'', spec ''documents'' ''documents.read'' ''read''),
     (''documents.getDocVersion'', spec ''documents'' ''documents.read'' ''read''),
     (''crm.pipelineReport'', spec ''crm'' ''crm.read'' ''read''),
     (''crm.listTasks'', spec ''crm'' ''crm.read'' ''read''),
     (''crm.customerTimeline'', spec ''crm'' ''crm.read'' ''read''),
     (''crm.createDeal'', spec ''crm'' ''crm.write'' ''write''),
     (''crm.moveDealStage'', spec ''crm'' ''crm.write'' ''write''),
     (''crm.convertLead'', (spec ''crm'' ''crm.write'' ''write'')\<lparr>sp_inverseCapabilityID := ''crm.undoLeadConversion'', sp_inverseInputSource := ''output'', sp_inverseFields := [''conversionIntentId'']\<rparr>),
     (''crm.undoLeadConversion'', (spec ''crm'' ''crm.write'' ''destructive'')\<lparr>sp_inverseCapabilityID := ''crm.reapplyLeadConversion'', sp_inverseInputSource := ''output'', sp_inverseFields := [''undoIntentId'']\<rparr>),
     (''crm.reapplyLeadConversion'', (spec ''crm'' ''crm.write'' ''write'')\<lparr>sp_inverseCapabilityID := ''crm.undoLeadConversion'', sp_inverseInputSource := ''output'', sp_inverseFields := [''conversionIntentId'']\<rparr>),
     (''crm.createTask'', spec ''crm'' ''crm.write'' ''write''),
     (''crm.completeTask'', spec ''crm'' ''crm.write'' ''write''),
     (''crm.updateTaskDetails'', (spec ''crm'' ''crm.write'' ''write'')\<lparr>sp_inverseCapabilityID := ''crm.restoreTaskDetails''\<rparr>),
     (''crm.restoreTaskDetails'', (spec ''crm'' ''crm.write'' ''write'')\<lparr>sp_inverseCapabilityID := ''crm.updateTaskDetails''\<rparr>),
     (''accounting.createQuote'', (spec ''accounting'' ''accounting.write'' ''write'')\<lparr>sp_inverseCapabilityID := ''accounting.declineQuote''\<rparr>),
     (''accounting.acceptQuote'', spec ''accounting'' ''accounting.write'' ''write''),
     (''accounting.declineQuote'', spec ''accounting'' ''accounting.write'' ''write''),
     (''accounting.expireQuote'', spec ''accounting'' ''accounting.write'' ''write''),
     (''accounting.listQuotes'', spec ''accounting'' ''accounting.read'' ''read''),
     (''accounting.createRecurringTemplate'', (spec ''accounting'' ''accounting.write'' ''write'')\<lparr>sp_inverseCapabilityID := ''accounting.pauseRecurringTemplate''\<rparr>),
     (''accounting.pauseRecurringTemplate'', (spec ''accounting'' ''accounting.write'' ''write'')\<lparr>sp_inverseCapabilityID := ''accounting.resumeRecurringTemplate''\<rparr>),
     (''accounting.resumeRecurringTemplate'', spec ''accounting'' ''accounting.write'' ''write''),
     (''accounting.listRecurringTemplates'', spec ''accounting'' ''accounting.read'' ''read''),
     (''hr.hireEmployee'', (spec ''hr'' ''hr.write'' ''write'')\<lparr>sp_inverseCapabilityID := ''hr.deactivateEmployee''\<rparr>),
     (''hr.deactivateEmployee'', spec ''hr'' ''hr.write'' ''write''),
     (''hr.listEmployees'', spec ''hr'' ''hr.read'' ''read''),
     (''hr.report'', spec ''hr'' ''hr.read'' ''read''),
     (''hr.updateEmployeeStructure'', spec ''hr'' ''hr.write'' ''write''),
     (''sales.createOrder'', (spec ''sales'' ''sales.write'' ''write'')\<lparr>sp_inverseCapabilityID := ''sales.cancelOrder''\<rparr>),
     (''sales.createOrderFromQuote'', (spec ''sales'' ''sales.write'' ''write'')\<lparr>sp_inverseCapabilityID := ''sales.cancelOrder''\<rparr>),
     (''sales.updateDraftOrder'', (spec ''sales'' ''sales.write'' ''write'')\<lparr>sp_inverseCapabilityID := ''sales.restoreDraftOrder''\<rparr>),
     (''sales.restoreDraftOrder'', (spec ''sales'' ''sales.write'' ''write'')\<lparr>sp_inverseCapabilityID := ''sales.updateDraftOrder''\<rparr>),
     (''sales.confirmOrder'', (spec ''sales'' ''sales.write'' ''write'')\<lparr>sp_inverseCapabilityID := ''sales.cancelOrder''\<rparr>),
     (''sales.deliverOrder'', spec ''sales'' ''sales.write'' ''write''),
     (''sales.cancelOrder'', spec ''sales'' ''sales.write'' ''write''),
     (''sales.listOrders'', spec ''sales'' ''sales.read'' ''read''),
     (''accounting.createInvoice'', spec ''accounting'' ''accounting.write'' ''write''),
     (''accounting.recordFxRate'', spec ''accounting'' ''accounting.post'' ''write''),
     (''accounting.recordPayment'', (spec ''accounting'' ''accounting.post'' ''money'')\<lparr>sp_moneyThresholdMinor := 50000, sp_inverseCapabilityID := ''accounting.reversePayment''\<rparr>),
     (''accounting.reversePayment'', spec ''accounting'' ''accounting.post'' ''money''),
     (''accounting.trialBalance'', spec ''accounting'' ''accounting.read'' ''read''),
     (''accounting.submitExpenseClaim'', (spec ''accounting'' ''expenses.submit'' ''write'')\<lparr>sp_inverseCapabilityID := ''accounting.decideExpenseClaim''\<rparr>),
     (''accounting.decideExpenseClaim'', spec ''accounting'' ''expenses.decide'' ''write''),
     (''accounting.payExpenseClaim'', (spec ''accounting'' ''accounting.post'' ''money'')\<lparr>sp_moneyThresholdMinor := 50000\<rparr>),
     (''accounting.listExpenseClaims'', spec ''accounting'' ''expenses.decide'' ''read''),
     (''accounting.listExpensePolicies'', spec ''accounting'' ''expenses.decide'' ''read''),
     (''accounting.setExpensePolicy'', spec ''accounting'' ''expenses.decide'' ''write''),
     (''purchasing.createVendor'', spec ''purchasing'' ''purchasing.write'' ''write''),
     (''purchasing.createPurchaseOrder'', spec ''purchasing'' ''purchasing.write'' ''money''),
     (''purchasing.receiveGoods'', spec ''purchasing'' ''purchasing.write'' ''write''),
     (''purchasing.returnGoods'', spec ''purchasing'' ''purchasing.write'' ''write''),
     (''purchasing.createBill'', (spec ''purchasing'' ''purchasing.write'' ''write'')\<lparr>sp_inverseCapabilityID := ''accounting.reverseEntry''\<rparr>),
     (''purchasing.payBill'', (spec ''purchasing'' ''purchasing.post'' ''money'')\<lparr>sp_moneyThresholdMinor := 50000, sp_inverseCapabilityID := ''purchasing.reverseVendorPayment''\<rparr>),
     (''purchasing.reverseVendorPayment'', spec ''purchasing'' ''purchasing.post'' ''money''),
     (''inventory.adjustStock'', spec ''inventory'' ''inventory.write'' ''write''),
     (''inventory.createCycleCount'', (spec ''inventory'' ''inventory.write'' ''write'')\<lparr>sp_inverseCapabilityID := ''inventory.cancelCycleCount''\<rparr>),
     (''inventory.recordCycleCounts'', spec ''inventory'' ''inventory.write'' ''write''),
     (''inventory.postCycleCount'', spec ''inventory'' ''inventory.write'' ''write''),
     (''inventory.cancelCycleCount'', spec ''inventory'' ''inventory.write'' ''write''),
     (''inventory.listCycleCounts'', spec ''inventory'' ''inventory.read'' ''read''),
     (''inventory.createTransfer'', (spec ''inventory'' ''inventory.write'' ''write'')\<lparr>sp_inverseCapabilityID := ''inventory.cancelTransfer''\<rparr>),
     (''inventory.confirmTransfer'', (spec ''inventory'' ''inventory.write'' ''write'')\<lparr>sp_inverseCapabilityID := ''inventory.reverseTransfer''\<rparr>),
     (''inventory.cancelTransfer'', spec ''inventory'' ''inventory.write'' ''write''),
     (''inventory.reverseTransfer'', spec ''inventory'' ''inventory.write'' ''write''),
     (''inventory.listTransfers'', spec ''inventory'' ''inventory.read'' ''read''),
     (''pos.openSession'', spec ''pos'' ''pos.write'' ''write''),
     (''pos.completeSale'', (spec ''pos'' ''pos.sell'' ''money'')\<lparr>sp_moneyThresholdMinor := 100000, sp_inverseCapabilityID := ''pos.returnSale''\<rparr>),
     (''pos.closeSession'', spec ''pos'' ''pos.write'' ''write''),
     (''pos.returnSale'', spec ''pos'' ''pos.sell'' ''money''),
     (''pos.shiftSummary'', spec ''pos'' ''pos.read'' ''read''),
     (''pos.listSessions'', spec ''pos'' ''pos.read'' ''read''),
     (''accounting.creditNote'', spec ''accounting'' ''accounting.post'' ''money''),
     (''accounting.shareInvoice'', spec ''accounting'' ''accounting.write'' ''write''),
     (''accounting.generateDueInvoices'', spec ''accounting'' ''accounting.write'' ''write''),
     (''accounting.reverseEntry'', spec ''accounting'' ''accounting.post'' ''money''),
     (''accounting.addBankAccount'', spec ''accounting'' ''accounting.write'' ''write''),
     (''accounting.importBankFeed'', spec ''accounting'' ''accounting.write'' ''write''),
     (''accounting.deleteBankTransaction'', spec ''accounting'' ''accounting.write'' ''write''),
     (''accounting.matchBankTransaction'', (spec ''accounting'' ''accounting.write'' ''write'')\<lparr>sp_inverseCapabilityID := ''accounting.unmatchBankTransaction''\<rparr>),
     (''accounting.unmatchBankTransaction'', spec ''accounting'' ''accounting.write'' ''write''),
     (''accounting.bankReconciliation'', spec ''accounting'' ''accounting.read'' ''read''),
     (''accounting.excludeBankTransaction'', (spec ''accounting'' ''accounting.write'' ''write'')\<lparr>sp_inverseCapabilityID := ''accounting.unexcludeBankTransaction''\<rparr>),
     (''accounting.unexcludeBankTransaction'', spec ''accounting'' ''accounting.write'' ''write''),
     (''accounting.bankSummary'', spec ''accounting'' ''accounting.read'' ''read''),
     (''accounting.listBankingWorkspace'', spec ''accounting'' ''accounting.read'' ''read''),
     (''purchasing.createPurchaseRequest'', spec ''purchasing'' ''purchasing.write'' ''write''),
     (''purchasing.decidePurchaseRequest'', spec ''purchasing'' ''purchasing.write'' ''write''),
     (''purchasing.createRfq'', spec ''purchasing'' ''purchasing.write'' ''write''),
     (''purchasing.recordQuote'', spec ''purchasing'' ''purchasing.write'' ''write'')]"

definition capabilitySpecs_second :: "(string \<times> capabilitySpec) list" where
  "capabilitySpecs_second =
    [(''purchasing.selectWinningQuote'', spec ''purchasing'' ''purchasing.write'' ''money''),
     (''operations.upsertRecord'', spec ''operations'' ''operations.write'' ''write''),
     (''operations.getRecord'', spec ''operations'' ''operations.read'' ''read''),
     (''operations.listRecords'', spec ''operations'' ''operations.read'' ''read''),
     (''purchasing.listPurchaseWorkflow'', spec ''purchasing'' ''purchasing.read'' ''read''),
     (''inventory.createItem'', spec ''inventory'' ''inventory.write'' ''write''),
     (''inventory.updateItem'', (spec ''inventory'' ''inventory.write'' ''write'')\<lparr>sp_inverseCapabilityID := ''inventory.restoreItem''\<rparr>),
     (''inventory.restoreItem'', spec ''inventory'' ''inventory.write'' ''write''),
     (''inventory.archiveItem'', spec ''inventory'' ''inventory.write'' ''write''),
     (''inventory.createLocation'', spec ''inventory'' ''inventory.write'' ''write''),
     (''inventory.listLocations'', spec ''inventory'' ''inventory.read'' ''read''),
     (''inventory.listLocationRecords'', spec ''inventory'' ''inventory.read'' ''read''),
     (''inventory.listItemMetadata'', spec ''inventory'' ''inventory.read'' ''read''),
     (''inventory.lookupByBarcode'', spec ''inventory'' ''inventory.read'' ''read''),
     (''inventory.importItems'', (spec ''inventory'' ''inventory.write'' ''write'')\<lparr>sp_inverseCapabilityID := ''inventory.undoItemImport''\<rparr>),
     (''inventory.undoItemImport'', (spec ''inventory'' ''inventory.write'' ''write'')\<lparr>sp_inverseCapabilityID := ''inventory.restoreItemImport''\<rparr>),
     (''inventory.restoreItemImport'', (spec ''inventory'' ''inventory.write'' ''write'')\<lparr>sp_inverseCapabilityID := ''inventory.undoItemImport''\<rparr>),
     (''inventory.reserveStock'', (spec ''inventory'' ''inventory.write'' ''write'')\<lparr>sp_inverseCapabilityID := ''inventory.releaseReservation''\<rparr>),
     (''inventory.releaseReservation'', spec ''inventory'' ''inventory.write'' ''write''),
     (''inventory.listReservations'', spec ''inventory'' ''inventory.read'' ''read''),
     (''purchasing.createPaymentRun'', (spec ''purchasing'' ''purchasing.write'' ''write'')\<lparr>sp_inverseCapabilityID := ''purchasing.cancelPaymentRunDraft''\<rparr>),
     (''purchasing.cancelPaymentRunDraft'', (spec ''purchasing'' ''purchasing.write'' ''write'')\<lparr>sp_inverseCapabilityID := ''purchasing.restorePaymentRunDraft''\<rparr>),
     (''purchasing.restorePaymentRunDraft'', (spec ''purchasing'' ''purchasing.write'' ''write'')\<lparr>sp_inverseCapabilityID := ''purchasing.cancelPaymentRunDraft''\<rparr>),
     (''purchasing.instructPaymentRun'', (spec ''purchasing'' ''purchasing.post'' ''money'')\<lparr>sp_inverseCapabilityID := ''purchasing.reversePaymentRun''\<rparr>),
     (''purchasing.reversePaymentRun'', spec ''purchasing'' ''purchasing.post'' ''money''),
     (''purchasing.listPaymentRuns'', spec ''purchasing'' ''purchasing.read'' ''read''),
     (''purchasing.listPaymentRunBills'', spec ''purchasing'' ''purchasing.read'' ''read''),
     (''purchasing.apAging'', spec ''purchasing'' ''purchasing.read'' ''read''),
     (''accounting.periodCloseWorkbench'', spec ''accounting'' ''accounting.read'' ''read''),
     (''accounting.updatePeriodCloseCheck'', (spec ''accounting'' ''accounting.write'' ''write'')\<lparr>sp_inverseCapabilityID := ''accounting.restorePeriodCloseCheck''\<rparr>),
     (''accounting.restorePeriodCloseCheck'', (spec ''accounting'' ''accounting.write'' ''write'')\<lparr>sp_inverseCapabilityID := ''accounting.updatePeriodCloseCheck''\<rparr>),
     (''accounting.closePeriod'', (spec ''accounting'' ''accounting.admin'' ''destructive'')\<lparr>sp_inverseCapabilityID := ''accounting.reopenPeriod''\<rparr>),
     (''accounting.reopenPeriod'', spec ''accounting'' ''accounting.admin'' ''destructive''),
     (''accounting.closeYear'', (spec ''accounting'' ''accounting.admin'' ''destructive'')\<lparr>sp_inverseCapabilityID := ''accounting.reverseEntry''\<rparr>),
     (''accounting.saveBudgetScenario'', (spec ''accounting'' ''accounting.write'' ''write'')\<lparr>sp_inverseCapabilityID := ''accounting.undoBudgetScenarioVersion''\<rparr>),
     (''accounting.undoBudgetScenarioVersion'', (spec ''accounting'' ''accounting.write'' ''write'')\<lparr>sp_inverseCapabilityID := ''accounting.restoreBudgetScenarioVersion''\<rparr>),
     (''accounting.restoreBudgetScenarioVersion'', (spec ''accounting'' ''accounting.write'' ''write'')\<lparr>sp_inverseCapabilityID := ''accounting.undoBudgetScenarioVersion''\<rparr>),
     (''accounting.listBudgetScenarios'', spec ''accounting'' ''accounting.read'' ''read''),
     (''accounting.budgetActualVsPlan'', spec ''accounting'' ''accounting.read'' ''read''),
     (''accounting.listTaxCodes'', spec ''accounting'' ''accounting.read'' ''read''),
     (''accounting.createTaxProfile'', (spec ''accounting'' ''accounting.admin'' ''write'')\<lparr>sp_inverseCapabilityID := ''accounting.removeTaxProfile''\<rparr>),
     (''accounting.removeTaxProfile'', (spec ''accounting'' ''accounting.admin'' ''write'')\<lparr>sp_inverseCapabilityID := ''accounting.createTaxProfile''\<rparr>),
     (''accounting.createTaxCode'', (spec ''accounting'' ''accounting.admin'' ''write'')\<lparr>sp_inverseCapabilityID := ''accounting.archiveTaxCode''\<rparr>),
     (''accounting.archiveTaxCode'', (spec ''accounting'' ''accounting.admin'' ''write'')\<lparr>sp_inverseCapabilityID := ''accounting.activateTaxCode''\<rparr>),
     (''accounting.activateTaxCode'', (spec ''accounting'' ''accounting.admin'' ''write'')\<lparr>sp_inverseCapabilityID := ''accounting.archiveTaxCode''\<rparr>),
     (''accounting.createTaxReturn'', (spec ''accounting'' ''accounting.write'' ''write'')\<lparr>sp_inverseCapabilityID := ''accounting.cancelTaxReturnDraft''\<rparr>),
     (''accounting.cancelTaxReturnDraft'', (spec ''accounting'' ''accounting.write'' ''write'')\<lparr>sp_inverseCapabilityID := ''accounting.restoreTaxReturnDraft''\<rparr>),
     (''accounting.restoreTaxReturnDraft'', (spec ''accounting'' ''accounting.write'' ''write'')\<lparr>sp_inverseCapabilityID := ''accounting.cancelTaxReturnDraft''\<rparr>),
     (''accounting.recordTaxReturnSubmission'', spec ''accounting'' ''accounting.post'' ''money''),
     (''accounting.createTaxReturnAmendment'', (spec ''accounting'' ''accounting.write'' ''write'')\<lparr>sp_inverseCapabilityID := ''accounting.cancelTaxReturnDraft''\<rparr>),
     (''accounting.recordTaxReturnAcknowledgment'', spec ''accounting'' ''accounting.admin'' ''write''),
     (''accounting.fileSalesTaxReturn'', (spec ''accounting'' ''accounting.post'' ''money'')\<lparr>sp_inverseCapabilityID := ''accounting.reverseEntry''\<rparr>),
     (''hr.requestLeave'', (spec ''hr'' ''hr.write'' ''write'')\<lparr>sp_inverseCapabilityID := ''hr.cancelLeave''\<rparr>),
     (''hr.cancelLeave'', spec ''hr'' ''hr.write'' ''write''),
     (''hr.decideLeave'', spec ''hr'' ''hr.write'' ''write''),
     (''hr.logTime'', spec ''hr'' ''hr.write'' ''write''),
     (''hr.decideTimeEntry'', spec ''hr'' ''hr.write'' ''write''),
     (''hr.clockIn'', spec ''hr'' ''hr.write'' ''write''),
     (''hr.clockOut'', spec ''hr'' ''hr.write'' ''write''),
     (''hr.leaveBalance'', spec ''hr'' ''hr.read'' ''read''),
     (''hr.leaveCalendar'', spec ''hr'' ''hr.read'' ''read''),
     (''hr.timeReport'', spec ''hr'' ''hr.read'' ''read''),
     (''hr.pendingTimeEntries'', spec ''hr'' ''hr.read'' ''read''),
     (''hr.createPayrollRun'', (spec ''hr'' ''hr.write'' ''write'')\<lparr>sp_inverseCapabilityID := ''hr.voidPayrollRun''\<rparr>),
     (''hr.executePayrollRun'', (spec ''hr'' ''hr.write'' ''money'')\<lparr>sp_inverseCapabilityID := ''hr.reversePayrollPosting''\<rparr>),
     (''hr.voidPayrollRun'', spec ''hr'' ''hr.write'' ''destructive''),
     (''hr.reversePayrollPosting'', spec ''hr'' ''hr.write'' ''destructive''),
     (''hr.addApplicant'', spec ''hr'' ''hr.write'' ''write''),
     (''hr.moveApplicant'', spec ''hr'' ''hr.write'' ''write''),
     (''hr.hireApplicant'', spec ''hr'' ''hr.write'' ''write''),
     (''hr.listApplicants'', spec ''hr'' ''hr.read'' ''read''),
     (''purchasing.billCreditNote'', spec ''purchasing'' ''purchasing.write'' ''money''),
     (''purchasing.closePurchaseOrder'', spec ''purchasing'' ''purchasing.write'' ''write''),
     (''purchasing.listReceipts'', spec ''purchasing'' ''purchasing.read'' ''read''),
     (''inventory.postValuationSummary'', (spec ''inventory'' ''inventory.write'' ''money'')\<lparr>sp_inverseCapabilityID := ''inventory.reverseValuationSummary''\<rparr>),
     (''inventory.reverseValuationSummary'', spec ''inventory'' ''inventory.write'' ''money''),
     (''inventory.stockReport'', spec ''inventory'' ''inventory.read'' ''read''),
     (''inventory.replenishmentPlan'', spec ''inventory'' ''inventory.read'' ''read''),
     (''inventory.itemHistory'', spec ''inventory'' ''inventory.read'' ''read''),
     (''inventory.listLots'', spec ''inventory'' ''inventory.read'' ''read''),
     (''inventory.rebuildStockProjections'', spec ''inventory'' ''inventory.admin'' ''write''),
     (''accounting.reportCurrencyMetadata'', spec ''accounting'' ''accounting.read'' ''read''),
     (''accounting.incomeStatement'', spec ''accounting'' ''accounting.read'' ''read''),
     (''accounting.balanceSheet'', spec ''accounting'' ''accounting.read'' ''read''),
     (''accounting.listInvoices'', spec ''accounting'' ''accounting.read'' ''read''),
     (''accounting.arAging'', spec ''accounting'' ''accounting.read'' ''read''),
     (''accounting.overview'', spec ''accounting'' ''accounting.read'' ''read''),
     (''accounting.cashBasisReport'', spec ''accounting'' ''accounting.read'' ''read''),
     (''accounting.customerStatement'', spec ''accounting'' ''accounting.read'' ''read''),
     (''accounting.salesTaxReport'', spec ''accounting'' ''accounting.read'' ''read''),
     (''accounting.cashFlow'', spec ''accounting'' ''accounting.read'' ''read''),
     (''accounting.cashForecast'', spec ''accounting'' ''accounting.read'' ''read''),
     (''accounting.unrealizedFxExposure'', spec ''accounting'' ''accounting.read'' ''read''),
     (''accounting.revalueForeignReceivables'', (spec ''accounting'' ''accounting.post'' ''money'')\<lparr>sp_inverseCapabilityID := ''accounting.reversePeriodFxRevaluation''\<rparr>),
     (''accounting.reversePeriodFxRevaluation'', (spec ''accounting'' ''accounting.post'' ''money'')\<lparr>sp_inverseCapabilityID := ''accounting.revalueForeignReceivables''\<rparr>),
     (''accounting.buildReminders'', spec ''accounting'' ''accounting.read'' ''read''),
     (''manufacturing.createWorkOrder'', (spec ''manufacturing'' ''manufacturing.write'' ''write'')\<lparr>sp_inverseCapabilityID := ''manufacturing.cancelWorkOrder''\<rparr>),
     (''manufacturing.releaseWorkOrder'', (spec ''manufacturing'' ''manufacturing.write'' ''write'')\<lparr>sp_inverseCapabilityID := ''manufacturing.cancelWorkOrder''\<rparr>),
     (''manufacturing.completeWorkOrder'', (spec ''manufacturing'' ''manufacturing.write'' ''write'')\<lparr>sp_inverseCapabilityID := ''manufacturing.reverseProductionRun''\<rparr>),
     (''manufacturing.cancelWorkOrder'', spec ''manufacturing'' ''manufacturing.write'' ''write''),
     (''manufacturing.reverseProductionRun'', spec ''manufacturing'' ''manufacturing.write'' ''destructive''),
     (''manufacturing.checkProductionFeasibility'', spec ''manufacturing'' ''manufacturing.read'' ''read''),
     (''manufacturing.workOrdersList'', spec ''manufacturing'' ''manufacturing.read'' ''read''),
     (''manufacturing.produceFromBom'', (spec ''manufacturing'' ''manufacturing.write'' ''write'')\<lparr>sp_inverseCapabilityID := ''manufacturing.reverseProductionRun''\<rparr>),
     (''manufacturing.defineBom'', (spec ''manufacturing'' ''manufacturing.write'' ''write'')\<lparr>sp_inverseCapabilityID := ''manufacturing.restoreBom'', sp_inverseInputSource := ''output''\<rparr>),
     (''manufacturing.deleteBom'', (spec ''manufacturing'' ''manufacturing.write'' ''destructive'')\<lparr>sp_inverseCapabilityID := ''manufacturing.restoreBom'', sp_inverseInputSource := ''output''\<rparr>),
     (''manufacturing.restoreBom'', (spec ''manufacturing'' ''manufacturing.write'' ''write'')\<lparr>sp_inverseCapabilityID := ''manufacturing.defineBom'', sp_inverseInputSource := ''output''\<rparr>),
     (''manufacturing.bomTree'', spec ''manufacturing'' ''manufacturing.read'' ''read''),
     (''manufacturing.bomReport'', spec ''manufacturing'' ''manufacturing.read'' ''read''),
     (''manufacturing.costPreview'', spec ''manufacturing'' ''manufacturing.read'' ''read''),
     (''manufacturing.lotTrace'', spec ''manufacturing'' ''manufacturing.read'' ''read''),
     (''manufacturing.productionRuns'', spec ''manufacturing'' ''manufacturing.read'' ''read''),
     (''manufacturing.overviewReport'', spec ''manufacturing'' ''manufacturing.read'' ''read''),
     (''marketing.createSegment'', spec ''marketing'' ''marketing.write'' ''write''),
     (''marketing.createCampaign'', spec ''marketing'' ''marketing.write'' ''write''),
     (''marketing.sendCampaign'', spec ''marketing'' ''marketing.write'' ''write''),
     (''marketing.campaignAnalytics'', spec ''marketing'' ''marketing.read'' ''read''),
     (''marketing.overviewSnapshot'', spec ''marketing'' ''marketing.read'' ''read'')]"

definition capabilitySpecs_third :: "(string \<times> capabilitySpec) list" where
  "capabilitySpecs_third =
    [(''hr.createOpening'', (spec ''hr'' ''hr.write'' ''write'')\<lparr>sp_inverseCapabilityID := ''hr.closeOpening''\<rparr>),
     (''hr.closeOpening'', spec ''hr'' ''hr.write'' ''write''),
     (''iam.setModules'', (spec ''iam'' ''iam.admin'' ''identity'')\<lparr>sp_inverseCapabilityID := ''iam.restoreModules''\<rparr>),
     (''iam.restoreModules'', spec ''iam'' ''iam.admin'' ''identity''),
     (''iam.setModuleConfig'', spec ''iam'' ''iam.admin'' ''write''),
     (''iam.getOrgPolicy'', spec ''iam'' ''iam.read'' ''read''),
     (''iam.setOrgPolicy'', spec ''iam'' ''iam.admin'' ''identity''),
     (''iam.setOrgBranding'', spec ''iam'' ''iam.admin'' ''write''),
     (''iam.setAgentSoul'', (spec ''iam'' ''iam.admin'' ''write'')\<lparr>sp_inverseCapabilityID := ''iam.restoreAgentSoul'', sp_inverseInputSource := ''output''\<rparr>),
     (''iam.restoreAgentSoul'', (spec ''iam'' ''iam.admin'' ''write'')\<lparr>sp_inverseCapabilityID := ''iam.setAgentSoul'', sp_inverseInputSource := ''output''\<rparr>),
     (''purchasing.supplierPerformance'', spec ''purchasing'' ''purchasing.read'' ''read''),
     (''purchasing.listWorkspace'', spec ''purchasing'' ''purchasing.read'' ''read''),
     (''purchasing.listVendors'', spec ''purchasing'' ''purchasing.read'' ''read''),
     (''purchasing.getPurchaseOrder'', spec ''purchasing'' ''purchasing.read'' ''read''),
     (''purchasing.priceHistory'', spec ''purchasing'' ''purchasing.read'' ''read''),
     (''purchasing.supplierStatement'', spec ''purchasing'' ''purchasing.read'' ''read''),
     (''signals.list'', spec ''signals'' ''signals.read'' ''read''),
     (''skills.find'', spec ''skills'' ''documents.read'' ''read''),
     (''skills.load'', spec ''skills'' ''documents.read'' ''read''),
     (''routines.create'', (spec ''routines'' ''routines.write'' ''write'')\<lparr>sp_inverseCapabilityID := ''routines.delete''\<rparr>),
     (''routines.list'', spec ''routines'' ''routines.read'' ''read''),
     (''routines.update'', spec ''routines'' ''routines.write'' ''write''),
     (''routines.delete'', (spec ''routines'' ''routines.write'' ''write'')\<lparr>sp_inverseCapabilityID := ''routines.create''\<rparr>),
     (''routines.runNow'', spec ''routines'' ''routines.write'' ''write''),
     (''analytics.renderReport'', spec ''analytics'' ''analytics.report'' ''read''),
     (''analytics.pipelineByStage'', spec ''analytics'' ''crm.read'' ''read''),
     (''analytics.revenueByMonth'', spec ''analytics'' ''accounting.read'' ''read''),
     (''analytics.invoiceAging'', spec ''analytics'' ''accounting.read'' ''read''),
     (''analytics.salesByCustomer'', spec ''analytics'' ''accounting.read'' ''read''),
     (''analytics.stockLevels'', spec ''analytics'' ''inventory.read'' ''read''),
     (''analytics.explainChange'', spec ''analytics'' ''analytics.report'' ''read''),
     (''analytics.askYourBusiness'', spec ''analytics'' ''analytics.report'' ''read''),
     (''creator.submitProposal'', spec ''creator'' ''platform.creator'' ''write''),
     (''creator.listProposals'', spec ''creator'' ''platform.creator'' ''read''),
     (''creator.reviewProposal'', (spec ''creator'' ''platform.creator'' ''write'')\<lparr>sp_humanOnly := True, sp_approvalExempt := True\<rparr>),
     (''creator.listCapabilityGaps'', spec ''creator'' ''platform.creator'' ''read''),
     (''creator.scaffoldCapability'', spec ''creator'' ''platform.creator'' ''read''),
     (''creator.verifyPlugin'', spec ''creator'' ''platform.creator'' ''read''),
     (''creator.publishListing'', (spec ''creator'' ''platform.creator'' ''write'')\<lparr>sp_inverseCapabilityID := ''creator.retractListing'', sp_inverseInputSource := ''output'', sp_inverseFields := [''slug'']\<rparr>),
     (''creator.retractListing'', spec ''creator'' ''platform.creator'' ''write''),
     (''creator.installListing'', (spec ''creator'' ''platform.creator'' ''identity'')\<lparr>sp_inverseCapabilityID := ''creator.uninstallListing'', sp_inverseInputSource := ''input'', sp_inverseFields := [''listingId'']\<rparr>),
     (''creator.uninstallListing'', spec ''creator'' ''platform.creator'' ''write''),
     (''creator.listMarketplace'', spec ''creator'' ''platform.browse'' ''read''),
     (''creator.stageCandidate'', (spec ''creator'' ''platform.creator'' ''identity'')\<lparr>sp_inverseCapabilityID := ''creator.rollbackCandidate'', sp_inverseInputSource := ''output'', sp_inverseFields := [''releaseId'', ''candidateDigest'']\<rparr>),
     (''creator.promoteCandidate'', (spec ''creator'' ''platform.creator'' ''identity'')\<lparr>sp_inverseCapabilityID := ''creator.rollbackCandidate'', sp_inverseInputSource := ''output'', sp_inverseFields := [''releaseId'', ''candidateDigest'']\<rparr>),
     (''creator.rollbackCandidate'', spec ''creator'' ''platform.creator'' ''destructive''),
     (''creator.recordCanaryOutcome'', spec ''creator'' ''platform.creator.release'' ''write''),
     (''support.startConversation'', (spec ''support'' ''support.write'' ''write'')\<lparr>sp_inverseCapabilityID := ''support.resolveConversation''\<rparr>),
     (''support.updateChannelSettings'', (spec ''support'' ''iam.admin'' ''write'')\<lparr>sp_inverseCapabilityID := ''support.restoreChannelSettings'', sp_inverseInputSource := ''output''\<rparr>),
     (''support.restoreChannelSettings'', (spec ''support'' ''iam.admin'' ''write'')\<lparr>sp_inverseCapabilityID := ''support.restoreChannelSettings'', sp_inverseInputSource := ''output''\<rparr>),
     (''support.postMessage'', spec ''support'' ''support.write'' ''write''),
     (''support.listConversations'', spec ''support'' ''support.read'' ''read''),
     (''support.listTickets'', spec ''support'' ''support.read'' ''read''),
     (''support.listLibrary'', spec ''support'' ''support.read'' ''read''),
     (''support.readConversation'', spec ''support'' ''support.read'' ''read''),
     (''support.lookupOrderStatus'', spec ''support'' ''support.read'' ''read''),
     (''support.searchKnowledge'', spec ''support'' ''support.read'' ''read''),
     (''support.escalateConversation'', (spec ''support'' ''support.write'' ''write'')\<lparr>sp_inverseCapabilityID := ''support.reopenConversation''\<rparr>),
     (''support.resolveConversation'', (spec ''support'' ''support.write'' ''write'')\<lparr>sp_inverseCapabilityID := ''support.reopenConversation''\<rparr>),
     (''support.reopenConversation'', spec ''support'' ''support.write'' ''write''),
     (''support.createTicket'', spec ''support'' ''support.write'' ''write''),
     (''support.updateTicket'', spec ''support'' ''support.write'' ''write''),
     (''support.suggestCategory'', spec ''support'' ''support.read'' ''read''),
     (''support.createCannedResponse'', spec ''support'' ''support.write'' ''write''),
     (''support.createKbArticle'', spec ''support'' ''support.write'' ''write''),
     (''projects.createProject'', (spec ''projects'' ''projects.write'' ''write'')\<lparr>sp_inverseCapabilityID := ''projects.archiveProject'', sp_inverseInputSource := ''output'', sp_inverseFields := [''projectId'']\<rparr>),
     (''projects.listBoard'', spec ''projects'' ''projects.read'' ''read''),
     (''projects.list'', spec ''projects'' ''projects.read'' ''read''),
     (''projects.archiveProject'', (spec ''projects'' ''projects.write'' ''write'')\<lparr>sp_inverseCapabilityID := ''projects.restoreProject'', sp_inverseInputSource := ''output'', sp_inverseFields := [''projectId'']\<rparr>),
     (''projects.restoreProject'', (spec ''projects'' ''projects.write'' ''write'')\<lparr>sp_inverseCapabilityID := ''projects.archiveProject'', sp_inverseInputSource := ''output'', sp_inverseFields := [''projectId'']\<rparr>),
     (''projects.createTask'', (spec ''projects'' ''projects.write'' ''write'')\<lparr>sp_inverseCapabilityID := ''projects.deleteTask'', sp_inverseInputSource := ''output'', sp_inverseFields := [''taskId'', ''projectId'', ''title'', ''parentTaskId'', ''status'', ''priority'', ''assigneeUserId'', ''dueAt'', ''position'', ''note'', ''createdAt'']\<rparr>),
     (''projects.deleteTask'', (spec ''projects'' ''projects.write'' ''destructive'')\<lparr>sp_inverseCapabilityID := ''projects.restoreTask'', sp_inverseInputSource := ''output'', sp_inverseFields := [''taskId'', ''projectId'', ''title'', ''parentTaskId'', ''status'', ''priority'', ''assigneeUserId'', ''dueAt'', ''position'', ''note'', ''createdAt'']\<rparr>),
     (''projects.restoreTask'', (spec ''projects'' ''projects.write'' ''write'')\<lparr>sp_inverseCapabilityID := ''projects.deleteTask'', sp_inverseInputSource := ''output'', sp_inverseFields := [''taskId'', ''projectId'', ''title'', ''parentTaskId'', ''status'', ''priority'', ''assigneeUserId'', ''dueAt'', ''position'', ''note'', ''createdAt'']\<rparr>),
     (''projects.moveTask'', (spec ''projects'' ''projects.write'' ''write'')\<lparr>sp_inverseCapabilityID := ''projects.restoreTaskPlacement'', sp_inverseInputSource := ''output'', sp_inverseFields := [''taskId'', ''restoreStatus'', ''restorePosition'', ''expectedStatus'', ''expectedPosition'']\<rparr>),
     (''projects.restoreTaskPlacement'', (spec ''projects'' ''projects.write'' ''write'')\<lparr>sp_inverseCapabilityID := ''projects.moveTask'', sp_inverseInputSource := ''output'', sp_inverseFields := [''taskId'', ''status'', ''position'']\<rparr>),
     (''projects.assignTask'', (spec ''projects'' ''projects.write'' ''write'')\<lparr>sp_inverseCapabilityID := ''projects.restoreTaskAssignment'', sp_inverseInputSource := ''output'', sp_inverseFields := [''taskId'', ''restoreAssigneeUserId'', ''expectedAssigneeUserId'']\<rparr>),
     (''projects.restoreTaskAssignment'', (spec ''projects'' ''projects.write'' ''write'')\<lparr>sp_inverseCapabilityID := ''projects.assignTask'', sp_inverseInputSource := ''output'', sp_inverseFields := [''taskId'', ''assigneeUserId'']\<rparr>),
     (''iam.listMembers'', spec ''iam'' ''iam.read'' ''read''),
     (''iam.scimProvisionUser'', spec ''iam'' ''iam.scim.provision'' ''identity''),
     (''iam.createSCIMToken'', (spec ''iam'' ''iam.admin'' ''secret'')\<lparr>sp_oneTimeOutput := True, sp_inverseCapabilityID := ''iam.revokeSCIMToken'', sp_inverseInputSource := ''output'', sp_inverseFields := [''tokenId'']\<rparr>),
     (''iam.revokeSCIMToken'', spec ''iam'' ''iam.admin'' ''destructive''),
     (''iam.createRole'', spec ''iam'' ''iam.admin'' ''identity''),
     (''iam.updateRolePermissions'', spec ''iam'' ''iam.admin'' ''identity''),
     (''iam.assignRole'', spec ''iam'' ''iam.admin'' ''identity''),
     (''iam.inviteMember'', spec ''iam'' ''iam.admin'' ''write''),
     (''iam.bootstrapOrganization'', (spec ''iam'' ''iam.bootstrapOrganization'' ''write'')\<lparr>sp_executionScope := ''pre-organization''\<rparr>),
     (''settings.configureAiProvider'', (spec ''settings'' ''iam.admin'' ''secret'')\<lparr>sp_inverseCapabilityID := ''settings.restoreAiProvider'', sp_inverseInputSource := ''output'', sp_inverseFields := [''config'']\<rparr>),
     (''settings.restoreAiProvider'', (spec ''settings'' ''iam.admin'' ''secret'')\<lparr>sp_inverseCapabilityID := ''settings.configureAiProvider'', sp_inverseInputSource := ''output'', sp_inverseFields := [''config'']\<rparr>),
     (''harness.approveComposition'', spec ''harness'' ''harness.approve'' ''identity'')]"

definition capabilitySpecs :: "(string \<times> capabilitySpec) list" where
  "capabilitySpecs = capabilitySpecs_first @ capabilitySpecs_second @ capabilitySpecs_third"

section \<open>Approvable capabilities\<close>

definition decidable_capabilities :: "string list" where
  "decidable_capabilities =
    [''crm.createCustomer'', ''crm.deactivateCustomer'', ''crm.mergeCustomers'', ''crm.restoreCustomerMerge'',
     ''crm.importCustomers'', ''crm.undoCustomerImport'', ''crm.restoreImportedCustomers'',
     ''crm.updateCustomerProfiles'', ''crm.restoreCustomerProfiles'', ''crm.reapplyCustomerProfiles'',
     ''accounting.createInvoice'', ''accounting.recordFxRate'', ''accounting.recordPayment'',
     ''accounting.reversePayment'', ''crm.createDeal'', ''crm.moveDealStage'', ''crm.convertLead'',
     ''crm.createTask'', ''crm.completeTask'', ''crm.updateTaskDetails'', ''crm.restoreTaskDetails'',
     ''accounting.createQuote'', ''accounting.acceptQuote'', ''accounting.declineQuote'', ''accounting.expireQuote'',
     ''accounting.listQuotes'', ''accounting.createRecurringTemplate'', ''accounting.pauseRecurringTemplate'',
     ''accounting.resumeRecurringTemplate'', ''accounting.listRecurringTemplates'', ''hr.hireEmployee'',
     ''hr.deactivateEmployee'', ''hr.listEmployees'', ''hr.updateEmployeeStructure'', ''sales.createOrder'',
     ''sales.confirmOrder'', ''sales.deliverOrder'', ''sales.cancelOrder'', ''sales.listOrders'',
     ''accounting.submitExpenseClaim'', ''accounting.decideExpenseClaim'', ''accounting.payExpenseClaim'',
     ''accounting.listExpenseClaims'', ''accounting.setExpensePolicy'', ''purchasing.createPurchaseOrder'',
     ''purchasing.createVendor'', ''purchasing.createBill'', ''purchasing.payBill'',
     ''purchasing.reverseVendorPayment'', ''purchasing.receiveGoods'', ''purchasing.returnGoods'',
     ''inventory.adjustStock'', ''inventory.createTransfer'', ''inventory.confirmTransfer'',
     ''inventory.cancelTransfer'', ''inventory.reverseTransfer'', ''inventory.listTransfers'',
     ''inventory.createCycleCount'', ''inventory.recordCycleCounts'', ''inventory.postCycleCount'',
     ''inventory.cancelCycleCount'', ''inventory.listCycleCounts'', ''pos.openSession'', ''pos.completeSale'',
     ''pos.closeSession'', ''pos.returnSale'', ''pos.shiftSummary'', ''pos.listSessions'', ''accounting.creditNote'',
     ''accounting.shareInvoice'', ''accounting.generateDueInvoices'', ''accounting.reverseEntry'',
     ''accounting.addBankAccount'', ''accounting.importBankFeed'', ''accounting.deleteBankTransaction'',
     ''accounting.matchBankTransaction'', ''accounting.unmatchBankTransaction'', ''accounting.bankReconciliation'',
     ''accounting.excludeBankTransaction'', ''accounting.unexcludeBankTransaction'', ''accounting.bankSummary'',
     ''accounting.listBankingWorkspace'', ''purchasing.createPurchaseRequest'', ''purchasing.decidePurchaseRequest'',
     ''purchasing.createRfq'', ''purchasing.recordQuote'', ''purchasing.selectWinningQuote'',
     ''purchasing.listPurchaseWorkflow'', ''inventory.createItem'', ''inventory.updateItem'',
     ''inventory.restoreItem'', ''inventory.archiveItem'', ''inventory.createLocation'', ''inventory.listLocations'',
     ''inventory.listLocationRecords'', ''inventory.listItemMetadata'', ''inventory.lookupByBarcode'',
     ''inventory.importItems'', ''inventory.undoItemImport'', ''inventory.restoreItemImport'',
     ''inventory.reserveStock'', ''inventory.releaseReservation'', ''inventory.listReservations'',
     ''purchasing.createPaymentRun'', ''purchasing.cancelPaymentRunDraft'', ''purchasing.restorePaymentRunDraft'',
     ''purchasing.instructPaymentRun'', ''purchasing.reversePaymentRun'', ''purchasing.listPaymentRuns'',
     ''purchasing.listPaymentRunBills'', ''accounting.periodCloseWorkbench'', ''accounting.updatePeriodCloseCheck'',
     ''accounting.restorePeriodCloseCheck'', ''accounting.closePeriod'', ''accounting.reopenPeriod'',
     ''accounting.closeYear'', ''accounting.saveBudgetScenario'', ''accounting.undoBudgetScenarioVersion'',
     ''accounting.restoreBudgetScenarioVersion'', ''accounting.listBudgetScenarios'',
     ''accounting.budgetActualVsPlan'', ''accounting.createTaxProfile'', ''accounting.removeTaxProfile'',
     ''accounting.createTaxCode'', ''accounting.archiveTaxCode'', ''accounting.activateTaxCode'',
     ''accounting.listTaxCodes'', ''accounting.createTaxReturn'', ''accounting.cancelTaxReturnDraft'',
     ''accounting.restoreTaxReturnDraft'', ''accounting.recordTaxReturnSubmission'',
     ''accounting.createTaxReturnAmendment'', ''accounting.recordTaxReturnAcknowledgment'',
     ''accounting.fileSalesTaxReturn'', ''hr.requestLeave'', ''hr.cancelLeave'', ''hr.decideLeave'', ''hr.logTime'',
     ''hr.decideTimeEntry'', ''hr.clockIn'', ''hr.clockOut'', ''hr.leaveBalance'', ''hr.leaveCalendar'',
     ''hr.timeReport'', ''hr.pendingTimeEntries'', ''hr.createPayrollRun'', ''hr.executePayrollRun'',
     ''hr.voidPayrollRun'', ''hr.reversePayrollPosting'', ''hr.addApplicant'', ''hr.moveApplicant'',
     ''hr.hireApplicant'', ''hr.listApplicants'', ''purchasing.billCreditNote'', ''purchasing.closePurchaseOrder'',
     ''purchasing.listReceipts'', ''inventory.postValuationSummary'', ''inventory.reverseValuationSummary'',
     ''inventory.stockReport'', ''inventory.itemHistory'', ''inventory.listLots'',
     ''inventory.rebuildStockProjections'', ''accounting.incomeStatement'', ''accounting.balanceSheet'',
     ''accounting.listInvoices'', ''accounting.arAging'', ''accounting.cashBasisReport'',
     ''accounting.customerStatement'', ''accounting.salesTaxReport'', ''accounting.cashFlow'',
     ''accounting.cashForecast'', ''accounting.overview'', ''accounting.unrealizedFxExposure'',
     ''accounting.revalueForeignReceivables'', ''accounting.reversePeriodFxRevaluation'', ''purchasing.apAging'',
     ''accounting.buildReminders'', ''manufacturing.createWorkOrder'', ''manufacturing.releaseWorkOrder'',
     ''manufacturing.completeWorkOrder'', ''manufacturing.cancelWorkOrder'', ''manufacturing.reverseProductionRun'',
     ''manufacturing.checkProductionFeasibility'', ''manufacturing.workOrdersList'',
     ''manufacturing.produceFromBom'', ''manufacturing.defineBom'', ''manufacturing.deleteBom'',
     ''manufacturing.restoreBom'', ''manufacturing.bomTree'', ''manufacturing.bomReport'',
     ''manufacturing.costPreview'', ''manufacturing.lotTrace'', ''manufacturing.productionRuns'',
     ''marketing.createSegment'', ''marketing.createCampaign'', ''marketing.sendCampaign'',
     ''marketing.campaignAnalytics'', ''support.startConversation'', ''support.postMessage'',
     ''support.listConversations'', ''support.listTickets'', ''support.listLibrary'', ''support.readConversation'',
     ''support.lookupOrderStatus'', ''support.searchKnowledge'', ''support.escalateConversation'',
     ''support.resolveConversation'', ''support.reopenConversation'', ''support.createTicket'',
     ''support.updateTicket'', ''support.suggestCategory'', ''support.createCannedResponse'',
     ''support.createKbArticle'', ''hr.createOpening'', ''hr.closeOpening'', ''documents.listDocVersions'',
     ''documents.getDocVersion'', ''iam.setModules'', ''iam.restoreModules'', ''iam.setModuleConfig'',
     ''iam.setOrgPolicy'', ''iam.setOrgBranding'', ''iam.setAgentSoul'', ''iam.restoreAgentSoul'',
     ''purchasing.listWorkspace'', ''purchasing.supplierPerformance'', ''purchasing.priceHistory'',
     ''purchasing.supplierStatement'', ''signals.list'', ''skills.find'', ''skills.load'',
     ''creator.submitProposal'', ''creator.listProposals'', ''creator.reviewProposal'',
     ''creator.listCapabilityGaps'', ''creator.scaffoldCapability'', ''creator.verifyPlugin'',
     ''creator.publishListing'', ''creator.retractListing'', ''creator.installListing'',
     ''creator.uninstallListing'', ''creator.listMarketplace'', ''creator.stageCandidate'',
     ''creator.promoteCandidate'', ''creator.rollbackCandidate'', ''creator.recordCanaryOutcome'',
     ''routines.create'', ''routines.list'', ''routines.update'', ''routines.delete'', ''routines.runNow'',
     ''analytics.renderReport'', ''analytics.pipelineByStage'', ''analytics.revenueByMonth'',
     ''analytics.invoiceAging'', ''analytics.salesByCustomer'', ''analytics.stockLevels'',
     ''analytics.explainChange'', ''analytics.askYourBusiness'', ''iam.listMembers'', ''iam.createRole'',
     ''iam.updateRolePermissions'', ''iam.assignRole'', ''iam.inviteMember'', ''iam.createSSOConnection'',
     ''iam.disableSSOConnection'', ''iam.restoreSSOConnection'', ''settings.configureAiProvider'',
     ''settings.restoreAiProvider'', ''harness.approveComposition'']"

lemma decide_unverifiable:
  assumes "decide_execute env impl claims input row now later db = (answer, db')" and "ap_capabilityID row \<notin> set (env_verifiable env)"
  shows "domain db' = domain db" and "answer = Inr result \<Longrightarrow> \<not> dr_OK result"
proof -
  have "\<not> verified_payload env impl claims row now" using assms(2) by (auto simp: verified_payload_def split: sum.splits)
  with assms(1) show "domain db' = domain db" and "answer = Inr result \<Longrightarrow> \<not> dr_OK result"
    by (auto simp: decide_execute_def decisionFailure_def dest: finishTx_domain split: sum.splits)
qed

text \<open>A decision on a capability it has no case for never changes the business state, and succeeds only for a rejection.\<close>

lemma undecidable_never_acts:
  assumes cap: "capabilityID \<notin> set (env_verifiable env)"
    and row: "find (\<lambda>a. ap_id a = di_ApprovalID input \<and> ap_orgID a = OrganizationID claims) (approvals db) = Some a" "ap_capabilityID a = capabilityID"
    and run: "Decide env impl claims input now later db = (answer, db')"
  shows "domain db' = domain db \<and> (\<forall>result. answer = Inr result \<and> dr_OK result \<longrightarrow> dr_Status result = ''rejected'')"
proof (cases "decide_claim env claims input now db")
  case (Inl e)
  with run show ?thesis by (auto simp: Decide_def decisionFailure_def split: if_splits)
next
  case (Inr x)
  obtain t db1 where t: "decide_claim env claims input now db = Inr (t, db1)" using Inr by (cases x) auto
  have d: "domain db1 = domain db" using t by (rule decide_claim_domain)
  show ?thesis
  proof (cases t)
    case (Answer result)
    have "dr_OK result \<longrightarrow> dr_Status result = ''rejected''"
      using t row(1) unfolding Answer by (auto simp: decide_claim_def Let_def decisionFailure_def approvalAlreadyDecided_def split: option.splits if_splits)
    with run t Answer d show ?thesis by (auto simp: Decide_def decisionFailure_def split: if_splits)
  next
    case (Claimed q)
    have "ap_capabilityID q = capabilityID"
      using t row unfolding Claimed by (auto simp: decide_claim_def Let_def split: option.splits if_splits)
    then have "ap_capabilityID q \<notin> set (env_verifiable env)" using cap by simp
    note u = decide_unverifiable [OF _ this]
    from run t Claimed have "decide_execute env impl claims input q now later db1 = (answer, db') \<or>
      (\<exists>status message. answer = Inr (decisionFailure status message)) \<and> db' = db"
      by (auto simp: Decide_def split: if_splits)
    then show ?thesis using u [of impl claims input now later db1 answer db'] d by (auto simp: decisionFailure_def)
  qed
qed

end
