(* ===== verification/Registry.thy ===== *)
theory Registry
  imports Catalog
begin

text \<open>
  What the program registers beside the literal table of \<^verbatim>\<open>Catalog\<close>: the specs the documents,
  messaging, notification, harness and single sign-on modules add at start-up
  (src/apps/api/internal/capability: documents.go, messaging.go, notification_receipt.go,
  harness.go, iam_sso.go, merged by the init functions of executor.go and iam_sso.go), and the
  permission an approval demands of its decider (\<^verbatim>\<open>permissionForCapability\<close> of approval.go).
\<close>

section \<open>Tables merged at start-up\<close>

definition documentsCapabilitySpecs :: "(string \<times> capabilitySpec) list" where
  "documentsCapabilitySpecs =
    [(''documents.addVersion'', spec ''documents'' ''documents.write'' ''write''),
     (''documents.allocateNumber'', spec ''documents'' ''documents.write'' ''write''),
     (''documents.createDoc'', (spec ''documents'' ''documents.write'' ''write'')\<lparr>sp_inverseCapabilityID := ''documents.deleteDoc''\<rparr>),
     (''documents.createDocument'', (spec ''documents'' ''documents.write'' ''write'')\<lparr>sp_inverseCapabilityID := ''documents.deleteDocument''\<rparr>),
     (''documents.createFolder'', (spec ''documents'' ''documents.write'' ''write'')\<lparr>sp_inverseCapabilityID := ''documents.deleteFolder''\<rparr>),
     (''documents.createTemplate'', (spec ''documents'' ''documents.write'' ''write'')\<lparr>sp_inverseCapabilityID := ''documents.deleteTemplate''\<rparr>),
     (''documents.deleteDoc'', spec ''documents'' ''documents.write'' ''destructive''),
     (''documents.deleteDocument'', spec ''documents'' ''documents.write'' ''destructive''),
     (''documents.deleteFolder'', (spec ''documents'' ''documents.write'' ''destructive'')\<lparr>sp_inverseCapabilityID := ''documents.createFolder''\<rparr>),
     (''documents.deleteOrgMemory'', spec ''documents'' ''documents.write'' ''destructive''),
     (''documents.deleteTemplate'', spec ''documents'' ''documents.write'' ''destructive''),
     (''documents.getDoc'', spec ''documents'' ''documents.read'' ''read''),
     (''documents.getTemplate'', spec ''documents'' ''documents.read'' ''read''),
     (''documents.parseDocument'', spec ''documents'' ''documents.write'' ''write''),
     (''documents.listDocuments'', spec ''documents'' ''documents.read'' ''read''),
     (''documents.listFolders'', spec ''documents'' ''documents.read'' ''read''),
     (''documents.listTemplates'', spec ''documents'' ''documents.read'' ''read''),
     (''documents.listVersions'', spec ''documents'' ''documents.read'' ''read''),
     (''documents.renameFolder'', spec ''documents'' ''documents.write'' ''write''),
     (''documents.restoreDocVersion'', spec ''documents'' ''documents.write'' ''write''),
     (''documents.saveDocVersion'', spec ''documents'' ''documents.write'' ''write''),
     (''documents.searchMemory'', spec ''documents'' ''documents.read'' ''read''),
     (''documents.searchRecords'', spec ''documents'' ''documents.read'' ''read''),
     (''documents.suggestCoding'', spec ''documents'' ''documents.write'' ''write''),
     (''documents.updateDocMetadata'', spec ''documents'' ''documents.write'' ''write'')]"

definition messagingCapabilitySpecs :: "(string \<times> capabilitySpec) list" where
  "messagingCapabilitySpecs =
    [(''messaging.sendMessage'', (spec ''messaging'' ''messaging.write'' ''write'')\<lparr>sp_inverseCapabilityID := ''messaging.deleteMessage'', sp_inverseInputSource := ''output'', sp_inverseFields := [''messageId'']\<rparr>),
     (''messaging.listConversations'', spec ''messaging'' ''messaging.read'' ''read''),
     (''messaging.readMessages'', spec ''messaging'' ''messaging.read'' ''read''),
     (''messaging.searchMessages'', spec ''messaging'' ''messaging.read'' ''read''),
     (''messaging.listPeople'', spec ''messaging'' ''messaging.read'' ''read''),
     (''messaging.createConversation'', spec ''messaging'' ''messaging.write'' ''write''),
     (''messaging.updateConversation'', spec ''messaging'' ''messaging.write'' ''write''),
     (''messaging.archiveConversation'', spec ''messaging'' ''messaging.write'' ''write''),
     (''messaging.deleteConversation'', spec ''messaging'' ''messaging.write'' ''destructive''),
     (''messaging.leaveConversation'', spec ''messaging'' ''messaging.write'' ''write''),
     (''messaging.addMember'', spec ''messaging'' ''messaging.write'' ''write''),
     (''messaging.editMessage'', (spec ''messaging'' ''messaging.write'' ''write'')\<lparr>sp_inverseCapabilityID := ''messaging.restoreMessageEdit'', sp_inverseInputSource := ''output'', sp_inverseFields := [''messageId'', ''body'', ''expectedBody'', ''expectedEditedAt'']\<rparr>),
     (''messaging.restoreMessageEdit'', (spec ''messaging'' ''messaging.write'' ''write'')\<lparr>sp_inverseCapabilityID := ''messaging.editMessage'', sp_inverseInputSource := ''output'', sp_inverseFields := [''messageId'', ''body'', ''expectedBody'', ''expectedEditedAt'']\<rparr>),
     (''messaging.deleteMessage'', (spec ''messaging'' ''messaging.write'' ''write'')\<lparr>sp_inverseCapabilityID := ''messaging.restoreMessageDelete'', sp_inverseInputSource := ''output'', sp_inverseFields := [''messageId'', ''deletedAt'', ''expectedDeletedAt'']\<rparr>),
     (''messaging.restoreMessageDelete'', (spec ''messaging'' ''messaging.write'' ''write'')\<lparr>sp_inverseCapabilityID := ''messaging.deleteMessage'', sp_inverseInputSource := ''output'', sp_inverseFields := [''messageId'', ''expectedDeletedAt'']\<rparr>),
     (''messaging.advanceReadCursor'', (spec ''messaging'' ''messaging.write'' ''write'')\<lparr>sp_inverseCapabilityID := ''messaging.restoreReadCursor'', sp_inverseInputSource := ''output'', sp_inverseFields := [''conversationId'', ''previousReadAt'']\<rparr>),
     (''messaging.restoreReadCursor'', (spec ''messaging'' ''messaging.write'' ''write'')\<lparr>sp_inverseCapabilityID := ''messaging.advanceReadCursor'', sp_inverseInputSource := ''output'', sp_inverseFields := [''conversationId'', ''previousReadAt'']\<rparr>),
     (''messaging.setMessageReaction'', (spec ''messaging'' ''messaging.write'' ''write'')\<lparr>sp_inverseCapabilityID := ''messaging.restoreMessageReaction'', sp_inverseInputSource := ''input'', sp_inverseFields := [''messageId'', ''emoji'']\<rparr>),
     (''messaging.restoreMessageReaction'', (spec ''messaging'' ''messaging.write'' ''write'')\<lparr>sp_inverseCapabilityID := ''messaging.setMessageReaction'', sp_inverseInputSource := ''output'', sp_inverseFields := [''previousActive'']\<rparr>),
     (''messaging.setMessagePin'', (spec ''messaging'' ''messaging.write'' ''write'')\<lparr>sp_inverseCapabilityID := ''messaging.restoreMessagePin'', sp_inverseInputSource := ''output'', sp_inverseFields := [''messageId'']\<rparr>),
     (''messaging.restoreMessagePin'', (spec ''messaging'' ''messaging.write'' ''write'')\<lparr>sp_inverseCapabilityID := ''messaging.setMessagePin'', sp_inverseInputSource := ''output'', sp_inverseFields := [''messageId'']\<rparr>),
     (''messaging.updateConversationPresence'', (spec ''messaging'' ''messaging.write'' ''write'')\<lparr>sp_inverseCapabilityID := ''messaging.restoreConversationPresence'', sp_inverseInputSource := ''input'', sp_inverseFields := [''conversationId'']\<rparr>),
     (''messaging.restoreConversationPresence'', (spec ''messaging'' ''messaging.write'' ''write'')\<lparr>sp_inverseCapabilityID := ''messaging.updateConversationPresence'', sp_inverseInputSource := ''output'', sp_inverseFields := [''previousLastSeenAt'', ''previousTypingUntil'']\<rparr>),
     (''messaging.uploadMessageAttachment'', (spec ''messaging'' ''messaging.write'' ''secret'')\<lparr>sp_approvalExempt := True, sp_inverseCapabilityID := ''messaging.deletePendingAttachment'', sp_inverseInputSource := ''output'', sp_inverseFields := [''attachmentId'']\<rparr>),
     (''messaging.deletePendingAttachment'', spec ''messaging'' ''messaging.write'' ''secret'')]"

definition notificationReceiptCapabilitySpecs :: "(string \<times> capabilitySpec) list" where
  "notificationReceiptCapabilitySpecs =
    [(''notifications.markRead'', (spec ''notifications'' ''notifications.read'' ''write'')\<lparr>sp_inverseCapabilityID := ''notifications.restoreRead'', sp_inverseInputSource := ''output'', sp_inverseFields := [''id'', ''receiptCreated'']\<rparr>),
     (''notifications.restoreRead'', (spec ''notifications'' ''notifications.read'' ''write'')\<lparr>sp_inverseCapabilityID := ''notifications.markRead'', sp_inverseInputSource := ''output'', sp_inverseFields := [''id'', ''restored'']\<rparr>)]"

definition harnessCapabilitySpecEntries :: "(string \<times> capabilitySpec) list" where
  "harnessCapabilitySpecEntries =
    [(''harness.approveComposition'', spec ''harness'' ''harness.approve'' ''identity''),
     (''harness.listCompositions'', (spec ''settings'' ''harness.approve'' ''read'')\<lparr>sp_humanOnly := True\<rparr>)]"

definition ssoCapabilitySpecs :: "(string \<times> capabilitySpec) list" where
  "ssoCapabilitySpecs =
    [(''iam.createSSOConnection'', (spec ''iam'' ''iam.admin'' ''identity'')\<lparr>sp_inverseCapabilityID := ''iam.disableSSOConnection'', sp_inverseInputSource := ''output'', sp_inverseFields := [''connectionId'']\<rparr>),
     (''iam.disableSSOConnection'', (spec ''iam'' ''iam.admin'' ''identity'')\<lparr>sp_inverseCapabilityID := ''iam.restoreSSOConnection'', sp_inverseInputSource := ''output'', sp_inverseFields := [''connectionId'']\<rparr>),
     (''iam.restoreSSOConnection'', (spec ''iam'' ''iam.admin'' ''identity'')\<lparr>sp_inverseCapabilityID := ''iam.disableSSOConnection'', sp_inverseInputSource := ''output'', sp_inverseFields := [''connectionId'']\<rparr>)]"

definition permission_cases_first :: "(string list \<times> string) list" where
  "permission_cases_first =
    [([''crm.createCustomer'', ''crm.saveCustomerView'', ''crm.restoreCustomerView'',
       ''crm.deactivateCustomer'', ''crm.mergeCustomers'', ''crm.restoreCustomerMerge'',
       ''crm.importCustomers'', ''crm.undoCustomerImport'', ''crm.restoreImportedCustomers'',
       ''crm.updateCustomerProfiles'', ''crm.restoreCustomerProfiles'', ''crm.reapplyCustomerProfiles'',
       ''crm.createDeal'', ''crm.moveDealStage'', ''crm.convertLead'', ''crm.createTask'',
       ''crm.completeTask'', ''crm.updateTaskDetails'', ''crm.restoreTaskDetails''], ''crm.write''),
     ([''accounting.createInvoice'', ''accounting.createQuote'', ''accounting.acceptQuote'',
       ''accounting.declineQuote'', ''accounting.expireQuote'', ''accounting.createRecurringTemplate'',
       ''accounting.pauseRecurringTemplate'', ''accounting.resumeRecurringTemplate''], ''accounting.write''),
     ([''accounting.listQuotes'', ''accounting.listRecurringTemplates''], ''accounting.read''),
     ([''hr.hireEmployee'', ''hr.deactivateEmployee'', ''hr.updateEmployeeStructure''], ''hr.write''),
     ([''hr.listEmployees''], ''hr.read''),
     ([''sales.createOrder'', ''sales.confirmOrder'', ''sales.deliverOrder'', ''sales.cancelOrder''], ''sales.write''),
     ([''sales.listOrders''], ''sales.read''),
     ([''accounting.recordFxRate'', ''accounting.recordPayment'', ''accounting.reversePayment''], ''accounting.post''),
     ([''accounting.trialBalance''], ''accounting.read''),
     ([''accounting.submitExpenseClaim''], ''expenses.submit''),
     ([''accounting.decideExpenseClaim'', ''accounting.listExpenseClaims'',
       ''accounting.listExpensePolicies'', ''accounting.setExpensePolicy''], ''expenses.decide''),
     ([''accounting.payExpenseClaim''], ''accounting.post''),
     ([''purchasing.createVendor'', ''purchasing.createPurchaseOrder'', ''purchasing.receiveGoods'',
       ''purchasing.returnGoods'', ''purchasing.createBill''], ''purchasing.write''),
     ([''purchasing.payBill'', ''purchasing.reverseVendorPayment''], ''purchasing.post''),
     ([''inventory.adjustStock'', ''inventory.createTransfer'', ''inventory.confirmTransfer'',
       ''inventory.cancelTransfer'', ''inventory.reverseTransfer'', ''inventory.createCycleCount'',
       ''inventory.recordCycleCounts'', ''inventory.postCycleCount'', ''inventory.cancelCycleCount''], ''inventory.write''),
     ([''inventory.listTransfers'', ''inventory.listCycleCounts''], ''inventory.read''),
     ([''pos.openSession'', ''pos.closeSession''], ''pos.write''),
     ([''pos.completeSale'', ''pos.returnSale''], ''pos.sell''),
     ([''pos.shiftSummary'', ''pos.listSessions''], ''pos.read''),
     ([''accounting.creditNote'', ''accounting.reverseEntry''], ''accounting.post''),
     ([''accounting.shareInvoice'', ''accounting.generateDueInvoices''], ''accounting.write''),
     ([''accounting.addBankAccount'', ''accounting.importBankFeed'', ''accounting.deleteBankTransaction'',
       ''accounting.matchBankTransaction'', ''accounting.unmatchBankTransaction'',
       ''accounting.excludeBankTransaction'', ''accounting.unexcludeBankTransaction''], ''accounting.write''),
     ([''accounting.bankReconciliation'', ''accounting.bankSummary'', ''accounting.listBankingWorkspace''], ''accounting.read''),
     ([''operations.upsertRecord''], ''operations.write''),
     ([''operations.getRecord'', ''operations.listRecords''], ''operations.read''),
     ([''purchasing.createPurchaseRequest'', ''purchasing.decidePurchaseRequest'', ''purchasing.createRfq'',
       ''purchasing.recordQuote'', ''purchasing.selectWinningQuote''], ''purchasing.write''),
     ([''purchasing.listPurchaseWorkflow''], ''purchasing.read''),
     ([''inventory.createItem'', ''inventory.updateItem'', ''inventory.restoreItem'',
       ''inventory.archiveItem'', ''inventory.createLocation''], ''inventory.write''),
     ([''inventory.listLocations'', ''inventory.listLocationRecords'', ''inventory.listItemMetadata'',
       ''inventory.lookupByBarcode''], ''inventory.read''),
     ([''inventory.importItems'', ''inventory.undoItemImport'', ''inventory.restoreItemImport'',
       ''inventory.reserveStock'', ''inventory.releaseReservation''], ''inventory.write''),
     ([''inventory.listReservations''], ''inventory.read''),
     ([''purchasing.createPaymentRun'', ''purchasing.cancelPaymentRunDraft'',
       ''purchasing.restorePaymentRunDraft''], ''purchasing.write''),
     ([''purchasing.instructPaymentRun'', ''purchasing.reversePaymentRun''], ''purchasing.post''),
     ([''purchasing.listPaymentRuns''], ''purchasing.read''),
     ([''purchasing.listPaymentRunBills''], ''purchasing.read''),
     ([''accounting.periodCloseWorkbench''], ''accounting.read''),
     ([''accounting.updatePeriodCloseCheck'', ''accounting.restorePeriodCloseCheck''], ''accounting.write''),
     ([''accounting.closePeriod'', ''accounting.reopenPeriod'', ''accounting.closeYear''], ''accounting.admin''),
     ([''accounting.saveBudgetScenario'', ''accounting.undoBudgetScenarioVersion'',
       ''accounting.restoreBudgetScenarioVersion''], ''accounting.write''),
     ([''accounting.listBudgetScenarios'', ''accounting.budgetActualVsPlan''], ''accounting.read''),
     ([''accounting.listTaxCodes''], ''accounting.read''),
     ([''accounting.createTaxProfile'', ''accounting.removeTaxProfile'', ''accounting.createTaxCode'',
       ''accounting.archiveTaxCode'', ''accounting.activateTaxCode''], ''accounting.admin'')]"

definition permission_cases_second :: "(string list \<times> string) list" where
  "permission_cases_second =
    [([''accounting.createTaxReturn'', ''accounting.cancelTaxReturnDraft'',
       ''accounting.restoreTaxReturnDraft'', ''accounting.createTaxReturnAmendment''], ''accounting.write''),
     ([''accounting.recordTaxReturnSubmission'', ''accounting.fileSalesTaxReturn''], ''accounting.post''),
     ([''accounting.recordTaxReturnAcknowledgment''], ''accounting.admin''),
     ([''hr.requestLeave'', ''hr.cancelLeave'', ''hr.decideLeave'', ''hr.logTime'', ''hr.decideTimeEntry'',
       ''hr.clockIn'', ''hr.clockOut'', ''hr.createPayrollRun'', ''hr.executePayrollRun'',
       ''hr.voidPayrollRun'', ''hr.reversePayrollPosting'', ''hr.addApplicant'', ''hr.moveApplicant'',
       ''hr.hireApplicant''], ''hr.write''),
     ([''hr.leaveBalance'', ''hr.leaveCalendar'', ''hr.timeReport'', ''hr.pendingTimeEntries'',
       ''hr.listApplicants''], ''hr.read''),
     ([''purchasing.billCreditNote'', ''purchasing.closePurchaseOrder''], ''purchasing.write''),
     ([''purchasing.listReceipts''], ''purchasing.read''),
     ([''purchasing.apAging''], ''purchasing.read''),
     ([''accounting.buildReminders''], ''accounting.read''),
     ([''manufacturing.createWorkOrder'', ''manufacturing.releaseWorkOrder'',
       ''manufacturing.completeWorkOrder'', ''manufacturing.cancelWorkOrder'',
       ''manufacturing.produceFromBom'', ''manufacturing.defineBom'',
       ''manufacturing.reverseProductionRun'', ''manufacturing.deleteBom'', ''manufacturing.restoreBom''], ''manufacturing.write''),
     ([''manufacturing.checkProductionFeasibility'', ''manufacturing.workOrdersList'',
       ''manufacturing.bomTree'', ''manufacturing.bomReport'', ''manufacturing.costPreview'',
       ''manufacturing.lotTrace'', ''manufacturing.productionRuns''], ''manufacturing.read''),
     ([''marketing.createSegment'', ''marketing.createCampaign'', ''marketing.sendCampaign''], ''marketing.write''),
     ([''marketing.campaignAnalytics''], ''marketing.read''),
     ([''hr.createOpening'', ''hr.closeOpening''], ''hr.write''),
     ([''iam.setModules'', ''iam.restoreModules'', ''iam.setOrgPolicy'', ''iam.setModuleConfig'',
       ''iam.setOrgBranding'', ''iam.getOrgPolicy'', ''iam.setAgentSoul'', ''iam.restoreAgentSoul''], ''iam.admin''),
     ([''purchasing.listWorkspace'', ''purchasing.supplierPerformance'', ''purchasing.priceHistory'',
       ''purchasing.supplierStatement''], ''purchasing.read''),
     ([''signals.list''], ''signals.read''),
     ([''skills.find'', ''skills.load''], ''documents.read''),
     ([''creator.submitProposal'', ''creator.listProposals'', ''creator.reviewProposal'',
       ''creator.listCapabilityGaps'', ''creator.scaffoldCapability'', ''creator.verifyPlugin'',
       ''creator.publishListing'', ''creator.retractListing'', ''creator.installListing'',
       ''creator.uninstallListing'', ''creator.stageCandidate'', ''creator.promoteCandidate'',
       ''creator.rollbackCandidate''], ''platform.creator''),
     ([''creator.listMarketplace''], ''platform.browse''),
     ([''creator.recordCanaryOutcome''], ''platform.creator.release''),
     ([''routines.create'', ''routines.update'', ''routines.delete'', ''routines.runNow''], ''routines.write''),
     ([''routines.list''], ''routines.read''),
     ([''analytics.renderReport'', ''analytics.explainChange'', ''analytics.askYourBusiness''], ''analytics.report''),
     ([''analytics.pipelineByStage''], ''crm.read''),
     ([''analytics.revenueByMonth'', ''analytics.invoiceAging'', ''analytics.salesByCustomer''], ''accounting.read''),
     ([''analytics.stockLevels''], ''inventory.read''),
     ([''support.startConversation'', ''support.postMessage'', ''support.escalateConversation'',
       ''support.resolveConversation'', ''support.reopenConversation'', ''support.createTicket'',
       ''support.updateTicket'', ''support.createCannedResponse'', ''support.createKbArticle''], ''support.write''),
     ([''support.listConversations'', ''support.listTickets'', ''support.listLibrary'',
       ''support.readConversation'', ''support.lookupOrderStatus'', ''support.searchKnowledge'',
       ''support.suggestCategory''], ''support.read''),
     ([''inventory.postValuationSummary'', ''inventory.reverseValuationSummary''], ''inventory.write''),
     ([''inventory.rebuildStockProjections''], ''inventory.admin''),
     ([''inventory.stockReport'', ''inventory.itemHistory'', ''inventory.listLots''], ''inventory.read''),
     ([''accounting.incomeStatement'', ''accounting.balanceSheet'', ''accounting.listInvoices'',
       ''accounting.arAging'', ''accounting.overview'', ''accounting.cashBasisReport'',
       ''accounting.customerStatement'', ''accounting.salesTaxReport'', ''accounting.cashFlow'',
       ''accounting.cashForecast''], ''accounting.read''),
     ([''accounting.unrealizedFxExposure''], ''accounting.read''),
     ([''accounting.revalueForeignReceivables'', ''accounting.reversePeriodFxRevaluation''], ''accounting.post''),
     ([''iam.listMembers''], ''iam.read''),
     ([''documents.listDocs'', ''documents.listDocVersions'', ''documents.getDocVersion''], ''documents.read''),
     ([''iam.createRole'', ''iam.updateRolePermissions'', ''iam.assignRole'', ''iam.inviteMember'',
       ''iam.createSSOConnection'', ''iam.disableSSOConnection'', ''iam.restoreSSOConnection'',
       ''iam.createSCIMToken'', ''iam.revokeSCIMToken''], ''iam.admin''),
     ([''settings.configureAiProvider'', ''settings.restoreAiProvider''], ''iam.admin''),
     ([''harness.approveComposition''], ''harness.approve'')]"

section \<open>The registry\<close>

text \<open>A later registration replaces an earlier one under the same id.\<close>

definition registeredSpecs :: "(string \<times> capabilitySpec) list" where
  "registeredSpecs =
     ssoCapabilitySpecs @ harnessCapabilitySpecEntries @ notificationReceiptCapabilitySpecs
     @ messagingCapabilitySpecs @ documentsCapabilitySpecs @ capabilitySpecs"

definition documentsPermissionFor :: "string \<Rightarrow> string option" where
  "documentsPermissionFor capabilityID = map_option sp_permission (map_of documentsCapabilitySpecs capabilityID)"

text \<open>The switch of \<^verbatim>\<open>permissionForCapability\<close>, reached by ids with no registered permission.\<close>

definition fallbackPermission :: "string \<Rightarrow> string option" where
  "fallbackPermission capabilityID =
     (case find (\<lambda>(ids, _). capabilityID \<in> set ids) (permission_cases_first @ permission_cases_second) of
        Some (_, permission) \<Rightarrow> Some permission
      | None \<Rightarrow>
          (case map_of messagingCapabilitySpecs capabilityID of
             Some s \<Rightarrow> Some (sp_permission s)
           | None \<Rightarrow> documentsPermissionFor capabilityID))"

section \<open>Destructive capabilities without a decision\<close>

definition undecidable_destructive :: "string list" where
  "undecidable_destructive =
    [''crm.undoLeadConversion'', ''projects.deleteTask'', ''documents.deleteDoc'', ''documents.deleteDocument'',
     ''documents.deleteFolder'', ''documents.deleteOrgMemory'', ''documents.deleteTemplate'', ''messaging.deleteConversation'']"

lemma undecidable_destructive_undecided:
  "capabilityID \<in> set undecidable_destructive \<Longrightarrow> capabilityID \<notin> set decidable_capabilities"
  by (auto simp: undecidable_destructive_def decidable_capabilities_def)

definition destructive_spec :: "capabilitySpec \<Rightarrow> bool" where
  "destructive_spec s \<longleftrightarrow> sp_risk s = ''destructive'' \<and> \<not> sp_approvalExempt s"

text \<open>Each is found in its own table and in none that is registered over it.\<close>

lemma undecidable_destructive_late:
  "k \<in> set undecidable_destructive \<Longrightarrow> map_of ssoCapabilitySpecs k = None"
  "k \<in> set undecidable_destructive \<Longrightarrow> map_of harnessCapabilitySpecEntries k = None"
  "k \<in> set undecidable_destructive \<Longrightarrow> map_of notificationReceiptCapabilitySpecs k = None"
  by (auto simp: map_of_eq_None_iff undecidable_destructive_def ssoCapabilitySpecs_def harnessCapabilitySpecEntries_def
      notificationReceiptCapabilitySpecs_def)

definition found_destructive :: "(string \<times> capabilitySpec) list \<Rightarrow> string \<Rightarrow> bool" where
  "found_destructive table k \<longleftrightarrow> (case map_of table k of None \<Rightarrow> False | Some s \<Rightarrow> destructive_spec s)"

lemma destructive_found:
  "list_all (\<lambda>k. has_prefix k ''messaging.'' \<longrightarrow> found_destructive messagingCapabilitySpecs k) undecidable_destructive"
  "list_all (\<lambda>k. has_prefix k ''documents.'' \<longrightarrow> found_destructive documentsCapabilitySpecs k) undecidable_destructive"
  "list_all (\<lambda>k. has_prefix k ''messaging.'' \<or> has_prefix k ''documents.'' \<or> k = ''crm.undoLeadConversion'' \<or> k = ''projects.deleteTask'')
     undecidable_destructive"
  by code_simp+

lemma destructive_deal_found: "found_destructive capabilitySpecs ''crm.undoLeadConversion''"
  by code_simp

lemma destructive_task_found: "found_destructive capabilitySpecs ''projects.deleteTask''"
  by code_simp

lemma found_destructive_append: "found_destructive t k \<Longrightarrow> found_destructive (t @ u) k"
  by (auto simp: found_destructive_def split: option.splits)

lemma found_destructive_skip: "map_of t k = None \<Longrightarrow> found_destructive (t @ u) k = found_destructive u k"
  by (simp add: found_destructive_def map_add_def)

lemma map_of_dotted:
  assumes "list_all (\<lambda>(k, _). has_prefix k p) table" and "\<not> has_prefix k p"
  shows "map_of table k = None"
  using assms by (induction table) auto

lemma module_tables:
  "list_all (\<lambda>(k, _). has_prefix k ''messaging.'') messagingCapabilitySpecs"
  "list_all (\<lambda>(k, _). has_prefix k ''documents.'') documentsCapabilitySpecs"
  by code_simp+

lemma undecidable_destructive_specs:
  assumes "k \<in> set undecidable_destructive"
  shows "found_destructive registeredSpecs k"
proof -
  have late: "found_destructive registeredSpecs k = found_destructive (messagingCapabilitySpecs @ documentsCapabilitySpecs @ capabilitySpecs) k"
    using undecidable_destructive_late [OF assms] by (simp add: found_destructive_def registeredSpecs_def map_add_def)
  have found: "has_prefix k ''messaging.'' \<longrightarrow> found_destructive messagingCapabilitySpecs k"
    "has_prefix k ''documents.'' \<longrightarrow> found_destructive documentsCapabilitySpecs k"
    "has_prefix k ''messaging.'' \<or> has_prefix k ''documents.'' \<or> k = ''crm.undoLeadConversion'' \<or> k = ''projects.deleteTask''"
    using destructive_found assms unfolding list_all_iff by blast+
  consider "has_prefix k ''messaging.''" | "\<not> has_prefix k ''messaging.''" "has_prefix k ''documents.''"
    | "\<not> has_prefix k ''messaging.''" "\<not> has_prefix k ''documents.''" by blast
  then show ?thesis
  proof cases
    case 1
    with found(1) show ?thesis unfolding late by (simp add: found_destructive_append)
  next
    case 2
    with found(2) map_of_dotted [OF module_tables(1) 2(1)] show ?thesis unfolding late by (simp add: found_destructive_append found_destructive_skip)
  next
    case 3
    from 3 found(3) have "found_destructive capabilitySpecs k" using destructive_deal_found destructive_task_found by blast
    with map_of_dotted [OF module_tables(1) 3(1)] map_of_dotted [OF module_tables(2) 3(2)] show ?thesis
      unfolding late by (simp add: found_destructive_skip)
  qed
qed

lemma destructive_needs_approval:
  assumes "ActorType caller = ''agent''" and "destructive_spec s"
  shows "fst (requiresApproval caller capabilityID s payload db)"
proof -
  have a: "\<not> sp_approvalExempt s" and r: "sp_risk s = ''destructive''" using assms(2) by (simp_all add: destructive_spec_def)
  show ?thesis by (simp add: requiresApproval_def Let_def a assms(1) autonomous_gate_def r split_beta)
qed

text \<open>
  C27. Eight capabilities that an agent may never run without human approval cannot be
  approved: they are registered as destructive, so every call by an agent is held for
  approval, but a decision has no case to re-read their payload: deciding such an approval
  never changes the business state and reports success only for a rejection.
\<close>
theorem destructive_capability_unapprovable:
  assumes env: "env_verifiable env = decidable_capabilities"
    and cap: "capabilityID \<in> set undecidable_destructive"
    and row: "find (\<lambda>a. ap_id a = di_ApprovalID input \<and> ap_orgID a = OrganizationID claims) (approvals db) = Some a" "ap_capabilityID a = capabilityID"
    and run: "Decide env impl claims input now later db = (answer, db')"
  shows "(\<exists>s. map_of registeredSpecs capabilityID = Some s \<and>
      (\<forall>caller payload. ActorType caller = ''agent'' \<longrightarrow> fst (requiresApproval caller capabilityID s payload db))) \<and>
    domain db' = domain db \<and> (\<forall>result. answer = Inr result \<and> dr_OK result \<longrightarrow> dr_Status result = ''rejected'')"
proof -
  from undecidable_destructive_specs [OF cap] obtain s where "map_of registeredSpecs capabilityID = Some s" "destructive_spec s"
    by (auto simp: found_destructive_def split: option.splits)
  moreover from this have "ActorType caller = ''agent'' \<Longrightarrow> fst (requiresApproval caller capabilityID s payload db)" for caller payload
    using destructive_needs_approval by blast
  moreover have "capabilityID \<notin> set (env_verifiable env)" using undecidable_destructive_undecided [OF cap] env by simp
  ultimately show ?thesis using undecidable_never_acts [OF _ row run] by blast
qed

definition unapprovable_row :: approval_row where
  "unapprovable_row = example_asked\<lparr>ap_capabilityID := ''projects.deleteTask''\<rparr>"

theorem destructive_capability_unapprovable_witness:
  "domain (snd (Decide (example_approval_env\<lparr>env_verifiable := decidable_capabilities\<rparr>) example_exec_impl (example_claims ''human'' [])
     example_decision 1700000000000 1700000000000 ((example_exec_db 10)\<lparr>approvals := [unapprovable_row]\<rparr>))) = 0"
proof -
  let ?env = "example_approval_env\<lparr>env_verifiable := decidable_capabilities\<rparr>" and ?c = "example_claims ''human'' []"
  let ?db = "(example_exec_db 10)\<lparr>approvals := [unapprovable_row]\<rparr>"
  have f: "find (\<lambda>a. ap_id a = di_ApprovalID example_decision \<and> ap_orgID a = OrganizationID ?c) (approvals ?db) = Some unapprovable_row"
    and c: "ap_capabilityID unapprovable_row = ''projects.deleteTask''" and e: "env_verifiable ?env = decidable_capabilities"
    by (simp_all add: unapprovable_row_def example_asked_def example_decision_def example_claims_def)
  have m: "''projects.deleteTask'' \<in> set undecidable_destructive" by (simp add: undecidable_destructive_def)
  obtain answer db' where d: "Decide ?env example_exec_impl ?c example_decision 1700000000000 1700000000000 ?db = (answer, db')" by fastforce
  have "domain db' = domain ?db" using destructive_capability_unapprovable [OF e m f c d] by blast
  with d show ?thesis by (simp add: example_exec_db_def)
qed

end
