(* ===== verification/Inputs.thy ===== *)
theory Inputs
  imports Governance Complex_Main
begin

text \<open>
  Parsing the JSON inputs of the receivables capabilities and encoding them again for the
  digest (src/apps/api/internal/capability/accounting.go, accounting_payments.go,
  accounting_invoice_ops.go, profiles.go). A \<^verbatim>\<open>json.RawMessage\<close> field is kept as its decoded
  value; numbers keep their literal, so that \<^verbatim>\<open>requiredSafeInteger\<close> can be read with the
  rounding of \<^verbatim>\<open>strconv.ParseFloat\<close> written out.
\<close>

section \<open>Fields\<close>

definition decodeJSONObject :: "string \<Rightarrow> (string \<times> json) list result" where
  "decodeJSONObject raw =
     (case decodeJSON raw of
        Some (JObj obj) \<Rightarrow> Inr obj
      | _ \<Rightarrow> Inl ''expected an object'')"

definition requiredString :: "(string \<times> json) list \<Rightarrow> string \<Rightarrow> string result" where
  "requiredString obj key =
     (case map_of obj key of
        None \<Rightarrow> Inl (key @ '' is required'')
      | Some JNull \<Rightarrow> Inl (key @ '' is required'')
      | Some (JStr s) \<Rightarrow> Inr s
      | Some _ \<Rightarrow> Inl (key @ '' must be a string''))"

definition optionalString :: "(string \<times> json) list \<Rightarrow> string \<Rightarrow> string option result" where
  "optionalString obj key =
     (case map_of obj key of
        None \<Rightarrow> Inr None
      | Some (JStr s) \<Rightarrow> Inr (Some s)
      | Some _ \<Rightarrow> Inl (key @ '' must be a string''))"

section \<open>Integers\<close>

definition maxSafeInteger :: int where "maxSafeInteger = 9007199254740991"

text \<open>\<^verbatim>\<open>json.Number.Int64\<close>: an optional minus sign and digits, in the range of \<^verbatim>\<open>int64\<close>.\<close>

definition int64_literal :: "string \<Rightarrow> int option" where
  "int64_literal s =
     (let neg = (take 1 s = ''-''); body = (if neg then drop 1 s else s);
          n = (if neg then - digits_value body else digits_value body)
      in if body \<noteq> [] \<and> list_all is_digit body \<and> - (2 ^ 63) \<le> n \<and> n < 2 ^ 63 then Some n else None)"

text \<open>The digits of a JSON number literal without its sign, and its power of ten.\<close>

definition exponent_value :: "string \<Rightarrow> int" where
  "exponent_value s =
     (case s of
        [] \<Rightarrow> 0
      | _ # t \<Rightarrow>
          if take 1 t = ''-'' then - digits_value (drop 1 t)
          else if take 1 t = ''+'' then digits_value (drop 1 t)
          else digits_value t)"

definition literal_parts :: "string \<Rightarrow> int \<times> int" where
  "literal_parts s =
     (let whole = takeWhile is_digit s; rest = dropWhile is_digit s;
          fraction = (if take 1 rest = ''.'' then takeWhile is_digit (drop 1 rest) else []);
          power = (if take 1 rest = ''.'' then dropWhile is_digit (drop 1 rest) else rest)
      in (digits_value (whole @ fraction), exponent_value power - int (length fraction)))"

function log2_floor :: "int \<Rightarrow> nat" where
  "log2_floor n = (if n < 2 then 0 else Suc (log2_floor (n div 2)))"
  by pat_completeness auto
termination
  by (relation "measure nat") auto

declare log2_floor.simps [simp del]

text \<open>
  The IEEE-754 double nearest to \<open>p / q\<close> (ties to even), when it is an integer up to
  \<open>2 ^ 53 - 1\<close>: below one it is the smallest subnormal or the last step under one that decides,
  below \<open>2 ^ 52\<close> the distance to an integer against half a step, above that the integers are
  the doubles.
\<close>

definition nearest_double_integer :: "int \<Rightarrow> int \<Rightarrow> int option" where
  "nearest_double_integer p q =
     (let f = p div q; r = p mod q in
      if maxSafeInteger < f then None
      else if f = 0 then
        (if p * 2 ^ 1075 \<le> q then Some 0 else if (2 ^ 54 - 1) * q \<le> p * 2 ^ 54 then Some 1 else None)
      else let k = log2_floor f in
        if k = 52 then
          (let n = (if 2 * r < q then f else if q < 2 * r then f + 1 else if even f then f else f + 1)
           in if maxSafeInteger < n then None else Some n)
        else if r * 2 ^ (53 - k) \<le> q then Some f
        else if (q - r) * 2 ^ (53 - k) \<le> q then Some (f + 1)
        else None)"

definition float_integer :: "string \<Rightarrow> int option" where
  "float_integer s =
     (let neg = (take 1 s = ''-'') in
      case literal_parts (if neg then drop 1 s else s) of (m, e) \<Rightarrow>
        map_option (\<lambda>n. if neg then - n else n)
          (if 0 \<le> e then nearest_double_integer (m * 10 ^ nat e) 1 else nearest_double_integer m (10 ^ nat (- e))))"

definition requiredSafeInteger :: "(string \<times> json) list \<Rightarrow> string \<Rightarrow> int result" where
  "requiredSafeInteger obj key =
     (case map_of obj key of
        None \<Rightarrow> Inl (key @ '' is required'')
      | Some JNull \<Rightarrow> Inl (key @ '' is required'')
      | Some (JNum s) \<Rightarrow>
          (case int64_literal s of
             Some value \<Rightarrow> if maxSafeInteger < \<bar>value\<bar> then Inl (key @ '' must be a safe integer'') else Inr value
           | None \<Rightarrow>
               (case float_integer s of
                  None \<Rightarrow> Inl (key @ '' must be a safe integer'')
                | Some value \<Rightarrow> Inr value))
      | Some _ \<Rightarrow> Inl (key @ '' must be an integer''))"

definition optionalSafeInteger :: "(string \<times> json) list \<Rightarrow> string \<Rightarrow> int option result" where
  "optionalSafeInteger obj key =
     (if map_of obj key = None then Inr None else bind_result (requiredSafeInteger obj key) (\<lambda>v. Inr (Some v)))"

definition ascii_lower :: "char \<Rightarrow> char" where
  "ascii_lower c = (if CHR ''A'' \<le> c \<and> c \<le> CHR ''Z'' then char_of (of_char c + 32 :: nat) else c)"

definition isZodUUID :: "string \<Rightarrow> bool" where
  "isZodUUID value \<longleftrightarrow> isUUID value \<and>
     (value = ''00000000-0000-0000-0000-000000000000'' \<or>
      map ascii_lower value = ''ffffffff-ffff-ffff-ffff-ffffffffffff'' \<or>
      value ! 14 \<in> set ''12345678'' \<and> map ascii_lower value ! 19 \<in> set ''89abcdef'')"

section \<open>Errors that replace a field error\<close>

definition guarded :: "'a result \<Rightarrow> ('a \<Rightarrow> bool) \<Rightarrow> string \<Rightarrow> 'a result" where
  "guarded r ok message = (case r of Inl _ \<Rightarrow> Inl message | Inr x \<Rightarrow> if ok x then Inr x else Inl message)"

lemma guarded_Inr [simp]: "guarded r ok message = Inr x \<longleftrightarrow> r = Inr x \<and> ok x"
  by (auto simp: guarded_def split: sum.splits)

text \<open>An optional rate: absent, empty or a decimal.\<close>

definition optional_rate :: "(string \<times> json) list \<Rightarrow> string \<Rightarrow> string option result" where
  "optional_rate obj key =
     bind_result (optionalString obj key) (\<lambda>rate.
       case rate of
         None \<Rightarrow> Inr None
       | Some s \<Rightarrow>
           if s = [] then Inr rate
           else case parseFXRateDecimal s of
             Inl _ \<Rightarrow> Inl (key @ '' must be a positive decimal with up to 9 integer and 12 fractional digits'')
           | Inr _ \<Rightarrow> Inr rate)"

section \<open>Parsers\<close>

definition parse_invoice_line :: "json \<Rightarrow> createInvoiceLine result" where
  "parse_invoice_line value =
     (case value of
        JObj obj \<Rightarrow>
          bind_result (guarded (requiredString obj ''description'') (\<lambda>s. 1 \<le> utf16Length s)
              ''line description must contain at least one character'') (\<lambda>description.
          bind_result (guarded (requiredSafeInteger obj ''quantity'') (\<lambda>n. 0 < n) ''quantity must be a positive integer'') (\<lambda>quantity.
          bind_result (guarded (requiredSafeInteger obj ''unitPriceMinor'') (\<lambda>n. 0 \<le> n)
              ''unitPriceMinor must be a non-negative integer'') (\<lambda>price.
          bind_result (guarded (optionalSafeInteger obj ''taxMinor'') (\<lambda>t. case t of None \<Rightarrow> True | Some n \<Rightarrow> 0 \<le> n)
              ''taxMinor must be a non-negative integer'') (\<lambda>tax.
          bind_result (optionalString obj ''taxCodeId'') (\<lambda>code.
            if (case code of None \<Rightarrow> False | Some c \<Rightarrow> \<not> isZodUUID c) then Inl ''taxCodeId must be a UUID''
            else if code \<noteq> None \<and> tax \<noteq> None
            then Inl ''use a configured tax code or a manual tax amount, not both''
            else Inr \<lparr>ci_description = description, ci_quantity = quantity, ci_unitPriceMinor = price,
                      ci_taxMinor = tax, ci_taxCodeID = code\<rparr>)))))
      | _ \<Rightarrow> Inl ''each invoice line must be an object'')"

definition parse_lines :: "(string \<times> json) list \<Rightarrow> createInvoiceLine list result" where
  "parse_lines obj =
     (case map_of obj ''lines'' of
        Some (JArr values) \<Rightarrow>
          if values = [] then Inl ''lines must contain at least one line''
          else fold_result (\<lambda>lines value. bind_result (parse_invoice_line value) (\<lambda>line. Inr (lines @ [line]))) [] values
      | _ \<Rightarrow> Inl ''lines must contain at least one line'')"

definition ParseCreateInvoiceInput :: "string \<Rightarrow> createInvoiceInput result" where
  "ParseCreateInvoiceInput raw =
     bind_result (decodeJSONObject raw) (\<lambda>obj.
     bind_result (guarded (requiredString obj ''customerId'') isZodUUID ''customerId must be a UUID'') (\<lambda>customerID.
     bind_result (optionalString obj ''memo'') (\<lambda>memo.
     bind_result (optionalString obj ''currency'') (\<lambda>currency.
     bind_result (optional_rate obj ''fxRate'') (\<lambda>fxRate.
     bind_result (optionalString obj ''dueAt'') (\<lambda>dueAt.
       if (case dueAt of None \<Rightarrow> False | Some s \<Rightarrow> parseLegacyDateTime s = None)
       then Inl ''dueAt must be a UTC ISO datetime''
       else bind_result (parse_lines obj) (\<lambda>lines.
         Inr \<lparr>ci_customerID = customerID, ci_memo = memo, ci_lines = lines, ci_currency = currency,
              ci_fxRate = fxRate, ci_dueAt = dueAt\<rparr>)))))))"

definition ParseRecordPaymentInput :: "string \<Rightarrow> recordPaymentInput result" where
  "ParseRecordPaymentInput raw =
     bind_result (decodeJSONObject raw) (\<lambda>obj.
     bind_result (guarded (requiredSafeInteger obj ''invoiceNumber'') (\<lambda>n. 0 < n)
         ''invoiceNumber must be a positive integer'') (\<lambda>number.
     bind_result (guarded (requiredSafeInteger obj ''amountMinor'') (\<lambda>n. 0 < n)
         ''amountMinor must be a positive integer'') (\<lambda>amount.
     bind_result (case map_of obj ''method'' of
                    None \<Rightarrow> Inr ''bank_transfer''
                  | Some (JStr s) \<Rightarrow> Inr s
                  | Some _ \<Rightarrow> Inl ''method is invalid'') (\<lambda>payment_method.
       if payment_method \<notin> set [''cash'', ''bank_transfer'', ''card''] then Inl ''method is invalid''
       else bind_result (optional_rate obj ''settleFxRate'') (\<lambda>rate.
         Inr \<lparr>rp_invoiceNumber = number, rp_amountMinor = amount, rp_method = payment_method, rp_settleFXRate = rate\<rparr>)))))"

definition ParseReversePaymentInput :: "string \<Rightarrow> reversePaymentInput result" where
  "ParseReversePaymentInput raw =
     bind_result (decodeJSONObject raw) (\<lambda>obj.
     bind_result (guarded (requiredString obj ''paymentId'') isZodUUID ''paymentId must be a UUID'') (\<lambda>paymentID.
     bind_result (guarded (requiredString obj ''reason'') (\<lambda>_. True) ''reason must be a string'') (\<lambda>reason.
       if utf16Length reason < 3 \<or> 500 < utf16Length reason
       then Inl ''reason must be between 3 and 500 characters''
       else Inr \<lparr>vp_paymentID = paymentID, vp_reason = reason\<rparr>)))"

definition ParseCreditNoteInput :: "string \<Rightarrow> creditNoteInput result" where
  "ParseCreditNoteInput raw =
     bind_result (decodeJSONObject raw) (\<lambda>obj.
     bind_result (requiredString obj ''invoiceId'') (\<lambda>invoiceID.
       if \<not> isZodUUID invoiceID then Inl ''invoiceId must be a UUID''
       else
         bind_result (guarded (requiredSafeInteger obj ''amountMinor'') (\<lambda>n. 0 < n)
             ''amountMinor must be a positive integer'') (\<lambda>amount.
         bind_result (requiredString obj ''reason'') (\<lambda>reason.
           if utf16Length reason < 3 \<or> 500 < utf16Length reason
           then Inl ''reason must contain between 3 and 500 characters''
           else Inr \<lparr>cn_invoiceID = invoiceID, cn_amountMinor = amount, cn_reason = reason\<rparr>))))"

section \<open>The doubles\<close>

definition is_double :: "real \<Rightarrow> bool" where
  "is_double x \<longleftrightarrow> (\<exists>m e :: int. \<bar>m\<bar> < 2 ^ 53 \<and> - 1074 \<le> e \<and> x = of_int m * 2 powi e)"

definition nearest_double :: "real \<Rightarrow> real \<Rightarrow> bool" where
  "nearest_double x n \<longleftrightarrow> is_double n \<and> (\<forall>d. is_double d \<longrightarrow> \<bar>x - n\<bar> \<le> \<bar>x - d\<bar>)"

text \<open>From \<open>2 powi k\<close> on, the doubles lie on the grid of step \<open>2 powi (k - 52)\<close>.\<close>

lemma double_grid:
  assumes "is_double d" and "2 powi k \<le> d"
  obtains j :: int where "d * 2 powi (52 - k) = of_int j"
proof -
  from assms(1) obtain m e :: int where m: "\<bar>m\<bar> < 2 ^ 53" and d: "d = of_int m * 2 powi e" by (auto simp: is_double_def)
  have le: "k - 52 \<le> e"
  proof (rule ccontr)
    assume "\<not> k - 52 \<le> e"
    then have e: "e \<le> k - 53" by simp
    have "real_of_int m < 2 ^ 53" using m by (metis abs_less_iff of_int_less_iff of_int_numeral of_int_power)
    moreover have "(0::real) < 2 powi e" by simp
    ultimately have "d < 2 ^ 53 * 2 powi e" unfolding d by simp
    also have "\<dots> \<le> 2 ^ 53 * 2 powi (k - 53)" using e by (simp add: power_int_increasing)
    also have "\<dots> = 2 powi k" by (simp add: power_int_diff)
    finally show False using assms(2) by simp
  qed
  have "d * 2 powi (52 - k) = of_int m * 2 powi (e + (52 - k))" by (simp add: d power_int_add)
  also have "\<dots> = of_int (m * 2 ^ nat (e + (52 - k)))" using le by (simp add: power_int_def)
  finally show thesis by (rule that)
qed

lemma integer_is_double: "\<bar>n\<bar> < 2 ^ 53 \<Longrightarrow> is_double (of_int n)"
  unfolding is_double_def by (intro exI [of _ n] exI [of _ 0]) simp

lemma half_step: "(2::real) powi (53 - k) = 2 * 2 powi (52 - k)"
proof -
  have "(2::real) powi (1 + (52 - k)) = 2 * 2 powi (52 - k)" by (subst power_int_add) simp_all
  then show ?thesis by (simp add: algebra_simps)
qed

text \<open>An integer on the grid is nearest to every point within half a step on the inner side.\<close>

lemma grid_nearest_below:
  assumes n: "is_double n" "2 powi k \<le> n" and x: "n \<le> x" "(x - n) * 2 powi (53 - k) \<le> 1"
  shows "nearest_double x n"
  unfolding nearest_double_def
proof (intro conjI allI impI)
  fix d
  assume d: "is_double d"
  show "\<bar>x - n\<bar> \<le> \<bar>x - d\<bar>"
  proof (cases "d \<le> n")
    case False
    then have "2 powi k \<le> d" using n(2) by simp
    from double_grid [OF d this] obtain i where i: "d * 2 powi (52 - k) = of_int i" .
    from double_grid [OF n] obtain j where j: "n * 2 powi (52 - k) = of_int j" .
    have "n * 2 powi (52 - k) < d * 2 powi (52 - k)" using False by simp
    then have "j < i" unfolding i j by simp
    then have "1 \<le> of_int i - (of_int j :: real)" by (simp add: int_less_real_le)
    then have "1 \<le> (d - n) * 2 powi (52 - k)" using i j by (simp add: left_diff_distrib)
    moreover have "(x - n) * 2 * 2 powi (52 - k) = (x - n) * 2 powi (53 - k)" by (simp only: half_step mult.assoc)
    ultimately have "(x - n) * 2 * 2 powi (52 - k) \<le> (d - n) * 2 powi (52 - k)" using x(2) by linarith
    then have "(x - n) * 2 \<le> d - n" by (rule mult_right_le_imp_le) simp
    then show ?thesis using x(1) by (simp add: abs_if)
  qed (use x(1) in linarith)
qed (rule n(1))

lemma grid_nearest_above:
  assumes n: "is_double n" "2 powi k \<le> n" and x: "x \<le> n" "(n - x) * 2 powi (53 - k) \<le> 1"
    and b: "1 \<le> (n - 2 powi k) * 2 powi (52 - k)"
  shows "nearest_double x n"
  unfolding nearest_double_def
proof (intro conjI allI impI)
  fix d
  assume d: "is_double d"
  have far: "\<bar>x - n\<bar> \<le> \<bar>x - d\<bar>" if "1 \<le> (n - d) * 2 powi (52 - k)"
  proof -
    have "(n - x) * 2 * 2 powi (52 - k) = (n - x) * 2 powi (53 - k)" by (simp only: half_step mult.assoc)
    then have "(n - x) * 2 * 2 powi (52 - k) \<le> (n - d) * 2 powi (52 - k)" using x(2) that by linarith
    then have "(n - x) * 2 \<le> n - d" by (rule mult_right_le_imp_le) simp
    then show ?thesis using x(1) by (simp add: abs_if)
  qed
  consider "n \<le> d" | "d < n" "2 powi k \<le> d" | "d < 2 powi k" by linarith
  then show "\<bar>x - n\<bar> \<le> \<bar>x - d\<bar>"
  proof cases
    case 1
    then show ?thesis using x(1) by linarith
  next
    case 2
    from double_grid [OF d 2(2)] obtain i where i: "d * 2 powi (52 - k) = of_int i" .
    from double_grid [OF n] obtain j where j: "n * 2 powi (52 - k) = of_int j" .
    have "d * 2 powi (52 - k) < n * 2 powi (52 - k)" using 2(1) by simp
    then have "i < j" unfolding i j by simp
    then have "1 \<le> of_int j - (of_int i :: real)" by (simp add: int_less_real_le)
    then show ?thesis using i j by (intro far) (simp add: left_diff_distrib)
  next
    case 3
    then have "(n - 2 powi k) * 2 powi (52 - k) \<le> (n - d) * 2 powi (52 - k)" by (simp add: mult_right_mono)
    with b show ?thesis by (intro far) linarith
  qed
qed (rule n(1))

lemma zero_nearest:
  assumes "0 \<le> x" and "x * 2 powi 1075 \<le> 1"
  shows "nearest_double x 0"
  unfolding nearest_double_def
proof (intro conjI allI impI)
  show "is_double 0" using integer_is_double [of 0] by simp
  fix d
  assume "is_double d"
  then obtain m e :: int where d: "d = of_int m * 2 powi e" and e: "- 1074 \<le> e" by (auto simp: is_double_def)
  show "\<bar>x - 0\<bar> \<le> \<bar>x - d\<bar>"
  proof (cases "1 \<le> m")
    case True
    have "x * 2 * 2 powi 1074 \<le> 1" using assms(2) half_step [of "- 1022"] by (simp add: mult.assoc)
    also have "1 = (2::real) powi (- 1074) * 2 powi 1074" by (simp flip: power_int_add)
    finally have "x * 2 \<le> 2 powi (- 1074)" by (rule mult_right_le_imp_le) simp
    also have "\<dots> \<le> 2 powi e" by (rule power_int_increasing) (use e in simp_all)
    also have "\<dots> \<le> d" using True unfolding d by simp
    finally show ?thesis using assms(1) by linarith
  next
    case False
    then have "of_int m * (2::real) powi e \<le> 0" by (simp add: mult_nonpos_nonneg)
    then show ?thesis using assms(1) d by linarith
  qed
qed

lemma log2_floor_bounds: "1 \<le> n \<Longrightarrow> 2 ^ log2_floor n \<le> n \<and> n < 2 ^ Suc (log2_floor n)"
proof (induction n rule: log2_floor.induct)
  case (1 n)
  show ?case
  proof (cases "n < 2")
    case True
    with 1(2) have "n = 1" by simp
    then show ?thesis by (simp add: log2_floor.simps)
  next
    case False
    then have "2 ^ log2_floor (n div 2) \<le> n div 2 \<and> n div 2 < 2 ^ Suc (log2_floor (n div 2))" using 1 by simp
    with False show ?thesis by (subst (1 2) log2_floor.simps) auto
  qed
qed

text \<open>Soundness of the integer test: an accepted integer is a double nearest to the quotient.\<close>

lemma nearest_double_integer_sound:
  assumes "nearest_double_integer p q = Some n" and q: "0 < q" and p: "0 \<le> p"
  shows "nearest_double (of_int p / of_int q) (of_int n)" and "0 \<le> n" and "n \<le> maxSafeInteger"
proof -
  let ?f = "p div q" and ?r = "p mod q" and ?x = "of_int p / of_int q :: real"
  have x: "?x = of_int ?f + of_int ?r / of_int q"
  proof -
    have "of_int p = (of_int (q * ?f + ?r) :: real)" by simp
    also have "\<dots> = of_int q * of_int ?f + of_int ?r" by (simp only: of_int_add of_int_mult)
    finally show ?thesis using q by (simp add: add_divide_distrib)
  qed
  have r: "0 \<le> ?r" "?r < q" using q by simp_all
  have f: "?f \<le> maxSafeInteger" using assms(1) by (auto simp: nearest_double_integer_def Let_def split: if_splits)
  have f0: "0 \<le> ?f" using p q by (simp add: pos_imp_zdiv_nonneg_iff)
  have result: "nearest_double ?x (of_int n) \<and> 0 \<le> n \<and> n \<le> maxSafeInteger"
  proof (cases "?f = 0")
    case True
    then have small: "p < q" using p q by (auto simp: zdiv_eq_0_iff)
    have x0: "?x = of_int p / of_int q" by simp
    from assms(1) True consider "p * 2 ^ 1075 \<le> q" "n = 0" | "(2 ^ 54 - 1) * q \<le> p * 2 ^ 54" "n = 1"
      unfolding nearest_double_integer_def Let_def by (auto split: if_splits)
    then show ?thesis
    proof cases
      case 1
      have "?x * 2 powi 1075 = of_int p * 2 ^ 1075 / of_int q" by (simp only: power_int_numeral times_divide_eq_left)
      also have "of_int p * 2 ^ 1075 = (of_int (p * 2 ^ 1075) :: real)" by (simp only: of_int_mult of_int_power of_int_numeral)
      also have "of_int (p * 2 ^ 1075) / of_int q \<le> (1::real)" using 1(1) q by (simp only: divide_le_eq_1 of_int_le_iff of_int_0_less_iff) simp
      finally show ?thesis using zero_nearest [of ?x] p q 1(2) by (simp add: maxSafeInteger_def)
    next
      case 2
      have "is_double 1" using integer_is_double [of 1] by simp
      then have "nearest_double ?x 1"
      proof (rule grid_nearest_above [where k = "- 1"])
        show "?x \<le> 1" using small q by simp
        have "(1 - ?x) * 2 powi (53 - - 1) = (of_int (q * 2 ^ 54 - p * 2 ^ 54)) / of_int q"
          using q by (simp add: field_simps)
        also have "\<dots> \<le> 1" using 2(1) q by (simp only: divide_le_eq_1 of_int_le_iff of_int_0_less_iff) (simp add: algebra_simps)
        finally show "(1 - ?x) * 2 powi (53 - - 1) \<le> 1" .
      qed (simp_all add: power_int_def)
      with 2(2) show ?thesis by (simp add: maxSafeInteger_def)
    qed
  next
    case False
    then have f1: "1 \<le> ?f" using f0 by simp
    define k where "k = log2_floor ?f"
    have k: "2 ^ k \<le> ?f" "?f < 2 ^ Suc k" using log2_floor_bounds [OF f1] by (simp_all add: k_def)
    have bound: "?f < 2 ^ 53" using f by (simp add: maxSafeInteger_def)
    then have "(2::int) ^ k < 2 ^ 53" using k(1) by simp
    then have k52: "k \<le> 52" by (simp only: power_strict_increasing_iff one_less_numeral_iff semiring_norm)
    have kr: "2 powi int k \<le> (of_int ?f :: real)"
      using k(1) by (metis of_int_le_iff of_int_numeral of_int_power power_int_of_nat)
    have step: "2 powi (53 - int k) = (of_int (2 ^ (53 - k)) :: real)"
      using k52 by (simp add: power_int_def nat_diff_distrib)
    have step1: "1 \<le> (2::real) powi (52 - int k)" using k52 by (simp add: power_int_def)
    have below: "nearest_double ?x (of_int ?f)" if "?r * 2 ^ (53 - k) \<le> q"
    proof (rule grid_nearest_below [where k = "int k"])
      show "is_double (of_int ?f)" using bound f0 by (intro integer_is_double) simp
      show "of_int ?f \<le> ?x" unfolding x using r q by simp
      have "(?x - of_int ?f) * 2 powi (53 - int k) = of_int (?r * 2 ^ (53 - k)) / of_int q"
        unfolding x step by (simp only: add_diff_cancel_left' times_divide_eq_left of_int_mult)
      also have "\<dots> \<le> 1" using that q by (simp only: divide_le_eq_1 of_int_le_iff of_int_0_less_iff) simp
      finally show "(?x - of_int ?f) * 2 powi (53 - int k) \<le> 1" .
    qed (rule kr)
    have above: "nearest_double ?x (of_int (?f + 1))" if "(q - ?r) * 2 ^ (53 - k) \<le> q" and "?f + 1 < 2 ^ 53"
    proof (rule grid_nearest_above [where k = "int k"])
      show "is_double (of_int (?f + 1))" using that(2) f0 by (intro integer_is_double) simp
      show "2 powi int k \<le> (of_int (?f + 1) :: real)" using kr by (rule order_trans) simp
      have "of_int ?r / of_int q \<le> (1::real)" using less_imp_le [OF r(2)] q by simp
      then show "?x \<le> of_int (?f + 1)" unfolding x by simp
      have "of_int (?f + 1) - ?x = of_int (q - ?r) / of_int q" unfolding x using q by (simp add: field_simps)
      then have "(of_int (?f + 1) - ?x) * 2 powi (53 - int k) = of_int ((q - ?r) * 2 ^ (53 - k)) / of_int q"
        unfolding step by (simp only: times_divide_eq_left of_int_mult)
      also have "\<dots> \<le> 1" using that(1) q by (simp only: divide_le_eq_1 of_int_le_iff of_int_0_less_iff) simp
      finally show "(of_int (?f + 1) - ?x) * 2 powi (53 - int k) \<le> 1" .
      have "1 \<le> (of_int (?f + 1) - 2 powi int k :: real)" using kr by (simp only: of_int_add of_int_1)
      then have "1 * 1 \<le> (of_int (?f + 1) - 2 powi int k) * (2::real) powi (52 - int k)"
        using step1 by (intro mult_mono) linarith+
      then show "1 \<le> (of_int (?f + 1) - 2 powi int k) * (2::real) powi (52 - int k)" by linarith
    qed
    have half: "?r * 2 ^ (53 - k) \<le> q \<longleftrightarrow> 2 * ?r \<le> q" "(q - ?r) * 2 ^ (53 - k) \<le> q \<longleftrightarrow> q \<le> 2 * ?r" if "k = 52"
      using that by auto
    from assms(1) False f k52 consider "n = ?f" "?r * 2 ^ (53 - k) \<le> q" | "n = ?f + 1" "(q - ?r) * 2 ^ (53 - k) \<le> q" "k = 52 \<longrightarrow> n \<le> maxSafeInteger"
      unfolding nearest_double_integer_def Let_def k_def [symmetric] using half by (auto split: if_splits)
    then show ?thesis
    proof cases
      case 1
      with below f f0 show ?thesis by simp
    next
      case 2
      have "n \<le> maxSafeInteger"
      proof (cases "k = 52")
        case False
        then have "(2::int) ^ Suc k \<le> 2 ^ 52" using k52 by (intro power_increasing) simp_all
        with k(2) 2(1) show ?thesis by (simp add: maxSafeInteger_def)
      qed (use 2(3) in simp)
      with above 2 f0 show ?thesis by (simp add: maxSafeInteger_def)
    qed
  qed
  then show "nearest_double ?x (of_int n)" and "0 \<le> n" and "n \<le> maxSafeInteger" by auto
qed

section \<open>Properties of the parsers\<close>

text \<open>The value a number literal denotes.\<close>

definition literal_value :: "string \<Rightarrow> real" where
  "literal_value s =
     (case literal_parts (if take 1 s = ''-'' then drop 1 s else s) of (m, e) \<Rightarrow>
        (if take 1 s = ''-'' then - 1 else 1) * (of_int m * 10 powi e))"

lemma nearest_double_minus: "nearest_double x n \<Longrightarrow> nearest_double (- x) (- n)"
proof -
  have neg: "is_double (- d)" if "is_double d" for d
  proof -
    from that obtain m e :: int where "\<bar>m\<bar> < 2 ^ 53" "- 1074 \<le> e" "d = of_int m * 2 powi e" by (auto simp: is_double_def)
    then show ?thesis unfolding is_double_def by (intro exI [of _ "- m"] exI [of _ e]) simp
  qed
  assume n: "nearest_double x n"
  show ?thesis unfolding nearest_double_def
  proof (intro conjI allI impI)
    show "is_double (- n)" using n neg by (simp add: nearest_double_def)
    fix d
    assume "is_double d"
    then have "\<bar>x - n\<bar> \<le> \<bar>x - (- d)\<bar>" using n neg by (simp only: nearest_double_def)
    then show "\<bar>- x - - n\<bar> \<le> \<bar>- x - d\<bar>" by linarith
  qed
qed

lemma digits_value_nonneg: "list_all is_digit s \<Longrightarrow> 0 \<le> digits_value s"
proof (induction s rule: rev_induct)
  case (snoc c s)
  then have "48 \<le> (of_char c :: nat)" by (simp add: is_digit_def less_eq_char_def)
  with snoc show ?case by (simp add: digits_value_append_one)
qed (simp add: digits_value_def)

lemma literal_parts_nonneg: "literal_parts s = (m, e) \<Longrightarrow> 0 \<le> m"
  by (auto simp: literal_parts_def Let_def list_all_iff dest: set_takeWhileD intro!: digits_value_nonneg)

lemma float_integer_sound:
  assumes "float_integer s = Some v"
  shows "nearest_double (literal_value s) (of_int v) \<and> \<bar>v\<bar> \<le> maxSafeInteger"
proof -
  obtain m e where p: "literal_parts (if take 1 s = ''-'' then drop 1 s else s) = (m, e)" by fastforce
  let ?a = "if 0 \<le> e then m * 10 ^ nat e else m" and ?b = "if 0 \<le> e then 1 else 10 ^ nat (- e) :: int"
  have "float_integer s = map_option (\<lambda>n. if take 1 s = ''-'' then - n else n) (nearest_double_integer ?a ?b)"
    unfolding float_integer_def Let_def p by (cases "0 \<le> e") simp_all
  with assms have "map_option (\<lambda>n. if take 1 s = ''-'' then - n else n) (nearest_double_integer ?a ?b) = Some v" by simp
  from iffD1 [OF map_option_eq_Some this] obtain n where
    n: "nearest_double_integer ?a ?b = Some n" and v: "v = (if take 1 s = ''-'' then - n else n)" by blast
  have pos: "0 < ?b" "0 \<le> ?a" using literal_parts_nonneg [OF p] by simp_all
  have "of_int ?a / of_int ?b = (of_int m * 10 powi e :: real)"
  proof (cases "0 \<le> e")
    case True
    then show ?thesis by (simp add: power_int_def)
  next
    case False
    then obtain j where j: "e = - int j" by (metis int_nat_eq minus_equation_iff nle_le neg_0_le_iff_le)
    with False show ?thesis by (simp add: power_int_minus field_simps)
  qed
  with nearest_double_integer_sound [OF n pos] have near: "nearest_double (of_int m * 10 powi e) (of_int n)" "0 \<le> n" "n \<le> maxSafeInteger"
    by (simp_all only:)
  show ?thesis
  proof (cases "take 1 s = ''-''")
    case True
    then have "literal_value s = - (of_int m * 10 powi e)" "v = - n" using p v by (simp_all add: literal_value_def)
    with nearest_double_minus [OF near(1)] near(2,3) show ?thesis by simp
  next
    case False
    then have "literal_value s = of_int m * 10 powi e" "v = n" using p v by (simp_all add: literal_value_def)
    with near show ?thesis by simp
  qed
qed

lemma literal_parts_digits: "list_all is_digit s \<Longrightarrow> literal_parts s = (digits_value s, 0)"
proof -
  assume "list_all is_digit s"
  then have t: "takeWhile is_digit s = s" and d: "dropWhile is_digit s = []" by (simp_all add: list_all_iff)
  show ?thesis unfolding literal_parts_def Let_def t d by (simp add: exponent_value_def)
qed

lemma int64_literal_sound:
  assumes "int64_literal s = Some v"
  shows "literal_value s = of_int v"
proof -
  let ?b = "if take 1 s = ''-'' then drop 1 s else s"
  from assms have d: "list_all is_digit ?b" and v: "v = (if take 1 s = ''-'' then - digits_value ?b else digits_value ?b)"
    by (auto simp: int64_literal_def Let_def split: if_splits)
  with literal_parts_digits [OF d] show ?thesis unfolding literal_value_def by (simp split del: if_split) simp
qed



lemma requiredSafeInteger_bound:
  assumes "requiredSafeInteger obj key = Inr v"
  shows "\<bar>v\<bar> \<le> maxSafeInteger"
  using assms by (auto simp: requiredSafeInteger_def dest: float_integer_sound split: option.splits json.splits if_splits)

lemma optional_rate_decimal:
  "optional_rate obj key = Inr rate \<Longrightarrow> rate = Some s \<Longrightarrow> s \<noteq> [] \<Longrightarrow> \<exists>r. parseFXRateDecimal s = Inr r"
  by (auto simp: optional_rate_def split: if_splits sum.splits option.splits)

definition line_in_range :: "createInvoiceLine \<Rightarrow> bool" where
  "line_in_range l \<longleftrightarrow> ci_description l \<noteq> [] \<and> 0 < ci_quantity l \<and> ci_quantity l \<le> maxSafeInteger \<and>
     0 \<le> ci_unitPriceMinor l \<and> ci_unitPriceMinor l \<le> maxSafeInteger \<and>
     (\<forall>t. ci_taxMinor l = Some t \<longrightarrow> 0 \<le> t \<and> t \<le> maxSafeInteger \<and> ci_taxCodeID l = None)"

lemma parsed_line_ok:
  assumes "parse_invoice_line value = Inr l"
  shows "line_in_range l"
proof -
  from assms obtain obj tax where r: "requiredSafeInteger obj ''quantity'' = Inr (ci_quantity l)" "0 < ci_quantity l"
    "requiredSafeInteger obj ''unitPriceMinor'' = Inr (ci_unitPriceMinor l)" "0 \<le> ci_unitPriceMinor l"
    and t: "optionalSafeInteger obj ''taxMinor'' = Inr (ci_taxMinor l)" "\<forall>n. ci_taxMinor l = Some n \<longrightarrow> 0 \<le> n"
    and x: "ci_taxCodeID l = None \<or> ci_taxMinor l = None" and d: "1 \<le> utf16Length (ci_description l)"
    by (auto simp: parse_invoice_line_def split: json.splits if_splits option.splits)
  have "n \<le> maxSafeInteger" if "ci_taxMinor l = Some n" for n
  proof -
    from t(1) that have "requiredSafeInteger obj ''taxMinor'' = Inr n" by (auto simp: optionalSafeInteger_def split: if_splits)
    from requiredSafeInteger_bound [OF this] show ?thesis by simp
  qed
  moreover have "ci_description l \<noteq> []" using d by auto
  ultimately show ?thesis
    using r t(2) x requiredSafeInteger_bound [OF r(1)] requiredSafeInteger_bound [OF r(3)] by (auto simp: line_in_range_def)
qed

lemma parse_fold_ok:
  assumes "fold_result (\<lambda>lines value. bind_result (parse_invoice_line value) (\<lambda>line. Inr (lines @ [line]))) acc elems = Inr lines"
    and "\<forall>l \<in> set acc. line_in_range l"
  shows "(\<forall>l \<in> set lines. line_in_range l) \<and> length lines = length acc + length elems"
  using assms
proof (induction elems arbitrary: acc)
  case (Cons v elems)
  then obtain l where "parse_invoice_line v = Inr l"
    and "fold_result (\<lambda>lines value. bind_result (parse_invoice_line value) (\<lambda>line. Inr (lines @ [line]))) (acc @ [l]) elems = Inr lines"
    by auto
  with Cons.IH [OF this(2)] Cons.prems(2) parsed_line_ok [OF this(1)] show ?case by auto
qed auto

lemma parsed_lines_ok:
  assumes "parse_lines obj = Inr lines"
  shows "lines \<noteq> [] \<and> (\<forall>l \<in> set lines. line_in_range l)"
proof -
  from assms obtain elems where "elems \<noteq> []"
    "fold_result (\<lambda>lines value. bind_result (parse_invoice_line value) (\<lambda>line. Inr (lines @ [line]))) [] elems = Inr lines"
    by (auto simp: parse_lines_def split: option.splits json.splits if_splits)
  with parse_fold_ok [OF this(2)] show ?thesis by auto
qed

text \<open>
  What the receivables parsers let through is in range: a parsed payment has a positive
  invoice number and amount, a known method and a rate that is absent, empty or a decimal,
  and every line of a parsed invoice has a description, a positive quantity, a non-negative
  price and tax, all at most 2^53 - 1, and never both a tax code and a tax amount.
\<close>
theorem parsed_inputs_in_range:
  "(\<forall>p. ParseRecordPaymentInput raw = Inr p \<longrightarrow>
      0 < rp_invoiceNumber p \<and> rp_invoiceNumber p \<le> 9007199254740991 \<and> 0 < rp_amountMinor p \<and>
      rp_amountMinor p \<le> 9007199254740991 \<and> rp_method p \<in> {''cash'', ''bank_transfer'', ''card''} \<and>
      (\<forall>s. rp_settleFXRate p = Some s \<and> s \<noteq> [] \<longrightarrow> (\<exists>rate. parseFXRateDecimal s = Inr rate))) \<and>
   (\<forall>i. ParseCreateInvoiceInput raw = Inr i \<longrightarrow>
      isZodUUID (ci_customerID i) \<and> ci_lines i \<noteq> [] \<and>
      (\<forall>l \<in> set (ci_lines i). ci_description l \<noteq> [] \<and> 0 < ci_quantity l \<and> ci_quantity l \<le> 9007199254740991 \<and>
         0 \<le> ci_unitPriceMinor l \<and> ci_unitPriceMinor l \<le> 9007199254740991 \<and>
         (\<forall>t. ci_taxMinor l = Some t \<longrightarrow> 0 \<le> t \<and> t \<le> 9007199254740991 \<and> ci_taxCodeID l = None)))"
proof (intro conjI allI impI)
  fix p
  assume "ParseRecordPaymentInput raw = Inr p"
  then obtain obj number amount rate where o: "requiredSafeInteger obj ''invoiceNumber'' = Inr number" "0 < number"
    "requiredSafeInteger obj ''amountMinor'' = Inr amount" "0 < amount" "optional_rate obj ''settleFxRate'' = Inr rate"
    and p: "rp_invoiceNumber p = number" "rp_amountMinor p = amount" "rp_settleFXRate p = rate"
      "rp_method p \<in> {''cash'', ''bank_transfer'', ''card''}"
    by (auto simp: ParseRecordPaymentInput_def split: if_splits)
  from o p requiredSafeInteger_bound [OF o(1)] requiredSafeInteger_bound [OF o(3)]
  show "0 < rp_invoiceNumber p" "rp_invoiceNumber p \<le> 9007199254740991" "0 < rp_amountMinor p" "rp_amountMinor p \<le> 9007199254740991"
    "rp_method p \<in> {''cash'', ''bank_transfer'', ''card''}" by (simp_all add: maxSafeInteger_def)
  show "\<exists>rate. parseFXRateDecimal s = Inr rate" if "rp_settleFXRate p = Some s \<and> s \<noteq> []" for s
    using optional_rate_decimal [OF o(5)] p(3) that by simp
next
  fix i
  assume "ParseCreateInvoiceInput raw = Inr i"
  then obtain obj where "parse_lines obj = Inr (ci_lines i)" and c: "isZodUUID (ci_customerID i)"
    by (auto simp: ParseCreateInvoiceInput_def split: if_splits)
  from parsed_lines_ok [OF this(1)] c
  show "isZodUUID (ci_customerID i)" "ci_lines i \<noteq> []"
    "\<forall>l \<in> set (ci_lines i). ci_description l \<noteq> [] \<and> 0 < ci_quantity l \<and> ci_quantity l \<le> 9007199254740991 \<and>
         0 \<le> ci_unitPriceMinor l \<and> ci_unitPriceMinor l \<le> 9007199254740991 \<and>
         (\<forall>t. ci_taxMinor l = Some t \<longrightarrow> 0 \<le> t \<and> t \<le> 9007199254740991 \<and> ci_taxCodeID l = None)"
    by (simp_all add: line_in_range_def maxSafeInteger_def)
qed

theorem parsed_inputs_in_range_witness:
  "\<exists>p. ParseRecordPaymentInput ''{\"invoiceNumber\":7,\"amountMinor\":1e3}'' = Inr p \<and> rp_method p \<in> {''cash'', ''bank_transfer'', ''card''}"
proof -
  have "ParseRecordPaymentInput ''{\"invoiceNumber\":7,\"amountMinor\":1e3}'' =
    Inr \<lparr>rp_invoiceNumber = 7, rp_amountMinor = 1000, rp_method = ''bank_transfer'', rp_settleFXRate = None\<rparr>" by code_simp
  with parsed_inputs_in_range [of "''{\"invoiceNumber\":7,\"amountMinor\":1e3}''"] show ?thesis by blast
qed

end
