(* ===== verification/Reconciliation.thy ===== *)
theory Reconciliation
  imports Receivables
begin

text \<open>
  The receivables subledger against the general ledger. The invariant says that the tables
  are well formed, that the balance of the control account 1100 equals the open amounts of
  the invoices in every organization and currency, and that the paid amount of an invoice
  is the sum of its payments that have not been reversed. Every operation of the
  receivables component keeps it.
\<close>

section \<open>The invariant\<close>

definition arCode :: string where "arCode = ''1100''"

definition invoice_ok :: "invoice_row \<Rightarrow> bool" where
  "invoice_ok i \<longleftrightarrow>
     0 < inv_totalMinor i \<and> inv_totalMinor i \<le> maxDatabaseInteger \<and>
     0 \<le> inv_taxMinor i \<and> inv_subtotalMinor i + inv_taxMinor i = inv_totalMinor i \<and> 0 \<le> inv_subtotalMinor i \<and>
     0 \<le> inv_paidMinor i \<and> 0 \<le> inv_creditedMinor i \<and>
     inv_paidMinor i + inv_creditedMinor i \<le> inv_totalMinor i \<and>
     (inv_status i = ''paid'' \<longrightarrow> inv_paidMinor i + inv_creditedMinor i = inv_totalMinor i)"

text \<open>
  The entries behind a payment: its own entry carries the amount off the control account in
  the invoice's currency, or leaves that account alone when a settlement row names the
  foreign-currency entry that does.
\<close>

definition clears_invoice :: "'a receivables_scheme \<Rightarrow> payment_row \<Rightarrow> invoice_row \<Rightarrow> journal_entry \<Rightarrow> bool" where
  "clears_invoice db p i e \<longleftrightarrow>
     e \<in> set (journal_entries db) \<and> je_orgID e = pay_orgID p \<and> je_sourceType e = ''payment'' \<and>
     je_currency e = inv_currency i \<and> entry_code_net db (pay_orgID p) arCode (je_id e) = - pay_amountMinor p"

definition payment_ok :: "'a receivables_scheme \<Rightarrow> payment_row \<Rightarrow> bool" where
  "payment_ok db p \<longleftrightarrow>
     0 < pay_amountMinor p \<and>
     (\<exists>i \<in> set (invoices db). inv_id i = pay_invoiceID p \<and> inv_orgID i = pay_orgID p \<and>
       (\<exists>e \<in> set (journal_entries db). pay_entryID p = Some (je_id e) \<and> je_orgID e = pay_orgID p \<and>
          je_sourceType e = ''payment'' \<and> je_sourceID e = None \<and>
          (case find (\<lambda>s. fs_orgID s = pay_orgID p \<and> fs_paymentID s = pay_id p) (fx_settlements db) of
             None \<Rightarrow> clears_invoice db p i e
           | Some s \<Rightarrow> entry_code_net db (pay_orgID p) arCode (je_id e) = 0 \<and>
               (\<exists>f. je_id f = fs_foreignEntryID s \<and> je_sourceID f \<noteq> None \<and> clears_invoice db p i f))))"

definition numbering_ok :: "'a receivables_scheme \<Rightarrow> bool" where
  "numbering_ok db \<longleftrightarrow>
     distinct (map (\<lambda>i. (inv_orgID i, inv_number i)) (invoices db)) \<and>
     (\<forall>i \<in> set (invoices db). \<forall>n. map_of (doc_counters db) (inv_orgID i, ''invoice'') = Some n \<longrightarrow> inv_number i \<le> n)"

definition receivables_wf :: "uuid_source \<Rightarrow> 'a receivables_scheme \<Rightarrow> bool" where
  "receivables_wf gen db \<longleftrightarrow>
     books_ok gen db \<and> numbering_ok db \<and>
     distinct (map inv_id (invoices db)) \<and> (\<forall>n \<ge> uuid_draws db. gen n \<notin> inv_id ` set (invoices db)) \<and>
     (\<forall>i \<in> set (invoices db). invoice_ok i) \<and>
     distinct (map pay_id (payments db)) \<and> (\<forall>n \<ge> uuid_draws db. gen n \<notin> pay_id ` set (payments db)) \<and>
     distinct (map pay_entryID (payments db)) \<and>
     (\<forall>p \<in> set (payments db). payment_ok db p) \<and>
     (\<forall>s \<in> set (fx_settlements db). fs_paymentID s \<in> pay_id ` set (payments db)) \<and>
     (\<forall>c \<in> set (tax_codes db). tc_liabilityAccountCode c \<noteq> arCode \<and> tc_rateBasisPoints c \<le> maxDatabaseInteger) \<and>
     (\<forall>e \<in> set (journal_entries db). \<forall>r. je_reversalOfID e = Some r \<longrightarrow> r \<in> je_id ` set (journal_entries db))"

definition invoice_open :: "invoice_row \<Rightarrow> int" where
  "invoice_open i = inv_totalMinor i - inv_paidMinor i - inv_creditedMinor i"

definition open_receivables :: "'a receivables_scheme \<Rightarrow> string \<Rightarrow> string \<Rightarrow> int" where
  "open_receivables db orgID currency =
     sum_list (map invoice_open (filter (\<lambda>i. inv_orgID i = orgID \<and> inv_currency i = currency) (invoices db)))"

definition reconciled :: "'a receivables_scheme \<Rightarrow> bool" where
  "reconciled db \<longleftrightarrow> (\<forall>orgID currency. code_balance db orgID currency arCode = open_receivables db orgID currency)"

definition entry_reversed :: "'a books_scheme \<Rightarrow> string \<Rightarrow> string option \<Rightarrow> bool" where
  "entry_reversed db orgID e \<longleftrightarrow>
     e \<noteq> None \<and> list_ex (\<lambda>r. je_orgID r = orgID \<and> je_reversalOfID r = e) (journal_entries db)"

definition live_payments :: "'a receivables_scheme \<Rightarrow> invoice_row \<Rightarrow> int" where
  "live_payments db i =
     sum_list (map pay_amountMinor (filter (\<lambda>p. pay_invoiceID p = inv_id i \<and> pay_orgID p = inv_orgID i \<and>
       \<not> entry_reversed db (pay_orgID p) (pay_entryID p)) (payments db)))"

definition paid_is_live :: "'a receivables_scheme \<Rightarrow> bool" where
  "paid_is_live db \<longleftrightarrow> (\<forall>i \<in> set (invoices db). inv_paidMinor i = live_payments db i)"

definition receivables_ok :: "uuid_source \<Rightarrow> 'a receivables_scheme \<Rightarrow> bool" where
  "receivables_ok gen db \<longleftrightarrow> receivables_wf gen db \<and> reconciled db \<and> paid_is_live db"

section \<open>Posting\<close>

lemma books_ok_cong:
  assumes "books_ok gen db" and "accounts db' = accounts db" and "journal_entries db' = journal_entries db"
    and "journal_lines db' = journal_lines db" and "uuid_draws db \<le> uuid_draws db'"
  shows "books_ok gen db'"
proof -
  have "entry_debits db' = entry_debits db" "entry_credits db' = entry_credits db" "line_ok db' = line_ok db"
    using assms by (auto simp: fun_eq_iff entry_debits_def entry_credits_def line_ok_def)
  moreover have "accounts_ok gen db'" "entries_ok gen db'"
    using assms by (auto simp: books_ok_def accounts_ok_def entries_ok_def)
  ultimately show ?thesis using assms(1,3,4) by (auto simp: books_ok_def)
qed

lemma post_shape:
  assumes "books_ok gen db" and "inj gen" and "postJournalEntry gen input db = Inr (entryID, db')"
  obtains ls n where "db' = db\<lparr>journal_entries := journal_entries db @ [posted_entry entryID (entry_kind_of input) input],
      journal_lines := journal_lines db @ ls, uuid_draws := n\<rparr>"
    and "uuid_draws db \<le> n" and "books_ok gen db'" and "entryID \<notin> je_id ` set (journal_entries db)"
  using assms(3)
proof (rule post_Inr, goal_cases)
  case (1 ids)
  then show thesis using post_books_ok [OF assms] assms(1)
    by (intro that [where ls = "posted_lines gen (Suc (uuid_draws db)) entryID ids (pj_lines input)"
          and n = "Suc (uuid_draws db) + length (pj_lines input)"]) (auto simp: books_ok_def entries_ok_def)
qed

lemma clears_invoice_mono:
  assumes "clears_invoice db p i e" and "set (journal_entries db) \<subseteq> set (journal_entries db')"
    and "\<And>e. e \<in> set (journal_entries db) \<Longrightarrow>
           entry_code_net db' (pay_orgID p) arCode (je_id e) = entry_code_net db (pay_orgID p) arCode (je_id e)"
  shows "clears_invoice db' p i e"
  using assms by (auto simp: clears_invoice_def)

lemma payment_ok_mono:
  assumes ok: "payment_ok db p" and je: "set (journal_entries db) \<subseteq> set (journal_entries db')"
    and net: "\<And>e. e \<in> set (journal_entries db) \<Longrightarrow>
           entry_code_net db' (pay_orgID p) arCode (je_id e) = entry_code_net db (pay_orgID p) arCode (je_id e)"
    and inv: "\<And>i. i \<in> set (invoices db) \<Longrightarrow>
           \<exists>i' \<in> set (invoices db'). inv_id i' = inv_id i \<and> inv_orgID i' = inv_orgID i \<and> inv_currency i' = inv_currency i"
    and fs: "find (\<lambda>s. fs_orgID s = pay_orgID p \<and> fs_paymentID s = pay_id p) (fx_settlements db') =
             find (\<lambda>s. fs_orgID s = pay_orgID p \<and> fs_paymentID s = pay_id p) (fx_settlements db)"
  shows "payment_ok db' p"
proof -
  from ok obtain i e where p: "0 < pay_amountMinor p" and i: "i \<in> set (invoices db)" "inv_id i = pay_invoiceID p"
    "inv_orgID i = pay_orgID p" and e: "e \<in> set (journal_entries db)" "pay_entryID p = Some (je_id e)"
    "je_orgID e = pay_orgID p" "je_sourceType e = ''payment''" "je_sourceID e = None"
    and c: "case find (\<lambda>s. fs_orgID s = pay_orgID p \<and> fs_paymentID s = pay_id p) (fx_settlements db) of
             None \<Rightarrow> clears_invoice db p i e
           | Some s \<Rightarrow> entry_code_net db (pay_orgID p) arCode (je_id e) = 0 \<and>
               (\<exists>f. je_id f = fs_foreignEntryID s \<and> je_sourceID f \<noteq> None \<and> clears_invoice db p i f)"
    by (auto simp: payment_ok_def)
  from inv [OF i(1)] obtain i' where i': "i' \<in> set (invoices db')" "inv_id i' = inv_id i" "inv_orgID i' = inv_orgID i"
    "inv_currency i' = inv_currency i" by auto
  have cl: "clears_invoice db' p i' f" if "clears_invoice db p i f" for f
    using clears_invoice_mono [OF that je net] i'(4) by (simp add: clears_invoice_def)
  show ?thesis unfolding payment_ok_def fs using p i i' e je c cl net
    by (intro conjI bexI [of _ i'] bexI [of _ e]) (auto split: option.splits)
qed

lemma receivables_wf_parts:
  assumes "receivables_wf gen db"
  shows "books_ok gen db" and "accounts_ok gen db" and "entries_ok gen db"
  using assms by (auto simp: receivables_wf_def books_ok_def)

lemma receivables_wfD:
  assumes "receivables_wf gen db"
  shows "numbering_ok db" and "distinct (map inv_id (invoices db))" and "distinct (map pay_id (payments db))"
    and "distinct (map pay_entryID (payments db))"
    and "uuid_draws db \<le> n \<Longrightarrow> gen n \<notin> inv_id ` set (invoices db)"
    and "uuid_draws db \<le> n \<Longrightarrow> gen n \<notin> pay_id ` set (payments db)"
    and "i \<in> set (invoices db) \<Longrightarrow> invoice_ok i"
    and "p \<in> set (payments db) \<Longrightarrow> payment_ok db p"
    and "s \<in> set (fx_settlements db) \<Longrightarrow> fs_paymentID s \<in> pay_id ` set (payments db)"
    and "c \<in> set (tax_codes db) \<Longrightarrow> tc_liabilityAccountCode c \<noteq> arCode \<and> tc_rateBasisPoints c \<le> maxDatabaseInteger"
    and "e \<in> set (journal_entries db) \<Longrightarrow> je_reversalOfID e = Some r \<Longrightarrow> r \<in> je_id ` set (journal_entries db)"
  using assms unfolding receivables_wf_def by simp_all

lemma post_wf:
  assumes wf: "receivables_wf gen db" and gen: "inj gen"
    and post: "postJournalEntry gen input db = Inr (entryID, db')"
  shows "receivables_wf gen db'"
proof -
  note ok = receivables_wf_parts(1) [OF wf]
  obtain ls n where db': "db' = db\<lparr>journal_entries := journal_entries db @ [posted_entry entryID (entry_kind_of input) input],
      journal_lines := journal_lines db @ ls, uuid_draws := n\<rparr>"
    and n: "uuid_draws db \<le> n" and ok': "books_ok gen db'" and fresh: "entryID \<notin> je_id ` set (journal_entries db)"
    using ok gen post by (rule post_shape)
  have "payment_ok db' p" if "p \<in> set (payments db)" for p
  proof (rule payment_ok_mono)
    show "payment_ok db p" using wf that by (simp add: receivables_wf_def)
    show "entry_code_net db' (pay_orgID p) arCode (je_id e) = entry_code_net db (pay_orgID p) arCode (je_id e)"
      if "e \<in> set (journal_entries db)" for e
      using that fresh by (intro post_entry_code_net(2) [OF ok post]) auto
  qed (auto simp: db')
  moreover have "\<forall>r. pj_reversalOfID input = Some r \<longrightarrow> r \<in> je_id ` set (journal_entries db)"
    using post_refuses [OF post] by (auto simp: postable_def)
  ultimately show ?thesis using wf n ok' by (auto simp: receivables_wf_def numbering_ok_def db' posted_entry_def)
qed

lemma post_reversed:
  assumes "postJournalEntry gen input db = Inr (entryID, db')"
  shows "entry_reversed db' orgID e \<longleftrightarrow>
    entry_reversed db orgID e \<or> e \<noteq> None \<and> pj_orgID input = orgID \<and> pj_reversalOfID input = e"
  using assms by (rule post_Inr) (auto simp: entry_reversed_def posted_entry_def)

lemma post_frame:
  assumes "postJournalEntry gen input db = Inr (entryID, db')"
  shows "invoices db' = invoices db" and "payments db' = payments db" and "fx_settlements db' = fx_settlements db"
    and "accounts db' = accounts db" and "organizations db' = organizations db" and "tax_codes db' = tax_codes db"
    and "doc_counters db' = doc_counters db" and "invoice_lines db' = invoice_lines db"
    and "journal_entries db' = journal_entries db @ [posted_entry entryID (entry_kind_of input) input]"
  using assms by (rule post_Inr, simp)+

lemma open_receivables_frame:
  "invoices db' = invoices db \<Longrightarrow> open_receivables db' orgID currency = open_receivables db orgID currency"
  by (simp add: open_receivables_def)

section \<open>Accounts created on demand\<close>

definition uuid_supply :: "uuid_source \<Rightarrow> bool" where
  "uuid_supply gen \<longleftrightarrow> inj gen \<and> (\<forall>n. gen n \<noteq> [])"

lemma ensure_entry_code_net:
  assumes "books_ok gen db"
  shows "entry_code_net (ensureFXAccount gen orgID' code' name' type' db) orgID code e = entry_code_net db orgID code e"
proof -
  have "has_code (ensureFXAccount gen orgID' code' name' type' db) orgID code l \<longleftrightarrow> has_code db orgID code l"
    if l: "l \<in> set (journal_lines db)" for l
  proof -
    from assms l have "line_ok db l" by (simp add: books_ok_def)
    then have "jl_accountID l \<in> acc_id ` set (accounts db)" by (auto simp: line_ok_def intro: rev_image_eqI)
    with assms have "jl_accountID l \<noteq> gen (uuid_draws db)" by (auto simp: books_ok_def accounts_ok_def)
    then show ?thesis by (auto simp: has_code_def ensureFXAccount_def)
  qed
  then show ?thesis
    unfolding entry_code_net_def
    by (intro arg_cong [where f = sum_list] map_cong) (auto simp: ensureFXAccount_def)
qed

lemma ensure_books_ok:
  assumes ok: "books_ok gen db" and gen: "uuid_supply gen"
  shows "books_ok gen (ensureFXAccount gen orgID code name type db)"
proof (cases "list_ex (\<lambda>a. acc_orgID a = orgID \<and> acc_code a = code) (accounts db)")
  case True
  with ok show ?thesis by (simp add: ensureFXAccount_def)
next
  case False
  let ?db = "ensureFXAccount gen orgID code name type db"
  have "accounts_ok gen ?db"
    using ok gen False
    by (auto simp: books_ok_def accounts_ok_def ensureFXAccount_def uuid_supply_def list_ex_iff inj_eq)
  moreover have "entries_ok gen ?db" using ok by (auto simp: books_ok_def entries_ok_def ensureFXAccount_def)
  moreover have "line_ok ?db l" if "l \<in> set (journal_lines db)" for l
  proof -
    from ok that have "line_ok db l" by (simp add: books_ok_def)
    then show ?thesis by (auto simp: line_ok_def ensureFXAccount_def)
  qed
  ultimately show ?thesis using ok
    by (auto simp: books_ok_def entry_debits_def entry_credits_def ensureFXAccount_def)
qed

lemma ensure_entries [simp]:
  "journal_entries (ensureFXAccount gen orgID code name type db) = journal_entries db"
  "entry_reversed (ensureFXAccount gen orgID code name type db) orgID' e = entry_reversed db orgID' e"
  by (simp_all add: ensureFXAccount_def entry_reversed_def)

lemma ensure_frame [simp]:
  "invoices (ensureFXAccount gen orgID code name type db) = invoices db"
  "payments (ensureFXAccount gen orgID code name type db) = payments db"
  "fx_settlements (ensureFXAccount gen orgID code name type db) = fx_settlements db"
  "tax_codes (ensureFXAccount gen orgID code name type db) = tax_codes db"
  "organizations (ensureFXAccount gen orgID code name type db) = organizations db"
  "doc_counters (ensureFXAccount gen orgID code name type db) = doc_counters db"
  by (simp_all add: ensureFXAccount_def)

lemma ensure_code_balance [simp]:
  assumes "books_ok gen db"
  shows "code_balance (ensureFXAccount gen orgID' code' name type db) orgID currency code = code_balance db orgID currency code"
  by (simp add: code_balance_def ensure_entry_code_net [OF assms])

lemma ensure_wf:
  assumes wf: "receivables_wf gen db" and gen: "uuid_supply gen"
  shows "receivables_wf gen (ensureFXAccount gen orgID code name type db)"
proof -
  note ok = receivables_wf_parts(1) [OF wf]
  have "payment_ok (ensureFXAccount gen orgID code name type db) p" if "p \<in> set (payments db)" for p
  proof (rule payment_ok_mono)
    show "payment_ok db p" using wf that by (simp add: receivables_wf_def)
  qed (auto simp: ensure_entry_code_net [OF ok])
  moreover have "uuid_draws db \<le> uuid_draws (ensureFXAccount gen orgID code name type db)"
    by (simp add: ensureFXAccount_def)
  ultimately show ?thesis using wf ensure_books_ok [OF ok gen]
    unfolding receivables_wf_def numbering_ok_def by (simp; meson order_trans)
qed

section \<open>Invoice rows and payments\<close>

lemma update_invoice_frame [simp]:
  "payments (update_invoice orgID iid f db) = payments db"
  "fx_settlements (update_invoice orgID iid f db) = fx_settlements db"
  "journal_entries (update_invoice orgID iid f db) = journal_entries db"
  "tax_codes (update_invoice orgID iid f db) = tax_codes db"
  "doc_counters (update_invoice orgID iid f db) = doc_counters db"
  "uuid_draws (update_invoice orgID iid f db) = uuid_draws db"
  "entry_code_net (update_invoice orgID iid f db) o' code e = entry_code_net db o' code e"
  "code_balance (update_invoice orgID iid f db) o' c code = code_balance db o' c code"
  "entry_reversed (update_invoice orgID iid f db) o' x = entry_reversed db o' x"
  "books_ok gen (update_invoice orgID iid f db) = books_ok gen db"
  by (simp_all add: update_invoice_def entry_code_net_def has_code_def code_balance_def entry_reversed_def
      books_ok_def accounts_ok_def entries_ok_def line_ok_def entry_debits_def entry_credits_def)

definition keeps_identity :: "(invoice_row \<Rightarrow> invoice_row) \<Rightarrow> bool" where
  "keeps_identity f \<longleftrightarrow> (\<forall>i. inv_id (f i) = inv_id i \<and> inv_orgID (f i) = inv_orgID i \<and>
     inv_number (f i) = inv_number i \<and> inv_currency (f i) = inv_currency i)"

lemma update_invoice_image:
  assumes "keeps_identity f"
  shows "map inv_id (invoices (update_invoice orgID iid f db)) = map inv_id (invoices db)"
    and "map (\<lambda>i. (inv_orgID i, inv_number i)) (invoices (update_invoice orgID iid f db)) =
         map (\<lambda>i. (inv_orgID i, inv_number i)) (invoices db)"
  using assms by (auto simp: update_invoice_def keeps_identity_def)

lemma update_invoice_set:
  assumes "distinct (map inv_id (invoices db))" and "i \<in> set (invoices db)"
    and "q \<in> set (invoices (update_invoice (inv_orgID i) (inv_id i) f db))"
  shows "q = f i \<or> q \<in> set (invoices db) \<and> inv_id q \<noteq> inv_id i"
  using assms distinct_keyD [OF assms(1) _ assms(2)] by (auto simp: update_invoice_def)

lemma update_invoice_wf:
  assumes wf: "receivables_wf gen db" and i: "i \<in> set (invoices db)" and f: "keeps_identity f" and ok: "invoice_ok (f i)"
  shows "receivables_wf gen (update_invoice (inv_orgID i) (inv_id i) f db)" (is "receivables_wf gen ?db")
proof -
  from wf have d: "distinct (map inv_id (invoices db))" by (simp add: receivables_wf_def)
  note img = update_invoice_image [OF f, of "inv_orgID i" "inv_id i" db]
  have inv: "invoice_ok q" if "q \<in> set (invoices ?db)" for q
    using update_invoice_set [OF d i that] ok wf by (auto simp: receivables_wf_def)
  have ids: "inv_id ` set (invoices ?db) = inv_id ` set (invoices db)"
    using img(1) by (metis list.set_map)
  have pay: "payment_ok ?db p" if "p \<in> set (payments db)" for p
  proof (rule payment_ok_mono)
    show "payment_ok db p" using wf that by (simp add: receivables_wf_def)
    show "\<exists>q' \<in> set (invoices ?db). inv_id q' = inv_id q \<and> inv_orgID q' = inv_orgID q \<and> inv_currency q' = inv_currency q"
      if "q \<in> set (invoices db)" for q
      using that f by (auto simp: update_invoice_def keeps_identity_def)
  qed auto
  have "inv_number q \<le> n" if "q \<in> set (invoices ?db)" "map_of (doc_counters db) (inv_orgID q, ''invoice'') = Some n" for q n
    using that update_invoice_set [OF d i that(1)] f i wf
    by (auto simp: receivables_wf_def numbering_ok_def keeps_identity_def)
  then have "numbering_ok ?db" using wf unfolding receivables_wf_def numbering_ok_def img(2) by simp
  with wf d inv ids img(1) pay show ?thesis by (simp add: receivables_wf_def)
qed

lemma sum_list_update:
  fixes g :: "'a \<Rightarrow> int"
  assumes "distinct (map key xs)" and "x \<in> set xs" and "P x" and "P (f x)"
  shows "sum_list (map g (filter P (map (\<lambda>y. if key y = key x then f y else y) xs))) =
         sum_list (map g (filter P xs)) - g x + g (f x)"
  using assms
proof (induction xs)
  case (Cons y ys)
  show ?case
  proof (cases "x = y")
    case True
    with Cons.prems have "map (\<lambda>y. if key y = key x then f y else y) ys = ys"
      by (intro map_idI) (auto simp: image_iff)
    with True Cons.prems show ?thesis by simp
  next
    case False
    with Cons.prems have "key y \<noteq> key x" by (auto simp: image_iff)
    with False Cons show ?thesis by auto
  qed
qed simp

lemma update_open_receivables:
  assumes d: "distinct (map inv_id (invoices db))" and i: "i \<in> set (invoices db)" and f: "keeps_identity f"
  shows "open_receivables (update_invoice (inv_orgID i) (inv_id i) f db) orgID currency =
    open_receivables db orgID currency +
    (if orgID = inv_orgID i \<and> currency = inv_currency i then invoice_open (f i) - invoice_open i else 0)"
proof -
  have same: "inv_id y = inv_id i \<and> inv_orgID y = inv_orgID i \<longleftrightarrow> inv_id y = inv_id i" if "y \<in> set (invoices db)" for y
    using distinct_keyD [OF d that i] by auto
  have eq: "invoices (update_invoice (inv_orgID i) (inv_id i) f db) =
      map (\<lambda>y. if inv_id y = inv_id i then f y else y) (invoices db)"
    using same by (auto simp: update_invoice_def)
  show ?thesis
  proof (cases "orgID = inv_orgID i \<and> currency = inv_currency i")
    case True
    then show ?thesis
      using sum_list_update [OF d i, of "\<lambda>q. inv_orgID q = orgID \<and> inv_currency q = currency" f invoice_open] f
      by (simp add: open_receivables_def eq keeps_identity_def)
  next
    case False
    have "filter (\<lambda>q. inv_orgID q = orgID \<and> inv_currency q = currency) (map (\<lambda>y. if inv_id y = inv_id i then f y else y) xs) =
          filter (\<lambda>q. inv_orgID q = orgID \<and> inv_currency q = currency) xs" if "set xs \<subseteq> set (invoices db)" for xs
      using that False f distinct_keyD [OF d _ i] by (induction xs) (auto simp: keeps_identity_def)
    then show ?thesis using False by (auto simp: open_receivables_def eq)
  qed
qed


text \<open>
  Applying a payment: from a state whose control account already moved, the payment row,
  its settlement row if any, and the update of the invoice restore the invariant.
\<close>

definition add_payment ::
  "payment_row \<Rightarrow> fx_settlement_row list \<Rightarrow> 'a receivables_scheme \<Rightarrow> 'a receivables_scheme" where
  "add_payment p ss db = db\<lparr>uuid_draws := Suc (uuid_draws db), payments := payments db @ [p],
     fx_settlements := fx_settlements db @ ss\<rparr>"

lemma add_payment_frame [simp]:
  "invoices (add_payment p ss db) = invoices db"
  "payments (add_payment p ss db) = payments db @ [p]"
  "fx_settlements (add_payment p ss db) = fx_settlements db @ ss"
  "tax_codes (add_payment p ss db) = tax_codes db"
  "doc_counters (add_payment p ss db) = doc_counters db"
  "journal_entries (add_payment p ss db) = journal_entries db"
  "uuid_draws (add_payment p ss db) = Suc (uuid_draws db)"
  "entry_code_net (add_payment p ss db) o' code e = entry_code_net db o' code e"
  "code_balance (add_payment p ss db) o' c code = code_balance db o' c code"
  "entry_reversed (add_payment p ss db) o' x = entry_reversed db o' x"
  "open_receivables (add_payment p ss db) o' c = open_receivables db o' c"
  by (simp_all add: add_payment_def entry_code_net_def has_code_def code_balance_def entry_reversed_def open_receivables_def)

lemma add_payment_books: "books_ok gen db \<Longrightarrow> books_ok gen (add_payment p ss db)"
  by (erule books_ok_cong) (simp_all add: add_payment_def)

lemma add_payment_wf:
  assumes wf: "receivables_wf gen db" and gen: "uuid_supply gen"
    and p: "pay_id p = gen (uuid_draws db)" "pay_entryID p \<notin> pay_entryID ` set (payments db)"
      "payment_ok (add_payment p ss db) p"
    and ss: "\<forall>s \<in> set ss. fs_paymentID s = pay_id p"
  shows "receivables_wf gen (add_payment p ss db)"
proof -
  have fresh: "pay_id q \<noteq> gen (uuid_draws db)" if "q \<in> set (payments db)" for q
    using receivables_wfD(6) [OF wf, of "uuid_draws db"] that by force
  have "payment_ok (add_payment p ss db) q" if "q \<in> set (payments db)" for q
  proof (rule payment_ok_mono)
    show "payment_ok db q" using wf that by (simp add: receivables_wf_def)
    have "find (\<lambda>s. fs_orgID s = pay_orgID q \<and> fs_paymentID s = pay_id q) ss = None"
      using ss fresh [OF that] p(1) by (auto simp: find_None_iff)
    then show "find (\<lambda>s. fs_orgID s = pay_orgID q \<and> fs_paymentID s = pay_id q) (fx_settlements (add_payment p ss db)) =
               find (\<lambda>s. fs_orgID s = pay_orgID q \<and> fs_paymentID s = pay_id q) (fx_settlements db)"
      by (simp add: find_append split: option.split)
  qed auto
  then have pay: "\<forall>q \<in> set (payments db @ [p]). payment_ok (add_payment p ss db) q" using p(3) by simp
  have next_id: "gen n \<noteq> pay_id p" if "Suc (uuid_draws db) \<le> n" for n
    using gen p(1) that by (auto simp: uuid_supply_def inj_eq)
  have "books_ok gen (add_payment p ss db)" by (rule add_payment_books [OF receivables_wf_parts(1) [OF wf]])
  moreover have "numbering_ok (add_payment p ss db)" using wf by (simp add: receivables_wf_def numbering_ok_def)
  moreover have "distinct (map pay_id (payments db @ [p]))"
    using receivables_wfD(3) [OF wf] receivables_wfD(6) [OF wf, of "uuid_draws db"] p(1) by simp
  moreover have "distinct (map pay_entryID (payments db @ [p]))"
    using receivables_wfD(4) [OF wf] p(2) by simp
  moreover have "gen n \<notin> pay_id ` set (payments db @ [p])" "gen n \<notin> inv_id ` set (invoices db)"
    if "Suc (uuid_draws db) \<le> n" for n
    using receivables_wfD(5,6) [OF wf Suc_leD [OF that]] next_id [OF that] by simp_all
  moreover have "\<forall>s \<in> set (fx_settlements db @ ss). fs_paymentID s \<in> pay_id ` set (payments db @ [p])"
    using receivables_wfD(9) [OF wf] ss by auto
  ultimately show ?thesis using wf pay unfolding receivables_wf_def add_payment_frame by blast
qed

lemma live_payments_update [simp]:
  "live_payments (update_invoice orgID iid f db) i = live_payments db i"
  by (simp add: live_payments_def)

lemma live_payments_cong:
  assumes "payments db' = payments db"
    and "\<And>p. p \<in> set (payments db) \<Longrightarrow>
      entry_reversed db' (pay_orgID p) (pay_entryID p) = entry_reversed db (pay_orgID p) (pay_entryID p)"
  shows "live_payments db' i = live_payments db i"
  unfolding live_payments_def assms(1) using assms(2) by (simp cong: filter_cong)

lemma live_payments_identity:
  "keeps_identity f \<Longrightarrow> live_payments db (f i) = live_payments db i"
  by (simp add: live_payments_def keeps_identity_def)

lemma apply_payment:
  assumes wf: "receivables_wf gen db" and gen: "uuid_supply gen" and live: "paid_is_live db"
    and i: "i \<in> set (invoices db)"
    and p: "pay_id p = gen (uuid_draws db)" "pay_entryID p \<notin> pay_entryID ` set (payments db)"
      "payment_ok (add_payment p ss db) p" "pay_orgID p = inv_orgID i" "pay_invoiceID p = inv_id i"
    and ss: "\<forall>s \<in> set ss. fs_paymentID s = pay_id p"
    and unrev: "\<not> entry_reversed db (pay_orgID p) (pay_entryID p)"
    and bal: "\<And>orgID c. code_balance db orgID c arCode = open_receivables db orgID c -
       (if orgID = inv_orgID i \<and> c = inv_currency i then pay_amountMinor p else 0)"
    and fits: "inv_paidMinor i + pay_amountMinor p + inv_creditedMinor i \<le> inv_totalMinor i"
      "full \<Longrightarrow> inv_totalMinor i \<le> inv_paidMinor i + pay_amountMinor p + inv_creditedMinor i"
  shows "receivables_ok gen (update_invoice (inv_orgID i) (inv_id i) (mark_paid (inv_paidMinor i + pay_amountMinor p) full)
           (add_payment p ss db))" (is "receivables_ok gen (update_invoice _ _ ?f ?db)")
proof -
  have f: "keeps_identity ?f" by (simp add: keeps_identity_def mark_paid_def)
  have amount: "0 < pay_amountMinor p" using p(3) by (simp add: payment_ok_def)
  have wf1: "receivables_wf gen ?db" using wf gen p(1-3) ss by (rule add_payment_wf)
  have i1: "i \<in> set (invoices ?db)" using i by simp
  have iok: "invoice_ok i" using wf i by (rule receivables_wfD)
  then have "invoice_ok (?f i)" using fits amount by (auto simp: invoice_ok_def mark_paid_def)
  then have wf2: "receivables_wf gen (update_invoice (inv_orgID i) (inv_id i) ?f ?db)"
    by (rule update_invoice_wf [OF wf1 i1 f])
  have "reconciled (update_invoice (inv_orgID i) (inv_id i) ?f ?db)"
    unfolding reconciled_def update_open_receivables [OF receivables_wfD(2) [OF wf1] i1 f]
    by (simp add: bal invoice_open_def mark_paid_def)
  moreover have "paid_is_live (update_invoice (inv_orgID i) (inv_id i) ?f ?db)"
    unfolding paid_is_live_def
  proof
    fix q assume q: "q \<in> set (invoices (update_invoice (inv_orgID i) (inv_id i) ?f ?db))"
    have add: "live_payments ?db j = live_payments db j + (if inv_id j = inv_id i \<and> inv_orgID j = inv_orgID i then pay_amountMinor p else 0)"
      for j using p(4,5) unrev by (simp add: live_payments_def)
    have "inv_paidMinor i = live_payments db i" using live i by (simp add: paid_is_live_def)
    then have "inv_paidMinor (?f i) = live_payments ?db (?f i)"
      unfolding live_payments_identity [OF f] add by (simp add: mark_paid_def)
    moreover have "inv_paidMinor j = live_payments ?db j" if "j \<in> set (invoices db)" "inv_id j \<noteq> inv_id i" for j
      using live that by (simp add: add paid_is_live_def)
    ultimately show "inv_paidMinor q = live_payments (update_invoice (inv_orgID i) (inv_id i) ?f ?db) q"
      using update_invoice_set [OF receivables_wfD(2) [OF wf1] i1 q] by auto
  qed
  ultimately show ?thesis using wf2 by (simp add: receivables_ok_def)
qed

section \<open>Recording a payment\<close>

lemma input_code_net_simps [simp]:
  "input_code_net code [] = 0"
  "input_code_net code (line # lines) =
     (if pl_accountCode line = code then pl_debitMinor line - pl_creditMinor line else 0) + input_code_net code lines"
  "input_code_net code (xs @ ys) = input_code_net code xs + input_code_net code ys"
  by (simp_all add: input_code_net_def)

lemma line_simps [simp]:
  "pl_accountCode (debit_line code n) = code" "pl_debitMinor (debit_line code n) = n" "pl_creditMinor (debit_line code n) = 0"
  "pl_accountCode (credit_line code n) = code" "pl_debitMinor (credit_line code n) = 0" "pl_creditMinor (credit_line code n) = n"
  by (simp_all add: debit_line_def credit_line_def)

lemma operational_posting_simps [simp]:
  "pj_orgID (operational_posting claims memo st sid r cur now lines) = OrganizationID claims"
  "pj_sourceType (operational_posting claims memo st sid r cur now lines) = st"
  "pj_sourceID (operational_posting claims memo st sid r cur now lines) = sid"
  "pj_reversalOfID (operational_posting claims memo st sid r cur now lines) = r"
  "pj_currency (operational_posting claims memo st sid r cur now lines) = cur"
  "pj_lines (operational_posting claims memo st sid r cur now lines) = lines"
  by (simp_all add: operational_posting_def)

lemma posted_entry_simps [simp]:
  "je_id (posted_entry eid kind input) = eid" "je_orgID (posted_entry eid kind input) = pj_orgID input"
  "je_sourceType (posted_entry eid kind input) = pj_sourceType input"
  "je_sourceID (posted_entry eid kind input) = pj_sourceID input"
  "je_reversalOfID (posted_entry eid kind input) = pj_reversalOfID input"
  "je_currency (posted_entry eid kind input) = pj_currency input"
  by (simp_all add: posted_entry_def)

lemma post_positive:
  assumes "postJournalEntry gen input db = Inr (eid, db')"
  shows "debit_line code n \<in> set (pj_lines input) \<Longrightarrow> 0 < n" and "credit_line code n \<in> set (pj_lines input) \<Longrightarrow> 0 < n"
proof -
  from post_refuses [OF assms] have v: "\<forall>line \<in> set (pj_lines input). valid_line line" by (simp add: postable_def)
  show "debit_line code n \<in> set (pj_lines input) \<Longrightarrow> 0 < n" using v by (fastforce simp: valid_line_def)
  show "credit_line code n \<in> set (pj_lines input) \<Longrightarrow> 0 < n" using v by (fastforce simp: valid_line_def)
qed

lemma payment_entry_known:
  "payment_ok db p \<Longrightarrow> \<exists>e \<in> set (journal_entries db). pay_entryID p = Some (je_id e)"
  by (auto simp: payment_ok_def)

lemma fresh_entry:
  assumes wf: "receivables_wf gen db" and gen: "inj gen" and post: "postJournalEntry gen input db = Inr (eid, db')"
  shows "Some eid \<notin> pay_entryID ` set (payments db)"
    and "pj_reversalOfID input = None \<Longrightarrow> \<not> entry_reversed db' orgID (Some eid)"
proof -
  have fresh: "eid \<notin> je_id ` set (journal_entries db)"
    using receivables_wf_parts(1) [OF wf] gen post by (rule post_shape)
  show "Some eid \<notin> pay_entryID ` set (payments db)"
    using payment_entry_known [OF receivables_wfD(8) [OF wf]] fresh by fastforce
  show "\<not> entry_reversed db' orgID (Some eid)" if "pj_reversalOfID input = None"
  proof -
    have "je_reversalOfID e \<noteq> Some eid" if "e \<in> set (journal_entries db)" for e
      using receivables_wfD(11) [OF wf that] fresh by auto
    with that show ?thesis unfolding post_reversed [OF post] by (auto simp: entry_reversed_def list_ex_iff)
  qed
qed

lemma new_settlement_unknown:
  assumes "receivables_wf gen db"
  shows "find (\<lambda>s. fs_orgID s = orgID \<and> fs_paymentID s = gen (uuid_draws db)) (fx_settlements db) = None"
proof -
  have "fs_paymentID s \<noteq> gen (uuid_draws db)" if "s \<in> set (fx_settlements db)" for s
    using receivables_wfD(9) [OF assms that] receivables_wfD(6) [OF assms, of "uuid_draws db"] by auto
  then show ?thesis by (auto simp: find_None_iff)
qed

lemma live_payments_post:
  assumes "postJournalEntry gen input db = Inr (eid, db')"
    and "\<And>p. p \<in> set (payments db) \<Longrightarrow> pj_reversalOfID input = None \<or> pj_reversalOfID input \<noteq> pay_entryID p"
  shows "live_payments db' i = live_payments db i"
proof (rule live_payments_cong)
  show "entry_reversed db' (pay_orgID p) (pay_entryID p) = entry_reversed db (pay_orgID p) (pay_entryID p)"
    if "p \<in> set (payments db)" for p
    using assms(2) [OF that] unfolding post_reversed [OF assms(1)] by auto
qed (rule post_frame [OF assms(1)])

lemma recordPayment_Inr:
  assumes rp: "recordPayment gen claims input now db = Inr (out, db')" and wf: "receivables_wf gen db"
  obtains i baseCurrency where "i \<in> set (invoices db)" and "inv_orgID i = OrganizationID claims"
    and "inv_number i = rp_invoiceNumber input" and "rp_amountMinor input \<le> invoice_open i"
    and "inv_status i \<noteq> ''void''" and "map_of (organizations db) (OrganizationID claims) = Some baseCurrency"
    and "(if inv_currency i = baseCurrency then
             bind_result (postJournalEntry gen (operational_posting claims
                 (''Payment for invoice '' @ show_int (inv_number i) @ '' ('' @ rp_method input @ '')'')
                 ''payment'' None None baseCurrency now
                 [debit_line ''1000'' (rp_amountMinor input), credit_line ''1100'' (rp_amountMinor input)]) db)
               (\<lambda>(entryID, db1). Inr (finishPayment gen (OrganizationID claims) i input now entryID db1))
           else record_fx_payment gen claims input now i baseCurrency db) = Inr (out, db')"
proof -
  from rp obtain i where f: "find (\<lambda>i. inv_orgID i = OrganizationID claims \<and> inv_number i = rp_invoiceNumber input) (invoices db) = Some i"
    by (auto simp: recordPayment_def split: if_splits option.splits)
  then have i: "i \<in> set (invoices db)" "inv_orgID i = OrganizationID claims" "inv_number i = rp_invoiceNumber input"
    by (auto simp: find_Some_iff)
  from receivables_wfD(7) [OF wf i(1)] have "invoice_ok i" .
  then have a: "i64 (inv_paidMinor i + inv_creditedMinor i) = inv_paidMinor i + inv_creditedMinor i"
    by (intro i64_id) (auto simp: invoice_ok_def in_i64_def int_limits)
  from \<open>invoice_ok i\<close> have m: "max 0 (inv_totalMinor i - (inv_paidMinor i + inv_creditedMinor i)) = invoice_open i"
    by (simp add: invoice_ok_def invoice_open_def)
  from rp obtain baseCurrency where o: "map_of (organizations db) (OrganizationID claims) = Some baseCurrency"
    by (auto simp: recordPayment_def f a m Let_def split: if_splits option.splits)
  from rp have "rp_amountMinor input \<le> invoice_open i" "inv_status i \<noteq> ''void''"
    by (auto simp: recordPayment_def f a m Let_def split: if_splits)
  with rp i o that [OF i _ _ o] show thesis
    by (simp add: recordPayment_def f a m Let_def split: if_split_asm)
qed

lemma insert_payment_add:
  "insert_payment gen orgID iid input now eid db =
    (gen (uuid_draws db), add_payment \<lparr>pay_id = gen (uuid_draws db), pay_orgID = orgID, pay_invoiceID = iid,
       pay_amountMinor = rp_amountMinor input, pay_method = rp_method input, pay_entryID = Some eid, pay_receivedAt = now\<rparr> [] db)"
  by (simp add: insert_payment_def add_payment_def)

lemma base_payment_ok:
  assumes ok: "receivables_ok gen db" and gen: "uuid_supply gen" and i: "i \<in> set (invoices db)"
    "inv_orgID i = OrganizationID claims" "rp_amountMinor input \<le> invoice_open i"
    and post: "postJournalEntry gen (operational_posting claims memo ''payment'' None None (inv_currency i) now
         [debit_line ''1000'' (rp_amountMinor input), credit_line ''1100'' (rp_amountMinor input)]) db = Inr (eid, db1)"
  shows "receivables_ok gen (snd (finishPayment gen (OrganizationID claims) i input now eid db1))"
proof -
  from ok have wf: "receivables_wf gen db" and rec: "reconciled db" and live: "paid_is_live db"
    by (auto simp: receivables_ok_def)
  from gen have inj: "inj gen" by (simp add: uuid_supply_def)
  note bok = receivables_wf_parts(1) [OF wf]
  note fr = post_frame [OF post]
  have wf1: "receivables_wf gen db1" using wf inj post by (rule post_wf)
  let ?p = "\<lparr>pay_id = gen (uuid_draws db1), pay_orgID = OrganizationID claims, pay_invoiceID = inv_id i,
       pay_amountMinor = rp_amountMinor input, pay_method = rp_method input, pay_entryID = Some eid, pay_receivedAt = now\<rparr>"
  have net: "entry_code_net db1 (OrganizationID claims) arCode eid = - rp_amountMinor input"
    using post_entry_code_net(1) [OF bok post, of arCode] by (simp add: arCode_def)
  have amount: "0 < rp_amountMinor input" using post_positive(1) [OF post] by auto
  have pok: "payment_ok (add_payment ?p [] db1) ?p"
    unfolding payment_ok_def using amount i net new_settlement_unknown [OF wf1]
    by (auto simp: fr clears_invoice_def intro!: bexI [of _ i])
  have bal: "code_balance db1 orgID c arCode = open_receivables db1 orgID c -
       (if orgID = inv_orgID i \<and> c = inv_currency i then pay_amountMinor ?p else 0)" for orgID c
    using rec i(2) post_code_balance [OF bok post, of orgID c arCode]
    by (auto simp: reconciled_def open_receivables_frame [OF fr(1)] arCode_def)
  have live1: "paid_is_live db1"
    using live live_payments_post [OF post] by (simp add: paid_is_live_def fr)
  have "receivables_ok gen (update_invoice (inv_orgID i) (inv_id i)
      (mark_paid (inv_paidMinor i + pay_amountMinor ?p) (inv_totalMinor i \<le> inv_paidMinor i + rp_amountMinor input + inv_creditedMinor i))
      (add_payment ?p [] db1))"
    using fresh_entry [OF wf inj post] i
    by (intro apply_payment [OF wf1 gen live1 _ _ _ pok _ _ _ _ bal]) (auto simp: fr invoice_open_def)
  then show ?thesis by (simp add: finishPayment_def insert_payment_add Let_def i(2))
qed

lemma fx_base_lines_ar: "input_code_net arCode (fx_base_lines cash booked) = 0"
  by (simp add: fx_base_lines_def arCode_def fxClearingAccountCode_def realizedFXAccountCode_def)

lemma fx_clearing_lines_ar: "input_code_net arCode [debit_line fxClearingAccountCode n, credit_line ''1100'' n] = - n"
  by (simp add: arCode_def fxClearingAccountCode_def)

lemma record_fx_Inr:
  assumes "record_fx_payment gen claims input now i baseCurrency db = Inr (out, db')"
  obtains rate cash booked where "post_fx_payment gen claims input now i baseCurrency rate cash booked db = Inr (out, db')"
  using assms by (auto simp: record_fx_payment_def split: option.splits if_split_asm)

lemma fx_payment_Inr:
  assumes "post_fx_payment gen claims input now i baseCurrency rate cash booked db = Inr (out, db')"
  obtains glType baseMemo baseID db3 memo foreignID db4 s where
    "postJournalEntry gen (operational_posting claims baseMemo ''payment'' None None baseCurrency now
       (fx_base_lines cash booked))
       (ensureFXAccount gen (OrganizationID claims) realizedFXAccountCode ''Realized FX Gain/Loss'' glType
         (ensureFXAccount gen (OrganizationID claims) fxClearingAccountCode ''FX Clearing'' ''asset'' db)) = Inr (baseID, db3)"
    and "postJournalEntry gen (operational_posting claims memo ''payment'' (Some (inv_id i)) None (inv_currency i) now
       [debit_line fxClearingAccountCode (rp_amountMinor input), credit_line ''1100'' (rp_amountMinor input)]) db3
       = Inr (foreignID, db4)"
    and "fs_orgID s = OrganizationID claims" and "fs_paymentID s = gen (uuid_draws db4)" and "fs_foreignEntryID s = foreignID"
    and "db' = update_invoice (OrganizationID claims) (inv_id i)
       (mark_paid (inv_paidMinor i + rp_amountMinor input) (inv_totalMinor i \<le> inv_paidMinor i + rp_amountMinor input))
       (add_payment \<lparr>pay_id = gen (uuid_draws db4), pay_orgID = OrganizationID claims, pay_invoiceID = inv_id i,
          pay_amountMinor = rp_amountMinor input, pay_method = rp_method input, pay_entryID = Some baseID,
          pay_receivedAt = now\<rparr> [s] db4)"
    and "ro_paymentID out = gen (uuid_draws db4)" and "ro_fullyPaid out = (inv_totalMinor i \<le> inv_paidMinor i + rp_amountMinor input)"
proof -
  let ?org = "OrganizationID claims" and ?amount = "rp_amountMinor input"
  let ?gl = "if cash - booked < 0 then ''expense'' else ''income''"
  from assms obtain baseID db3 foreignID db4 where
    p1: "postJournalEntry gen (operational_posting claims (settlement_memo i ?amount rate) ''payment'' None None baseCurrency now
       (fx_base_lines cash booked)) (ensureFXAccount gen ?org realizedFXAccountCode ''Realized FX Gain/Loss'' ?gl
         (ensureFXAccount gen ?org fxClearingAccountCode ''FX Clearing'' ''asset'' db)) = Inr (baseID, db3)"
    and p2: "postJournalEntry gen (operational_posting claims (clearing_memo i) ''payment'' (Some (inv_id i)) None (inv_currency i) now
       [debit_line fxClearingAccountCode ?amount, credit_line ''1100'' ?amount]) db3 = Inr (foreignID, db4)"
    and res: "db' = update_invoice ?org (inv_id i)
       (mark_paid (inv_paidMinor i + ?amount) (inv_totalMinor i \<le> inv_paidMinor i + ?amount))
       (add_payment \<lparr>pay_id = gen (uuid_draws db4), pay_orgID = ?org, pay_invoiceID = inv_id i,
          pay_amountMinor = ?amount, pay_method = rp_method input, pay_entryID = Some baseID,
          pay_receivedAt = now\<rparr> [\<lparr>fs_orgID = ?org, fs_paymentID = gen (uuid_draws db4),
               fs_invoiceID = inv_id i, fs_currency = inv_currency i, fs_settledForeignMinor = ?amount,
               fs_baseSettledMinor = cash, fs_gainLossMinor = cash - booked, fs_settleRateNum = Num rate,
               fs_settleRateDen = Den rate, fs_baseEntryID = baseID, fs_foreignEntryID = foreignID\<rparr>] db4)"
    and o: "ro_paymentID out = gen (uuid_draws db4)" "ro_fullyPaid out = (inv_totalMinor i \<le> inv_paidMinor i + ?amount)"
    unfolding post_fx_payment_def Let_def insert_payment_def add_payment_def
    by (elim bind_result_InrE) (auto split: prod.splits)
  show thesis by (rule that [OF p1 p2 _ _ _ res o]) simp_all
qed

lemma fx_payment_ok:
  fixes db :: "'a receivables_scheme"
  assumes ok: "receivables_ok gen db" and gen: "uuid_supply gen" and i: "i \<in> set (invoices db)"
    "inv_orgID i = OrganizationID claims" "rp_amountMinor input \<le> invoice_open i"
    and fx: "post_fx_payment gen claims input now i baseCurrency rate cash booked db = Inr (out, db')"
  shows "receivables_ok gen db'"
  using fx
proof (rule fx_payment_Inr)
  fix glType baseMemo baseID memo foreignID s and db3 db4 :: "'a receivables_scheme"
  let ?org = "OrganizationID claims" and ?amount = "rp_amountMinor input"
  let ?db1 = "ensureFXAccount gen ?org fxClearingAccountCode ''FX Clearing'' ''asset'' db"
  let ?db2 = "ensureFXAccount gen ?org realizedFXAccountCode ''Realized FX Gain/Loss'' glType ?db1"
  let ?p = "\<lparr>pay_id = gen (uuid_draws db4), pay_orgID = ?org, pay_invoiceID = inv_id i,
     pay_amountMinor = ?amount, pay_method = rp_method input, pay_entryID = Some baseID, pay_receivedAt = now\<rparr>"
  assume p1: "postJournalEntry gen (operational_posting claims baseMemo ''payment'' None None baseCurrency now
       (fx_base_lines cash booked)) ?db2 = Inr (baseID, db3)"
    and p2: "postJournalEntry gen (operational_posting claims memo ''payment'' (Some (inv_id i)) None (inv_currency i) now
       [debit_line fxClearingAccountCode ?amount, credit_line ''1100'' ?amount]) db3 = Inr (foreignID, db4)"
    and s: "fs_orgID s = ?org" "fs_paymentID s = gen (uuid_draws db4)" "fs_foreignEntryID s = foreignID"
    and db': "db' = update_invoice ?org (inv_id i)
       (mark_paid (inv_paidMinor i + ?amount) (inv_totalMinor i \<le> inv_paidMinor i + ?amount)) (add_payment ?p [s] db4)"
  from ok have wf: "receivables_wf gen db" and rec: "reconciled db" and live: "paid_is_live db"
    by (auto simp: receivables_ok_def)
  from gen have inj: "inj gen" by (simp add: uuid_supply_def)
  have wf1: "receivables_wf gen ?db1" using wf gen by (rule ensure_wf)
  have wf2: "receivables_wf gen ?db2" using wf1 gen by (rule ensure_wf)
  have wf3: "receivables_wf gen db3" using wf2 inj p1 by (rule post_wf)
  have wf4: "receivables_wf gen db4" using wf3 inj p2 by (rule post_wf)
  note b0 = receivables_wf_parts(1) [OF wf] and b1 = receivables_wf_parts(1) [OF wf1]
    and b2 = receivables_wf_parts(1) [OF wf2] and b3 = receivables_wf_parts(1) [OF wf3]
  note f3 = post_frame [OF p1] and f4 = post_frame [OF p2]
  have ne: "baseID \<noteq> foreignID"
    using post_shape [OF b3 inj p2] f3 by auto
  have net_base: "entry_code_net db4 ?org arCode baseID = 0"
    using post_entry_code_net(2) [OF b3 p2 ne] post_entry_code_net(1) [OF b2 p1, of arCode] by (simp add: fx_base_lines_ar)
  have net_foreign: "entry_code_net db4 ?org arCode foreignID = - ?amount"
    using post_entry_code_net(1) [OF b3 p2, of arCode] by (simp add: arCode_def fxClearingAccountCode_def)
  have amount: "0 < ?amount" using post_positive(2) [OF p2] by auto
  obtain e f where e: "e \<in> set (journal_entries db4)" "je_id e = baseID" "je_orgID e = ?org"
      "je_sourceType e = ''payment''" "je_sourceID e = None"
    and f: "f \<in> set (journal_entries db4)" "je_id f = foreignID" "je_orgID f = ?org"
      "je_sourceType f = ''payment''" "je_sourceID f \<noteq> None" "je_currency f = inv_currency i"
    by (rule that [of "last (journal_entries db3)" "last (journal_entries db4)"]) (simp_all add: f3 f4)
  have "find (\<lambda>x. fs_orgID x = ?org \<and> fs_paymentID x = gen (uuid_draws db4)) (fx_settlements db4 @ [s]) = Some s"
    using new_settlement_unknown [OF wf4, of ?org] s by (simp add: find_append)
  moreover have "clears_invoice (add_payment ?p [s] db4) ?p i f"
    using f net_foreign by (simp add: clears_invoice_def)
  ultimately have pok: "payment_ok (add_payment ?p [s] db4) ?p"
    unfolding payment_ok_def using amount i e f net_base s
    by (auto simp: f3 f4 intro!: bexI [of _ i] bexI [of _ e] exI [of _ f])
  have bal: "code_balance db4 orgID c arCode = open_receivables db4 orgID c -
       (if orgID = inv_orgID i \<and> c = inv_currency i then pay_amountMinor ?p else 0)" for orgID c
    using rec i(2) post_code_balance [OF b3 p2, of orgID c arCode] post_code_balance [OF b2 p1, of orgID c arCode]
    unfolding operational_posting_simps fx_clearing_lines_ar fx_base_lines_ar ensure_code_balance [OF b1] ensure_code_balance [OF b0]
    by (auto simp: reconciled_def open_receivables_def f3 f4)
  have "live_payments db4 j = live_payments db j" for j
    using live_payments_post [OF p2, of j] live_payments_post [OF p1, of j] by (simp add: live_payments_def)
  with live have live4: "paid_is_live db4" by (simp add: paid_is_live_def f3 f4)
  have "\<not> entry_reversed db4 ?org (Some baseID)"
    using fresh_entry(2) [OF wf2 inj p1, of ?org] by (simp add: post_reversed [OF p2])
  then have "receivables_ok gen (update_invoice (inv_orgID i) (inv_id i)
      (mark_paid (inv_paidMinor i + pay_amountMinor ?p) (inv_totalMinor i \<le> inv_paidMinor i + ?amount)) (add_payment ?p [s] db4))"
    using fresh_entry(1) [OF wf2 inj p1] i s receivables_wfD(7) [OF wf i(1)]
    by (intro apply_payment [OF wf4 gen live4 _ _ _ pok _ _ _ _ bal]) (auto simp: f3 f4 invoice_open_def invoice_ok_def)
  then show ?thesis by (simp add: db' i(2))
qed

lemma record_payment_keeps_ok [inv_intros]:
  assumes ok: "receivables_ok gen db" and gen: "uuid_supply gen"
    and rp: "recordPayment gen claims input now db = Inr (out, db')"
  shows "receivables_ok gen db'"
proof -
  from ok have wf: "receivables_wf gen db" by (simp add: receivables_ok_def)
  obtain i baseCurrency where i: "i \<in> set (invoices db)" "inv_orgID i = OrganizationID claims"
    and amount: "rp_amountMinor input \<le> invoice_open i"
    and run: "(if inv_currency i = baseCurrency then
             bind_result (postJournalEntry gen (operational_posting claims
                 (''Payment for invoice '' @ show_int (inv_number i) @ '' ('' @ rp_method input @ '')'')
                 ''payment'' None None baseCurrency now
                 [debit_line ''1000'' (rp_amountMinor input), credit_line ''1100'' (rp_amountMinor input)]) db)
               (\<lambda>(entryID, db1). Inr (finishPayment gen (OrganizationID claims) i input now entryID db1))
           else record_fx_payment gen claims input now i baseCurrency db) = Inr (out, db')"
    using rp wf by (rule recordPayment_Inr)
  show ?thesis
  proof (cases "inv_currency i = baseCurrency")
    case True
    with run obtain eid db1 where
      "postJournalEntry gen (operational_posting claims
         (''Payment for invoice '' @ show_int (inv_number i) @ '' ('' @ rp_method input @ '')'')
         ''payment'' None None (inv_currency i) now
         [debit_line ''1000'' (rp_amountMinor input), credit_line ''1100'' (rp_amountMinor input)]) db = Inr (eid, db1)"
      and fin: "finishPayment gen (OrganizationID claims) i input now eid db1 = (out, db')" by auto
    from base_payment_ok [OF ok gen i amount this(1)] fin show ?thesis by simp
  next
    case False
    with run have "record_fx_payment gen claims input now i baseCurrency db = Inr (out, db')" by simp
    then show ?thesis by (rule record_fx_Inr) (rule fx_payment_ok [OF ok gen i amount])
  qed
qed

section \<open>Credit notes\<close>

lemma credit_note_lines_ar: "input_code_net arCode (credit_note_lines amount t tax) = - amount"
  by (simp add: credit_note_lines_def arCode_def Let_def)

lemma credit_note_reversal_source:
  assumes "credit_note_reversal_of orgID iid db = Some r"
  obtains e where "e \<in> set (journal_entries db)" and "je_id e = r" and "je_sourceType e = ''invoice''"
proof -
  from assms obtain e where f: "find (\<lambda>e. je_orgID e = orgID \<and> je_sourceType e = ''invoice'' \<and> je_sourceID e = Some iid)
      (journal_entries db) = Some e" and "r = je_id e"
    by (auto simp: credit_note_reversal_of_def split: option.splits if_splits)
  with that [of e] find_Some_iff [THEN iffD1, OF f] show thesis by auto
qed

lemma credit_note_not_payment:
  assumes wf: "receivables_wf gen db" and p: "p \<in> set (payments db)"
  shows "credit_note_reversal_of orgID iid db = None \<or> credit_note_reversal_of orgID iid db \<noteq> pay_entryID p"
proof (rule ccontr)
  assume "\<not> ?thesis"
  then obtain r where r: "credit_note_reversal_of orgID iid db = Some r" "pay_entryID p = Some r" by (metis option.exhaust)
  from r(1) obtain e where e: "e \<in> set (journal_entries db)" "je_id e = r" "je_sourceType e = ''invoice''"
    by (rule credit_note_reversal_source)
  from receivables_wfD(8) [OF wf p] r(2) obtain q where q: "q \<in> set (journal_entries db)" "je_id q = r"
    "je_sourceType q = ''payment''" by (auto simp: payment_ok_def)
  have "distinct (map je_id (journal_entries db))" using receivables_wf_parts(3) [OF wf] by (simp add: entries_ok_def)
  from distinct_keyD [OF this e(1) q(1)] e q show False by simp
qed

lemma creditNote_Inr:
  assumes "executeCreditNote gen claims input now db = Inr (out, db')"
  obtains i memo eid db1 where "i \<in> set (invoices db)" and "inv_id i = cn_invoiceID input"
    and "inv_orgID i = OrganizationID claims" and "cn_amountMinor input \<le> invoice_open i" and "inv_status i \<noteq> ''void''"
    and "postJournalEntry gen (operational_posting claims memo ''invoice_credit_note'' (Some (inv_id i))
           (credit_note_reversal_of (OrganizationID claims) (inv_id i) db) (inv_currency i) now
           (credit_note_lines (cn_amountMinor input) (inv_totalMinor i) (inv_taxMinor i))) db = Inr (eid, db1)"
    and "db' = update_invoice (inv_orgID i) (inv_id i)
           (\<lambda>q. q\<lparr>inv_creditedMinor := inv_creditedMinor i + cn_amountMinor input\<rparr>) db1"
proof -
  from assms obtain i where f: "find (\<lambda>i. inv_id i = cn_invoiceID input \<and> inv_orgID i = OrganizationID claims) (invoices db) = Some i"
    by (auto simp: executeCreditNote_def Let_def split: option.splits)
  then have i: "i \<in> set (invoices db)" "inv_id i = cn_invoiceID input" "inv_orgID i = OrganizationID claims"
    by (auto simp: find_Some_iff)
  from assms obtain eid db1 where
    p: "postJournalEntry gen (operational_posting claims
          (''Credit note on invoice '' @ show_int (inv_number i) @ '': '' @ cn_reason input) ''invoice_credit_note'' (Some (inv_id i))
          (credit_note_reversal_of (OrganizationID claims) (inv_id i) db) (inv_currency i) now
          (credit_note_lines (cn_amountMinor input) (inv_totalMinor i) (inv_taxMinor i))) db = Inr (eid, db1)"
    and u: "db' = update_invoice (OrganizationID claims) (inv_id i)
          (\<lambda>q. q\<lparr>inv_creditedMinor := inv_creditedMinor i + cn_amountMinor input\<rparr>) db1"
    and "cn_amountMinor input \<le> invoice_open i" "inv_status i \<noteq> ''void''"
    unfolding executeCreditNote_def f Let_def by (auto simp: invoice_open_def split: if_split_asm)
  with that [OF i] i(3) show thesis by simp
qed

lemma credit_note_keeps_ok [inv_intros]:
  assumes ok: "receivables_ok gen db" and gen: "uuid_supply gen"
    and cn: "executeCreditNote gen claims input now db = Inr (out, db')"
  shows "receivables_ok gen db'"
proof -
  from ok have wf: "receivables_wf gen db" and rec: "reconciled db" and live: "paid_is_live db"
    by (auto simp: receivables_ok_def)
  from gen have inj: "inj gen" by (simp add: uuid_supply_def)
  obtain i memo eid db1 where i: "i \<in> set (invoices db)" "inv_orgID i = OrganizationID claims"
    and amount: "cn_amountMinor input \<le> invoice_open i"
    and post: "postJournalEntry gen (operational_posting claims memo ''invoice_credit_note'' (Some (inv_id i))
           (credit_note_reversal_of (OrganizationID claims) (inv_id i) db) (inv_currency i) now
           (credit_note_lines (cn_amountMinor input) (inv_totalMinor i) (inv_taxMinor i))) db = Inr (eid, db1)"
    and db': "db' = update_invoice (inv_orgID i) (inv_id i)
           (\<lambda>q. q\<lparr>inv_creditedMinor := inv_creditedMinor i + cn_amountMinor input\<rparr>) db1"
    using cn by (rule creditNote_Inr)
  let ?f = "\<lambda>q. q\<lparr>inv_creditedMinor := inv_creditedMinor i + cn_amountMinor input\<rparr>"
  note fr = post_frame [OF post]
  have wf1: "receivables_wf gen db1" using wf inj post by (rule post_wf)
  have i1: "i \<in> set (invoices db1)" using i fr by simp
  have f: "keeps_identity ?f" by (simp add: keeps_identity_def)
  have pos: "0 < cn_amountMinor input"
    using post_positive(2) [OF post, of "''1100''" "cn_amountMinor input"] by (simp add: credit_note_lines_def Let_def)
  have iok: "invoice_ok i" using wf i(1) by (rule receivables_wfD)
  have "invoice_ok (?f i)" using iok amount pos by (auto simp: invoice_ok_def invoice_open_def)
  then have wf2: "receivables_wf gen db'" unfolding db' by (rule update_invoice_wf [OF wf1 i1 f])
  have "code_balance db1 orgID c arCode = open_receivables db1 orgID c -
      (if orgID = inv_orgID i \<and> c = inv_currency i then cn_amountMinor input else 0)" for orgID c
    using rec i(2) post_code_balance [OF receivables_wf_parts(1) [OF wf] post, of orgID c arCode]
    by (auto simp: reconciled_def open_receivables_def fr credit_note_lines_ar)
  then have "reconciled db'"
    unfolding reconciled_def db' update_open_receivables [OF receivables_wfD(2) [OF wf1] i1 f]
    by (simp add: invoice_open_def)
  moreover have "paid_is_live db'"
    unfolding paid_is_live_def
  proof
    fix q assume q: "q \<in> set (invoices db')"
    have same: "live_payments db' j = live_payments db j" for j
      using live_payments_post [OF post, of j] credit_note_not_payment [OF wf] by (simp add: db')
    have "inv_paidMinor j = live_payments db j" if "j \<in> set (invoices db)" for j
      using live that by (simp add: paid_is_live_def)
    then have "inv_paidMinor (?f i) = live_payments db (?f i)" and "\<And>j. j \<in> set (invoices db) \<Longrightarrow> inv_paidMinor j = live_payments db j"
      using i(1) unfolding live_payments_identity [OF f] by simp_all
    then show "inv_paidMinor q = live_payments db' q"
      using update_invoice_set [OF receivables_wfD(2) [OF wf1] i1 q [unfolded db']] unfolding same fr by auto
  qed
  ultimately show ?thesis using wf2 by (simp add: receivables_ok_def)
qed

section \<open>Creating an invoice\<close>

definition resolved_ok :: "invoiceResolvedLine \<Rightarrow> bool" where
  "resolved_ok r \<longleftrightarrow> 0 \<le> rl_netMinor r \<and> 0 \<le> rl_taxMinor r \<and> rl_netMinor r + rl_taxMinor r = rl_grossMinor r \<and>
     rl_taxLiabilityCode r \<noteq> arCode"

lemma taxed_line_ok:
  assumes "taxed_line code line = Inr r" and "tc_rateBasisPoints code \<le> maxDatabaseInteger" and "tc_liabilityAccountCode code \<noteq> arCode"
  shows "resolved_ok r"
  using assms(1) unfolding taxed_line_def
proof (elim bind_result_InrE)
  fix a assume a: "calculateInvoiceLine (ci_quantity line) (ci_unitPriceMinor line) (Some (tc_rateBasisPoints code))
      (tc_priceIncludesTax code) None = Inr a"
    and r: "(case a of (net, tax, gross) \<Rightarrow> Inr \<lparr>rl_input = line, rl_netMinor = net, rl_taxMinor = tax, rl_grossMinor = gross,
            rl_rateBasisPoints = Some (tc_rateBasisPoints code), rl_priceIncludesTax = tc_priceIncludesTax code,
            rl_taxCodeID = ci_taxCodeID line, rl_taxLiabilityCode = tc_liabilityAccountCode code\<rparr>) = Inr r"
  obtain net tax gross where [simp]: "a = (net, tax, gross)" by (cases a) auto
  have "net + tax = gross \<and> 0 \<le> net \<and> 0 \<le> tax"
    using calculateInvoiceLine_spec [OF a [simplified]] assms(2) by auto
  with r assms(3) show ?thesis by (auto simp: resolved_ok_def)
qed

lemma resolve_line_ok:
  assumes "receivables_wf gen db" and "resolve_line db orgID line = Inr r"
  shows "resolved_ok r"
proof (cases "ci_taxCodeID line")
  case None
  with assms(2) obtain net tax gross where
    c: "calculateInvoiceLine (ci_quantity line) (ci_unitPriceMinor line) None False (ci_taxMinor line) = Inr (net, tax, gross)"
    and r: "rl_netMinor r = net" "rl_taxMinor r = tax" "rl_grossMinor r = gross" "rl_taxLiabilityCode r = ''2100''"
    by (auto simp: resolve_line_def split: if_splits)
  have "net + tax = gross \<and> 0 \<le> net \<and> 0 \<le> tax" using calculateInvoiceLine_spec [OF c] by auto
  with r show ?thesis by (simp add: resolved_ok_def arCode_def)
next
  case (Some codeID)
  with assms(2) obtain code where
    f: "find (\<lambda>c. tc_id c = codeID \<and> tc_orgID c = orgID) (tax_codes db) = Some code" and t: "taxed_line code line = Inr r"
    by (auto simp: resolve_line_def split: if_splits option.splits)
  from f have "code \<in> set (tax_codes db)" by (auto simp: find_Some_iff)
  with t receivables_wfD(10) [OF assms(1)] show ?thesis by (intro taxed_line_ok) auto
qed

lemma resolve_step_Inr:
  "resolve_step db orgID acc line = Inr acc' \<longleftrightarrow> (\<exists>r. resolve_line db orgID line = Inr r \<and> acc' = acc @ [r])"
  by (auto simp: resolve_step_def bind_result_Inr_conv)

lemma resolve_fold_ok:
  assumes wf: "receivables_wf gen db" and "fold_result (resolve_step db orgID) acc lines = Inr resolved"
    and "\<forall>r \<in> set acc. resolved_ok r"
  shows "\<forall>r \<in> set resolved. resolved_ok r"
  using assms(2,3)
proof (induction lines arbitrary: acc)
  case (Cons line lines)
  from Cons.prems(1) obtain r where "resolve_line db orgID line = Inr r"
    and rest: "fold_result (resolve_step db orgID) (acc @ [r]) lines = Inr resolved"
    by (auto simp: resolve_step_Inr)
  with Cons.prems(2) resolve_line_ok [OF wf] show ?case by (intro Cons.IH [OF rest]) auto
qed simp

lemma resolved_sums:
  assumes "\<forall>r \<in> set rs. resolved_ok r"
  shows "sum_list (map rl_netMinor rs) + sum_list (map rl_taxMinor rs) = sum_list (map rl_grossMinor rs)"
    and "0 \<le> sum_list (map rl_netMinor rs)" and "0 \<le> sum_list (map rl_taxMinor rs)"
  using assms by (induction rs) (auto simp: resolved_ok_def)

lemma add_tax_keys: "fst ` set (add_tax acc r) = fst ` set acc \<union> {rl_taxLiabilityCode r}"
  by (auto simp: add_tax_def dom_update map_of_eq_None_iff image_iff split: option.split)

lemma foldl_tax_keys: "fst ` set (foldl add_tax acc rs) = fst ` set acc \<union> rl_taxLiabilityCode ` set rs"
  by (induction rs arbitrary: acc) (auto simp: add_tax_keys)

lemma input_code_net_other:
  "(\<And>line. line \<in> set lines \<Longrightarrow> pl_accountCode line \<noteq> code) \<Longrightarrow> input_code_net code lines = 0"
  by (induction lines) auto

lemma invoice_posting_ar:
  assumes "\<forall>r \<in> set rs. resolved_ok r"
  shows "input_code_net arCode (invoice_posting_lines t rs) = t"
proof -
  have tax: "code \<noteq> arCode" if "(code, n) \<in> set (tax_by_account rs)" for code n
    using that assms foldl_tax_keys [of "[]" rs] by (force simp: tax_by_account_def resolved_ok_def)
  have "input_code_net arCode (map (\<lambda>line. credit_line ''4000'' (rl_netMinor line)) (filter (\<lambda>line. rl_netMinor line \<noteq> 0) rs)) = 0"
    by (rule input_code_net_other) (auto simp: arCode_def)
  moreover have "input_code_net arCode (map (\<lambda>(code, tax). credit_line code tax) (filter (\<lambda>(code, tax). tax \<noteq> 0) (tax_by_account rs))) = 0"
    by (rule input_code_net_other) (auto dest: tax)
  ultimately show ?thesis unfolding invoice_posting_lines_def input_code_net_simps by (simp add: arCode_def)
qed


lemma createInvoice_Inr:
  assumes "createInvoice gen claims input now db = Inr (out, db')"
  obtains currency rate resolved subtotal tax tot due number db1 memo eid where
    "fold_result (resolve_step db (OrganizationID claims)) [] (ci_lines input) = Inr resolved"
    and "subtotal = sum_list (map rl_netMinor resolved)" and "tax = sum_list (map rl_taxMinor resolved)"
    and "tot = sum_list (map rl_grossMinor resolved)" and "0 < tot" and "tot \<le> maxDatabaseInteger"
    and "nextInvoiceNumber (OrganizationID claims) db = Inr (number, db1)"
    and "postJournalEntry gen (operational_posting claims memo ''invoice'' (Some (gen (uuid_draws db1))) None currency now
           (invoice_posting_lines tot resolved))
           (db1\<lparr>uuid_draws := Suc (uuid_draws db1),
                invoices := invoices db1 @ [new_invoice_row (gen (uuid_draws db1)) claims input number currency rate
                  subtotal tax tot now due],
                invoice_lines := invoice_lines db1 @ map (new_invoice_line (gen (uuid_draws db1))) resolved\<rparr>) = Inr (eid, db')"
    and "out = \<lparr>co_invoiceID = gen (uuid_draws db1), co_invoiceNumber = number, co_totalMinor = tot,
                       co_entryID = eid, co_currency = currency\<rparr>"
  using assms unfolding createInvoice_def resolveInvoiceLines_def Let_def
  by (auto split: if_split_asm option.splits simp: not_le not_less)

lemma foldr_max_ge: "x \<in> set (n # ns) \<Longrightarrow> (x :: int) \<le> foldr max ns n"
  by (induction ns) auto

lemma nextInvoiceNumber_Inr:
  assumes "nextInvoiceNumber orgID db = Inr (number, db1)" and "numbering_ok db"
  shows "db1 = db\<lparr>doc_counters := AList.update (orgID, ''invoice'') number (doc_counters db)\<rparr>"
    and "i \<in> set (invoices db) \<Longrightarrow> inv_orgID i = orgID \<Longrightarrow> inv_number i < number"
proof -
  show "db1 = db\<lparr>doc_counters := AList.update (orgID, ''invoice'') number (doc_counters db)\<rparr>"
    using assms(1) by (auto simp: nextInvoiceNumber_def Let_def split: if_splits)
  show "inv_number i < number" if i: "i \<in> set (invoices db)" "inv_orgID i = orgID"
  proof (cases "map_of (doc_counters db) (orgID, ''invoice'')")
    case (Some n)
    then have "inv_number i \<le> n" using assms(2) i by (auto simp: numbering_ok_def)
    with Some assms(1) show ?thesis by (auto simp: nextInvoiceNumber_def Let_def split: if_splits)
  next
    case None
    obtain n ns where ns: "map inv_number (filter (\<lambda>q. inv_orgID q = orgID) (invoices db)) = n # ns"
      using i by (cases "map inv_number (filter (\<lambda>q. inv_orgID q = orgID) (invoices db))") (auto simp: filter_empty_conv)
    have "inv_number i \<in> set (n # ns)" unfolding ns [symmetric] using i by auto
    then have "inv_number i \<le> foldr max ns n" by (rule foldr_max_ge)
    with None ns assms(1) show ?thesis by (auto simp: nextInvoiceNumber_def Let_def split: if_splits)
  qed
qed

definition add_invoice :: "string \<Rightarrow> int \<Rightarrow> invoice_row \<Rightarrow> invoice_line_row list \<Rightarrow> 'a receivables_scheme \<Rightarrow> 'a receivables_scheme" where
  "add_invoice orgID number i ls db = db\<lparr>doc_counters := AList.update (orgID, ''invoice'') number (doc_counters db),
     uuid_draws := Suc (uuid_draws db), invoices := invoices db @ [i], invoice_lines := invoice_lines db @ ls\<rparr>"

lemma add_invoice_frame [simp]:
  "invoices (add_invoice orgID number i ls db) = invoices db @ [i]"
  "payments (add_invoice orgID number i ls db) = payments db"
  "fx_settlements (add_invoice orgID number i ls db) = fx_settlements db"
  "tax_codes (add_invoice orgID number i ls db) = tax_codes db"
  "doc_counters (add_invoice orgID number i ls db) = AList.update (orgID, ''invoice'') number (doc_counters db)"
  "journal_entries (add_invoice orgID number i ls db) = journal_entries db"
  "uuid_draws (add_invoice orgID number i ls db) = Suc (uuid_draws db)"
  "entry_code_net (add_invoice orgID number i ls db) o' code e = entry_code_net db o' code e"
  "code_balance (add_invoice orgID number i ls db) o' c code = code_balance db o' c code"
  "entry_reversed (add_invoice orgID number i ls db) o' x = entry_reversed db o' x"
  "live_payments (add_invoice orgID number i ls db) j = live_payments db j"
  by (simp_all add: add_invoice_def entry_code_net_def has_code_def code_balance_def entry_reversed_def live_payments_def)

lemma add_invoice_wf:
  assumes wf: "receivables_wf gen db" and gen: "uuid_supply gen"
    and i: "inv_id i = gen (uuid_draws db)" "inv_orgID i = orgID" "inv_number i = number" "invoice_ok i"
    and num: "\<And>q. q \<in> set (invoices db) \<Longrightarrow> inv_orgID q = orgID \<Longrightarrow> inv_number q < number"
  shows "receivables_wf gen (add_invoice orgID number i ls db)" (is "receivables_wf gen ?db")
proof -
  have "books_ok gen ?db"
    using receivables_wf_parts(1) [OF wf] by (rule books_ok_cong) (simp_all add: add_invoice_def)
  moreover have "numbering_ok ?db"
  proof -
    have old: "distinct (map (\<lambda>i. (inv_orgID i, inv_number i)) (invoices db))"
      "\<And>q n. q \<in> set (invoices db) \<Longrightarrow> map_of (doc_counters db) (inv_orgID q, ''invoice'') = Some n \<Longrightarrow> inv_number q \<le> n"
      using receivables_wfD(1) [OF wf] by (auto simp: numbering_ok_def)
    have "(orgID, number) \<notin> (\<lambda>i. (inv_orgID i, inv_number i)) ` set (invoices db)" using num by force
    with old(1) have "distinct (map (\<lambda>i. (inv_orgID i, inv_number i)) (invoices db @ [i]))" using i by simp
    moreover have "inv_number q \<le> n" if q: "q \<in> set (invoices db @ [i])"
      and m: "map_of (AList.update (orgID, ''invoice'') number (doc_counters db)) (inv_orgID q, ''invoice'') = Some n" for q n
    proof (cases "inv_orgID q = orgID")
      case True
      with m have "n = number" by (simp add: update_conv')
      with q True num i show ?thesis by (auto dest: num)
    next
      case False
      with m have "map_of (doc_counters db) (inv_orgID q, ''invoice'') = Some n" by (simp add: update_conv')
      with q False i old(2) show ?thesis by auto
    qed
    ultimately show ?thesis by (simp add: numbering_ok_def)
  qed
  moreover have "distinct (map inv_id (invoices db @ [i]))"
    using receivables_wfD(2) [OF wf] receivables_wfD(5) [OF wf, of "uuid_draws db"] i(1) by simp
  moreover have "gen n \<notin> inv_id ` set (invoices db @ [i])" "gen n \<notin> pay_id ` set (payments db)"
    if "Suc (uuid_draws db) \<le> n" for n
    using receivables_wfD(5,6) [OF wf Suc_leD [OF that]] gen i(1) that by (auto simp: uuid_supply_def inj_eq)
  moreover have "payment_ok ?db p" if "p \<in> set (payments db)" for p
  proof (rule payment_ok_mono)
    show "payment_ok db p" using wf that by (rule receivables_wfD)
  qed auto
  moreover have "\<forall>q \<in> set (invoices db @ [i]). invoice_ok q" using receivables_wfD(7) [OF wf] i(4) by auto
  ultimately show ?thesis using wf unfolding receivables_wf_def add_invoice_frame by blast
qed

lemma create_invoice_keeps_ok [inv_intros]:
  assumes ok: "receivables_ok gen db" and gen: "uuid_supply gen"
    and ci: "createInvoice gen claims input now db = Inr (out, db')"
  shows "receivables_ok gen db'"
proof -
  from ok have wf: "receivables_wf gen db" and rec: "reconciled db" and live: "paid_is_live db"
    by (auto simp: receivables_ok_def)
  from gen have inj: "inj gen" by (simp add: uuid_supply_def)
  let ?org = "OrganizationID claims"
  obtain currency rate resolved subtotal tax tot due number db1 memo eid where
    fold: "fold_result (resolve_step db ?org) [] (ci_lines input) = Inr resolved"
    and sums: "subtotal = sum_list (map rl_netMinor resolved)" "tax = sum_list (map rl_taxMinor resolved)"
      "tot = sum_list (map rl_grossMinor resolved)" "0 < tot" "tot \<le> maxDatabaseInteger"
    and num: "nextInvoiceNumber ?org db = Inr (number, db1)"
    and post0: "postJournalEntry gen (operational_posting claims memo ''invoice'' (Some (gen (uuid_draws db1))) None currency now
           (invoice_posting_lines tot resolved))
           (db1\<lparr>uuid_draws := Suc (uuid_draws db1),
                invoices := invoices db1 @ [new_invoice_row (gen (uuid_draws db1)) claims input number currency rate
                  subtotal tax tot now due],
                invoice_lines := invoice_lines db1 @ map (new_invoice_line (gen (uuid_draws db1))) resolved\<rparr>) = Inr (eid, db')"
    using ci by (rule createInvoice_Inr)
  note n = nextInvoiceNumber_Inr [OF num receivables_wfD(1) [OF wf]]
  let ?i = "new_invoice_row (gen (uuid_draws db)) claims input number currency rate subtotal tax tot now due"
  let ?db2 = "add_invoice ?org number ?i (map (new_invoice_line (gen (uuid_draws db))) resolved) db"
  have post: "postJournalEntry gen (operational_posting claims memo ''invoice'' (Some (gen (uuid_draws db))) None currency now
           (invoice_posting_lines tot resolved)) ?db2 = Inr (eid, db')"
    using post0 unfolding n(1) add_invoice_def by simp
  note fr = post_frame [OF post]
  have rok: "\<forall>r \<in> set resolved. resolved_ok r" by (rule resolve_fold_ok [OF wf fold]) simp
  have "invoice_ok ?i" using resolved_sums [OF rok] sums by (simp add: invoice_ok_def new_invoice_row_def)
  then have wf2: "receivables_wf gen ?db2"
    using n(2) by (intro add_invoice_wf [OF wf gen]) (simp_all add: new_invoice_row_def)
  have wf3: "receivables_wf gen db'" using wf2 inj post by (rule post_wf)
  have ii: "inv_orgID ?i = ?org" "inv_currency ?i = currency" "invoice_open ?i = tot"
    by (simp_all add: new_invoice_row_def invoice_open_def)
  have "reconciled db'"
    unfolding reconciled_def post_code_balance [OF receivables_wf_parts(1) [OF wf2] post]
    using rec ii by (auto simp: reconciled_def open_receivables_def fr invoice_posting_ar [OF rok])
  moreover have "paid_is_live db'"
  proof -
    have same: "live_payments db' j = live_payments db j" for j using live_payments_post [OF post, of j] by simp
    have "pay_invoiceID p \<noteq> gen (uuid_draws db)" if "p \<in> set (payments db)" for p
      using receivables_wfD(8) [OF wf that] receivables_wfD(5) [OF wf, of "uuid_draws db"]
      by (auto simp: payment_ok_def image_iff)
    then have "live_payments db ?i = 0"
      by (simp add: live_payments_def new_invoice_row_def filter_False)
    then show ?thesis using live by (auto simp: paid_is_live_def same fr new_invoice_row_def)
  qed
  ultimately show ?thesis using wf3 by (simp add: receivables_ok_def)
qed

section \<open>Reversing a payment\<close>

definition entry_effect :: "'a books_scheme \<Rightarrow> string \<Rightarrow> string \<Rightarrow> string \<Rightarrow> string \<Rightarrow> int" where
  "entry_effect db orgID x o' c =
     (if o' = orgID \<and> (\<exists>e \<in> set (journal_entries db). je_id e = x \<and> je_orgID e = orgID \<and> je_currency e = c)
      then entry_code_net db orgID arCode x else 0)"

lemma reverse_entry_Inr:
  assumes "reverse_payment_entry gen claims i memo now (rs, db) x = Inr (rs', db')"
  obtains original eid where "original \<in> set (journal_entries db)" and "je_id original = x"
    and "je_orgID original = OrganizationID claims" and "rs' = rs @ [eid]"
    and "postJournalEntry gen (operational_posting claims memo ''payment-reversal'' (Some (inv_id i)) (Some x)
           (je_currency original) now (mirror_lines db (OrganizationID claims) x)) db = Inr (eid, db')"
proof -
  from assms obtain original where f: "find (\<lambda>e. je_id e = x \<and> je_orgID e = OrganizationID claims) (journal_entries db) = Some original"
    by (auto simp: reverse_payment_entry_def split: option.splits)
  then have "original \<in> set (journal_entries db)" "je_id original = x" "je_orgID original = OrganizationID claims"
    by (auto simp: find_Some_iff)
  with assms that show thesis
    by (auto simp: reverse_payment_entry_def f Let_def split: if_splits)
qed

lemma reverse_entry_effect:
  fixes db :: "'a receivables_scheme"
  assumes wf: "receivables_wf gen db" and inj: "inj gen"
    and step: "reverse_payment_entry gen claims i memo now (rs, db) x = Inr (rs', db')"
  shows "receivables_wf gen db'" and "invoices db' = invoices db" and "payments db' = payments db"
    and "entry_reversed db' o' e \<longleftrightarrow> entry_reversed db o' e \<or> o' = OrganizationID claims \<and> e = Some x"
    and "code_balance db' o' c arCode = code_balance db o' c arCode - entry_effect db (OrganizationID claims) x o' c"
    and "y \<in> je_id ` set (journal_entries db) \<Longrightarrow>
         entry_effect db' (OrganizationID claims) y o' c = entry_effect db (OrganizationID claims) y o' c"
proof -
  obtain original eid where o: "original \<in> set (journal_entries db)" "je_id original = x"
      "je_orgID original = OrganizationID claims"
    and post: "postJournalEntry gen (operational_posting claims memo ''payment-reversal'' (Some (inv_id i)) (Some x)
           (je_currency original) now (mirror_lines db (OrganizationID claims) x)) db = Inr (eid, db')"
    using step by (rule reverse_entry_Inr)
  note b = receivables_wf_parts(1) [OF wf] and fr = post_frame [OF post]
  have fresh: "eid \<notin> je_id ` set (journal_entries db)" using b inj post by (rule post_shape)
  show "receivables_wf gen db'" using wf inj post by (rule post_wf)
  show "invoices db' = invoices db" "payments db' = payments db" by (rule fr)+
  show "entry_reversed db' o' e \<longleftrightarrow> entry_reversed db o' e \<or> o' = OrganizationID claims \<and> e = Some x"
    by (auto simp: post_reversed [OF post])
  have uniq: "q = original" if "q \<in> set (journal_entries db)" "je_id q = x" for q
    using receivables_wf_parts(3) [OF wf] distinct_keyD [OF _ that(1) o(1), of je_id] that(2) o(2) by (simp add: entries_ok_def)
  have "input_code_net arCode (mirror_lines db (OrganizationID claims) x) = - entry_code_net db (OrganizationID claims) arCode x"
    using mirror_code_net [OF b o(1), of arCode] o by simp
  moreover have "(\<exists>e \<in> set (journal_entries db). je_id e = x \<and> je_orgID e = OrganizationID claims \<and> je_currency e = c) \<longleftrightarrow>
      je_currency original = c" using o uniq by blast
  ultimately show "code_balance db' o' c arCode = code_balance db o' c arCode - entry_effect db (OrganizationID claims) x o' c"
    unfolding post_code_balance [OF b post] entry_effect_def by (cases "o' = OrganizationID claims") auto
  show "entry_effect db' (OrganizationID claims) y o' c = entry_effect db (OrganizationID claims) y o' c"
    if y: "y \<in> je_id ` set (journal_entries db)"
  proof -
    from y fresh have "y \<noteq> eid" by auto
    then show ?thesis using post_entry_code_net(2) [OF b post, of y] by (auto simp: entry_effect_def fr)
  qed
qed

lemma reverse_fold_effect:
  fixes db :: "'a receivables_scheme"
  assumes "receivables_wf gen db" and "inj gen" and "set xs \<subseteq> je_id ` set (journal_entries db)"
    and "fold_result (reverse_payment_entry gen claims i memo now) (rs, db) xs = Inr (rs', db')"
  shows "receivables_wf gen db' \<and> invoices db' = invoices db \<and> payments db' = payments db \<and>
    (\<forall>o' e. entry_reversed db' o' e \<longleftrightarrow> entry_reversed db o' e \<or> o' = OrganizationID claims \<and> e \<in> Some ` set xs) \<and>
    (\<forall>o' c. code_balance db' o' c arCode = code_balance db o' c arCode -
       sum_list (map (\<lambda>x. entry_effect db (OrganizationID claims) x o' c) xs))"
  using assms
proof (induction xs arbitrary: rs db)
  case (Cons x xs)
  from Cons.prems(4) obtain rs1 db1 where
    step: "reverse_payment_entry gen claims i memo now (rs, db) x = Inr (rs1, db1)"
    and rest: "fold_result (reverse_payment_entry gen claims i memo now) (rs1, db1) xs = Inr (rs', db')" by auto
  note eff = reverse_entry_effect [OF Cons.prems(1,2) step]
  have sub: "set xs \<subseteq> je_id ` set (journal_entries db)" using Cons.prems(3) by auto
  have "set (journal_entries db) \<subseteq> set (journal_entries db1)"
    using step by (rule reverse_entry_Inr) (auto dest: post_frame(9))
  with sub have "set xs \<subseteq> je_id ` set (journal_entries db1)" by auto
  from Cons.IH [OF eff(1) Cons.prems(2) this rest] have IH: "receivables_wf gen db'" "invoices db' = invoices db1"
    "payments db' = payments db1"
    "\<And>o' e. entry_reversed db' o' e \<longleftrightarrow> entry_reversed db1 o' e \<or> o' = OrganizationID claims \<and> e \<in> Some ` set xs"
    "\<And>o' c. code_balance db' o' c arCode = code_balance db1 o' c arCode -
       sum_list (map (\<lambda>x. entry_effect db1 (OrganizationID claims) x o' c) xs)" by auto
  have "sum_list (map (\<lambda>x. entry_effect db1 (OrganizationID claims) x o' c) xs) =
        sum_list (map (\<lambda>x. entry_effect db (OrganizationID claims) x o' c) xs)" for o' c
    using sub by (intro sum_list_map_cong eff(6)) auto
  with IH eff show ?case by auto
qed auto

lemma reversePayment_Inr:
  assumes "reversePayment gen claims input now db = Inr (out, db')"
  obtains p i memo rs db1 where "p \<in> set (payments db)" and "pay_id p = vp_paymentID input" and "pay_orgID p = OrganizationID claims"
    and "i \<in> set (invoices db)" and "inv_id i = pay_invoiceID p" and "inv_orgID i = OrganizationID claims"
    and "\<forall>x \<in> set (payment_entry_ids (OrganizationID claims) p (the (pay_entryID p)) db).
           \<not> entry_reversed db (OrganizationID claims) (Some x)"
    and "fold_result (reverse_payment_entry gen claims i memo now) ([], db)
           (payment_entry_ids (OrganizationID claims) p (the (pay_entryID p)) db) = Inr (rs, db1)"
    and "settle_reversal p i (rs, db1) = Inr (out, db')"
proof -
  let ?org = "OrganizationID claims"
  from assms obtain p i entry where
    fp: "find (\<lambda>p. pay_id p = vp_paymentID input \<and> pay_orgID p = ?org) (payments db) = Some p"
    and fi: "find (\<lambda>i. inv_id i = pay_invoiceID p \<and> inv_orgID i = ?org) (invoices db) = Some i"
    and fe: "find (\<lambda>e. je_id e = the (pay_entryID p) \<and> je_orgID e = ?org) (journal_entries db) = Some entry"
    by (auto simp: reversePayment_def Let_def split: option.splits if_splits)
  from fp have p: "p \<in> set (payments db)" "pay_id p = vp_paymentID input" "pay_orgID p = ?org" by (auto simp: find_Some_iff)
  from fi have i: "i \<in> set (invoices db)" "inv_id i = pay_invoiceID p" "inv_orgID i = ?org" by (auto simp: find_Some_iff)
  from fe have e: "je_id entry = the (pay_entryID p)" by (auto simp: find_Some_iff)
  obtain rs db1 where
    unrev: "\<not> list_ex (\<lambda>originalID. list_ex (\<lambda>e. je_orgID e = ?org \<and> je_reversalOfID e = Some originalID) (journal_entries db))
           (payment_entry_ids ?org p (the (pay_entryID p)) db)"
    and run: "fold_result (reverse_payment_entry gen claims i
           (''Payment reversal for invoice '' @ show_int (inv_number i) @ '': '' @ vp_reason input) now) ([], db)
           (payment_entry_ids ?org p (the (pay_entryID p)) db) = Inr (rs, db1)"
    and fin: "settle_reversal p i (rs, db1) = Inr (out, db')"
    using assms unfolding reversePayment_def Let_def fp fi fe option.case e
    by (auto split: if_split_asm)
  show thesis
    by (rule that [OF p i _ run fin]) (use unrev in \<open>auto simp: entry_reversed_def list_ex_iff\<close>)
qed

lemma payment_entries_effect:
  assumes wf: "receivables_wf gen db" and p: "p \<in> set (payments db)" and i: "i \<in> set (invoices db)" "inv_id i = pay_invoiceID p"
  shows "set (payment_entry_ids (pay_orgID p) p (the (pay_entryID p)) db) \<subseteq> je_id ` set (journal_entries db)"
    and "sum_list (map (\<lambda>x. entry_effect db (pay_orgID p) x o' c) (payment_entry_ids (pay_orgID p) p (the (pay_entryID p)) db)) =
         (if o' = pay_orgID p \<and> c = inv_currency i then - pay_amountMinor p else 0)"
    and "q \<in> set (payments db) \<Longrightarrow> pay_entryID q \<in> Some ` set (payment_entry_ids (pay_orgID p) p (the (pay_entryID p)) db) \<Longrightarrow> q = p"
    and "pay_entryID p \<in> Some ` set (payment_entry_ids (pay_orgID p) p (the (pay_entryID p)) db)"
proof -
  have dje: "distinct (map je_id (journal_entries db))" using receivables_wf_parts(3) [OF wf] by (simp add: entries_ok_def)
  note uniq = distinct_keyD [OF dje]
  from receivables_wfD(8) [OF wf p] obtain j e where j: "j \<in> set (invoices db)" "inv_id j = pay_invoiceID p"
    and e: "e \<in> set (journal_entries db)" "pay_entryID p = Some (je_id e)" "je_orgID e = pay_orgID p"
    and c: "case find (\<lambda>s. fs_orgID s = pay_orgID p \<and> fs_paymentID s = pay_id p) (fx_settlements db) of
             None \<Rightarrow> clears_invoice db p j e
           | Some s \<Rightarrow> entry_code_net db (pay_orgID p) arCode (je_id e) = 0 \<and>
               (\<exists>f. je_id f = fs_foreignEntryID s \<and> je_sourceID f \<noteq> None \<and> clears_invoice db p j f)"
    by (auto simp: payment_ok_def)
  have "j = i" using distinct_keyD [OF receivables_wfD(2) [OF wf] j(1) i(1)] j i by simp
  have clear: "entry_effect db (pay_orgID p) (je_id f) o' c = (if o' = pay_orgID p \<and> c = inv_currency i then - pay_amountMinor p else 0)"
    if "clears_invoice db p i f" for f o' c
    using that uniq by (auto simp: clears_invoice_def entry_effect_def)
  have other: "pay_entryID q = Some (je_id f) \<Longrightarrow> je_sourceID f = None" if "q \<in> set (payments db)" "f \<in> set (journal_entries db)" for q f
    using receivables_wfD(8) [OF wf that(1)] uniq [OF that(2)] by (auto simp: payment_ok_def)
  have same: "q = p" if "q \<in> set (payments db)" "pay_entryID q = pay_entryID p" for q
    using distinct_keyD [OF receivables_wfD(4) [OF wf] that(1) p] that(2) by simp
  show "pay_entryID p \<in> Some ` set (payment_entry_ids (pay_orgID p) p (the (pay_entryID p)) db)"
    using e(2) by (simp add: payment_entry_ids_def)
  have "set (payment_entry_ids (pay_orgID p) p (je_id e) db) \<subseteq> je_id ` set (journal_entries db) \<and>
    sum_list (map (\<lambda>x. entry_effect db (pay_orgID p) x o' c) (payment_entry_ids (pay_orgID p) p (je_id e) db)) =
         (if o' = pay_orgID p \<and> c = inv_currency i then - pay_amountMinor p else 0) \<and>
    (q \<in> set (payments db) \<longrightarrow> pay_entryID q \<in> Some ` set (payment_entry_ids (pay_orgID p) p (je_id e) db) \<longrightarrow> q = p)"
  proof (cases "find (\<lambda>s. fs_orgID s = pay_orgID p \<and> fs_paymentID s = pay_id p) (fx_settlements db)")
    case None
    with c \<open>j = i\<close> have "clears_invoice db p i e" by simp
    with None e same show ?thesis by (auto simp: payment_entry_ids_def clear)
  next
    case (Some s)
    with c \<open>j = i\<close> obtain f where f: "je_id f = fs_foreignEntryID s" "je_sourceID f \<noteq> None" "clears_invoice db p i f"
      and zero: "entry_code_net db (pay_orgID p) arCode (je_id e) = 0" by auto
    then have fin: "f \<in> set (journal_entries db)" by (simp add: clears_invoice_def)
    have ids: "payment_entry_ids (pay_orgID p) p (je_id e) db = [je_id e, je_id f]"
      using Some f(1) by (simp add: payment_entry_ids_def)
    have "entry_effect db (pay_orgID p) (je_id e) o' c = 0" using zero by (simp add: entry_effect_def)
    moreover have "pay_entryID q \<noteq> Some (je_id f)" if "q \<in> set (payments db)" using other [OF that fin] f(2) by auto
    ultimately show ?thesis unfolding ids using e fin same clear [OF f(3)] by auto
  qed
  then show "set (payment_entry_ids (pay_orgID p) p (the (pay_entryID p)) db) \<subseteq> je_id ` set (journal_entries db)"
    "sum_list (map (\<lambda>x. entry_effect db (pay_orgID p) x o' c) (payment_entry_ids (pay_orgID p) p (the (pay_entryID p)) db)) =
         (if o' = pay_orgID p \<and> c = inv_currency i then - pay_amountMinor p else 0)"
    "q \<in> set (payments db) \<Longrightarrow> pay_entryID q \<in> Some ` set (payment_entry_ids (pay_orgID p) p (the (pay_entryID p)) db) \<Longrightarrow> q = p"
    using e(2) by simp_all
qed

lemma sum_list_filter_drop:
  fixes g :: "'a \<Rightarrow> int"
  assumes "distinct xs" and "x \<in> set xs" and "\<And>y. y \<in> set xs \<Longrightarrow> y \<noteq> x \<Longrightarrow> P' y = P y" and "\<not> P' x"
  shows "sum_list (map g (filter P' xs)) = sum_list (map g (filter P xs)) - (if P x then g x else 0)"
  using assms
proof (induction xs)
  case (Cons y ys)
  show ?case
  proof (cases "x = y")
    case True
    with Cons.prems have "filter P' ys = filter P ys" by (intro filter_cong) auto
    with True Cons.prems show ?thesis by simp
  next
    case False
    with Cons show ?thesis by auto
  qed
qed simp

lemma settle_reversal_Inr:
  assumes "settle_reversal p i (rs, db) = Inr (out, db')" and "invoice_ok i"
  obtains status where "0 < pay_amountMinor p" and "pay_amountMinor p \<le> inv_paidMinor i"
    and "status \<noteq> ''paid''"
    and "db' = update_invoice (inv_orgID i) (inv_id i)
           (\<lambda>q. q\<lparr>inv_paidMinor := inv_paidMinor i - pay_amountMinor p, inv_status := status\<rparr>) db"
    and "vo_refundedMinor out = pay_amountMinor p"
    and "vo_outstandingMinor out = invoice_open i + pay_amountMinor p" and "vo_reversalEntryIDs out = rs"
proof -
  let ?status = "if inv_status i = ''paid'' then ''sent'' else inv_status i"
  from assms have a: "0 < pay_amountMinor p" "pay_amountMinor p \<le> inv_paidMinor i"
    by (auto simp: settle_reversal_def split: if_splits)
  have "i64 (inv_paidMinor i - pay_amountMinor p + inv_creditedMinor i) = inv_paidMinor i - pay_amountMinor p + inv_creditedMinor i"
    using assms(2) a by (intro i64_id) (auto simp: invoice_ok_def in_i64_def int_limits)
  with assms a show thesis
    by (intro that [of ?status]) (auto simp: settle_reversal_def Let_def invoice_ok_def invoice_open_def split: if_splits)
qed

lemma reverse_payment_effect:
  fixes db :: "'a receivables_scheme"
  assumes ok: "receivables_ok gen db" and gen: "uuid_supply gen"
    and rv: "reversePayment gen claims input now db = Inr (out, db')"
  obtains p i status where "p \<in> set (payments db)" and "pay_id p = vp_paymentID input" and "i \<in> set (invoices db)"
    and "inv_id i = pay_invoiceID p" and "inv_orgID i = pay_orgID p" and "vo_refundedMinor out = pay_amountMinor p"
    and "invoices db' = invoices (update_invoice (inv_orgID i) (inv_id i)
           (\<lambda>q. q\<lparr>inv_paidMinor := inv_paidMinor i - pay_amountMinor p, inv_status := status\<rparr>) db)"
    and "entry_reversed db' (pay_orgID p) (pay_entryID p)" and "payments db' = payments db"
    and "\<not> entry_reversed db (pay_orgID p) (pay_entryID p)"
    and "vo_outstandingMinor out = invoice_open i + pay_amountMinor p"
    and "receivables_ok gen db'"
proof -
  from ok have wf: "receivables_wf gen db" and rec: "reconciled db" and live: "paid_is_live db"
    by (auto simp: receivables_ok_def)
  from gen have inj: "inj gen" by (simp add: uuid_supply_def)
  let ?org = "OrganizationID claims"
  obtain p i memo rs and db1 :: "'a receivables_scheme" where p: "p \<in> set (payments db)" "pay_id p = vp_paymentID input" "pay_orgID p = ?org"
    and i: "i \<in> set (invoices db)" "inv_id i = pay_invoiceID p" "inv_orgID i = ?org"
    and unrev: "\<forall>x \<in> set (payment_entry_ids ?org p (the (pay_entryID p)) db). \<not> entry_reversed db ?org (Some x)"
    and fold: "fold_result (reverse_payment_entry gen claims i memo now) ([], db)
           (payment_entry_ids ?org p (the (pay_entryID p)) db) = Inr (rs, db1)"
    and fin: "settle_reversal p i (rs, db1) = Inr (out, db')"
    using rv by (rule reversePayment_Inr)
  note ids = payment_entries_effect [OF wf p(1) i(1,2), unfolded p(3)]
  have eff: "receivables_wf gen db1" "invoices db1 = invoices db" "payments db1 = payments db"
    "\<And>o' e. entry_reversed db1 o' e \<longleftrightarrow> entry_reversed db o' e \<or>
       o' = ?org \<and> e \<in> Some ` set (payment_entry_ids ?org p (the (pay_entryID p)) db)"
    "\<And>o' c. code_balance db1 o' c arCode = code_balance db o' c arCode - (if o' = ?org \<and> c = inv_currency i then - pay_amountMinor p else 0)"
    using reverse_fold_effect [OF wf inj ids(1) fold] ids(2) by simp_all
  have iok: "invoice_ok i" using wf i(1) by (rule receivables_wfD)
  obtain status where amount: "0 < pay_amountMinor p" "pay_amountMinor p \<le> inv_paidMinor i" and st: "status \<noteq> ''paid''"
    and db': "db' = update_invoice (inv_orgID i) (inv_id i)
           (\<lambda>q. q\<lparr>inv_paidMinor := inv_paidMinor i - pay_amountMinor p, inv_status := status\<rparr>) db1"
    and out: "vo_refundedMinor out = pay_amountMinor p" "vo_outstandingMinor out = invoice_open i + pay_amountMinor p"
    using fin iok by (rule settle_reversal_Inr)
  let ?f = "\<lambda>q. q\<lparr>inv_paidMinor := inv_paidMinor i - pay_amountMinor p, inv_status := status\<rparr>"
  have f: "keeps_identity ?f" by (simp add: keeps_identity_def)
  have i1: "i \<in> set (invoices db1)" using i eff by simp
  have "invoice_ok (?f i)" using iok amount st by (auto simp: invoice_ok_def)
  then have wf': "receivables_wf gen db'" unfolding db' by (rule update_invoice_wf [OF eff(1) i1 f])
  have "reconciled db'"
    unfolding reconciled_def db' update_open_receivables [OF receivables_wfD(2) [OF eff(1)] i1 f]
    using rec i(3) by (simp add: eff(5) reconciled_def open_receivables_frame [OF eff(2)] invoice_open_def)
  moreover have rev: "entry_reversed db' ?org (pay_entryID p)" "\<not> entry_reversed db ?org (pay_entryID p)"
    using ids(4) unrev by (auto simp: db' eff(4))
  moreover have "paid_is_live db'"
    unfolding paid_is_live_def
  proof
    fix q assume q: "q \<in> set (invoices db')"
    have drop: "live_payments db' j = live_payments db j - (if inv_id j = inv_id i \<and> inv_orgID j = ?org then pay_amountMinor p else 0)" for j
    proof -
      have "entry_reversed db' (pay_orgID y) (pay_entryID y) = entry_reversed db (pay_orgID y) (pay_entryID y)"
        if "y \<in> set (payments db)" "y \<noteq> p" for y
        using ids(3) [OF that(1)] that(2) by (auto simp: db' eff(4))
      moreover have "distinct (payments db)" using receivables_wfD(3) [OF wf] by (simp add: distinct_map)
      ultimately show ?thesis
        using rev p i sum_list_filter_drop [of "payments db" p
          "\<lambda>p. pay_invoiceID p = inv_id j \<and> pay_orgID p = inv_orgID j \<and> \<not> entry_reversed db' (pay_orgID p) (pay_entryID p)"
          "\<lambda>p. pay_invoiceID p = inv_id j \<and> pay_orgID p = inv_orgID j \<and> \<not> entry_reversed db (pay_orgID p) (pay_entryID p)"
          pay_amountMinor]
        by (auto simp: live_payments_def db' eff(3))
    qed
    have old: "inv_paidMinor j = live_payments db j" if "j \<in> set (invoices db)" for j
      using live that by (simp add: paid_is_live_def)
    have "inv_paidMinor (?f i) = live_payments db' (?f i)"
      unfolding live_payments_identity [OF f] drop using old [OF i(1)] i by simp
    moreover have "inv_paidMinor j = live_payments db' j" if "j \<in> set (invoices db)" "inv_id j \<noteq> inv_id i" for j
      using old [OF that(1)] that(2) by (simp add: drop)
    ultimately show "inv_paidMinor q = live_payments db' q"
      using update_invoice_set [OF receivables_wfD(2) [OF eff(1)] i1 q [unfolded db']] unfolding eff by auto
  qed
  moreover have "invoices db' = invoices (update_invoice (inv_orgID i) (inv_id i) ?f db)" "payments db' = payments db"
    by (simp_all add: db' update_invoice_def eff)
  ultimately show thesis
    using that [OF p(1,2) i(1,2), of status] p(3) i(3) out wf' by (simp add: receivables_ok_def)
qed

section \<open>Histories\<close>

inductive receivables_step :: "uuid_source \<Rightarrow> 'a receivables_scheme \<Rightarrow> 'a receivables_scheme \<Rightarrow> bool"
  for gen :: uuid_source where
  invoice: "createInvoice gen claims ci now db = Inr (co, db') \<Longrightarrow> receivables_step gen db db'"
| payment: "recordPayment gen claims pay now db = Inr (ro, db') \<Longrightarrow> receivables_step gen db db'"
| reversal: "reversePayment gen claims rv now db = Inr (vo, db') \<Longrightarrow> receivables_step gen db db'"
| credit: "executeCreditNote gen claims cn now db = Inr (cno, db') \<Longrightarrow> receivables_step gen db db'"

inductive_cases receivables_stepE: "receivables_step gen db db'"

inductive receivables_history :: "uuid_source \<Rightarrow> 'a receivables_scheme \<Rightarrow> 'a receivables_scheme \<Rightarrow> bool"
  for gen :: uuid_source where
  start: "receivables_history gen db db"
| step: "receivables_history gen db db' \<Longrightarrow> receivables_step gen db' db'' \<Longrightarrow> receivables_history gen db db''"

lemma reverse_payment_keeps_ok [inv_intros]:
  assumes "receivables_ok gen db" and "uuid_supply gen" and "reversePayment gen claims input now db = Inr (out, db')"
  shows "receivables_ok gen db'"
  using assms by (rule reverse_payment_effect)

lemma step_keeps_ok:
  assumes "receivables_step gen db db'" and "receivables_ok gen db" and "uuid_supply gen"
  shows "receivables_ok gen db'"
  using assms by (cases rule: receivables_step.cases)
    (auto intro: create_invoice_keeps_ok record_payment_keeps_ok credit_note_keeps_ok reverse_payment_keeps_ok)

lemma history_keeps_ok:
  assumes "receivables_history gen db db'" and "receivables_ok gen db" and "uuid_supply gen"
  shows "receivables_ok gen db'"
  using assms by (induction rule: receivables_history.induct) (auto intro: step_keeps_ok)

lemma recordPayment_rows:
  fixes db :: "'a receivables_scheme"
  assumes wf: "receivables_wf gen db" and rp: "recordPayment gen claims input now db = Inr (out, db')"
  obtains i p full where "i \<in> set (invoices db)" and "inv_number i = rp_invoiceNumber input"
    and "inv_orgID i = OrganizationID claims" and "rp_amountMinor input \<le> invoice_open i"
    and "invoices db' = invoices (update_invoice (inv_orgID i) (inv_id i)
           (mark_paid (inv_paidMinor i + rp_amountMinor input) full) db)"
    and "payments db' = payments db @ [p]" and "pay_id p = ro_paymentID out" and "pay_amountMinor p = rp_amountMinor input"
    and "pay_invoiceID p = inv_id i" and "pay_orgID p = OrganizationID claims"
proof -
  obtain i baseCurrency where i: "i \<in> set (invoices db)" "inv_orgID i = OrganizationID claims"
    "inv_number i = rp_invoiceNumber input" and amount: "rp_amountMinor input \<le> invoice_open i"
    and run: "(if inv_currency i = baseCurrency then
             bind_result (postJournalEntry gen (operational_posting claims
                 (''Payment for invoice '' @ show_int (inv_number i) @ '' ('' @ rp_method input @ '')'')
                 ''payment'' None None baseCurrency now
                 [debit_line ''1000'' (rp_amountMinor input), credit_line ''1100'' (rp_amountMinor input)]) db)
               (\<lambda>(entryID, db1). Inr (finishPayment gen (OrganizationID claims) i input now entryID db1))
           else record_fx_payment gen claims input now i baseCurrency db) = Inr (out, db')"
    using rp wf by (rule recordPayment_Inr)
  show thesis
  proof (cases "inv_currency i = baseCurrency")
    case True
    with run obtain memo eid and db1 :: "'a receivables_scheme" where post: "postJournalEntry gen (operational_posting claims memo ''payment'' None None (inv_currency i) now
         [debit_line ''1000'' (rp_amountMinor input), credit_line ''1100'' (rp_amountMinor input)]) db = Inr (eid, db1)"
      and fin: "finishPayment gen (OrganizationID claims) i input now eid db1 = (out, db')" by auto
    show thesis
      by (rule that [OF i(1,3,2) amount, of "inv_totalMinor i \<le> inv_paidMinor i + rp_amountMinor input + inv_creditedMinor i"
            "last (payments db')"])
        (use fin i(2) in \<open>auto simp: finishPayment_def insert_payment_def Let_def update_invoice_def post_frame [OF post]\<close>)
  next
    case False
    with run have "record_fx_payment gen claims input now i baseCurrency db = Inr (out, db')" by simp
    then obtain rate cash booked where fx: "post_fx_payment gen claims input now i baseCurrency rate cash booked db = Inr (out, db')"
      by (rule record_fx_Inr)
    obtain p where "invoices db' = invoices (update_invoice (OrganizationID claims) (inv_id i)
           (mark_paid (inv_paidMinor i + rp_amountMinor input) (inv_totalMinor i \<le> inv_paidMinor i + rp_amountMinor input)) db)"
      "payments db' = payments db @ [p]" "pay_amountMinor p = rp_amountMinor input"
      "pay_invoiceID p = inv_id i" "pay_orgID p = OrganizationID claims"  "pay_id p = ro_paymentID out"
      using fx
    proof (rule fx_payment_Inr, goal_cases)
      case (1 glType baseMemo baseID db3 memo foreignID db4 s)
      then show ?thesis
        by (intro 1(1) [of "last (payments db')"]) (auto simp: update_invoice_def post_frame [OF 1(2)] post_frame [OF 1(3)])
    qed
    with that [OF i(1,3,2) amount] i(2) show thesis by auto
  qed
qed

section \<open>Properties of receivables\<close>

lemma update_invoice_others:
  assumes "keeps_identity f"
  shows "filter (\<lambda>q. inv_id q \<noteq> iid) (invoices (update_invoice orgID iid f db)) = filter (\<lambda>q. inv_id q \<noteq> iid) (invoices db)"
proof -
  have "filter (\<lambda>q. inv_id q \<noteq> iid) (map (\<lambda>i. if inv_id i = iid \<and> inv_orgID i = orgID then f i else i) xs) =
        filter (\<lambda>q. inv_id q \<noteq> iid) xs" for xs
    using assms by (induction xs) (auto simp: keeps_identity_def)
  then show ?thesis by (simp add: update_invoice_def)
qed

definition example_claims :: capabilityClaims where
  "example_claims = \<lparr>Audience = [], Subject = [], OrganizationID = ''org'', CapabilityID = [], InputSHA256 = [],
     ActorID = None, ActorType = ''human'', Permissions = [], AuthSessionID = [], AgentSessionID = [], IntentID = [],
     IssuedAt = 0, ExpiresAt = 0\<rparr>"

definition example_receivables :: receivables where
  "example_receivables = \<lparr>accounts = [example_account ''a1'' ''1000'' ''asset'', example_account ''a2'' ''1100'' ''asset'',
       example_account ''a3'' ''4000'' ''income'', example_account ''a4'' ''2100'' ''liability''],
     journal_entries = [], journal_lines = [], periods = [], uuid_draws = 0,
     organizations = [(''org'', ''USD'')],
     customers = [\<lparr>cus_id = ''c1'', cus_orgID = ''org'', cus_paymentTermDays = Some 30\<rparr>],
     tax_profiles = [], tax_codes = [], fx_rates = [], invoices = [], invoice_lines = [], doc_counters = [],
     payments = [], fx_settlements = []\<rparr>"

definition example_invoice :: "string option \<Rightarrow> string option \<Rightarrow> createInvoiceInput" where
  "example_invoice currency rate = \<lparr>ci_customerID = ''c1'', ci_memo = None,
     ci_lines = [\<lparr>ci_description = ''Work'', ci_quantity = 2000, ci_unitPriceMinor = 500, ci_taxMinor = Some 100, ci_taxCodeID = None\<rparr>],
     ci_currency = currency, ci_fxRate = rate, ci_dueAt = None\<rparr>"

definition example_payment :: "int \<Rightarrow> string option \<Rightarrow> recordPaymentInput" where
  "example_payment amount rate = \<lparr>rp_invoiceNumber = 1, rp_amountMinor = amount, rp_method = ''cash'', rp_settleFXRate = rate\<rparr>"

definition run_state :: "receivables \<Rightarrow> ('a \<times> receivables) result \<Rightarrow> receivables" where
  "run_state db r = (case r of Inr (_, db') \<Rightarrow> db' | Inl _ \<Rightarrow> db)"

lemma run_state_Inr: "\<not> isl r \<Longrightarrow> \<exists>out. r = Inr (out, run_state db r)"
  by (cases r) (auto simp: run_state_def)

definition example_now :: int where "example_now = 1710000000000"

definition example_invoiced :: receivables where
  "example_invoiced = run_state example_receivables
     (createInvoice example_gen example_claims (example_invoice None None) example_now example_receivables)"

definition example_paid :: receivables where
  "example_paid = run_state example_invoiced
     (recordPayment example_gen example_claims (example_payment 300 None) example_now example_invoiced)"

lemma example_gen_supply: "uuid_supply example_gen"
  using example_gen_inj by (simp add: uuid_supply_def example_gen_def)

lemma example_receivables_ok: "receivables_ok example_gen example_receivables"
proof -
  have "books_ok example_gen example_receivables"
    by (auto simp: books_ok_def accounts_ok_def entries_ok_def example_receivables_def example_account_def example_gen_def)
  then show ?thesis
    by (auto simp: receivables_ok_def receivables_wf_def numbering_ok_def reconciled_def code_balance_def
        open_receivables_def paid_is_live_def example_receivables_def)
qed

lemma example_invoiced:
  "\<exists>out. createInvoice example_gen example_claims (example_invoice None None) example_now example_receivables = Inr (out, example_invoiced)"
proof -
  have "\<not> isl (createInvoice example_gen example_claims (example_invoice None None) example_now example_receivables)" by code_simp
  then show ?thesis unfolding example_invoiced_def by (rule run_state_Inr)
qed

lemma example_paid:
  "\<exists>out. recordPayment example_gen example_claims (example_payment 300 None) example_now example_invoiced = Inr (out, example_paid)"
proof -
  have "\<not> isl (recordPayment example_gen example_claims (example_payment 300 None) example_now example_invoiced)" by code_simp
  then show ?thesis unfolding example_paid_def by (rule run_state_Inr)
qed

lemma example_history: "receivables_history example_gen example_receivables example_paid"
  using example_invoiced example_paid
  by (blast intro: receivables_history.intros receivables_step.intros)

text \<open>
  C3. The receivables subledger and the general ledger never diverge. Start from well-formed
  tables and run any sequence of successful invoices, payments in the base or in a foreign
  currency, payment reversals and credit notes: in every organization and currency the
  balance of account 1100 equals the sum of the open amounts of the invoices, and every
  invoice has a paid amount equal to the sum of its unreversed payments with paid plus
  credited never above the total.
\<close>
theorem receivables_reconcile:
  assumes "receivables_history gen db db'" and "receivables_ok gen db" and "uuid_supply gen"
  shows "receivables_ok gen db' \<and> code_balance db' orgID currency ''1100'' = open_receivables db' orgID currency \<and>
    (\<forall>i \<in> set (invoices db'). inv_paidMinor i = live_payments db' i \<and> 0 \<le> inv_creditedMinor i \<and>
       inv_paidMinor i + inv_creditedMinor i \<le> inv_totalMinor i)"
proof -
  have ok: "receivables_ok gen db'" using assms by (rule history_keeps_ok)
  then have wf: "receivables_wf gen db'" by (simp add: receivables_ok_def)
  show ?thesis using ok receivables_wfD(7) [OF wf]
    by (auto simp: receivables_ok_def reconciled_def arCode_def paid_is_live_def invoice_ok_def)
qed

theorem receivables_reconcile_witness:
  "code_balance example_paid ''org'' ''USD'' ''1100'' = open_receivables example_paid ''org'' ''USD'' \<and>
   open_receivables example_paid ''org'' ''USD'' = 800"
proof -
  have "open_receivables example_paid ''org'' ''USD'' = 800" by code_simp
  with receivables_reconcile [OF example_history example_receivables_ok example_gen_supply, of "''org''" "''USD''"] show ?thesis by simp
qed

lemma payment_effect:
  assumes "receivables_ok gen db" and "uuid_supply gen" and "recordPayment gen claims input now db = Inr (out, db')"
  shows "\<exists>i \<in> set (invoices db). inv_number i = rp_invoiceNumber input \<and> inv_orgID i = OrganizationID claims \<and>
    0 < rp_amountMinor input \<and> rp_amountMinor input \<le> invoice_open i \<and>
    (\<exists>i' \<in> set (invoices db'). inv_id i' = inv_id i \<and> inv_paidMinor i' = inv_paidMinor i + rp_amountMinor input \<and>
       filter (\<lambda>q. inv_id q \<noteq> inv_id i) (invoices db') = filter (\<lambda>q. inv_id q \<noteq> inv_id i) (invoices db)) \<and>
    open_receivables db' (inv_orgID i) (inv_currency i) = open_receivables db (inv_orgID i) (inv_currency i) - rp_amountMinor input"
proof -
  from assms(1) have wf: "receivables_wf gen db" by (simp add: receivables_ok_def)
  obtain i p full where i: "i \<in> set (invoices db)" "inv_number i = rp_invoiceNumber input"
      "inv_orgID i = OrganizationID claims" "rp_amountMinor input \<le> invoice_open i"
    and inv: "invoices db' = invoices (update_invoice (inv_orgID i) (inv_id i)
           (mark_paid (inv_paidMinor i + rp_amountMinor input) full) db)"
    and p: "payments db' = payments db @ [p]" "pay_amountMinor p = rp_amountMinor input"
    using wf assms(3) by (rule recordPayment_rows)
  let ?f = "mark_paid (inv_paidMinor i + rp_amountMinor input) full"
  have f: "keeps_identity ?f" by (simp add: keeps_identity_def mark_paid_def)
  have "receivables_wf gen db'" using record_payment_keeps_ok [OF assms] by (simp add: receivables_ok_def)
  from receivables_wfD(8) [OF this, of p] p have "0 < rp_amountMinor input" by (simp add: payment_ok_def)
  moreover have "?f i \<in> set (invoices db')" unfolding inv using i(1) by (force simp: update_invoice_def)
  moreover have "filter (\<lambda>q. inv_id q \<noteq> inv_id i) (invoices db') = filter (\<lambda>q. inv_id q \<noteq> inv_id i) (invoices db)"
    unfolding inv by (rule update_invoice_others [OF f])
  moreover have "open_receivables db' (inv_orgID i) (inv_currency i) = open_receivables db (inv_orgID i) (inv_currency i) - rp_amountMinor input"
    using update_open_receivables [OF receivables_wfD(2) [OF wf] i(1) f, of "inv_orgID i" "inv_currency i"] open_receivables_frame [OF inv]
    by (simp add: invoice_open_def mark_paid_def)
  ultimately show ?thesis using i by (intro bexI [of _ i] conjI bexI [of _ "?f i"]) (auto simp: mark_paid_def)
qed

text \<open>
  C19. A payment moves exactly its amount: it is refused when it is not positive or exceeds
  the open amount of the invoice, otherwise the invoice with that number gets its paid
  amount raised by it, no other invoice changes, and the open receivables in the invoice's
  currency fall by it.
\<close>
theorem payment_moves_amount:
  assumes "receivables_ok gen db" and "uuid_supply gen" and "recordPayment gen claims input now db = Inr (out, db')"
  shows "\<exists>i \<in> set (invoices db). inv_number i = rp_invoiceNumber input \<and> inv_orgID i = OrganizationID claims \<and>
    0 < rp_amountMinor input \<and> rp_amountMinor input \<le> invoice_open i \<and>
    (\<exists>i' \<in> set (invoices db'). inv_id i' = inv_id i \<and> inv_paidMinor i' = inv_paidMinor i + rp_amountMinor input \<and>
       filter (\<lambda>q. inv_id q \<noteq> inv_id i) (invoices db') = filter (\<lambda>q. inv_id q \<noteq> inv_id i) (invoices db)) \<and>
    open_receivables db' (inv_orgID i) (inv_currency i) = open_receivables db (inv_orgID i) (inv_currency i) - rp_amountMinor input"
  using assms by (rule payment_effect)

theorem payment_moves_amount_witness:
  "open_receivables example_paid ''org'' ''USD'' = open_receivables example_invoiced ''org'' ''USD'' - 300"
proof -
  have ok: "receivables_ok example_gen example_invoiced"
    using example_invoiced create_invoice_keeps_ok [OF example_receivables_ok example_gen_supply] by blast
  have one: "\<forall>i \<in> set (invoices example_invoiced). inv_orgID i = ''org'' \<and> inv_currency i = ''USD''" by code_simp
  obtain out where "recordPayment example_gen example_claims (example_payment 300 None) example_now example_invoiced = Inr (out, example_paid)"
    using example_paid by blast
  from payment_moves_amount [OF ok example_gen_supply this] one show ?thesis by (auto simp: example_payment_def)
qed

text \<open>
  C18. Reversing a payment undoes recording it: the refund is the recorded amount, the open
  receivables of every organization and currency and the control account return to what
  they were before the payment, and the same payment cannot be reversed a second time.
\<close>
theorem payment_reversal_restores:
  assumes ok: "receivables_ok gen db" and gen: "uuid_supply gen"
    and rp: "recordPayment gen claims pay now db = Inr (out, db1)"
    and rv: "reversePayment gen claims rvi now' db1 = Inr (out', db2)" and same: "vp_paymentID rvi = ro_paymentID out"
  shows "vo_refundedMinor out' = rp_amountMinor pay \<and>
    open_receivables db2 orgID currency = open_receivables db orgID currency \<and>
    code_balance db2 orgID currency ''1100'' = code_balance db orgID currency ''1100'' \<and>
    isl (reversePayment gen claims rvi now'' db2)"
proof -
  have wf: "receivables_wf gen db" and rec: "reconciled db" using ok by (auto simp: receivables_ok_def)
  have ok1: "receivables_ok gen db1" using ok gen rp by (rule record_payment_keeps_ok)
  then have wf1: "receivables_wf gen db1" by (simp add: receivables_ok_def)
  obtain i p full where i: "i \<in> set (invoices db)"
    and inv1: "invoices db1 = invoices (update_invoice (inv_orgID i) (inv_id i)
           (mark_paid (inv_paidMinor i + rp_amountMinor pay) full) db)"
    and p: "payments db1 = payments db @ [p]" "pay_id p = ro_paymentID out" "pay_amountMinor p = rp_amountMinor pay"
      "pay_invoiceID p = inv_id i"
    using wf rp by (rule recordPayment_rows)
  let ?f = "mark_paid (inv_paidMinor i + rp_amountMinor pay) full"
  have f: "keeps_identity ?f" by (simp add: keeps_identity_def mark_paid_def)
  obtain q j status where q: "q \<in> set (payments db1)" "pay_id q = vp_paymentID rvi" and j: "j \<in> set (invoices db1)"
      "inv_id j = pay_invoiceID q"
    and ref: "vo_refundedMinor out' = pay_amountMinor q"
    and inv2: "invoices db2 = invoices (update_invoice (inv_orgID j) (inv_id j)
           (\<lambda>r. r\<lparr>inv_paidMinor := inv_paidMinor j - pay_amountMinor q, inv_status := status\<rparr>) db1)"
    and rev2: "entry_reversed db2 (pay_orgID q) (pay_entryID q)" and pay2: "payments db2 = payments db1" and ok2: "receivables_ok gen db2"
    using ok1 gen rv by (rule reverse_payment_effect)
  have "q = p" using distinct_keyD [OF receivables_wfD(3) [OF wf1] q(1), of p] p q(2) same by simp
  have fi: "?f i \<in> set (invoices db1)" unfolding inv1 using i by (force simp: update_invoice_def)
  have "j = ?f i" using distinct_keyD [OF receivables_wfD(2) [OF wf1] j(1) fi] j(2) p(4) \<open>q = p\<close> f
    by (simp add: keeps_identity_def)
  have open1: "open_receivables db1 o' c = open_receivables db o' c - (if o' = inv_orgID i \<and> c = inv_currency i then rp_amountMinor pay else 0)" for o' c
    using update_open_receivables [OF receivables_wfD(2) [OF wf] i f, of o' c] open_receivables_frame [OF inv1, of o' c]
    by (simp add: invoice_open_def mark_paid_def)
  let ?g = "\<lambda>r. r\<lparr>inv_paidMinor := inv_paidMinor j - pay_amountMinor q, inv_status := status\<rparr>"
  have g: "keeps_identity ?g" by (simp add: keeps_identity_def)
  have open2: "open_receivables db2 o' c = open_receivables db o' c" for o' c
    using update_open_receivables [OF receivables_wfD(2) [OF wf1] j(1) g, of o' c] open_receivables_frame [OF inv2, of o' c]
      \<open>j = ?f i\<close> \<open>q = p\<close> p(3) by (simp add: open1 invoice_open_def mark_paid_def)
  have "isl (reversePayment gen claims rvi now'' db2)"
  proof (rule ccontr)
    assume "\<not> ?thesis"
    then obtain out'' db3 where "reversePayment gen claims rvi now'' db2 = Inr (out'', db3)"
      by (cases "reversePayment gen claims rvi now'' db2") auto
    with ok2 gen obtain r where "r \<in> set (payments db2)" "pay_id r = vp_paymentID rvi"
      "\<not> entry_reversed db2 (pay_orgID r) (pay_entryID r)" by (rule reverse_payment_effect)
    moreover from this have "r = q" using distinct_keyD [OF receivables_wfD(3) [OF wf1], of r q] pay2 q by simp
    ultimately show False using rev2 by simp
  qed
  with open2 ref p(3) \<open>q = p\<close> ok2 rec show ?thesis by (simp add: receivables_ok_def reconciled_def arCode_def)
qed

definition example_reversal :: reversePaymentInput where
  "example_reversal = \<lparr>vp_paymentID = example_gen 8, vp_reason = ''bounced''\<rparr>"

definition example_refunded :: receivables where
  "example_refunded = run_state example_paid (reversePayment example_gen example_claims example_reversal example_now example_paid)"

theorem payment_reversal_restores_witness:
  "open_receivables example_refunded ''org'' ''USD'' = open_receivables example_invoiced ''org'' ''USD'' \<and>
   isl (reversePayment example_gen example_claims example_reversal example_now example_refunded)"
proof -
  have ok: "receivables_ok example_gen example_invoiced"
    using example_invoiced create_invoice_keeps_ok [OF example_receivables_ok example_gen_supply] by blast
  obtain out where rp: "recordPayment example_gen example_claims (example_payment 300 None) example_now example_invoiced = Inr (out, example_paid)"
    using example_paid by blast
  have "map_sum id (ro_paymentID \<circ> fst) (recordPayment example_gen example_claims (example_payment 300 None) example_now example_invoiced)
        = Inr (vp_paymentID example_reversal)" by code_simp
  with rp have same: "vp_paymentID example_reversal = ro_paymentID out" by simp
  have "\<not> isl (reversePayment example_gen example_claims example_reversal example_now example_paid)" by code_simp
  then obtain out' where rv: "reversePayment example_gen example_claims example_reversal example_now example_paid = Inr (out', example_refunded)"
    unfolding example_refunded_def using run_state_Inr by blast
  from payment_reversal_restores [OF ok example_gen_supply rp rv same] show ?thesis by blast
qed


text \<open>
  C20. An invoice is created whole: its total is positive and is the sum of its net and tax
  amounts, its number is above every number the organization has used, it opens unpaid, it
  adds exactly its total to the open receivables of its currency, and its journal entry
  puts that total on account 1100.
\<close>
theorem invoice_created_whole:
  assumes "receivables_ok gen db" and "uuid_supply gen" and "createInvoice gen claims input now db = Inr (out, db')"
  shows "\<exists>i. invoices db' = invoices db @ [i] \<and> inv_id i = co_invoiceID out \<and> inv_number i = co_invoiceNumber out \<and>
      (\<forall>q \<in> set (invoices db). inv_orgID q = inv_orgID i \<longrightarrow> inv_number q < inv_number i) \<and>
      0 < inv_totalMinor i \<and> inv_subtotalMinor i + inv_taxMinor i = inv_totalMinor i \<and>
      inv_totalMinor i = co_totalMinor out \<and> inv_paidMinor i = 0 \<and> inv_creditedMinor i = 0 \<and>
      open_receivables db' (inv_orgID i) (inv_currency i) = open_receivables db (inv_orgID i) (inv_currency i) + co_totalMinor out \<and>
      entry_code_net db' (OrganizationID claims) ''1100'' (co_entryID out) = co_totalMinor out"
proof -
  from assms(1) have wf: "receivables_wf gen db" by (simp add: receivables_ok_def)
  obtain currency rate resolved subtotal tax tot due number db1 memo eid where
    fold: "fold_result (resolve_step db (OrganizationID claims)) [] (ci_lines input) = Inr resolved"
    and sums: "subtotal = sum_list (map rl_netMinor resolved)" "tax = sum_list (map rl_taxMinor resolved)"
      "tot = sum_list (map rl_grossMinor resolved)" "0 < tot" "tot \<le> maxDatabaseInteger"
    and num: "nextInvoiceNumber (OrganizationID claims) db = Inr (number, db1)"
    and post0: "postJournalEntry gen (operational_posting claims memo ''invoice'' (Some (gen (uuid_draws db1))) None currency now
           (invoice_posting_lines tot resolved))
           (db1\<lparr>uuid_draws := Suc (uuid_draws db1),
                invoices := invoices db1 @ [new_invoice_row (gen (uuid_draws db1)) claims input number currency rate
                  subtotal tax tot now due],
                invoice_lines := invoice_lines db1 @ map (new_invoice_line (gen (uuid_draws db1))) resolved\<rparr>) = Inr (eid, db')"
    and out: "out = \<lparr>co_invoiceID = gen (uuid_draws db1), co_invoiceNumber = number, co_totalMinor = tot,
                       co_entryID = eid, co_currency = currency\<rparr>"
    using assms(3) by (rule createInvoice_Inr)
  note n = nextInvoiceNumber_Inr [OF num receivables_wfD(1) [OF wf]]
  let ?i = "new_invoice_row (gen (uuid_draws db)) claims input number currency rate subtotal tax tot now due"
  let ?db2 = "add_invoice (OrganizationID claims) number ?i (map (new_invoice_line (gen (uuid_draws db))) resolved) db"
  have post: "postJournalEntry gen (operational_posting claims memo ''invoice'' (Some (gen (uuid_draws db))) None currency now
           (invoice_posting_lines tot resolved)) ?db2 = Inr (eid, db')"
    using post0 unfolding n(1) add_invoice_def by simp
  have rok: "\<forall>r \<in> set resolved. resolved_ok r" by (rule resolve_fold_ok [OF wf fold]) simp
  have "books_ok gen ?db2"
    using receivables_wf_parts(1) [OF wf] by (rule books_ok_cong) (simp_all add: add_invoice_def)
  from post_entry_code_net(1) [OF this post, of arCode]
  have "entry_code_net db' (OrganizationID claims) ''1100'' eid = tot" by (simp add: invoice_posting_ar [OF rok]) (simp add: arCode_def)
  moreover have "invoices db' = invoices db @ [?i]" using post_frame(1) [OF post] by simp
  ultimately show ?thesis using resolved_sums(1) [OF rok] sums(1-4) n(2) out n(1)
    by (intro exI [of _ ?i]) (auto simp: new_invoice_row_def open_receivables_def invoice_open_def)
qed

theorem invoice_created_whole_witness:
  "length (invoices example_invoiced) = 1 \<and> open_receivables example_invoiced ''org'' ''USD'' = 1100"
proof -
  obtain out where "createInvoice example_gen example_claims (example_invoice None None) example_now example_receivables = Inr (out, example_invoiced)"
    using example_invoiced by blast
  from invoice_created_whole [OF example_receivables_ok example_gen_supply this]
  have "length (invoices example_invoiced) = 1" by (auto simp: example_receivables_def)
  moreover have "open_receivables example_invoiced ''org'' ''USD'' = 1100" by code_simp
  ultimately show ?thesis by simp
qed

definition example_invoiced_eur :: receivables where
  "example_invoiced_eur = run_state example_receivables
     (createInvoice example_gen example_claims (example_invoice (Some ''EUR'') (Some ''1.1'')) example_now example_receivables)"

definition example_credited :: "receivables \<Rightarrow> receivables" where
  "example_credited db = run_state db (executeCreditNote example_gen example_claims
     \<lparr>cn_invoiceID = example_gen 0, cn_amountMinor = 100, cn_reason = ''goodwill''\<rparr> example_now db)"

definition settled_report :: "receivables \<Rightarrow> (bool \<times> string \<times> int) list" where
  "settled_report db = (case recordPayment example_gen example_claims (example_payment 1000 (Some ''1.2'')) example_now db of
     Inr (out, db') \<Rightarrow> map (\<lambda>i. (ro_fullyPaid out, inv_status i, invoice_open i)) (invoices db') | Inl _ \<Rightarrow> [])"

text \<open>
  The two currency branches of a payment disagree on when an invoice is settled: after a
  credit note of 100, paying the remaining 1000 of an invoice of 1100 marks it paid in the
  base currency, while the same payment of a foreign-currency invoice reports that it is
  not fully paid and leaves it in status sent although nothing is open.
\<close>
theorem fx_payment_ignores_credit:
  "settled_report (example_credited example_invoiced) = [(True, ''paid'', 0)] \<and>
   settled_report (example_credited example_invoiced_eur) = [(False, ''sent'', 0)]"
  by code_simp

end
