(* ===== verification/Pipeline.thy ===== *)
theory Pipeline
  imports Inputs Approval Reconciliation
begin

text \<open>
  The receivables capabilities behind the pipeline: the part of the executor's two dispatch
  tables (src/apps/api/internal/capability/executor.go) that parses createInvoice,
  recordPayment, reversePayment and creditNote and calls their handlers, and what the
  pipeline promises for every set of handlers that keeps an invariant (the locale
  \<open>capability_contract\<close>).
\<close>

section \<open>Encoding of inputs and outputs\<close>

definition opt_member :: "string \<Rightarrow> ('v \<Rightarrow> json) \<Rightarrow> 'v option \<Rightarrow> (string \<times> json) list" where
  "opt_member key enc v = (case v of None \<Rightarrow> [] | Some x \<Rightarrow> [(key, enc x)])"

abbreviation jint :: "int \<Rightarrow> json" where "jint n \<equiv> JNum (show_int n)"

definition invoice_line_value :: "createInvoiceLine \<Rightarrow> json" where
  "invoice_line_value l =
     JObj ([(''description'', JStr (ci_description l)), (''quantity'', jint (ci_quantity l)),
            (''unitPriceMinor'', jint (ci_unitPriceMinor l))]
           @ opt_member ''taxMinor'' jint (ci_taxMinor l) @ opt_member ''taxCodeId'' JStr (ci_taxCodeID l))"

definition invoice_value :: "createInvoiceInput \<Rightarrow> json" where
  "invoice_value i =
     JObj ((''customerId'', JStr (ci_customerID i)) # opt_member ''memo'' JStr (ci_memo i)
           @ [(''lines'', JArr (map invoice_line_value (ci_lines i)))]
           @ opt_member ''currency'' JStr (ci_currency i) @ opt_member ''fxRate'' JStr (ci_fxRate i)
           @ opt_member ''dueAt'' JStr (ci_dueAt i))"

definition payment_value :: "recordPaymentInput \<Rightarrow> json" where
  "payment_value p =
     JObj ([(''invoiceNumber'', jint (rp_invoiceNumber p)), (''amountMinor'', jint (rp_amountMinor p)),
            (''method'', JStr (rp_method p))] @ opt_member ''settleFxRate'' JStr (rp_settleFXRate p))"

definition reversal_value :: "reversePaymentInput \<Rightarrow> json" where
  "reversal_value v = JObj [(''paymentId'', JStr (vp_paymentID v)), (''reason'', JStr (vp_reason v))]"

definition credit_value :: "creditNoteInput \<Rightarrow> json" where
  "credit_value c =
     JObj [(''invoiceId'', JStr (cn_invoiceID c)), (''amountMinor'', jint (cn_amountMinor c)), (''reason'', JStr (cn_reason c))]"

definition invoice_output :: "createInvoiceOutput \<Rightarrow> json" where
  "invoice_output out =
     JObj [(''invoiceId'', JStr (co_invoiceID out)), (''invoiceNumber'', jint (co_invoiceNumber out)),
           (''totalMinor'', jint (co_totalMinor out)), (''entryId'', JStr (co_entryID out)), (''currency'', JStr (co_currency out))]"

definition payment_output :: "recordPaymentOutput \<Rightarrow> json" where
  "payment_output out =
     JObj ([(''paymentId'', JStr (ro_paymentID out)), (''entryId'', JStr (ro_entryID out)), (''fullyPaid'', JBool (ro_fullyPaid out))]
           @ opt_member ''gainLossMinor'' jint (ro_gainLossMinor out) @ opt_member ''baseEntryId'' JStr (ro_baseEntryID out)
           @ opt_member ''foreignEntryId'' JStr (ro_foreignEntryID out))"

definition reversal_output :: "reversePaymentOutput \<Rightarrow> json" where
  "reversal_output out =
     JObj [(''reversalEntryIds'', JArr (map JStr (vo_reversalEntryIDs out))), (''refundedMinor'', jint (vo_refundedMinor out)),
           (''invoiceNumber'', jint (vo_invoiceNumber out)), (''outstandingMinor'', jint (vo_outstandingMinor out))]"

definition credit_output :: "creditNoteOutput \<Rightarrow> json" where
  "credit_output out =
     JObj [(''entryId'', JStr (cno_entryID out)), (''creditedMinor'', jint (cno_creditedMinor out)),
           (''invoiceBalanceMinor'', jint (cno_invoiceBalanceMinor out))]"

section \<open>Dispatch\<close>

definition map_result :: "('a \<Rightarrow> 'b) \<Rightarrow> 'a result \<Rightarrow> 'b result" where
  "map_result f r = bind_result r (\<lambda>x. Inr (f x))"

definition accounting_parse :: "string \<Rightarrow> string \<Rightarrow> capability_input result" where
  "accounting_parse capabilityID raw =
     (if capabilityID = ''accounting.createInvoice'' then map_result CreateInvoiceI (ParseCreateInvoiceInput raw)
      else if capabilityID = ''accounting.recordPayment'' then map_result RecordPaymentI (ParseRecordPaymentInput raw)
      else if capabilityID = ''accounting.reversePayment'' then map_result ReversePaymentI (ParseReversePaymentInput raw)
      else if capabilityID = ''accounting.creditNote'' then map_result CreditNoteI (ParseCreditNoteInput raw)
      else Inr (OtherI JNull))"

fun accounting_value :: "capability_input \<Rightarrow> json" where
  "accounting_value (CreateInvoiceI i) = invoice_value i"
| "accounting_value (RecordPaymentI p) = payment_value p"
| "accounting_value (ReversePaymentI v) = reversal_value v"
| "accounting_value (CreditNoteI c) = credit_value c"
| "accounting_value _ = JNull"

fun accounting_run ::
  "uuid_source \<Rightarrow> capabilityClaims \<Rightarrow> capability_input \<Rightarrow> int \<Rightarrow> 'a receivables_scheme \<Rightarrow> (json \<times> 'a receivables_scheme) result" where
  "accounting_run gen claims (CreateInvoiceI i) now db = map_result (apfst invoice_output) (createInvoice gen claims i now db)"
| "accounting_run gen claims (RecordPaymentI p) now db = map_result (apfst payment_output) (recordPayment gen claims p now db)"
| "accounting_run gen claims (ReversePaymentI v) now db = map_result (apfst reversal_output) (reversePayment gen claims v now db)"
| "accounting_run gen claims (CreditNoteI c) now db = map_result (apfst credit_output) (executeCreditNote gen claims c now db)"
| "accounting_run gen claims _ now db = Inl ''unsupported capability input''"

definition accounting_impl :: "uuid_source \<Rightarrow> 'a receivables_scheme capability_impl" where
  "accounting_impl gen = \<lparr>impl_parse = accounting_parse, impl_value = accounting_value, impl_run = accounting_run gen\<rparr>"

section \<open>Handlers that keep an invariant\<close>

locale capability_contract =
  fixes impl :: "'d capability_impl"
    and good :: "'d \<Rightarrow> bool"
  assumes run_keeps: "good d \<Longrightarrow> impl_run impl claims input now d = Inr (out, d') \<Longrightarrow> good d'"
begin

lemma effect_keeps:
  assumes "exec_effect env impl claims capabilityID spec input inputHash finalize now db = Inr (r, db')"
    and "good (domain db)"
    and "\<And>f db1 db2. finalize = Some f \<Longrightarrow> f db1 = Inr db2 \<Longrightarrow> domain db2 = domain db1"
  shows "good (domain db')"
  using assms(1)
proof (rule exec_effect_approvals)
  fix db1 :: "'d exec_db" and out
  assume "impl_run impl claims input now (domain db) = Inr (out, domain db1)"
  with assms(2) have "good (domain db1)" by (rule run_keeps)
  moreover assume "(case finalize of None \<Rightarrow> Inr db1 | Some f \<Rightarrow> f db1) = Inr db'"
  then have "domain db' = domain db1" using assms(3) by (cases finalize) auto
  ultimately show ?thesis by simp
qed

lemma execute_keeps:
  assumes "executeWithFinalizer env impl claims capabilityID rawInput system approvedApprovalID finalize lease now db = Inr (r, db')"
    and "good (domain db)"
    and "\<And>f db1 db2. finalize = Some f \<Longrightarrow> f db1 = Inr db2 \<Longrightarrow> domain db2 = domain db1"
  shows "good (domain db')"
  using assms(1)
proof (cases rule: executeWithFinalizer_cases)
  case kept
  with assms(2) show ?thesis by (simp add: no_effect_def)
next
  case (effect spec db1 input inputHash db2)
  have "domain db2 = domain db"
    using no_effect_trans [OF exec_enter_no_effect(1) [OF effect(2)] exec_gate_no_effect [OF effect(4)]] by (simp add: no_effect_def)
  with assms(2) have "good (domain db2)" by simp
  from effect_keeps [OF effect(5) this assms(3)] show ?thesis .
qed

lemma decide_execute_keeps:
  assumes "good (domain db)"
  shows "good (domain (snd (decide_execute env impl claims input row now later db)))"
proof -
  have "good (domain db1)"
    if "ExecuteWithApprovalFinalizer env' impl claims' cap raw (Some (finishTx c i s m t)) later db = Inr (r, db1)" for env' claims' cap raw c i s m t r db1
    using that unfolding ExecuteWithApprovalFinalizer_def option.case
    by (rule execute_keeps) (use assms in \<open>auto dest: finishTx_domain\<close>)
  then show ?thesis using assms
    by (auto simp: decide_execute_def restorePending_def dest: finishTx_domain split: sum.splits prod.splits)
qed

lemma step_keeps:
  assumes "approval_step env impl db db'" and "good (domain db)"
  shows "good (domain db')"
  using assms(1)
proof cases
  case (call claims capabilityID rawInput now r)
  then have "executeWithFinalizer (exec_env.truncate env) impl claims capabilityID rawInput False [] None None now db = Inr (r, db')"
    by (simp add: Execute_def execute_call_def)
  from execute_keeps [OF this assms(2)] show ?thesis by simp
next
  case (job request rawInput now r)
  then show ?thesis using assms(2)
    by (auto simp: ExecuteSystem_def execute_call_def split: option.splits if_splits intro: execute_keeps)
next
  case (claim claims input now t)
  from decide_claim_domain [OF claim] assms(2) show ?thesis by simp
next
  case (execute claims input row now later answer)
  then show ?thesis using decide_execute_keeps [OF assms(2), of env claims input row now later] by simp
qed

lemma history_keeps: "approval_history env impl db db' \<Longrightarrow> good (domain db) \<Longrightarrow> good (domain db')"
  by (induction rule: rtranclp_induct) (auto intro: step_keeps)

end

text \<open>The receivables handlers keep the receivables invariant, whatever the source of ids.\<close>

interpretation accounting: capability_contract "accounting_impl gen" "\<lambda>d. uuid_supply gen \<longrightarrow> receivables_ok gen d" for gen
proof
  fix claims input now out
  fix d d' :: "'a receivables_scheme"
  assume ok: "uuid_supply gen \<longrightarrow> receivables_ok gen d" and "impl_run (accounting_impl gen) claims input now d = Inr (out, d')"
  then have "accounting_run gen claims input now d = Inr (out, d')" by (simp add: accounting_impl_def)
  then have "receivables_step gen d d'"
    by (cases input) (auto simp: map_result_def intro: receivables_step.intros)
  with ok show "uuid_supply gen \<longrightarrow> receivables_ok gen d'" by (auto intro: step_keeps_ok)
qed

end
