(* ===== verification/Stock.thy ===== *)
theory Stock
  imports Governance Reconciliation
begin

text \<open>
  Stock: the movement ledger with its projection of balances, adjustments and transfers
  between locations (src/apps/api/internal/capability/inventory_stock.go and the rebuild of
  inventory_valuation.go; the trigger is \<^verbatim>\<open>stock_balances_apply\<close> of
  src/packages/db/drizzle/0053_stock_projections.sql). Tables are lists of rows in insertion
  order; row locks have no counterpart, a handler being one step. No generated id is the nil
  UUID, by which the index of the balances tells a missing location or lot.
\<close>

section \<open>Tables\<close>

record item_row =
  it_id :: string
  it_orgID :: string
  it_sku :: string
  it_name :: string
  it_kind :: string
  it_unitLabel :: string
  it_salePriceMinor :: int
  it_reorderPoint :: int
  it_imageURL :: "string option"
  it_tags :: "string list"
  it_barcode :: "string option"
  it_archivedAt :: "int option"

record lot_row =
  lt_id :: string
  lt_orgID :: string
  lt_itemID :: string
  lt_code :: string

record location_row =
  lc_id :: string
  lc_orgID :: string
  lc_code :: string
  lc_name :: string

record movement_row =
  mv_id :: string
  mv_orgID :: string
  mv_itemID :: string
  mv_quantityDelta :: int
  mv_reason :: string
  mv_note :: "string option"
  mv_refType :: "string option"
  mv_refID :: "string option"
  mv_unitCostMinor :: "int option"
  mv_locationID :: "string option"
  mv_lotID :: "string option"
  mv_actorType :: string
  mv_actorID :: "string option"

record balance_row =
  bl_orgID :: string
  bl_itemID :: string
  bl_locationID :: "string option"
  bl_lotID :: "string option"
  bl_quantity :: int

record transfer_row =
  tr_id :: string
  tr_orgID :: string
  tr_number :: int
  tr_fromLocation :: string
  tr_toLocation :: string
  tr_status :: string
  tr_note :: "string option"
  tr_reversalOfID :: "string option"
  tr_confirmedAt :: "int option"
  tr_cancelledAt :: "int option"

record transfer_line_row =
  tl_id :: string
  tl_orgID :: string
  tl_transferID :: string
  tl_itemID :: string
  tl_lotID :: "string option"
  tl_quantity :: int
  tl_confirmed :: int

record warehouse = receivables +
  items :: "item_row list"
  lots :: "lot_row list"
  stock_locations :: "location_row list"
  stock_movements :: "movement_row list"
  stock_balances :: "balance_row list"
  stock_transfers :: "transfer_row list"
  stock_transfer_lines :: "transfer_line_row list"

section \<open>The movement ledger\<close>

definition in_int4 :: "int \<Rightarrow> bool" where
  "in_int4 n \<longleftrightarrow> - maxDatabaseInteger - 1 \<le> n \<and> n \<le> maxDatabaseInteger"

definition balance_key :: "balance_row \<Rightarrow> string \<times> string \<times> string option \<times> string option" where
  "balance_key b = (bl_orgID b, bl_itemID b, bl_locationID b, bl_lotID b)"

definition movement_key :: "movement_row \<Rightarrow> string \<times> string \<times> string option \<times> string option" where
  "movement_key m = (mv_orgID m, mv_itemID m, mv_locationID m, mv_lotID m)"

definition new_balance :: "movement_row \<Rightarrow> balance_row" where
  "new_balance m = \<lparr>bl_orgID = mv_orgID m, bl_itemID = mv_itemID m, bl_locationID = mv_locationID m,
     bl_lotID = mv_lotID m, bl_quantity = mv_quantityDelta m\<rparr>"

lemma new_balance_simps [simp]: "balance_key (new_balance m) = movement_key m" "bl_quantity (new_balance m) = mv_quantityDelta m"
  by (simp_all add: new_balance_def balance_key_def movement_key_def)

text \<open>The trigger on the insertion of a movement: add to the balance row of its key, or open one.\<close>

definition stock_balances_apply :: "movement_row \<Rightarrow> balance_row list \<Rightarrow> balance_row list result" where
  "stock_balances_apply m bs =
     (if list_ex (\<lambda>b. balance_key b = movement_key m) bs then
        (if list_ex (\<lambda>b. balance_key b = movement_key m \<and> \<not> in_int4 (bl_quantity b + mv_quantityDelta m)) bs
         then Inl ''integer out of range''
         else Inr (map (\<lambda>b. if balance_key b = movement_key m then b\<lparr>bl_quantity := bl_quantity b + mv_quantityDelta m\<rparr> else b) bs))
      else Inr (bs @ [new_balance m]))"

definition insert_movement :: "movement_row \<Rightarrow> 'a warehouse_scheme \<Rightarrow> 'a warehouse_scheme result" where
  "insert_movement m db =
     (if \<not> in_int4 (mv_quantityDelta m) then Inl ''integer out of range''
      else bind_result (stock_balances_apply m (stock_balances db)) (\<lambda>bs.
        Inr (db\<lparr>stock_movements := stock_movements db @ [m], stock_balances := bs, uuid_draws := Suc (uuid_draws db)\<rparr>)))"

definition inventoryStockOnHand :: "string \<Rightarrow> string \<Rightarrow> string option \<Rightarrow> 'a warehouse_scheme \<Rightarrow> int" where
  "inventoryStockOnHand orgID itemID location db =
     sum_list (map bl_quantity (filter (\<lambda>b. bl_orgID b = orgID \<and> bl_itemID b = itemID \<and>
       (location = None \<or> bl_locationID b = location)) (stock_balances db)))"

definition check_lot :: "string \<Rightarrow> string \<Rightarrow> string option \<Rightarrow> 'a warehouse_scheme \<Rightarrow> unit result" where
  "check_lot orgID itemID lotID db =
     (case lotID of
        None \<Rightarrow> Inr ()
      | Some l \<Rightarrow>
          (case find (\<lambda>r. lt_id r = l \<and> lt_orgID r = orgID) (lots db) of
             None \<Rightarrow> Inl (''lot '' @ l @ '' does not exist in this organization'')
           | Some r \<Rightarrow>
               if lt_itemID r \<noteq> itemID
               then Inl (''lot '' @ l @ '' belongs to a different item; a lot cannot move another item's stock'')
               else Inr ()))"

definition inventoryApplyStockDelta ::
  "uuid_source \<Rightarrow> string \<Rightarrow> string \<Rightarrow> int \<Rightarrow> string \<Rightarrow> string \<Rightarrow> string option \<Rightarrow> string option \<Rightarrow> string option
   \<Rightarrow> string option \<Rightarrow> string \<Rightarrow> string option \<Rightarrow> 'a warehouse_scheme \<Rightarrow> (int \<times> 'a warehouse_scheme) result" where
  "inventoryApplyStockDelta gen orgID itemID quantityDelta reason note refType refID locationID lotID actorType actorID db =
     bind_result (check_lot orgID itemID lotID db) (\<lambda>_.
       let onHand = inventoryStockOnHand orgID itemID None db
       in if onHand + quantityDelta < 0
          then Inl (''cannot move '' @ show_int (- quantityDelta) @ '' thousandths of stock that is not there: only ''
                    @ show_int onHand @ '' on hand for this item'')
          else if locationID \<noteq> None \<and> inventoryStockOnHand orgID itemID locationID db + quantityDelta < 0
          then Inl (''cannot move '' @ show_int (- quantityDelta) @ '' thousandths from this location: only ''
                    @ show_int (inventoryStockOnHand orgID itemID locationID db) @ '' on hand there'')
          else bind_result (insert_movement
                 \<lparr>mv_id = gen (uuid_draws db), mv_orgID = orgID, mv_itemID = itemID, mv_quantityDelta = quantityDelta,
                  mv_reason = reason, mv_note = (if note = [] then None else Some note), mv_refType = refType,
                  mv_refID = refID, mv_unitCostMinor = None, mv_locationID = locationID, mv_lotID = lotID,
                  mv_actorType = actorType, mv_actorID = actorID\<rparr> db)
               (\<lambda>db1. Inr (onHand + quantityDelta, db1)))"

definition inventoryGetOrCreateLot ::
  "uuid_source \<Rightarrow> string \<Rightarrow> string \<Rightarrow> string \<Rightarrow> 'a warehouse_scheme \<Rightarrow> (string \<times> 'a warehouse_scheme) result" where
  "inventoryGetOrCreateLot gen orgID itemID lotCode db =
     (let sel = (\<lambda>r. lt_orgID r = orgID \<and> lt_itemID r = itemID \<and> lt_code r = lotCode)
      in case find sel (lots db) of
           Some r \<Rightarrow> Inr (lt_id r, db)
         | None \<Rightarrow>
             let db1 = db\<lparr>lots := lots db @ [\<lparr>lt_id = gen (uuid_draws db), lt_orgID = orgID, lt_itemID = itemID, lt_code = lotCode\<rparr>],
                          uuid_draws := Suc (uuid_draws db)\<rparr>
             in (case find sel (lots db1) of
                   Some r \<Rightarrow> Inr (lt_id r, db1)
                 | None \<Rightarrow> Inl (''could not resolve lot '' @ quoted lotCode)))"

definition inventoryLocationIDByCode :: "string \<Rightarrow> string \<Rightarrow> 'a warehouse_scheme \<Rightarrow> string result" where
  "inventoryLocationIDByCode orgID code db =
     (case find (\<lambda>l. lc_orgID l = orgID \<and> lc_code l = code) (stock_locations db) of
        None \<Rightarrow> Inl (''no location with code '' @ code)
      | Some l \<Rightarrow> Inr (lc_id l))"

section \<open>Adjustments\<close>

record inventoryAdjustStockInput =
  ia_SKU :: string
  ia_QuantityDelta :: int
  ia_Note :: string
  ia_LotCode :: "string option"
  ia_LocationCode :: "string option"

definition item_by_sku :: "string \<Rightarrow> string \<Rightarrow> 'a warehouse_scheme \<Rightarrow> item_row result" where
  "item_by_sku orgID sku db =
     (case find (\<lambda>i. it_orgID i = orgID \<and> it_sku i = sku) (items db) of
        None \<Rightarrow> Inl (''no item with SKU '' @ sku)
      | Some i \<Rightarrow> Inr i)"

definition adjusted_lot ::
  "uuid_source \<Rightarrow> string \<Rightarrow> string \<Rightarrow> inventoryAdjustStockInput \<Rightarrow> 'a warehouse_scheme \<Rightarrow> (string option \<times> 'a warehouse_scheme) result" where
  "adjusted_lot gen orgID itemID input db =
     (case ia_LotCode input of
        None \<Rightarrow> Inr (None, db)
      | Some code \<Rightarrow>
          if ia_QuantityDelta input < 0 then Inl ''lotCode applies only to inward corrections''
          else bind_result (inventoryGetOrCreateLot gen orgID itemID code db) (\<lambda>(l, db1). Inr (Some l, db1)))"

definition adjusted_location :: "string \<Rightarrow> inventoryAdjustStockInput \<Rightarrow> 'a warehouse_scheme \<Rightarrow> string option result" where
  "adjusted_location orgID input db =
     (case ia_LocationCode input of
        None \<Rightarrow> Inr None
      | Some code \<Rightarrow> bind_result (inventoryLocationIDByCode orgID code db) (\<lambda>l. Inr (Some l)))"

definition inventoryAdjustStock ::
  "uuid_source \<Rightarrow> capabilityClaims \<Rightarrow> inventoryAdjustStockInput \<Rightarrow> 'a warehouse_scheme \<Rightarrow> (int \<times> 'a warehouse_scheme) result" where
  "inventoryAdjustStock gen claims input db =
     (let orgID = OrganizationID claims in
      bind_result (item_by_sku orgID (ia_SKU input) db) (\<lambda>item.
      if it_kind item = ''service'' then Inl (quoted (it_name item) @ '' is a service; there is nothing to stock'')
      else
        bind_result (adjusted_lot gen orgID (it_id item) input db) (\<lambda>(lotID, db1).
        bind_result (adjusted_location orgID input db1) (\<lambda>locationID.
        inventoryApplyStockDelta gen orgID (it_id item) (ia_QuantityDelta input) ''adjustment'' (ia_Note input) None None
          locationID lotID (ActorType claims) (ActorID claims) db1))))"

section \<open>Transfers\<close>

record inventoryTransferLineInput =
  tn_SKU :: string
  tn_QuantityThousandths :: int
  tn_LotCode :: "string option"

record inventoryCreateTransferInput =
  tc_FromLocationCode :: string
  tc_ToLocationCode :: string
  tc_Lines :: "inventoryTransferLineInput list"
  tc_Note :: "string option"

record inventoryConfirmTransferInput =
  tf_TransferID :: string
  tf_Lines :: "(string \<times> int) list option"

definition inventoryLoadTransfer :: "string \<Rightarrow> string \<Rightarrow> 'a warehouse_scheme \<Rightarrow> transfer_row option" where
  "inventoryLoadTransfer orgID transferID db =
     find (\<lambda>t. tr_id t = transferID \<and> tr_orgID t = orgID) (stock_transfers db)"

definition inventoryLoadTransferLines :: "string \<Rightarrow> 'a warehouse_scheme \<Rightarrow> transfer_line_row list" where
  "inventoryLoadTransferLines transferID db =
     stable_sort (\<lambda>a b. tl_id a < tl_id b) (filter (\<lambda>l. tl_transferID l = transferID) (stock_transfer_lines db))"

definition update_line :: "string \<Rightarrow> int \<Rightarrow> 'a warehouse_scheme \<Rightarrow> 'a warehouse_scheme" where
  "update_line lineID confirmed db =
     db\<lparr>stock_transfer_lines := map (\<lambda>l. if tl_id l = lineID then l\<lparr>tl_confirmed := confirmed\<rparr> else l) (stock_transfer_lines db)\<rparr>"

definition update_transfer :: "string \<Rightarrow> (transfer_row \<Rightarrow> transfer_row) \<Rightarrow> 'a warehouse_scheme \<Rightarrow> 'a warehouse_scheme" where
  "update_transfer transferID change db =
     db\<lparr>stock_transfers := map (\<lambda>t. if tr_id t = transferID then change t else t) (stock_transfers db)\<rparr>"

definition inventoryConfirmLine ::
  "uuid_source \<Rightarrow> capabilityClaims \<Rightarrow> transfer_row \<Rightarrow> transfer_line_row \<Rightarrow> int \<Rightarrow> 'a warehouse_scheme \<Rightarrow> 'a warehouse_scheme result" where
  "inventoryConfirmLine gen claims transfer line quantity db =
     (let orgID = OrganizationID claims; remaining = tl_quantity line - tl_confirmed line;
          atSource = inventoryStockOnHand orgID (tl_itemID line) (Some (tr_fromLocation transfer)) db;
          leg = (\<lambda>delta location. inventoryApplyStockDelta gen orgID (tl_itemID line) delta ''transfer'' [] (Some ''stock_transfer'')
                   (Some (tr_id transfer)) (Some location) (tl_lotID line) (ActorType claims) (ActorID claims))
      in if quantity \<le> 0 \<or> remaining < quantity
         then Inl (''confirm quantity must be between 1 and '' @ show_int remaining @ '' thousandths for this line'')
         else if atSource < quantity
         then Inl (''insufficient stock at source location: '' @ show_int atSource @ '' thousandths on hand, ''
                   @ show_int quantity @ '' requested'')
         else bind_result (leg (- quantity) (tr_fromLocation transfer) db) (\<lambda>(_, db1).
              bind_result (leg quantity (tr_toLocation transfer) db1) (\<lambda>(_, db2).
              Inr (update_line (tl_id line) (tl_confirmed line + quantity) db2))))"

text \<open>The lines of a new transfer, resolved one after the other; a lot named for the first time is created.\<close>

definition resolve_transfer_line ::
  "uuid_source \<Rightarrow> string \<Rightarrow> (string \<times> string option \<times> int) list \<times> 'a warehouse_scheme \<Rightarrow> inventoryTransferLineInput
   \<Rightarrow> ((string \<times> string option \<times> int) list \<times> 'a warehouse_scheme) result" where
  "resolve_transfer_line gen orgID st line =
     (case st of (resolved, db) \<Rightarrow>
       bind_result (item_by_sku orgID (tn_SKU line) db) (\<lambda>item.
         case tn_LotCode line of
           None \<Rightarrow> Inr (resolved @ [(it_id item, None, tn_QuantityThousandths line)], db)
         | Some code \<Rightarrow>
             bind_result (inventoryGetOrCreateLot gen orgID (it_id item) code db) (\<lambda>(l, db1).
             Inr (resolved @ [(it_id item, Some l, tn_QuantityThousandths line)], db1))))"

definition next_transfer_number :: "string \<Rightarrow> 'a warehouse_scheme \<Rightarrow> int" where
  "next_transfer_number orgID db =
     (case map tr_number (filter (\<lambda>t. tr_orgID t = orgID) (stock_transfers db)) of
        [] \<Rightarrow> 1
      | n # ns \<Rightarrow> fold max ns n + 1)"

definition insert_transfer_line ::
  "uuid_source \<Rightarrow> string \<Rightarrow> string \<Rightarrow> 'a warehouse_scheme \<Rightarrow> string \<times> string option \<times> int \<Rightarrow> 'a warehouse_scheme result" where
  "insert_transfer_line gen orgID transferID db line =
     (case line of (itemID, lotID, quantity) \<Rightarrow>
        if \<not> in_int4 quantity then Inl ''integer out of range''
        else Inr (db\<lparr>stock_transfer_lines := stock_transfer_lines db @
                       [\<lparr>tl_id = gen (uuid_draws db), tl_orgID = orgID, tl_transferID = transferID, tl_itemID = itemID,
                         tl_lotID = lotID, tl_quantity = quantity, tl_confirmed = 0\<rparr>],
                     uuid_draws := Suc (uuid_draws db)\<rparr>))"

definition insert_transfer :: "uuid_source \<Rightarrow> (string \<Rightarrow> transfer_row) \<Rightarrow> 'a warehouse_scheme \<Rightarrow> transfer_row \<times> 'a warehouse_scheme" where
  "insert_transfer gen row db =
     (let t = row (gen (uuid_draws db))
      in (t, db\<lparr>stock_transfers := stock_transfers db @ [t], uuid_draws := Suc (uuid_draws db)\<rparr>))"

definition inventoryCreateTransfer ::
  "uuid_source \<Rightarrow> capabilityClaims \<Rightarrow> inventoryCreateTransferInput \<Rightarrow> 'a warehouse_scheme
   \<Rightarrow> ((string \<times> int \<times> string) \<times> 'a warehouse_scheme) result" where
  "inventoryCreateTransfer gen claims input db =
     (let orgID = OrganizationID claims in
      if tc_FromLocationCode input = tc_ToLocationCode input then Inl ''source and destination locations must differ''
      else
        bind_result (inventoryLocationIDByCode orgID (tc_FromLocationCode input) db) (\<lambda>fromID.
        bind_result (inventoryLocationIDByCode orgID (tc_ToLocationCode input) db) (\<lambda>toID.
        bind_result (fold_result (resolve_transfer_line gen orgID) ([], db) (tc_Lines input)) (\<lambda>(resolved, db1).
          let number = next_transfer_number orgID db1
          in if \<not> in_int4 number then Inl ''integer out of range''
             else case insert_transfer gen (\<lambda>i. \<lparr>tr_id = i, tr_orgID = orgID, tr_number = number, tr_fromLocation = fromID,
                      tr_toLocation = toID, tr_status = ''pending'', tr_note = tc_Note input, tr_reversalOfID = None,
                      tr_confirmedAt = None, tr_cancelledAt = None\<rparr>) db1 of (t, db2) \<Rightarrow>
               bind_result (fold_result (insert_transfer_line gen orgID (tr_id t)) db2 resolved) (\<lambda>db3.
               Inr ((tr_id t, number, ''pending''), db3))))))"

text \<open>One turn of the confirmation loop: the overrides left, the quantity confirmed so far, the tables.\<close>

definition confirm_step ::
  "uuid_source \<Rightarrow> capabilityClaims \<Rightarrow> transfer_row \<Rightarrow> (string \<times> int) list \<times> int \<times> 'a warehouse_scheme \<Rightarrow> transfer_line_row
   \<Rightarrow> ((string \<times> int) list \<times> int \<times> 'a warehouse_scheme) result" where
  "confirm_step gen claims transfer st line =
     (case st of (overrides, confirmedNow, db) \<Rightarrow>
        let quantity = (case map_of overrides (tl_id line) of Some q \<Rightarrow> q | None \<Rightarrow> tl_quantity line - tl_confirmed line);
            left = filter (\<lambda>(k, _). k \<noteq> tl_id line) overrides
        in if tl_quantity line \<le> tl_confirmed line then Inr (left, confirmedNow, db)
           else bind_result (inventoryConfirmLine gen claims transfer line quantity db) (\<lambda>db1.
                Inr (left, confirmedNow + quantity, db1)))"

definition inventoryConfirmTransfer ::
  "uuid_source \<Rightarrow> capabilityClaims \<Rightarrow> inventoryConfirmTransferInput \<Rightarrow> int \<Rightarrow> 'a warehouse_scheme
   \<Rightarrow> ((string \<times> string \<times> int) \<times> 'a warehouse_scheme) result" where
  "inventoryConfirmTransfer gen claims input now db =
     (case inventoryLoadTransfer (OrganizationID claims) (tf_TransferID input) db of
        None \<Rightarrow> Inl (''no transfer '' @ tf_TransferID input)
      | Some transfer \<Rightarrow>
          if tr_status transfer = ''confirmed'' then Inl ''transfer is already fully confirmed''
          else if tr_status transfer \<noteq> ''pending'' \<and> tr_status transfer \<noteq> ''partial''
          then Inl (''transfer is '' @ tr_status transfer @ ''; only pending or partial transfers can be confirmed'')
          else
            bind_result (fold_result (confirm_step gen claims transfer)
                (rev (case tf_Lines input of None \<Rightarrow> [] | Some ls \<Rightarrow> ls), 0, db)
                (inventoryLoadTransferLines (tr_id transfer) db)) (\<lambda>(overrides, confirmedNow, db1).
              if overrides \<noteq> [] then Inl ''confirmation references a line that does not belong to this transfer''
              else
                let full = list_all (\<lambda>l. tl_transferID l = tr_id transfer \<longrightarrow> tl_quantity l \<le> tl_confirmed l) (stock_transfer_lines db1);
                    status = (if full then ''confirmed'' else ''partial'')
                in Inr ((tr_id transfer, status, confirmedNow),
                        update_transfer (tr_id transfer)
                          (\<lambda>t. t\<lparr>tr_status := status, tr_confirmedAt := (if full then Some now else None)\<rparr>) db1)))"

definition inventoryCancelTransfer ::
  "string \<Rightarrow> string \<Rightarrow> int \<Rightarrow> 'a warehouse_scheme \<Rightarrow> (bool \<times> 'a warehouse_scheme) result" where
  "inventoryCancelTransfer orgID transferID now db =
     (case inventoryLoadTransfer orgID transferID db of
        None \<Rightarrow> Inl (''no transfer '' @ transferID)
      | Some transfer \<Rightarrow>
          if tr_status transfer \<noteq> ''pending''
          then Inl (''transfer is '' @ tr_status transfer @ ''; only untouched drafts can be cancelled - reverse it instead'')
          else if 0 < sum_list (map tl_confirmed (filter (\<lambda>l. tl_transferID l = tr_id transfer) (stock_transfer_lines db)))
          then Inl ''quantity already moved; reverse the transfer instead''
          else Inr (True, update_transfer (tr_id transfer) (\<lambda>t. t\<lparr>tr_status := ''cancelled'', tr_cancelledAt := Some now\<rparr>) db))"

text \<open>One moved line of a reversal: a line of the new transfer, confirmed at once the other way.\<close>

definition reverse_line ::
  "uuid_source \<Rightarrow> capabilityClaims \<Rightarrow> transfer_row \<Rightarrow> 'a warehouse_scheme \<Rightarrow> transfer_line_row \<Rightarrow> 'a warehouse_scheme result" where
  "reverse_line gen claims reversal db line =
     bind_result (insert_transfer_line gen (OrganizationID claims) (tr_id reversal) db (tl_itemID line, tl_lotID line, tl_confirmed line)) (\<lambda>db1.
     inventoryConfirmLine gen claims reversal
       (line\<lparr>tl_id := gen (uuid_draws db), tl_transferID := tr_id reversal, tl_quantity := tl_confirmed line, tl_confirmed := 0\<rparr>)
       (tl_confirmed line) db1)"

definition inventoryReverseTransfer ::
  "uuid_source \<Rightarrow> capabilityClaims \<Rightarrow> string \<Rightarrow> int \<Rightarrow> 'a warehouse_scheme \<Rightarrow> (string \<times> 'a warehouse_scheme) result" where
  "inventoryReverseTransfer gen claims transferID now db =
     (let orgID = OrganizationID claims in
      case inventoryLoadTransfer orgID transferID db of
        None \<Rightarrow> Inl (''no transfer '' @ transferID)
      | Some transfer \<Rightarrow>
          if list_ex (\<lambda>t. tr_orgID t = orgID \<and> tr_reversalOfID t = Some (tr_id transfer)) (stock_transfers db)
          then Inl (''transfer '' @ tr_id transfer @ '' has already been reversed'')
          else if tr_status transfer \<noteq> ''confirmed'' \<and> tr_status transfer \<noteq> ''partial''
          then Inl (''transfer is '' @ tr_status transfer @ ''; only moved transfers can be reversed'')
          else
            let moved = filter (\<lambda>l. 0 < tl_confirmed l) (inventoryLoadTransferLines (tr_id transfer) db);
                number = next_transfer_number orgID db
            in if moved = [] then Inl ''nothing was confirmed; cancel the draft instead''
               else if \<not> in_int4 number then Inl ''integer out of range''
               else case insert_transfer gen (\<lambda>i. \<lparr>tr_id = i, tr_orgID = orgID, tr_number = number,
                        tr_fromLocation = tr_toLocation transfer, tr_toLocation = tr_fromLocation transfer, tr_status = ''confirmed'',
                        tr_note = Some (''Reversal of transfer #'' @ show_int (tr_number transfer)),
                        tr_reversalOfID = Some (tr_id transfer), tr_confirmedAt = Some now, tr_cancelledAt = None\<rparr>) db of (reversal, db1) \<Rightarrow>
                 bind_result (fold_result (reverse_line gen claims reversal) db1 moved) (\<lambda>db2.
                 Inr (tr_id reversal, update_transfer (tr_id transfer) (\<lambda>t. t\<lparr>tr_status := ''reversed''\<rparr>) db2)))"

section \<open>Rebuilding the projection\<close>

definition moved_quantity :: "movement_row list \<Rightarrow> string \<times> string \<times> string option \<times> string option \<Rightarrow> int" where
  "moved_quantity ms k = sum_list (map mv_quantityDelta (filter (\<lambda>m. movement_key m = k) ms))"

definition balance_of_key :: "movement_row list \<Rightarrow> string \<times> string \<times> string option \<times> string option \<Rightarrow> balance_row" where
  "balance_of_key ms k =
     (case k of (orgID, itemID, locationID, lotID) \<Rightarrow>
        \<lparr>bl_orgID = orgID, bl_itemID = itemID, bl_locationID = locationID, bl_lotID = lotID, bl_quantity = moved_quantity ms k\<rparr>)"

definition inventoryRebuildStockBalances :: "string \<Rightarrow> 'a warehouse_scheme \<Rightarrow> ((int \<times> int) \<times> 'a warehouse_scheme) result" where
  "inventoryRebuildStockBalances orgID db =
     (let ms = filter (\<lambda>m. mv_orgID m = orgID) (stock_movements db);
          rows = map (balance_of_key ms) (remdups (map movement_key ms))
      in if list_ex (\<lambda>b. \<not> in_int4 (bl_quantity b)) rows then Inl ''integer out of range''
         else Inr ((int (length rows), sum_list (map bl_quantity rows)),
                   db\<lparr>stock_balances := filter (\<lambda>b. bl_orgID b \<noteq> orgID) (stock_balances db) @ rows\<rparr>))"

section \<open>The projection\<close>

definition projected :: "'a warehouse_scheme \<Rightarrow> bool" where
  "projected db \<longleftrightarrow>
     distinct (map balance_key (stock_balances db)) \<and>
     balance_key ` set (stock_balances db) = movement_key ` set (stock_movements db) \<and>
     (\<forall>b \<in> set (stock_balances db). in_int4 (bl_quantity b) \<and>
        bl_quantity b = moved_quantity (stock_movements db) (balance_key b))"

definition held :: "(string \<times> string \<times> string option \<times> string option \<Rightarrow> bool) \<Rightarrow> balance_row list \<Rightarrow> int" where
  "held Q bs = sum_list (map bl_quantity (filter (\<lambda>b. Q (balance_key b)) bs))"

definition at_place :: "string \<Rightarrow> string \<Rightarrow> string option \<Rightarrow> string \<times> string \<times> string option \<times> string option \<Rightarrow> bool" where
  "at_place orgID itemID location k \<longleftrightarrow>
     fst k = orgID \<and> fst (snd k) = itemID \<and> (location = None \<or> fst (snd (snd k)) = location)"

lemma on_hand_held: "inventoryStockOnHand orgID itemID location db = held (at_place orgID itemID location) (stock_balances db)"
  by (simp add: inventoryStockOnHand_def held_def at_place_def balance_key_def)

lemma held_add_to_key:
  assumes "distinct (map balance_key bs)"
  shows "held Q (map (\<lambda>b. if balance_key b = k then b\<lparr>bl_quantity := bl_quantity b + d\<rparr> else b) bs) =
    held Q bs + (if k \<in> balance_key ` set bs \<and> Q k then d else 0)"
proof -
  have key: "balance_key (b\<lparr>bl_quantity := n\<rparr>) = balance_key b" for b n by (simp add: balance_key_def)
  show ?thesis using assms
  proof (induction bs)
    case Nil
    then show ?case by (simp add: held_def)
  next
    case (Cons b bs)
    then have IH: "held Q (map (\<lambda>b. if balance_key b = k then b\<lparr>bl_quantity := bl_quantity b + d\<rparr> else b) bs) =
      held Q bs + (if k \<in> balance_key ` set bs \<and> Q k then d else 0)" by simp
    have cons: "held Q (c # cs) = (if Q (balance_key c) then bl_quantity c else 0) + held Q cs" for c cs by (simp add: held_def)
    from Cons.prems show ?case by (auto simp: cons IH key)
  qed
qed

lemma has_key_conv: "list_ex (\<lambda>b. balance_key b = k) bs \<longleftrightarrow> k \<in> balance_key ` set bs"
  by (auto simp: list_ex_iff)

lemma apply_held:
  assumes "stock_balances_apply m bs = Inr bs'" and "distinct (map balance_key bs)"
  shows "held Q bs' = held Q bs + (if Q (movement_key m) then mv_quantityDelta m else 0)"
proof (cases "movement_key m \<in> balance_key ` set bs")
  case True
  then have "bs' = map (\<lambda>b. if balance_key b = movement_key m then b\<lparr>bl_quantity := bl_quantity b + mv_quantityDelta m\<rparr> else b) bs"
    using assms(1) by (simp add: stock_balances_apply_def has_key_conv split: if_splits)
  with True held_add_to_key [OF assms(2), of Q "movement_key m" "mv_quantityDelta m"] show ?thesis by simp
next
  case False
  with assms(1) have "bs' = bs @ [new_balance m]" by (simp add: stock_balances_apply_def has_key_conv new_balance_def)
  then show ?thesis by (simp add: held_def)
qed

lemma apply_keys:
  assumes "stock_balances_apply m bs = Inr bs'"
  shows "map balance_key bs' =
    (if movement_key m \<in> balance_key ` set bs then map balance_key bs else map balance_key bs @ [movement_key m])"
proof -
  have "map balance_key (map (\<lambda>b. if balance_key b = movement_key m then b\<lparr>bl_quantity := bl_quantity b + mv_quantityDelta m\<rparr> else b) bs)
    = map balance_key bs" by (simp add: balance_key_def)
  with assms show ?thesis by (auto simp: stock_balances_apply_def has_key_conv split: if_splits)
qed

lemma insert_movement_Inr:
  assumes "insert_movement m db = Inr db'"
  obtains bs where "stock_balances_apply m (stock_balances db) = Inr bs" "in_int4 (mv_quantityDelta m)"
    "db' = db\<lparr>stock_movements := stock_movements db @ [m], stock_balances := bs, uuid_draws := Suc (uuid_draws db)\<rparr>"
  using assms by (auto simp: insert_movement_def split: if_splits)

lemma held_key:
  assumes "distinct (map balance_key bs)" and "b \<in> set bs"
  shows "held (\<lambda>k. k = balance_key b) bs = bl_quantity b"
  using assms
proof (induction bs)
  case (Cons c bs)
  have "balance_key c = balance_key b \<Longrightarrow> filter (\<lambda>d. balance_key d = balance_key b) bs = []"
    using Cons.prems(1) by (auto simp: filter_empty_conv image_iff)
  moreover have "balance_key c = balance_key b \<Longrightarrow> c = b" using Cons.prems by force
  ultimately show ?case using Cons by (auto simp: held_def)
qed simp

lemma moved_quantity_snoc [simp]:
  "moved_quantity (ms @ [m]) k = moved_quantity ms k + (if movement_key m = k then mv_quantityDelta m else 0)"
  by (simp add: moved_quantity_def)

lemma moved_quantity_none: "k \<notin> movement_key ` set ms \<Longrightarrow> moved_quantity ms k = 0"
  by (induction ms) (auto simp: moved_quantity_def)

lemma apply_in_int4:
  assumes "stock_balances_apply m bs = Inr bs'" and "\<forall>b \<in> set bs. in_int4 (bl_quantity b)" and "in_int4 (mv_quantityDelta m)"
  shows "\<forall>b \<in> set bs'. in_int4 (bl_quantity b)"
  using assms by (auto simp: stock_balances_apply_def list_ex_iff split: if_splits)

lemma insert_movement_projected:
  assumes "insert_movement m db = Inr db'" and "projected db"
  shows "projected db'"
proof -
  obtain bs where a: "stock_balances_apply m (stock_balances db) = Inr bs" and r: "in_int4 (mv_quantityDelta m)"
    and d: "db' = db\<lparr>stock_movements := stock_movements db @ [m], stock_balances := bs, uuid_draws := Suc (uuid_draws db)\<rparr>"
    using assms(1) by (rule insert_movement_Inr)
  let ?bs = "stock_balances db" and ?ms = "stock_movements db"
  have dist: "distinct (map balance_key ?bs)" and keys: "balance_key ` set ?bs = movement_key ` set ?ms"
    and q: "\<forall>b \<in> set ?bs. in_int4 (bl_quantity b) \<and> bl_quantity b = moved_quantity ?ms (balance_key b)"
    using assms(2) by (auto simp: projected_def)
  have dist2: "distinct (map balance_key bs)" using apply_keys [OF a] dist by (auto split: if_splits)
  have keys2: "balance_key ` set bs = movement_key ` set (?ms @ [m])"
    using arg_cong [OF apply_keys [OF a], of set] keys by (auto split: if_splits)
  have old: "held (\<lambda>k. k = key) ?bs = moved_quantity ?ms key" for key
  proof (cases "key \<in> balance_key ` set ?bs")
    case True
    with q held_key [OF dist] show ?thesis by auto
  next
    case False
    then have "filter (\<lambda>b. balance_key b = key) ?bs = []" by (auto simp: filter_empty_conv)
    with False moved_quantity_none keys show ?thesis by (simp add: held_def)
  qed
  have "bl_quantity b = moved_quantity (?ms @ [m]) (balance_key b)" if "b \<in> set bs" for b
    using held_key [OF dist2 that] apply_held [OF a dist, of "\<lambda>k. k = balance_key b"] old [of "balance_key b"] by auto
  moreover have "\<forall>b \<in> set bs. in_int4 (bl_quantity b)" by (rule apply_in_int4 [OF a _ r]) (use q in blast)
  ultimately show ?thesis using dist2 keys2 unfolding projected_def by (simp add: d)
qed

lemma projected_held:
  assumes "projected db"
  shows "held Q (stock_balances db) = sum_list (map mv_quantityDelta (filter (\<lambda>m. Q (movement_key m)) (stock_movements db)))"
proof -
  let ?bs = "stock_balances db" and ?ms = "stock_movements db"
  have dist: "distinct (map balance_key ?bs)" and keys: "movement_key ` set ?ms \<subseteq> set (map balance_key ?bs)"
    and q: "\<And>b. b \<in> set ?bs \<Longrightarrow> bl_quantity b = moved_quantity ?ms (balance_key b)"
    using assms by (auto simp: projected_def)
  have "held Q ?bs = sum_list (map (moved_quantity ?ms) (filter Q (map balance_key ?bs)))"
    unfolding held_def filter_map map_map o_def by (rule sum_list_map_cong) (simp add: q)
  then show ?thesis using sum_list_by_key [OF dist keys, of mv_quantityDelta Q] by (simp add: moved_quantity_def [abs_def])
qed

section \<open>Movements and what they hold\<close>

definition place_delta :: "string \<Rightarrow> string \<Rightarrow> string option \<Rightarrow> movement_row \<Rightarrow> int" where
  "place_delta orgID itemID location m = (if at_place orgID itemID location (movement_key m) then mv_quantityDelta m else 0)"

lemma insert_movement_on_hand:
  assumes "insert_movement m db = Inr db'" and "projected db"
  shows "inventoryStockOnHand orgID itemID location db' =
    inventoryStockOnHand orgID itemID location db + place_delta orgID itemID location m"
  using assms by (auto elim!: insert_movement_Inr simp: on_hand_held place_delta_def projected_def apply_held)

lemma on_hand_cong: "stock_balances db' = stock_balances db \<Longrightarrow> inventoryStockOnHand orgID itemID location db' = inventoryStockOnHand orgID itemID location db"
  by (simp add: inventoryStockOnHand_def)

lemma projected_cong:
  "stock_balances db' = stock_balances db \<Longrightarrow> stock_movements db' = stock_movements db \<Longrightarrow> projected db' = projected db"
  by (simp add: projected_def)

text \<open>What is at hand of every item is counted from the projection and never below zero, nor is it at any location.\<close>

definition stocked :: "'a warehouse_scheme \<Rightarrow> bool" where
  "stocked db \<longleftrightarrow> projected db \<and> (\<forall>orgID itemID location. 0 \<le> inventoryStockOnHand orgID itemID location db)"

lemma stocked_cong:
  "stock_balances db' = stock_balances db \<Longrightarrow> stock_movements db' = stock_movements db \<Longrightarrow> stocked db' = stocked db"
  by (simp add: stocked_def projected_def inventoryStockOnHand_def)

text \<open>A movement of stock: what it needs, the row it appends, and that it keeps the stock above zero.\<close>

lemma stock_delta_Inr:
  assumes run: "inventoryApplyStockDelta gen orgID itemID d reason note rt ri location lotID at ai db = Inr (n, db')"
    and ok: "stocked db"
  shows "stocked db'" and "n = inventoryStockOnHand orgID itemID None db + d"
    and "\<And>o' i l. inventoryStockOnHand o' i l db' = inventoryStockOnHand o' i l db +
      (if o' = orgID \<and> i = itemID \<and> (l = None \<or> location = l) then d else 0)"
    and "\<exists>m. stock_movements db' = stock_movements db @ [m] \<and> movement_key m = (orgID, itemID, location, lotID) \<and>
      mv_quantityDelta m = d \<and> mv_reason m = reason \<and> mv_unitCostMinor m = None"
    and "\<exists>ms bs. db' = db\<lparr>stock_movements := ms, stock_balances := bs, uuid_draws := Suc (uuid_draws db)\<rparr>"
proof -
  from ok have p: "projected db" and nonneg: "\<And>o' i l. 0 \<le> inventoryStockOnHand o' i l db" by (auto simp: stocked_def)
  let ?m = "\<lparr>mv_id = gen (uuid_draws db), mv_orgID = orgID, mv_itemID = itemID, mv_quantityDelta = d, mv_reason = reason,
    mv_note = (if note = [] then None else Some note), mv_refType = rt, mv_refID = ri, mv_unitCostMinor = None,
    mv_locationID = location, mv_lotID = lotID, mv_actorType = at, mv_actorID = ai\<rparr>"
  define m where "m = ?m"
  have key: "movement_key m = (orgID, itemID, location, lotID)" and m: "mv_quantityDelta m = d" "mv_reason m = reason" "mv_unitCostMinor m = None"
    by (simp_all add: m_def movement_key_def)
  from run have g: "0 \<le> inventoryStockOnHand orgID itemID None db + d"
      "location \<noteq> None \<Longrightarrow> 0 \<le> inventoryStockOnHand orgID itemID location db + d"
    and ins: "insert_movement m db = Inr db'" and n: "n = inventoryStockOnHand orgID itemID None db + d"
    unfolding inventoryApplyStockDelta_def Let_def m_def [symmetric] by (auto split: if_splits)
  have eff: "inventoryStockOnHand o' i l db' = inventoryStockOnHand o' i l db +
      (if o' = orgID \<and> i = itemID \<and> (l = None \<or> location = l) then d else 0)" for o' i l
    by (auto simp: insert_movement_on_hand [OF ins p] place_delta_def at_place_def key m)
  have "0 \<le> inventoryStockOnHand o' i l db'" for o' i l
    using g nonneg [of o' i l] by (cases l) (auto simp: eff)
  with insert_movement_projected [OF ins p] show "stocked db'" by (simp add: stocked_def)
  show "n = inventoryStockOnHand orgID itemID None db + d" by (rule n)
  show "inventoryStockOnHand o' i l db' = inventoryStockOnHand o' i l db +
      (if o' = orgID \<and> i = itemID \<and> (l = None \<or> location = l) then d else 0)" for o' i l by (rule eff)
  from ins key m show "\<exists>m. stock_movements db' = stock_movements db @ [m] \<and> movement_key m = (orgID, itemID, location, lotID) \<and>
      mv_quantityDelta m = d \<and> mv_reason m = reason \<and> mv_unitCostMinor m = None"
    by (intro exI [of _ m]) (auto elim!: insert_movement_Inr)
  from ins show "\<exists>ms bs. db' = db\<lparr>stock_movements := ms, stock_balances := bs, uuid_draws := Suc (uuid_draws db)\<rparr>"
    by (auto elim!: insert_movement_Inr)
qed

section \<open>Transfers: lemmas\<close>

text \<open>What a confirmed quantity changes at a place, and the tables a confirmation writes.\<close>

definition shift :: "string \<Rightarrow> transfer_row \<Rightarrow> string \<Rightarrow> int \<Rightarrow> string \<Rightarrow> string \<Rightarrow> string option \<Rightarrow> int" where
  "shift orgID t item q o' i l =
     (if o' = orgID \<and> i = item
      then (if l = None \<or> l = Some (tr_toLocation t) then q else 0) - (if l = None \<or> l = Some (tr_fromLocation t) then q else 0)
      else 0)"

definition relocates :: "'a warehouse_scheme \<Rightarrow> 'a warehouse_scheme \<Rightarrow> bool" where
  "relocates db db' \<longleftrightarrow>
     (\<exists>ms bs ls n. db' = db\<lparr>stock_movements := stock_movements db @ ms, stock_balances := bs, stock_transfer_lines := ls, uuid_draws := n\<rparr> \<and>
        uuid_draws db \<le> n \<and> (\<forall>m \<in> set ms. mv_reason m = ''transfer'') \<and>
        (\<forall>o' i. sum_list (map mv_quantityDelta (filter (\<lambda>m. mv_orgID m = o' \<and> mv_itemID m = i) ms)) = 0))"

lemma relocates_refl: "relocates db db"
  unfolding relocates_def by (intro exI [of _ "[]"] exI [of _ "stock_balances db"] exI [of _ "stock_transfer_lines db"] exI [of _ "uuid_draws db"]) simp

lemma relocatesE:
  assumes "relocates db db'"
  obtains ms bs ls n where "db' = db\<lparr>stock_movements := stock_movements db @ ms, stock_balances := bs, stock_transfer_lines := ls, uuid_draws := n\<rparr>"
    "uuid_draws db \<le> n" "\<forall>m \<in> set ms. mv_reason m = ''transfer''"
    "\<forall>o' i. sum_list (map mv_quantityDelta (filter (\<lambda>m. mv_orgID m = o' \<and> mv_itemID m = i) ms)) = 0"
  using assms by (auto simp: relocates_def)

lemma relocates_trans:
  assumes "relocates db db1" and "relocates db1 db2"
  shows "relocates db db2"
proof -
  obtain ms bs ls n where 1: "db1 = db\<lparr>stock_movements := stock_movements db @ ms, stock_balances := bs, stock_transfer_lines := ls, uuid_draws := n\<rparr>"
    "uuid_draws db \<le> n" "\<forall>m \<in> set ms. mv_reason m = ''transfer''"
    "\<forall>o' i. sum_list (map mv_quantityDelta (filter (\<lambda>m. mv_orgID m = o' \<and> mv_itemID m = i) ms)) = 0"
    using assms(1) by (rule relocatesE)
  obtain ms' bs' ls' n' where 2: "db2 = db1\<lparr>stock_movements := stock_movements db1 @ ms', stock_balances := bs', stock_transfer_lines := ls', uuid_draws := n'\<rparr>"
    "uuid_draws db1 \<le> n'" "\<forall>m \<in> set ms'. mv_reason m = ''transfer''"
    "\<forall>o' i. sum_list (map mv_quantityDelta (filter (\<lambda>m. mv_orgID m = o' \<and> mv_itemID m = i) ms')) = 0"
    using assms(2) by (rule relocatesE)
  show ?thesis unfolding relocates_def
    by (intro exI [of _ "ms @ ms'"] exI [of _ bs'] exI [of _ ls'] exI [of _ n']) (use 1 2 in auto)
qed

lemma relocates_frame:
  assumes "relocates db db'"
  shows "items db' = items db" "stock_locations db' = stock_locations db" "stock_transfers db' = stock_transfers db"
    "lots db' = lots db" "uuid_draws db \<le> uuid_draws db'"
  using assms by (auto elim!: relocatesE)

lemma relocates_lines: "uuid_draws db \<le> n \<Longrightarrow> relocates db (db\<lparr>stock_transfer_lines := ls, uuid_draws := n\<rparr>)"
  unfolding relocates_def by (intro exI [of _ "[]"] exI [of _ "stock_balances db"] exI [of _ ls] exI [of _ n]) simp

lemma update_line_relocates: "relocates db (update_line k n db)"
  using relocates_lines [of db "uuid_draws db"] by (simp add: update_line_def)

lemma confirm_line_Inr:
  assumes run: "inventoryConfirmLine gen claims t line q db = Inr db'" and ok: "stocked db"
  shows "0 < q" and "q \<le> tl_quantity line - tl_confirmed line" and "stocked db'" and "relocates db db'"
    and "stock_transfer_lines db' = stock_transfer_lines (update_line (tl_id line) (tl_confirmed line + q) db)"
    and "\<And>o' i l. inventoryStockOnHand o' i l db' = inventoryStockOnHand o' i l db + shift (OrganizationID claims) t (tl_itemID line) q o' i l"
proof -
  let ?org = "OrganizationID claims"
  obtain n1 n2 db1 db2 where q: "0 < q" "q \<le> tl_quantity line - tl_confirmed line"
    and a: "inventoryApplyStockDelta gen ?org (tl_itemID line) (- q) ''transfer'' [] (Some ''stock_transfer'') (Some (tr_id t))
        (Some (tr_fromLocation t)) (tl_lotID line) (ActorType claims) (ActorID claims) db = Inr (n1, db1)"
    and b: "inventoryApplyStockDelta gen ?org (tl_itemID line) q ''transfer'' [] (Some ''stock_transfer'') (Some (tr_id t))
        (Some (tr_toLocation t)) (tl_lotID line) (ActorType claims) (ActorID claims) db1 = Inr (n2, db2)"
    and d: "db' = update_line (tl_id line) (tl_confirmed line + q) db2"
    using run by (auto simp: inventoryConfirmLine_def Let_def split: if_splits)
  note A = stock_delta_Inr [OF a ok] and B = stock_delta_Inr [OF b stock_delta_Inr(1) [OF a ok]]
  show "0 < q" and "q \<le> tl_quantity line - tl_confirmed line" by (rule q)+
  show "stocked db'" using B(1) stocked_cong [of db' db2] by (simp add: d update_line_def)
  obtain ms bs ms' bs' where f: "db1 = db\<lparr>stock_movements := ms, stock_balances := bs, uuid_draws := Suc (uuid_draws db)\<rparr>"
    "db2 = db1\<lparr>stock_movements := ms', stock_balances := bs', uuid_draws := Suc (uuid_draws db1)\<rparr>"
    using A(5) B(5) by blast
  obtain m1 m2 where m: "stock_movements db1 = stock_movements db @ [m1]" "stock_movements db2 = stock_movements db1 @ [m2]"
    "movement_key m1 = (?org, tl_itemID line, Some (tr_fromLocation t), tl_lotID line)"
    "movement_key m2 = (?org, tl_itemID line, Some (tr_toLocation t), tl_lotID line)"
    "mv_quantityDelta m1 = - q" "mv_quantityDelta m2 = q" "mv_reason m1 = ''transfer''" "mv_reason m2 = ''transfer''"
    using A(4) B(4) by blast
  have mk: "mv_orgID m1 = ?org" "mv_itemID m1 = tl_itemID line" "mv_orgID m2 = ?org" "mv_itemID m2 = tl_itemID line"
    using m(3,4) by (simp_all add: movement_key_def)
  have "relocates db db2" unfolding relocates_def
    by (intro exI [of _ "[m1, m2]"] exI [of _ bs'] exI [of _ "stock_transfer_lines db"] exI [of _ "Suc (Suc (uuid_draws db))"])
      (use f m mk in auto)
  then show "relocates db db'" unfolding d by (rule relocates_trans [OF _ update_line_relocates])
  show "stock_transfer_lines db' = stock_transfer_lines (update_line (tl_id line) (tl_confirmed line + q) db)"
    by (simp add: d update_line_def f)
  show "inventoryStockOnHand o' i l db' = inventoryStockOnHand o' i l db + shift ?org t (tl_itemID line) q o' i l" for o' i l
    using on_hand_cong [of db' db2 o' i l] B(3) [of o' i l] A(3) [of o' i l] by (auto simp: d update_line_def shift_def)
qed

definition give :: "(string \<Rightarrow> int) \<Rightarrow> transfer_line_row \<Rightarrow> transfer_line_row" where
  "give given l = l\<lparr>tl_confirmed := tl_confirmed l + given (tl_id l)\<rparr>"

lemma give_simps [simp]:
  "tl_id (give given l) = tl_id l" "tl_orgID (give given l) = tl_orgID l" "tl_transferID (give given l) = tl_transferID l"
  "tl_itemID (give given l) = tl_itemID l" "tl_lotID (give given l) = tl_lotID l" "tl_quantity (give given l) = tl_quantity l"
  "tl_confirmed (give given l) = tl_confirmed l + given (tl_id l)"
  by (simp_all add: give_def)

lemma give_zero: "given (tl_id l) = 0 \<Longrightarrow> give given l = l"
  by (simp add: give_def)

lemma give_none [simp]: "map (give (\<lambda>_. 0)) ls = ls" and give_nothing [simp]: "give (\<lambda>_. 0) l = l"
  by (simp_all add: give_def map_idI)

definition confirmed_ok :: "transfer_line_row \<Rightarrow> bool" where
  "confirmed_ok l \<longleftrightarrow> 0 \<le> tl_confirmed l \<and> tl_confirmed l \<le> tl_quantity l"

text \<open>What a confirmation gives to every line it goes through.\<close>

definition confirms :: "string \<Rightarrow> transfer_row \<Rightarrow> transfer_line_row list \<Rightarrow> (string \<Rightarrow> int) \<Rightarrow> 'a warehouse_scheme \<Rightarrow> 'a warehouse_scheme \<Rightarrow> bool" where
  "confirms orgID t ls given db db' \<longleftrightarrow>
     stocked db' \<and> relocates db db' \<and> stock_transfer_lines db' = map (give given) (stock_transfer_lines db) \<and>
     (\<forall>k. k \<notin> tl_id ` set ls \<longrightarrow> given k = 0) \<and>
     (\<forall>l \<in> set ls. 0 \<le> given (tl_id l) \<and> tl_confirmed l + given (tl_id l) \<le> tl_quantity l) \<and>
     (\<forall>o' i p. inventoryStockOnHand o' i p db' = inventoryStockOnHand o' i p db +
        sum_list (map (\<lambda>l. shift orgID t (tl_itemID l) (given (tl_id l)) o' i p) ls))"

lemma shift_zero [simp]: "shift orgID t item 0 o' i p = 0"
  by (simp add: shift_def)

lemma confirms_none: "stocked db \<Longrightarrow> confirms orgID t [] (\<lambda>_. 0) db db"
  by (simp add: confirms_def relocates_refl)

lemma confirms_cons:
  assumes one: "confirms orgID t [l] (\<lambda>k. if k = tl_id l then q else 0) db db1" and rest: "confirms orgID t ls given db1 db2"
    and new: "tl_id l \<notin> tl_id ` set ls"
  shows "confirms orgID t (l # ls) (given(tl_id l := q)) db db2"
proof -
  have z: "given (tl_id l) = 0" using rest new by (simp add: confirms_def)
  have other: "r \<in> set ls \<Longrightarrow> tl_id r \<noteq> tl_id l" for r using new by (metis image_eqI)
  have "give given (give (\<lambda>k. if k = tl_id l then q else 0) r) = give (given(tl_id l := q)) r" for r
    by (simp add: give_def z)
  then have lines: "stock_transfer_lines db2 = map (give (given(tl_id l := q))) (stock_transfer_lines db)"
    using one rest by (simp add: confirms_def)
  have "sum_list (map (\<lambda>r. shift orgID t (tl_itemID r) ((given(tl_id l := q)) (tl_id r)) o' i p) ls) =
    sum_list (map (\<lambda>r. shift orgID t (tl_itemID r) (given (tl_id r)) o' i p) ls)" for o' i p
    by (rule sum_list_map_cong) (use other in simp)
  with one rest lines new z show ?thesis
    unfolding confirms_def by (auto intro: relocates_trans simp: other)
qed

lemma confirm_one:
  assumes run: "inventoryConfirmLine gen claims t line q db = Inr db'" and ok: "stocked db"
    and line: "line \<in> set (stock_transfer_lines db)" and ids: "distinct (map tl_id (stock_transfer_lines db))"
  shows "confirms (OrganizationID claims) t [line] (\<lambda>k. if k = tl_id line then q else 0) db db'"
proof -
  note C = confirm_line_Inr [OF run ok]
  have "(if tl_id r = tl_id line then r\<lparr>tl_confirmed := tl_confirmed line + q\<rparr> else r) = give (\<lambda>k. if k = tl_id line then q else 0) r"
    if "r \<in> set (stock_transfer_lines db)" for r
    using distinct_keyD [OF ids that line] by (auto simp: give_def)
  then have "stock_transfer_lines db' = map (give (\<lambda>k. if k = tl_id line then q else 0)) (stock_transfer_lines db)"
    using C(5) by (simp add: update_line_def)
  with C show ?thesis by (simp add: confirms_def)
qed

lemma confirms_lines:
  assumes "confirms orgID t ls given db db'" and "r \<in> set (stock_transfer_lines db)" and "tl_id r \<notin> tl_id ` set ls"
  shows "r \<in> set (stock_transfer_lines db')"
proof -
  have "give given r = r" using assms(1,3) by (intro give_zero) (simp add: confirms_def)
  with assms(1,2) show ?thesis by (metis confirms_def image_eqI set_map)
qed

lemma confirm_fold:
  assumes "fold_result (confirm_step gen claims t) (ov, n, db) ls = Inr (ov', n', db')"
    and "stocked db" and "distinct (map tl_id ls)" and "set ls \<subseteq> set (stock_transfer_lines db)"
    and "distinct (map tl_id (stock_transfer_lines db))" and "\<forall>l \<in> set ls. confirmed_ok l"
  shows "\<exists>given. confirms (OrganizationID claims) t ls given db db' \<and> n' = n + sum_list (map (\<lambda>l. given (tl_id l)) ls)"
  using assms
proof (induction ls arbitrary: ov n db)
  case Nil
  then show ?case using confirms_none by fastforce
next
  case (Cons l ls)
  obtain ov1 q db1 where step: "fold_result (confirm_step gen claims t) (ov1, n + q, db1) ls = Inr (ov', n', db')"
    and one: "confirms (OrganizationID claims) t [l] (\<lambda>k. if k = tl_id l then q else 0) db db1"
  proof (cases "tl_quantity l \<le> tl_confirmed l")
    case True
    have "confirms (OrganizationID claims) t [l] (\<lambda>k. if k = tl_id l then 0 else 0) db db"
      using Cons.prems(2,6) by (simp add: confirms_def relocates_refl confirmed_ok_def)
    moreover have "confirm_step gen claims t (ov, n, db) l = Inr (filter (\<lambda>(k, _). k \<noteq> tl_id l) ov, n, db)"
      using True by (simp add: confirm_step_def Let_def)
    ultimately show thesis using Cons.prems(1) that [of _ 0 db] by simp
  next
    case False
    define q where "q = (case map_of ov (tl_id l) of Some q \<Rightarrow> q | None \<Rightarrow> tl_quantity l - tl_confirmed l)"
    have "confirm_step gen claims t (ov, n, db) l =
      bind_result (inventoryConfirmLine gen claims t l q db) (\<lambda>db1. Inr (filter (\<lambda>(k, _). k \<noteq> tl_id l) ov, n + q, db1))"
      using False by (simp add: confirm_step_def Let_def q_def)
    with Cons.prems(1) obtain db1 where run: "inventoryConfirmLine gen claims t l q db = Inr db1"
      and rest: "fold_result (confirm_step gen claims t) (filter (\<lambda>(k, _). k \<noteq> tl_id l) ov, n + q, db1) ls = Inr (ov', n', db')"
      by auto
    have "l \<in> set (stock_transfer_lines db)" using Cons.prems(4) by simp
    from that [OF rest confirm_one [OF run Cons.prems(2) this Cons.prems(5)]] show thesis .
  qed
  have st: "stocked db1" and ids: "distinct (map tl_id (stock_transfer_lines db1))"
    using one Cons.prems(5) by (simp_all add: confirms_def comp_def)
  have new: "tl_id l \<notin> tl_id ` set ls" using Cons.prems(3) by auto
  have sub: "set ls \<subseteq> set (stock_transfer_lines db1)"
  proof
    fix r assume "r \<in> set ls"
    then have "tl_id r \<noteq> tl_id l" using new by (metis image_eqI)
    then show "r \<in> set (stock_transfer_lines db1)" using confirms_lines [OF one, of r] \<open>r \<in> set ls\<close> Cons.prems(4) by auto
  qed
  from Cons.IH [OF step st _ sub ids] Cons.prems(3,6) obtain given where
    g: "confirms (OrganizationID claims) t ls given db1 db'" and n': "n' = n + q + sum_list (map (\<lambda>l. given (tl_id l)) ls)" by auto
  have "r \<in> set ls \<Longrightarrow> tl_id r \<noteq> tl_id l" for r using new by (metis image_eqI)
  then have "sum_list (map (\<lambda>r. (given(tl_id l := q)) (tl_id r)) ls) = sum_list (map (\<lambda>r. given (tl_id r)) ls)"
    by (intro sum_list_map_cong) simp
  then have "n' = n + sum_list (map (\<lambda>r. (given(tl_id l := q)) (tl_id r)) (l # ls))" using n' by simp
  with confirms_cons [OF one g new] show ?case by blast
qed

section \<open>The transfer invariant\<close>

definition fresh_lines :: "uuid_source \<Rightarrow> 'a warehouse_scheme \<Rightarrow> bool" where
  "fresh_lines gen db \<longleftrightarrow> distinct (map tl_id (stock_transfer_lines db)) \<and>
     (\<forall>n \<ge> uuid_draws db. gen n \<notin> tl_id ` set (stock_transfer_lines db))"

definition status_agrees :: "transfer_row \<Rightarrow> transfer_line_row \<Rightarrow> bool" where
  "status_agrees t l \<longleftrightarrow> tl_transferID l = tr_id t \<longrightarrow>
     (tr_status t = ''pending'' \<or> tr_status t = ''cancelled'' \<longrightarrow> tl_confirmed l = 0) \<and>
     (tr_status t = ''confirmed'' \<longrightarrow> tl_confirmed l = tl_quantity l)"

definition transfers_ok :: "uuid_source \<Rightarrow> 'a warehouse_scheme \<Rightarrow> bool" where
  "transfers_ok gen db \<longleftrightarrow> fresh_lines gen db \<and> distinct (map tr_id (stock_transfers db)) \<and>
     (\<forall>n \<ge> uuid_draws db. gen n \<notin> tr_id ` set (stock_transfers db)) \<and>
     (\<forall>l \<in> set (stock_transfer_lines db). confirmed_ok l \<and> tl_transferID l \<in> tr_id ` set (stock_transfers db)) \<and>
     (\<forall>t \<in> set (stock_transfers db). \<forall>l \<in> set (stock_transfer_lines db). status_agrees t l)"

definition stock_ok :: "uuid_source \<Rightarrow> 'a warehouse_scheme \<Rightarrow> bool" where
  "stock_ok gen db \<longleftrightarrow> stocked db \<and> transfers_ok gen db"

lemma stock_okD:
  assumes "stock_ok gen db"
  shows "stocked db" "projected db" "transfers_ok gen db" "fresh_lines gen db" "distinct (map tl_id (stock_transfer_lines db))"
    "distinct (map tr_id (stock_transfers db))"
  using assms by (auto simp: stock_ok_def stocked_def transfers_ok_def fresh_lines_def)

lemma load_lines_set [simp]:
  "set (inventoryLoadTransferLines k db) = {l \<in> set (stock_transfer_lines db). tl_transferID l = k}"
  by (auto simp: inventoryLoadTransferLines_def)

lemma load_lines_distinct:
  "distinct (map tl_id (stock_transfer_lines db)) \<Longrightarrow> distinct (map tl_id (inventoryLoadTransferLines k db))"
  by (simp add: inventoryLoadTransferLines_def distinct_map_filter)

lemma load_transfer_Some:
  "inventoryLoadTransfer orgID k db = Some t \<Longrightarrow> t \<in> set (stock_transfers db) \<and> tr_id t = k \<and> tr_orgID t = orgID"
  by (auto simp: inventoryLoadTransfer_def find_Some_iff)

lemma confirm_transfer_Inr:
  assumes run: "inventoryConfirmTransfer gen claims input now db = Inr (out, db')" and ok: "stock_ok gen db"
  obtains t given db1 where "inventoryLoadTransfer (OrganizationID claims) (tf_TransferID input) db = Some t"
    "tr_status t = ''pending'' \<or> tr_status t = ''partial''"
    "confirms (OrganizationID claims) t (inventoryLoadTransferLines (tr_id t) db) given db db1"
    "fst (snd out) = (if \<forall>l \<in> set (stock_transfer_lines db1). tl_transferID l = tr_id t \<longrightarrow> tl_quantity l \<le> tl_confirmed l
       then ''confirmed'' else ''partial'')"
    "db' = update_transfer (tr_id t) (\<lambda>t. t\<lparr>tr_status := fst (snd out),
       tr_confirmedAt := (if fst (snd out) = ''confirmed'' then Some now else None)\<rparr>) db1"
    "snd (snd out) = sum_list (map (\<lambda>l. given (tl_id l)) (inventoryLoadTransferLines (tr_id t) db))"
proof -
  note wf = stock_okD [OF ok]
  from run obtain t overrides confirmedNow db1 where t: "inventoryLoadTransfer (OrganizationID claims) (tf_TransferID input) db = Some t"
    "tr_status t = ''pending'' \<or> tr_status t = ''partial''"
    and fold: "fold_result (confirm_step gen claims t) (rev (case tf_Lines input of None \<Rightarrow> [] | Some ls \<Rightarrow> ls), 0, db)
       (inventoryLoadTransferLines (tr_id t) db) = Inr (overrides, confirmedNow, db1)"
    and out: "(let full = list_all (\<lambda>l. tl_transferID l = tr_id t \<longrightarrow> tl_quantity l \<le> tl_confirmed l) (stock_transfer_lines db1);
                    status = (if full then ''confirmed'' else ''partial'')
                in ((tr_id t, status, confirmedNow),
                        update_transfer (tr_id t)
                          (\<lambda>t. t\<lparr>tr_status := status, tr_confirmedAt := (if full then Some now else None)\<rparr>) db1)) = (out, db')"
    by (auto simp: inventoryConfirmTransfer_def Let_def split: option.splits if_splits)
  have "\<forall>l \<in> set (inventoryLoadTransferLines (tr_id t) db). confirmed_ok l" using wf(3) by (simp add: transfers_ok_def)
  from confirm_fold [OF fold wf(1) load_lines_distinct [OF wf(5)] _ wf(5) this] obtain given where
    "confirms (OrganizationID claims) t (inventoryLoadTransferLines (tr_id t) db) given db db1"
    "confirmedNow = sum_list (map (\<lambda>l. given (tl_id l)) (inventoryLoadTransferLines (tr_id t) db))" by auto
  note c = this
  let ?full = "\<forall>l \<in> set (stock_transfer_lines db1). tl_transferID l = tr_id t \<longrightarrow> tl_quantity l \<le> tl_confirmed l"
  from out have o: "out = (tr_id t, if ?full then ''confirmed'' else ''partial'', confirmedNow)"
    and d: "db' = update_transfer (tr_id t) (\<lambda>t. t\<lparr>tr_status := (if ?full then ''confirmed'' else ''partial''),
       tr_confirmedAt := (if ?full then Some now else None)\<rparr>) db1"
    by (simp_all add: Let_def list_all_iff)
  show thesis
  proof (cases ?full)
    case True
    show thesis by (rule that [OF t c(1)]) (use o d c(2) True in simp_all)
  next
    case False
    show thesis by (rule that [OF t c(1)]) (use o d c(2) False in simp_all)
  qed
qed

lemma transfers_ok_map:
  assumes wf: "transfers_ok gen db" and ts: "stock_transfers db' = map f (stock_transfers db)" "\<And>r. tr_id (f r) = tr_id r"
    and ls: "stock_transfer_lines db' = map g (stock_transfer_lines db)" "\<And>l. tl_id (g l) = tl_id l" "\<And>l. tl_transferID (g l) = tl_transferID l"
    and n: "uuid_draws db \<le> uuid_draws db'"
    and ok: "\<And>l. l \<in> set (stock_transfer_lines db) \<Longrightarrow> confirmed_ok (g l)"
    and agree: "\<And>r l. r \<in> set (stock_transfers db) \<Longrightarrow> l \<in> set (stock_transfer_lines db) \<Longrightarrow> status_agrees (f r) (g l)"
  shows "transfers_ok gen db'"
proof -
  have "fresh_lines gen db'" using wf n by (auto simp: transfers_ok_def fresh_lines_def ls comp_def image_image)
  moreover have "distinct (map tr_id (stock_transfers db'))" "\<forall>k \<ge> uuid_draws db'. gen k \<notin> tr_id ` set (stock_transfers db')"
    using wf n by (auto simp: transfers_ok_def ts comp_def image_image)
  moreover have "\<forall>l \<in> set (stock_transfer_lines db'). confirmed_ok l \<and> tl_transferID l \<in> tr_id ` set (stock_transfers db')"
    using wf ok by (auto simp: transfers_ok_def ts ls image_image)
  moreover have "\<forall>t \<in> set (stock_transfers db'). \<forall>l \<in> set (stock_transfer_lines db'). status_agrees t l"
    unfolding ts ls set_map using agree by blast
  ultimately show ?thesis by (simp add: transfers_ok_def)
qed

text \<open>The lines a confirmation changes are those of its transfer.\<close>

lemma confirms_others:
  assumes c: "confirms orgID t (inventoryLoadTransferLines (tr_id t) db) given db db1"
    and ids: "distinct (map tl_id (stock_transfer_lines db))" and l: "l \<in> set (stock_transfer_lines db)" "tl_transferID l \<noteq> tr_id t"
  shows "given (tl_id l) = 0"
proof -
  have "tl_id l \<notin> tl_id ` set (inventoryLoadTransferLines (tr_id t) db)"
    using distinct_keyD [OF ids l(1)] l(2) by auto
  with c show ?thesis by (simp add: confirms_def)
qed

lemma confirm_transfer_keeps:
  assumes run: "inventoryConfirmTransfer gen claims input now db = Inr (out, db')" and ok: "stock_ok gen db"
  shows "stock_ok gen db'"
proof -
  obtain t given db1 where t: "inventoryLoadTransfer (OrganizationID claims) (tf_TransferID input) db = Some t"
    and c: "confirms (OrganizationID claims) t (inventoryLoadTransferLines (tr_id t) db) given db db1"
    and st: "fst (snd out) = (if \<forall>l \<in> set (stock_transfer_lines db1). tl_transferID l = tr_id t \<longrightarrow> tl_quantity l \<le> tl_confirmed l
       then ''confirmed'' else ''partial'')"
    and d: "db' = update_transfer (tr_id t) (\<lambda>t. t\<lparr>tr_status := fst (snd out),
       tr_confirmedAt := (if fst (snd out) = ''confirmed'' then Some now else None)\<rparr>) db1"
    using run ok by (rule confirm_transfer_Inr)
  note wf = stock_okD [OF ok]
  have lines: "stock_transfer_lines db1 = map (give given) (stock_transfer_lines db)" and reloc: "relocates db db1" and s1: "stocked db1"
    and given: "\<And>l. l \<in> set (stock_transfer_lines db) \<Longrightarrow> tl_transferID l = tr_id t \<Longrightarrow> 0 \<le> given (tl_id l) \<and> tl_confirmed l + given (tl_id l) \<le> tl_quantity l"
    using c by (simp_all add: confirms_def)
  note other = confirms_others [OF c wf(5)] and fr = relocates_frame [OF reloc]
  have s: "stocked db'" using s1 stocked_cong [of db' db1] by (simp add: d update_transfer_def)
  have lok: "confirmed_ok (give given l)" if "l \<in> set (stock_transfer_lines db)" for l
  proof (cases "tl_transferID l = tr_id t")
    case True
    with given [OF that] wf(3) that show ?thesis by (simp add: transfers_ok_def confirmed_ok_def)
  next
    case False
    with other [OF that] wf(3) that show ?thesis by (simp add: transfers_ok_def give_zero)
  qed
  have agree: "status_agrees (if tr_id r = tr_id t then r\<lparr>tr_status := fst (snd out),
       tr_confirmedAt := (if fst (snd out) = ''confirmed'' then Some now else None)\<rparr> else r) (give given l)"
    if "r \<in> set (stock_transfers db)" "l \<in> set (stock_transfer_lines db)" for r l
  proof (cases "tl_transferID l = tr_id t")
    case True
    then show ?thesis using lok [OF that(2)] that(2) st
      by (auto simp: status_agrees_def lines confirmed_ok_def split: if_splits)
  next
    case False
    with other [OF that(2)] wf(3) that show ?thesis by (auto simp: transfers_ok_def give_zero status_agrees_def)
  qed
  have "transfers_ok gen db'"
    by (rule transfers_ok_map [OF wf(3) _ _ _ _ _ _ lok agree]) (simp_all add: d update_transfer_def lines fr)
  with s show ?thesis by (simp add: stock_ok_def)
qed

lemma cancel_transfer_keeps:
  assumes run: "inventoryCancelTransfer orgID k now db = Inr (out, db')" and ok: "stock_ok gen db"
  shows "stock_ok gen db'"
proof -
  note wf = stock_okD [OF ok]
  obtain t where t: "t \<in> set (stock_transfers db)" "tr_status t = ''pending''"
    and d: "db' = update_transfer (tr_id t) (\<lambda>t. t\<lparr>tr_status := ''cancelled'', tr_cancelledAt := Some now\<rparr>) db"
    using run by (auto simp: inventoryCancelTransfer_def dest: load_transfer_Some split: option.splits if_splits)
  have "stocked db'" using wf(1) stocked_cong [of db' db] by (simp add: d update_transfer_def)
  moreover have "confirmed_ok l" if "l \<in> set (stock_transfer_lines db)" for l using wf(3) that by (simp add: transfers_ok_def)
  moreover have "status_agrees (if tr_id r = tr_id t then r\<lparr>tr_status := ''cancelled'', tr_cancelledAt := Some now\<rparr> else r) l"
    if "r \<in> set (stock_transfers db)" "l \<in> set (stock_transfer_lines db)" for r l
  proof (cases "tr_id r = tr_id t")
    case True
    then have "r = t" using distinct_keyD [OF wf(6) that(1) t(1)] by simp
    then show ?thesis using wf(3) that t(2) by (auto simp: transfers_ok_def status_agrees_def)
  next
    case False
    then show ?thesis using wf(3) that by (simp add: transfers_ok_def)
  qed
  ultimately have "transfers_ok gen db'"
    by (intro transfers_ok_map [OF wf(3), of _ "\<lambda>r. if tr_id r = tr_id t then r\<lparr>tr_status := ''cancelled'', tr_cancelledAt := Some now\<rparr> else r" "\<lambda>l. l"])
      (simp_all add: d update_transfer_def)
  with \<open>stocked db'\<close> show ?thesis by (simp add: stock_ok_def)
qed

text \<open>Operations that add rows: lots, movements, transfers and their lines.\<close>

lemma transfers_ok_later:
  assumes "transfers_ok gen db" and "stock_transfers db' = stock_transfers db"
    and "stock_transfer_lines db' = stock_transfer_lines db" and "uuid_draws db \<le> uuid_draws db'"
  shows "transfers_ok gen db'"
  using assms by (simp add: transfers_ok_def fresh_lines_def)

definition adds_lots :: "'a warehouse_scheme \<Rightarrow> 'a warehouse_scheme \<Rightarrow> bool" where
  "adds_lots db db' \<longleftrightarrow> (\<exists>ls n. db' = db\<lparr>lots := ls, uuid_draws := n\<rparr> \<and> uuid_draws db \<le> n)"

lemma adds_lots_intros [simp]: "uuid_draws db \<le> n \<Longrightarrow> adds_lots db (db\<lparr>lots := ls, uuid_draws := n\<rparr>)" "adds_lots db db"
proof -
  show "uuid_draws db \<le> n \<Longrightarrow> adds_lots db (db\<lparr>lots := ls, uuid_draws := n\<rparr>)" unfolding adds_lots_def by blast
  show "adds_lots db db" unfolding adds_lots_def by (intro exI [of _ "lots db"] exI [of _ "uuid_draws db"]) simp
qed

lemma adds_lots_trans: "adds_lots db db1 \<Longrightarrow> adds_lots db1 db2 \<Longrightarrow> adds_lots db db2"
  unfolding adds_lots_def by (elim exE conjE) (rule exI, rule exI, rule conjI, simp, simp)

lemma supply_eq [simp]: "uuid_supply gen \<Longrightarrow> gen m = gen n \<longleftrightarrow> m = n"
  by (auto simp: uuid_supply_def dest: injD)

lemma adds_lots_keeps:
  assumes "adds_lots db db'" and "stock_ok gen db"
  shows "stock_ok gen db'"
proof -
  obtain ls n where d: "db' = db\<lparr>lots := ls, uuid_draws := n\<rparr>" "uuid_draws db \<le> n" using assms(1) by (auto simp: adds_lots_def)
  then show ?thesis using assms(2) stocked_cong [of db' db] transfers_ok_later [of gen db db'] by (simp add: stock_ok_def)
qed

lemma get_or_create_lot_frame:
  "inventoryGetOrCreateLot gen orgID itemID code db = Inr (l, db') \<Longrightarrow> adds_lots db db'"
  by (auto simp: inventoryGetOrCreateLot_def Let_def split: option.splits)

lemma stock_delta_keeps:
  assumes run: "inventoryApplyStockDelta gen orgID itemID d reason note rt ri location lotID at ai db = Inr (n, db')"
    and ok: "stock_ok gen db"
  shows "stock_ok gen db'"
proof -
  note S = stock_delta_Inr [OF run stock_okD(1) [OF ok]]
  from S(5) have "transfers_ok gen db'" using transfers_ok_later [OF stock_okD(3) [OF ok], of db'] by auto
  with S(1) show ?thesis by (simp add: stock_ok_def)
qed

lemma adjusted_lot_frame: "adjusted_lot gen orgID itemID input db = Inr (l, db') \<Longrightarrow> adds_lots db db'"
  by (auto simp: adjusted_lot_def dest: get_or_create_lot_frame split: option.splits if_splits)

lemma adjust_stock_Inr:
  assumes "inventoryAdjustStock gen claims input db = Inr (n, db')"
  obtains item lotID location db1 where "item_by_sku (OrganizationID claims) (ia_SKU input) db = Inr item" "adds_lots db db1"
    "inventoryApplyStockDelta gen (OrganizationID claims) (it_id item) (ia_QuantityDelta input) ''adjustment'' (ia_Note input) None None
       location lotID (ActorType claims) (ActorID claims) db1 = Inr (n, db')"
  using assms by (auto simp: inventoryAdjustStock_def Let_def dest!: adjusted_lot_frame split: if_splits)

lemma adjust_stock_keeps:
  assumes "inventoryAdjustStock gen claims input db = Inr (n, db')" and "stock_ok gen db"
  shows "stock_ok gen db'"
  using assms by (auto elim!: adjust_stock_Inr intro: stock_delta_keeps adds_lots_keeps)

lemma resolve_step_frame: "resolve_transfer_line gen orgID (rs, db) l = Inr (rs', db') \<Longrightarrow> adds_lots db db'"
  by (auto simp: resolve_transfer_line_def dest: get_or_create_lot_frame split: option.splits)

text \<open>The resolved quantities are those asked for.\<close>

lemma resolve_fold_frame:
  assumes "fold_result (resolve_transfer_line gen orgID) (rs, db) ls = Inr (rs', db')"
  shows "adds_lots db db' \<and> (\<forall>r \<in> set rs'. r \<in> set rs \<or> snd (snd r) \<in> tn_QuantityThousandths ` set ls)"
  using assms
proof (induction ls arbitrary: rs db)
  case (Cons l ls)
  from Cons.prems obtain rs1 db1 where step: "resolve_transfer_line gen orgID (rs, db) l = Inr (rs1, db1)"
    and rest: "fold_result (resolve_transfer_line gen orgID) (rs1, db1) ls = Inr (rs', db')" by auto
  have "\<forall>r \<in> set rs1. r \<in> set rs \<or> snd (snd r) = tn_QuantityThousandths l"
    using step by (auto simp: resolve_transfer_line_def split: option.splits)
  with Cons.IH [OF rest] resolve_step_frame [OF step] show ?case by (auto intro: adds_lots_trans)
qed simp

text \<open>Adding lines to a transfer that is there.\<close>

lemma insert_line_keeps:
  assumes ins: "insert_transfer_line gen orgID k db (item, lot, q) = Inr db'" and ok: "stock_ok gen db" and gen: "uuid_supply gen"
    and q: "0 \<le> q" and t: "t \<in> set (stock_transfers db)" "tr_id t = k" "tr_status t = ''pending''"
  shows "stock_ok gen db'" "stock_transfers db' = stock_transfers db"
proof -
  note wf = stock_okD [OF ok]
  have d: "db' = db\<lparr>stock_transfer_lines := stock_transfer_lines db @
                       [\<lparr>tl_id = gen (uuid_draws db), tl_orgID = orgID, tl_transferID = k, tl_itemID = item,
                         tl_lotID = lot, tl_quantity = q, tl_confirmed = 0\<rparr>],
                     uuid_draws := Suc (uuid_draws db)\<rparr>"
    using ins by (auto simp: insert_transfer_line_def split: if_splits)
  let ?l = "\<lparr>tl_id = gen (uuid_draws db), tl_orgID = orgID, tl_transferID = k, tl_itemID = item, tl_lotID = lot, tl_quantity = q, tl_confirmed = 0\<rparr>"
  have "status_agrees r ?l" if "r \<in> set (stock_transfers db)" for r
    using distinct_keyD [OF wf(6) that t(1)] t(2,3) by (cases "tr_id r = k") (auto simp: status_agrees_def)
  moreover have "gen n \<noteq> gen (uuid_draws db)" if "Suc (uuid_draws db) \<le> n" for n
    using gen that by simp
  moreover have "confirmed_ok ?l" "tl_transferID ?l \<in> tr_id ` set (stock_transfers db)"
    using q t(1,2) by (auto simp: confirmed_ok_def)
  ultimately have "transfers_ok gen db'" using wf(3) by (simp add: d transfers_ok_def fresh_lines_def)
  then show "stock_ok gen db'" using wf(1) stocked_cong [of db' db] by (simp add: stock_ok_def d)
  show "stock_transfers db' = stock_transfers db" by (simp add: d)
qed

lemma insert_lines_keep:
  assumes "fold_result (insert_transfer_line gen orgID k) db rs = Inr db'" and "stock_ok gen db" and gen: "uuid_supply gen"
    and "\<forall>r \<in> set rs. 0 \<le> snd (snd r)" and "t \<in> set (stock_transfers db)" "tr_id t = k" "tr_status t = ''pending''"
  shows "stock_ok gen db'"
  using assms
proof (induction rs arbitrary: db)
  case (Cons r rs)
  obtain item lot q where r: "r = (item, lot, q)" by (cases r) auto
  from Cons.prems(1) obtain db1 where ins: "insert_transfer_line gen orgID k db (item, lot, q) = Inr db1"
    and rest: "fold_result (insert_transfer_line gen orgID k) db1 rs = Inr db'" by (auto simp: r)
  have q: "0 \<le> q" using Cons.prems(4) by (simp add: r)
  note I = insert_line_keeps [OF ins Cons.prems(2) gen q Cons.prems(5-7)]
  from Cons.IH [OF rest I(1) gen] Cons.prems(4-7) I(2) show ?case by simp
qed simp

lemma insert_transfer_keeps:
  assumes ins: "insert_transfer gen row db = (t, db')" and ok: "stock_ok gen db" and gen: "uuid_supply gen"
    and id: "\<And>i. tr_id (row i) = i"
  shows "stock_ok gen db'" "t \<in> set (stock_transfers db')" "tr_id t = gen (uuid_draws db)" "t = row (gen (uuid_draws db))"
    "stock_transfers db' = stock_transfers db @ [t]" "stock_transfer_lines db' = stock_transfer_lines db"
    "stock_balances db' = stock_balances db" "stock_movements db' = stock_movements db"
    "db' = db\<lparr>stock_transfers := stock_transfers db @ [t], uuid_draws := Suc (uuid_draws db)\<rparr>"
proof -
  note wf = stock_okD [OF ok]
  show d: "db' = db\<lparr>stock_transfers := stock_transfers db @ [t], uuid_draws := Suc (uuid_draws db)\<rparr>"
    and t: "t = row (gen (uuid_draws db))" using ins by (auto simp: insert_transfer_def Let_def)
  have new: "gen (uuid_draws db) \<notin> tr_id ` set (stock_transfers db)" using wf(3) by (simp add: transfers_ok_def)
  have "status_agrees t l" if "l \<in> set (stock_transfer_lines db)" for l
  proof -
    have "tl_transferID l \<in> tr_id ` set (stock_transfers db)" using that wf(3) by (simp add: transfers_ok_def)
    with new have "tl_transferID l \<noteq> gen (uuid_draws db)" by metis
    then show ?thesis by (simp add: status_agrees_def t id)
  qed
  moreover have "gen n \<noteq> gen (uuid_draws db)" if "Suc (uuid_draws db) \<le> n" for n
    using gen that by simp
  ultimately have "transfers_ok gen db'" using wf(3) new
    by (auto simp: d t id transfers_ok_def fresh_lines_def)
  then show "stock_ok gen db'" using wf(1) stocked_cong [of db' db] by (simp add: stock_ok_def d)
qed (use ins id in \<open>auto simp: insert_transfer_def Let_def\<close>)

lemma create_transfer_keeps:
  assumes run: "inventoryCreateTransfer gen claims input db = Inr (out, db')" and ok: "stock_ok gen db" and gen: "uuid_supply gen"
    and pos: "\<forall>l \<in> set (tc_Lines input). 0 < tn_QuantityThousandths l"
  shows "stock_ok gen db'"
proof -
  let ?org = "OrganizationID claims"
  obtain rs db1 row t db2 where res: "fold_result (resolve_transfer_line gen ?org) ([], db) (tc_Lines input) = Inr (rs, db1)"
    and ins: "insert_transfer gen row db1 = (t, db2)" and row: "\<And>i. tr_id (row i) = i" "\<And>i. tr_status (row i) = ''pending''"
    and lines: "fold_result (insert_transfer_line gen ?org (tr_id t)) db2 rs = Inr db'"
    using run by (auto simp: inventoryCreateTransfer_def Let_def split: if_splits prod.splits)
  note R = resolve_fold_frame [OF res]
  have ok1: "stock_ok gen db1" using R ok adds_lots_keeps by blast
  note T = insert_transfer_keeps [OF ins ok1 gen row(1)]
  have "\<forall>r \<in> set rs. 0 \<le> snd (snd r)" using R pos by fastforce
  from insert_lines_keep [OF lines T(1) gen this T(2)] T(4) row show ?thesis by simp
qed

lemma update_fresh_line:
  assumes "k \<notin> tl_id ` set ls"
  shows "map (\<lambda>l. if tl_id l = k then f l else l) (ls @ [l]) = ls @ [if tl_id l = k then f l else l]"
proof -
  have "map (\<lambda>l. if tl_id l = k then f l else l) ls = ls" using assms by (intro map_idI) auto
  then show ?thesis by simp
qed

lemma reverse_line_keeps:
  assumes run: "reverse_line gen claims rv db line = Inr db'" and ok: "stock_ok gen db" and gen: "uuid_supply gen"
    and rv: "rv \<in> set (stock_transfers db)" "tr_status rv = ''confirmed''"
  shows "stock_ok gen db'" and "relocates db db'"
    and "\<And>o' i l. inventoryStockOnHand o' i l db' = inventoryStockOnHand o' i l db +
      shift (OrganizationID claims) rv (tl_itemID line) (tl_confirmed line) o' i l"
proof -
  note wf = stock_okD [OF ok]
  let ?k = "gen (uuid_draws db)" and ?q = "tl_confirmed line"
  let ?row = "\<lparr>tl_id = ?k, tl_orgID = OrganizationID claims, tl_transferID = tr_id rv, tl_itemID = tl_itemID line,
    tl_lotID = tl_lotID line, tl_quantity = ?q, tl_confirmed = 0\<rparr>"
  let ?line = "line\<lparr>tl_id := ?k, tl_transferID := tr_id rv, tl_quantity := ?q, tl_confirmed := 0\<rparr>"
  define db1 where "db1 = db\<lparr>stock_transfer_lines := stock_transfer_lines db @ [?row], uuid_draws := Suc (uuid_draws db)\<rparr>"
  have c: "inventoryConfirmLine gen claims rv ?line ?q db1 = Inr db'"
    using run by (auto simp: reverse_line_def insert_transfer_line_def db1_def split: if_splits)
  have s1: "stocked db1" using wf(1) stocked_cong [of db1 db] by (simp add: db1_def)
  note C = confirm_line_Inr [OF c s1]
  have "relocates db db1" unfolding db1_def by (rule relocates_lines) simp
  then show reloc: "relocates db db'" using C(4) by (rule relocates_trans)
  show "inventoryStockOnHand o' i l db' = inventoryStockOnHand o' i l db + shift (OrganizationID claims) rv (tl_itemID line) ?q o' i l" for o' i l
    using C(6) [of o' i l] on_hand_cong [of db1 db o' i l] by (simp add: db1_def)
  have fresh: "?k \<notin> tl_id ` set (stock_transfer_lines db)" using wf(4) by (simp add: fresh_lines_def)
  have lines: "stock_transfer_lines db' = stock_transfer_lines db @ [?row\<lparr>tl_confirmed := ?q\<rparr>]"
    using C(5) update_fresh_line [OF fresh] by (simp add: update_line_def db1_def)
  have "status_agrees t (?row\<lparr>tl_confirmed := ?q\<rparr>)" if "t \<in> set (stock_transfers db)" for t
    using distinct_keyD [OF wf(6) that rv(1)] rv(2) by (cases "tr_id t = tr_id rv") (auto simp: status_agrees_def)
  moreover have "gen n \<noteq> ?k" if "Suc (uuid_draws db) \<le> n" for n using gen that by simp
  moreover have "confirmed_ok (?row\<lparr>tl_confirmed := ?q\<rparr>)" using C(1) by (simp add: confirmed_ok_def)
  moreover have "Suc (uuid_draws db) \<le> uuid_draws db'" using relocates_frame(5) [OF C(4)] by (simp add: db1_def)
  moreover have "stock_transfers db' = stock_transfers db" using relocates_frame(3) [OF reloc] .
  ultimately have "transfers_ok gen db'" using wf(3) fresh rv(1)
    by (simp add: transfers_ok_def fresh_lines_def lines)
  with C(3) show "stock_ok gen db'" by (simp add: stock_ok_def)
qed

lemma reverse_lines_keep:
  assumes "fold_result (reverse_line gen claims rv) db ls = Inr db'" and "stock_ok gen db" and "uuid_supply gen"
    and "rv \<in> set (stock_transfers db)" "tr_status rv = ''confirmed''"
  shows "stock_ok gen db' \<and> relocates db db' \<and>
    (\<forall>o' i l. inventoryStockOnHand o' i l db' = inventoryStockOnHand o' i l db +
      sum_list (map (\<lambda>r. shift (OrganizationID claims) rv (tl_itemID r) (tl_confirmed r) o' i l) ls))"
  using assms
proof (induction ls arbitrary: db)
  case Nil
  then show ?case by (simp add: relocates_refl)
next
  case (Cons l ls)
  from Cons.prems(1) obtain db1 where step: "reverse_line gen claims rv db l = Inr db1"
    and rest: "fold_result (reverse_line gen claims rv) db1 ls = Inr db'" by auto
  note R = reverse_line_keeps [OF step Cons.prems(2-5)]
  have "rv \<in> set (stock_transfers db1)" using Cons.prems(4) relocates_frame(3) [OF R(2)] by simp
  from Cons.IH [OF rest R(1) Cons.prems(3) this Cons.prems(5)] R(2,3) show ?case by (auto intro: relocates_trans)
qed

lemma reverse_transfer_Inr:
  assumes run: "inventoryReverseTransfer gen claims k now db = Inr (out, db')" and ok: "stock_ok gen db" and gen: "uuid_supply gen"
  obtains t rv db1 db2 where "inventoryLoadTransfer (OrganizationID claims) k db = Some t"
    "tr_status t = ''confirmed'' \<or> tr_status t = ''partial''"
    "\<not> list_ex (\<lambda>r. tr_orgID r = OrganizationID claims \<and> tr_reversalOfID r = Some (tr_id t)) (stock_transfers db)"
    "tr_fromLocation rv = tr_toLocation t" "tr_toLocation rv = tr_fromLocation t" "tr_orgID rv = OrganizationID claims"
    "tr_reversalOfID rv = Some (tr_id t)" "tr_id rv = gen (uuid_draws db)" "tr_status rv = ''confirmed''"
    "db1 = db\<lparr>stock_transfers := stock_transfers db @ [rv], uuid_draws := Suc (uuid_draws db)\<rparr>" "stock_ok gen db1"
    "stock_ok gen db2" "relocates db1 db2"
    "\<And>o' i l. inventoryStockOnHand o' i l db2 = inventoryStockOnHand o' i l db +
      sum_list (map (\<lambda>r. shift (OrganizationID claims) rv (tl_itemID r) (tl_confirmed r) o' i l)
        (filter (\<lambda>l. 0 < tl_confirmed l) (inventoryLoadTransferLines (tr_id t) db)))"
    "db' = update_transfer (tr_id t) (\<lambda>t. t\<lparr>tr_status := ''reversed''\<rparr>) db2"
proof -
  let ?org = "OrganizationID claims"
  obtain t where t: "inventoryLoadTransfer ?org k db = Some t" "tr_status t = ''confirmed'' \<or> tr_status t = ''partial''"
      "\<not> list_ex (\<lambda>r. tr_orgID r = ?org \<and> tr_reversalOfID r = Some (tr_id t)) (stock_transfers db)"
    and rest: "(case insert_transfer gen (\<lambda>i. \<lparr>tr_id = i, tr_orgID = ?org, tr_number = next_transfer_number ?org db,
                        tr_fromLocation = tr_toLocation t, tr_toLocation = tr_fromLocation t, tr_status = ''confirmed'',
                        tr_note = Some (''Reversal of transfer #'' @ show_int (tr_number t)),
                        tr_reversalOfID = Some (tr_id t), tr_confirmedAt = Some now, tr_cancelledAt = None\<rparr>) db of (reversal, db1) \<Rightarrow>
                 bind_result (fold_result (reverse_line gen claims reversal) db1
                   (filter (\<lambda>l. 0 < tl_confirmed l) (inventoryLoadTransferLines (tr_id t) db))) (\<lambda>db2.
                 Inr (tr_id reversal, update_transfer (tr_id t) (\<lambda>t. t\<lparr>tr_status := ''reversed''\<rparr>) db2))) = Inr (out, db')"
    using run by (auto simp: inventoryReverseTransfer_def Let_def split: option.splits if_splits)
  obtain rv db1 where ins: "insert_transfer gen (\<lambda>i. \<lparr>tr_id = i, tr_orgID = ?org, tr_number = next_transfer_number ?org db,
                        tr_fromLocation = tr_toLocation t, tr_toLocation = tr_fromLocation t, tr_status = ''confirmed'',
                        tr_note = Some (''Reversal of transfer #'' @ show_int (tr_number t)),
                        tr_reversalOfID = Some (tr_id t), tr_confirmedAt = Some now, tr_cancelledAt = None\<rparr>) db = (rv, db1)"
    (is "insert_transfer gen ?row db = _") by fastforce
  note T = insert_transfer_keeps [OF ins ok gen]
  have T1: "stock_ok gen db1" "rv \<in> set (stock_transfers db1)" "rv = ?row (gen (uuid_draws db))" "stock_balances db1 = stock_balances db"
      "db1 = db\<lparr>stock_transfers := stock_transfers db @ [rv], uuid_draws := Suc (uuid_draws db)\<rparr>"
    using T(1,2,4,7,9) by simp_all
  from rest ins obtain db2 where fold: "fold_result (reverse_line gen claims rv) db1
      (filter (\<lambda>l. 0 < tl_confirmed l) (inventoryLoadTransferLines (tr_id t) db)) = Inr db2"
    and d: "db' = update_transfer (tr_id t) (\<lambda>t. t\<lparr>tr_status := ''reversed''\<rparr>) db2" by auto
  have rs: "tr_status rv = ''confirmed''" by (simp add: T1(3))
  note R = reverse_lines_keep [OF fold T1(1) gen T1(2) rs]
  show thesis
    by (rule that [OF t, of rv db1 db2]) (use R T1 d on_hand_cong [OF T1(4)] in simp_all)
qed

lemma reverse_transfer_keeps:
  assumes run: "inventoryReverseTransfer gen claims k now db = Inr (out, db')" and ok: "stock_ok gen db" and gen: "uuid_supply gen"
  shows "stock_ok gen db'"
  using run ok gen
proof (rule reverse_transfer_Inr)
  fix t rv and db1 db2 :: "'a warehouse_scheme"
  assume ok2: "stock_ok gen db2" and d: "db' = update_transfer (tr_id t) (\<lambda>t. t\<lparr>tr_status := ''reversed''\<rparr>) db2"
  note wf = stock_okD [OF ok2]
  have "confirmed_ok l" if "l \<in> set (stock_transfer_lines db2)" for l using wf(3) that by (simp add: transfers_ok_def)
  moreover have "status_agrees (if tr_id r = tr_id t then r\<lparr>tr_status := ''reversed''\<rparr> else r) l"
    if "r \<in> set (stock_transfers db2)" "l \<in> set (stock_transfer_lines db2)" for r l
    using wf(3) that by (auto simp: transfers_ok_def status_agrees_def)
  ultimately have "transfers_ok gen db'"
    by (intro transfers_ok_map [OF wf(3), of _ "\<lambda>r. if tr_id r = tr_id t then r\<lparr>tr_status := ''reversed''\<rparr> else r" "\<lambda>l. l"])
      (simp_all add: d update_transfer_def)
  then show ?thesis using wf(1) stocked_cong [of db' db2] by (simp add: d update_transfer_def stock_ok_def)
qed

end
