(* ===== verification/Warehouse.thy ===== *)
theory Warehouse
  imports Stock
begin

text \<open>
  The stock tables over whole histories: the rebuild of the balances from the movements, the steps
  that write stock tables, what every history keeps, and how a reversal undoes a transfer.
\<close>

section \<open>The rebuild\<close>

lemma row_of_key:
  assumes "bl_quantity b = moved_quantity ms (balance_key b)"
  shows "balance_of_key ms (balance_key b) = b"
  using assms by (simp add: balance_of_key_def balance_key_def)

lemma moved_quantity_org:
  "fst k = orgID \<Longrightarrow> moved_quantity (filter (\<lambda>m. mv_orgID m = orgID) ms) k = moved_quantity ms k"
  by (auto simp: moved_quantity_def movement_key_def intro!: arg_cong [where f = sum_list] arg_cong [where f = "map mv_quantityDelta"] filter_cong)

lemma rebuilt_rows:
  assumes "projected db"
  shows "mset (map (balance_of_key (filter (\<lambda>m. mv_orgID m = orgID) (stock_movements db)))
      (remdups (map movement_key (filter (\<lambda>m. mv_orgID m = orgID) (stock_movements db))))) =
    mset (filter (\<lambda>b. bl_orgID b = orgID) (stock_balances db))"
proof -
  let ?ms = "filter (\<lambda>m. mv_orgID m = orgID) (stock_movements db)" and ?bs = "filter (\<lambda>b. bl_orgID b = orgID) (stock_balances db)"
  have dist: "distinct (map balance_key (stock_balances db))"
    and keys: "balance_key ` set (stock_balances db) = movement_key ` set (stock_movements db)"
    and q: "\<And>b. b \<in> set (stock_balances db) \<Longrightarrow> bl_quantity b = moved_quantity (stock_movements db) (balance_key b)"
    using assms by (auto simp: projected_def)
  have "balance_key ` set ?bs = {k \<in> balance_key ` set (stock_balances db). fst k = orgID}" by (auto simp: balance_key_def)
  also have "\<dots> = movement_key ` set ?ms" unfolding keys by (auto simp: movement_key_def)
  finally have same: "set (map balance_key ?bs) = set (remdups (map movement_key ?ms))" by simp
  have "distinct (map balance_key ?bs)" by (rule distinct_map_filter [OF dist])
  with same have "mset (map balance_key ?bs) = mset (remdups (map movement_key ?ms))"
    by (intro iffD1 [OF set_eq_iff_mset_eq_distinct]) (simp_all only: distinct_remdups)
  then have "mset (map (balance_of_key ?ms) (remdups (map movement_key ?ms))) = mset (map (balance_of_key ?ms) (map balance_key ?bs))"
    by (simp only: mset_map)
  also have "map (balance_of_key ?ms) (map balance_key ?bs) = ?bs"
  proof -
    have "balance_of_key ?ms (balance_key b) = b" if "b \<in> set ?bs" for b
    proof (rule row_of_key)
      have "fst (balance_key b) = orgID" using that by (simp add: balance_key_def)
      then show "bl_quantity b = moved_quantity ?ms (balance_key b)" using q [of b] that by (simp add: moved_quantity_org)
    qed
    then show ?thesis unfolding map_map by (intro map_idI) simp
  qed
  finally show ?thesis .
qed

lemma sum_list_mset_cong: "mset xs = mset ys \<Longrightarrow> sum_list (map (f :: 'b \<Rightarrow> int) xs) = sum_list (map f ys)"
  by (simp only: mset_map flip: sum_mset_sum_list)

lemma rebuild_same:
  assumes "projected db"
  obtains bs where "inventoryRebuildStockBalances orgID db =
      Inr ((int (length (filter (\<lambda>b. bl_orgID b = orgID) (stock_balances db))),
            held (\<lambda>k. fst k = orgID) (stock_balances db)), db\<lparr>stock_balances := bs\<rparr>)" "mset bs = mset (stock_balances db)"
proof -
  let ?ms = "filter (\<lambda>m. mv_orgID m = orgID) (stock_movements db)" and ?bs = "filter (\<lambda>b. bl_orgID b = orgID) (stock_balances db)"
  define rows where "rows = map (balance_of_key ?ms) (remdups (map movement_key ?ms))"
  have eq: "mset rows = mset ?bs" unfolding rows_def by (rule rebuilt_rows [OF assms])
  have "\<forall>b \<in> set (stock_balances db). in_int4 (bl_quantity b)" using assms unfolding projected_def by blast
  then have r: "\<not> list_ex (\<lambda>b. \<not> in_int4 (bl_quantity b)) rows"
    unfolding list_ex_iff mset_eq_setD [OF eq] by simp
  have len: "length rows = length ?bs" by (rule mset_eq_length [OF eq])
  have tot: "sum_list (map bl_quantity rows) = held (\<lambda>k. fst k = orgID) (stock_balances db)"
    unfolding sum_list_mset_cong [OF eq] by (simp add: held_def balance_key_def)
  have all: "mset (filter (\<lambda>b. bl_orgID b \<noteq> orgID) (stock_balances db) @ rows) = mset (stock_balances db)"
    unfolding mset_append eq mset_filter by (simp only: add.commute multiset_partition [symmetric])
  have run: "inventoryRebuildStockBalances orgID db = Inr ((int (length ?bs), held (\<lambda>k. fst k = orgID) (stock_balances db)),
      db\<lparr>stock_balances := filter (\<lambda>b. bl_orgID b \<noteq> orgID) (stock_balances db) @ rows\<rparr>)"
    unfolding inventoryRebuildStockBalances_def Let_def rows_def [symmetric] if_not_P [OF r] len tot ..
  show thesis by (rule that [OF run all])
qed

lemma mset_on_hand:
  "mset bs = mset (stock_balances db) \<Longrightarrow>
    inventoryStockOnHand orgID itemID location (db\<lparr>stock_balances := bs\<rparr>) = inventoryStockOnHand orgID itemID location db"
  unfolding inventoryStockOnHand_def by (intro sum_list_mset_cong) (simp add: mset_filter)

lemma mset_projected:
  assumes eq: "mset bs = mset (stock_balances db)" and "projected db"
  shows "projected (db\<lparr>stock_balances := bs\<rparr>)"
proof -
  have "mset (map balance_key bs) = mset (map balance_key (stock_balances db))" by (simp only: mset_map eq)
  then have "distinct (map balance_key bs) = distinct (map balance_key (stock_balances db))" by (rule mset_eq_imp_distinct_iff)
  moreover define P where "P b \<longleftrightarrow> in_int4 (bl_quantity b) \<and> bl_quantity b = moved_quantity (stock_movements db) (balance_key b)" for b
  have "projected (db\<lparr>stock_balances := cs\<rparr>) \<longleftrightarrow> distinct (map balance_key cs) \<and>
      balance_key ` set cs = movement_key ` set (stock_movements db) \<and> Ball (set cs) P" for cs
    by (simp add: projected_def P_def)
  from this [of bs] this [of "stock_balances db"] have "projected (db\<lparr>stock_balances := bs\<rparr>) \<longleftrightarrow> projected db"
    unfolding mset_eq_setD [OF eq] \<open>distinct (map balance_key bs) = _\<close> by simp
  then show ?thesis using assms(2) by simp
qed

lemma mset_stocked: "mset bs = mset (stock_balances db) \<Longrightarrow> stocked db \<Longrightarrow> stocked (db\<lparr>stock_balances := bs\<rparr>)"
  by (simp add: stocked_def mset_projected mset_on_hand)

section \<open>Histories\<close>

text \<open>The operations that write stock tables, with what their parsers guarantee of the input.\<close>

inductive stock_step :: "uuid_source \<Rightarrow> 'a warehouse_scheme \<Rightarrow> 'a warehouse_scheme \<Rightarrow> bool" for gen where
  adjust: "inventoryAdjustStock gen claims adjustment db = Inr (onHand, db') \<Longrightarrow> stock_step gen db db'"
| create: "inventoryCreateTransfer gen claims transfer db = Inr (out, db') \<Longrightarrow>
    \<forall>l \<in> set (tc_Lines transfer). 0 < tn_QuantityThousandths l \<Longrightarrow> stock_step gen db db'"
| confirm: "inventoryConfirmTransfer gen claims confirmation now db = Inr (confirmed, db') \<Longrightarrow> stock_step gen db db'"
| cancel: "inventoryCancelTransfer orgID k now db = Inr (cancelled, db') \<Longrightarrow> stock_step gen db db'"
| reverse: "inventoryReverseTransfer gen claims k now db = Inr (reversal, db') \<Longrightarrow> stock_step gen db db'"
| rebuild: "inventoryRebuildStockBalances orgID db = Inr (counts, db') \<Longrightarrow> stock_step gen db db'"

lemma rebuild_keeps:
  assumes run: "inventoryRebuildStockBalances orgID db = Inr (counts, db')" and ok: "stock_ok gen db"
  shows "stock_ok gen db'"
proof -
  obtain bs where "db' = db\<lparr>stock_balances := bs\<rparr>" "mset bs = mset (stock_balances db)"
    using rebuild_same [OF stock_okD(2) [OF ok], of orgID] run by auto
  then show ?thesis using mset_stocked [OF _ stock_okD(1) [OF ok]] transfers_ok_later [OF stock_okD(3) [OF ok], of db']
    by (auto simp: stock_ok_def)
qed

lemma stock_step_keeps: "stock_step gen db db' \<Longrightarrow> stock_ok gen db \<Longrightarrow> uuid_supply gen \<Longrightarrow> stock_ok gen db'"
  by (induction rule: stock_step.induct)
    (auto intro: adjust_stock_keeps create_transfer_keeps confirm_transfer_keeps cancel_transfer_keeps reverse_transfer_keeps rebuild_keeps)

abbreviation stock_history where "stock_history gen \<equiv> (stock_step gen)\<^sup>*\<^sup>*"

lemma stock_history_keeps: "stock_history gen db db' \<Longrightarrow> stock_ok gen db \<Longrightarrow> uuid_supply gen \<Longrightarrow> stock_ok gen db'"
  by (induction rule: rtranclp_induct) (auto intro: stock_step_keeps)

text \<open>What any stock operation writes: lots, transfers, balances, and movements at the end of the ledger.\<close>

definition stock_writes :: "'a warehouse_scheme \<Rightarrow> 'a warehouse_scheme \<Rightarrow> bool" where
  "stock_writes db db' \<longleftrightarrow>
     (\<exists>ls ms bs ts tls n. db' = db\<lparr>lots := ls, stock_movements := stock_movements db @ ms, stock_balances := bs,
        stock_transfers := ts, stock_transfer_lines := tls, uuid_draws := n\<rparr> \<and> uuid_draws db \<le> n)"

lemma stock_writesI:
  "db' = db\<lparr>lots := ls, stock_movements := stock_movements db @ ms, stock_balances := bs,
     stock_transfers := ts, stock_transfer_lines := tls, uuid_draws := n\<rparr> \<Longrightarrow> uuid_draws db \<le> n \<Longrightarrow> stock_writes db db'"
  unfolding stock_writes_def by blast

lemma stock_writesE:
  assumes "stock_writes db db'"
  obtains ls ms bs ts tls n where "db' = db\<lparr>lots := ls, stock_movements := stock_movements db @ ms, stock_balances := bs,
     stock_transfers := ts, stock_transfer_lines := tls, uuid_draws := n\<rparr>" "uuid_draws db \<le> n"
  using assms unfolding stock_writes_def by blast

lemma writes_moves: "uuid_draws db \<le> n \<Longrightarrow> stock_writes db (db\<lparr>stock_movements := stock_movements db @ ms, stock_balances := bs, stock_transfer_lines := tls, uuid_draws := n\<rparr>)"
  by (rule stock_writesI [where ls = "lots db" and ms = "ms" and bs = "bs" and ts = "stock_transfers db" and tls = "tls" and n = "n"]) simp_all

lemma writes_ledger: "uuid_draws db \<le> n \<Longrightarrow> stock_writes db (db\<lparr>stock_movements := stock_movements db @ ms, stock_balances := bs, uuid_draws := n\<rparr>)"
  by (rule stock_writesI [where ls = "lots db" and ms = "ms" and bs = "bs" and ts = "stock_transfers db" and tls = "stock_transfer_lines db" and n = "n"]) simp_all

lemma writes_lots: "uuid_draws db \<le> n \<Longrightarrow> stock_writes db (db\<lparr>lots := ls, uuid_draws := n\<rparr>)"
  by (rule stock_writesI [where ls = "ls" and ms = "[]" and bs = "stock_balances db" and ts = "stock_transfers db" and tls = "stock_transfer_lines db" and n = "n"]) simp_all

lemma writes_transfers: "uuid_draws db \<le> n \<Longrightarrow> stock_writes db (db\<lparr>stock_transfers := ts, uuid_draws := n\<rparr>)"
  by (rule stock_writesI [where ls = "lots db" and ms = "[]" and bs = "stock_balances db" and ts = "ts" and tls = "stock_transfer_lines db" and n = "n"]) simp_all

lemma writes_lines: "uuid_draws db \<le> n \<Longrightarrow> stock_writes db (db\<lparr>stock_transfer_lines := tls, uuid_draws := n\<rparr>)"
  by (rule stock_writesI [where ls = "lots db" and ms = "[]" and bs = "stock_balances db" and ts = "stock_transfers db" and tls = "tls" and n = "n"]) simp_all

lemma writes_status: "stock_writes db (db\<lparr>stock_transfers := ts\<rparr>)"
  by (rule stock_writesI [where ls = "lots db" and ms = "[]" and bs = "stock_balances db" and ts = "ts" and tls = "stock_transfer_lines db" and n = "uuid_draws db"]) simp_all

lemma writes_balances: "stock_writes db (db\<lparr>stock_balances := bs\<rparr>)"
  by (rule stock_writesI [where ls = "lots db" and ms = "[]" and bs = "bs" and ts = "stock_transfers db" and tls = "stock_transfer_lines db" and n = "uuid_draws db"]) simp_all

lemma writes_refl: "stock_writes db db"
  by (rule stock_writesI [where ls = "lots db" and ms = "[]" and bs = "stock_balances db" and ts = "stock_transfers db" and tls = "stock_transfer_lines db" and n = "uuid_draws db"]) simp_all

lemmas writes_movements = writes_moves writes_ledger writes_lots writes_transfers writes_lines writes_status writes_balances writes_refl

lemma writes_trans:
  assumes "stock_writes db db1" and "stock_writes db1 db2"
  shows "stock_writes db db2"
proof -
  obtain ls ms bs ts tls n where 1: "db1 = db\<lparr>lots := ls, stock_movements := stock_movements db @ ms, stock_balances := bs,
     stock_transfers := ts, stock_transfer_lines := tls, uuid_draws := n\<rparr>" "uuid_draws db \<le> n" using assms(1) by (rule stock_writesE)
  obtain ls' ms' bs' ts' tls' n' where 2: "db2 = db1\<lparr>lots := ls', stock_movements := stock_movements db1 @ ms', stock_balances := bs',
     stock_transfers := ts', stock_transfer_lines := tls', uuid_draws := n'\<rparr>" "uuid_draws db1 \<le> n'" using assms(2) by (rule stock_writesE)
  show ?thesis
    by (rule stock_writesI [where ls = ls' and ms = "ms @ ms'" and bs = bs' and ts = ts' and tls = tls' and n = n']) (use 1 2 in simp_all)
qed

lemma writes_frame:
  assumes "stock_writes db db'"
  shows "items db' = items db" "stock_locations db' = stock_locations db" "uuid_draws db \<le> uuid_draws db'"
    "\<exists>ms. stock_movements db' = stock_movements db @ ms"
  using assms by (auto elim!: stock_writesE)

lemma relocates_writes: "relocates db db' \<Longrightarrow> stock_writes db db'"
  by (auto elim!: relocatesE intro: writes_movements)

lemma writes_movement: "insert_movement m db = Inr db' \<Longrightarrow> stock_writes db db'"
  by (auto elim!: insert_movement_Inr intro!: writes_movements)

lemma adds_lots_writes: "adds_lots db db' \<Longrightarrow> stock_writes db db'"
  by (auto simp: adds_lots_def intro: writes_movements)

lemma stock_delta_writes:
  "inventoryApplyStockDelta gen orgID itemID q reason note rt ri loc lot ty actor db = Inr (n, db') \<Longrightarrow> stock_writes db db'"
  by (auto simp: inventoryApplyStockDelta_def Let_def dest: writes_movement split: if_splits)

lemma adjust_writes: "inventoryAdjustStock gen claims input db = Inr (n, db') \<Longrightarrow> stock_writes db db'"
  by (auto simp: inventoryAdjustStock_def Let_def split: if_splits
      dest!: adjusted_lot_frame stock_delta_writes adds_lots_writes intro: writes_trans)

lemma insert_lines_writes: "fold_result (insert_transfer_line gen orgID k) db rs = Inr db' \<Longrightarrow> stock_writes db db'"
proof (induction rs arbitrary: db)
  case Nil
  then show ?case by (simp add: writes_movements)
next
  case (Cons r rs)
  then obtain db1 where "insert_transfer_line gen orgID k db r = Inr db1" "stock_writes db1 db'" by auto
  moreover from this have "stock_writes db db1" by (auto simp: insert_transfer_line_def intro: writes_movements split: prod.splits if_splits)
  ultimately show ?case by (blast intro: writes_trans)
qed

lemma create_writes:
  assumes "inventoryCreateTransfer gen claims input db = Inr (out, db')"
  shows "stock_writes db db'"
proof -
  obtain rs db1 row t db2 where res: "fold_result (resolve_transfer_line gen (OrganizationID claims)) ([], db) (tc_Lines input) = Inr (rs, db1)"
    and ins: "insert_transfer gen row db1 = (t, db2)"
    and lines: "fold_result (insert_transfer_line gen (OrganizationID claims) (tr_id t)) db2 rs = Inr db'"
    using assms by (auto simp: inventoryCreateTransfer_def Let_def split: if_splits prod.splits)
  have "stock_writes db db1" using resolve_fold_frame [OF res] by (simp add: adds_lots_writes)
  moreover have "stock_writes db1 db2" using ins by (auto simp: insert_transfer_def Let_def intro: writes_movements)
  moreover have "stock_writes db2 db'" using lines by (rule insert_lines_writes)
  ultimately show ?thesis by (meson writes_trans)
qed

lemma update_transfer_writes: "stock_writes db db1 \<Longrightarrow> stock_writes db (update_transfer k f db1)"
  unfolding update_transfer_def by (erule writes_trans) (rule writes_movements)

lemma confirm_writes:
  assumes run: "inventoryConfirmTransfer gen claims input now db = Inr (out, db')" and ok: "stock_ok gen db"
  shows "stock_writes db db'"
  by (rule confirm_transfer_Inr [OF run ok]) (auto simp: confirms_def intro: update_transfer_writes relocates_writes)

lemma cancel_writes: "inventoryCancelTransfer orgID k now db = Inr (out, db') \<Longrightarrow> stock_writes db db'"
  by (auto simp: inventoryCancelTransfer_def update_transfer_def intro: writes_movements split: option.splits if_splits)

lemma reverse_writes:
  assumes run: "inventoryReverseTransfer gen claims k now db = Inr (out, db')" and ok: "stock_ok gen db" and gen: "uuid_supply gen"
  shows "stock_writes db db'"
proof (rule reverse_transfer_Inr [OF run ok gen])
  fix t rv db1 db2
  assume 1: "db1 = db\<lparr>stock_transfers := stock_transfers db @ [rv], uuid_draws := Suc (uuid_draws db)\<rparr>" "relocates db1 db2"
    "db' = update_transfer (tr_id t) (\<lambda>t. t\<lparr>tr_status := ''reversed''\<rparr>) db2"
  have "stock_writes db db1" by (simp add: 1 writes_movements)
  with 1(2) show ?thesis unfolding 1(3) by (meson relocates_writes writes_trans update_transfer_writes)
qed

lemma rebuild_writes:
  assumes run: "inventoryRebuildStockBalances orgID db = Inr (out, db')"
  shows "stock_writes db db'"
  using run by (auto simp: inventoryRebuildStockBalances_def Let_def writes_movements split: if_splits)

lemma stock_step_writes: "stock_step gen db db' \<Longrightarrow> stock_ok gen db \<Longrightarrow> uuid_supply gen \<Longrightarrow> stock_writes db db'"
  by (induction rule: stock_step.induct)
    (auto intro: adjust_writes create_writes confirm_writes cancel_writes reverse_writes rebuild_writes)

lemma stock_history_writes:
  "stock_history gen db db' \<Longrightarrow> stock_ok gen db \<Longrightarrow> uuid_supply gen \<Longrightarrow> stock_writes db db'"
proof (induction rule: rtranclp_induct)
  case base
  then show ?case by (simp add: writes_movements)
next
  case (step db1 db2)
  then show ?case by (meson stock_step_writes stock_history_keeps writes_trans)
qed

section \<open>Reversing a transfer\<close>

lemma sum_list_map_stable_sort: "sum_list (map f (stable_sort lt xs)) = sum_list (map (f :: 'c \<Rightarrow> int) xs)"
  by (rule sum_list_mset_cong) simp

lemma shift_back:
  assumes "tr_fromLocation rv = tr_toLocation t" "tr_toLocation rv = tr_fromLocation t"
  shows "shift orgID rv item q o' i l = - shift orgID t item q o' i l"
  using assms by (simp add: shift_def)

lemma sum_list_neg_filter:
  fixes f g :: "'b \<Rightarrow> int"
  assumes "\<And>x. x \<in> set xs \<Longrightarrow> P x \<Longrightarrow> g x = - f x" and "\<And>x. x \<in> set xs \<Longrightarrow> \<not> P x \<Longrightarrow> f x = 0"
  shows "sum_list (map g (filter P xs)) = - sum_list (map f xs)"
  using assms by (induction xs) auto

lemma load_transfer_update:
  assumes dist: "distinct (map tr_id (stock_transfers db))" and t: "t \<in> set (stock_transfers db)"
    and f: "\<And>r. tr_id (f r) = tr_id r" and l: "inventoryLoadTransfer orgID (tr_id t) (update_transfer (tr_id t) f db) = Some t'"
  shows "t' = f t"
proof -
  from load_transfer_Some [OF l] obtain r where "r \<in> set (stock_transfers db)" "t' = (if tr_id r = tr_id t then f r else r)" "tr_id t' = tr_id t"
    by (auto simp: update_transfer_def)
  moreover from this have "tr_id r = tr_id t" using f by (auto split: if_splits)
  moreover from this have "r = t" using distinct_keyD [OF dist \<open>r \<in> _\<close> t] by simp
  ultimately show ?thesis by simp
qed

text \<open>What the whole of a pending transfer shifts, taken back line by line.\<close>

lemma shifts_cancel:
  assumes c: "confirms orgID t (inventoryLoadTransferLines k db) given db db1"
    and zero: "\<And>l. l \<in> set (inventoryLoadTransferLines k db) \<Longrightarrow> tl_confirmed l = 0"
    and rv: "tr_fromLocation rv = tr_toLocation t" "tr_toLocation rv = tr_fromLocation t"
  shows "sum_list (map (\<lambda>r. shift orgID rv (tl_itemID r) (tl_confirmed r) o' i p)
      (filter (\<lambda>l. 0 < tl_confirmed l) (inventoryLoadTransferLines k db1))) =
    - sum_list (map (\<lambda>l. shift orgID t (tl_itemID l) (given (tl_id l)) o' i p) (inventoryLoadTransferLines k db))"
proof -
  let ?f = "\<lambda>r. shift orgID t (tl_itemID r) (tl_confirmed r) o' i p"
  have lines: "stock_transfer_lines db1 = map (give given) (stock_transfer_lines db)" using c by (simp add: confirms_def)
  have nonneg: "0 \<le> tl_confirmed l" if l: "l \<in> set (inventoryLoadTransferLines k db1)" for l
  proof -
    from l obtain r where r: "r \<in> set (inventoryLoadTransferLines k db)" "l = give given r" by (auto simp: lines)
    with c zero [OF r(1)] show ?thesis unfolding confirms_def by auto
  qed
  have "sum_list (map (\<lambda>r. shift orgID rv (tl_itemID r) (tl_confirmed r) o' i p)
      (filter (\<lambda>l. 0 < tl_confirmed l) (inventoryLoadTransferLines k db1))) = - sum_list (map ?f (inventoryLoadTransferLines k db1))"
  proof (rule sum_list_neg_filter)
    fix x assume x: "x \<in> set (inventoryLoadTransferLines k db1)"
    show "shift orgID rv (tl_itemID x) (tl_confirmed x) o' i p = - ?f x" by (rule shift_back [OF rv])
    assume "\<not> 0 < tl_confirmed x"
    with nonneg [OF x] have "tl_confirmed x = 0" by simp
    then show "?f x = 0" by simp
  qed
  also have "sum_list (map ?f (inventoryLoadTransferLines k db1)) =
      sum_list (map (\<lambda>l. shift orgID t (tl_itemID l) (tl_confirmed l + given (tl_id l)) o' i p) (inventoryLoadTransferLines k db))"
    by (simp only: inventoryLoadTransferLines_def lines filter_map sum_list_map_stable_sort map_map) (simp add: comp_def)
  also have "\<dots> = sum_list (map (\<lambda>l. shift orgID t (tl_itemID l) (given (tl_id l)) o' i p) (inventoryLoadTransferLines k db))"
    by (rule sum_list_map_cong) (simp only: zero add_0)
  finally show ?thesis .
qed

section \<open>Properties of stock\<close>


definition example_item :: item_row where
  "example_item = \<lparr>it_id = ''i1'', it_orgID = ''org'', it_sku = ''FLOUR'', it_name = ''Flour'', it_kind = ''goods'',
     it_unitLabel = ''kg'', it_salePriceMinor = 250, it_reorderPoint = 1000, it_imageURL = None, it_tags = [],
     it_barcode = None, it_archivedAt = None\<rparr>"

definition example_warehouse :: warehouse where
  "example_warehouse = receivables.extend example_receivables
     \<lparr>items = [example_item], lots = [],
      stock_locations = [\<lparr>lc_id = ''l1'', lc_orgID = ''org'', lc_code = ''MAIN'', lc_name = ''Main''\<rparr>, \<lparr>lc_id = ''l2'', lc_orgID = ''org'', lc_code = ''SHOP'', lc_name = ''Shop''\<rparr>],
      stock_movements = [], stock_balances = [], stock_transfers = [], stock_transfer_lines = []\<rparr>"

definition reached :: "'b \<Rightarrow> ('c \<times> 'b) result \<Rightarrow> 'b" where
  "reached db r = (case r of Inr (_, db') \<Rightarrow> db' | Inl _ \<Rightarrow> db)"

lemma reached_Inr: "\<not> isl r \<Longrightarrow> \<exists>out. r = Inr (out, reached db r)"
  by (cases r) (auto simp: reached_def)

definition example_adjustment :: "string option \<Rightarrow> inventoryAdjustStockInput" where
  "example_adjustment lot = \<lparr>ia_SKU = ''FLOUR'', ia_QuantityDelta = 5000, ia_Note = ''opening'', ia_LotCode = lot, ia_LocationCode = Some ''MAIN''\<rparr>"

definition example_transfer :: "string option \<Rightarrow> inventoryCreateTransferInput" where
  "example_transfer lot = \<lparr>tc_FromLocationCode = ''MAIN'', tc_ToLocationCode = ''SHOP'',
     tc_Lines = [\<lparr>tn_SKU = ''FLOUR'', tn_QuantityThousandths = 2000, tn_LotCode = lot\<rparr>], tc_Note = None\<rparr>"

definition example_stocked :: warehouse where
  "example_stocked = reached example_warehouse (inventoryAdjustStock example_gen example_claims (example_adjustment None) example_warehouse)"

definition example_planned :: warehouse where
  "example_planned = reached example_stocked (inventoryCreateTransfer example_gen example_claims (example_transfer None) example_stocked)"

definition example_confirmation :: inventoryConfirmTransferInput where
  "example_confirmation = \<lparr>tf_TransferID = example_gen 1, tf_Lines = None\<rparr>"

definition example_moved :: warehouse where
  "example_moved = reached example_planned (inventoryConfirmTransfer example_gen example_claims example_confirmation example_now example_planned)"

definition example_returned :: warehouse where
  "example_returned = reached example_moved (inventoryReverseTransfer example_gen example_claims (example_gen 1) example_now example_moved)"

lemma example_warehouse_ok: "stock_ok example_gen example_warehouse"
  by (simp add: stock_ok_def stocked_def projected_def transfers_ok_def fresh_lines_def inventoryStockOnHand_def
      example_warehouse_def receivables.defs)

lemma example_runs:
  "\<exists>n. inventoryAdjustStock example_gen example_claims (example_adjustment None) example_warehouse = Inr (n, example_stocked)"
  "\<exists>out. inventoryCreateTransfer example_gen example_claims (example_transfer None) example_stocked = Inr (out, example_planned)"
  "\<exists>out. inventoryConfirmTransfer example_gen example_claims example_confirmation example_now example_planned = Inr (out, example_moved)"
  "\<exists>out. inventoryReverseTransfer example_gen example_claims (example_gen 1) example_now example_moved = Inr (out, example_returned)"
  unfolding example_stocked_def example_planned_def example_moved_def example_returned_def
  by (rule reached_Inr, code_simp)+

lemma example_steps:
  "stock_step example_gen example_warehouse example_stocked" "stock_step example_gen example_stocked example_planned"
  "stock_step example_gen example_planned example_moved" "stock_step example_gen example_moved example_returned"
proof -
  have "\<forall>l \<in> set (tc_Lines (example_transfer None)). 0 < tn_QuantityThousandths l" by (simp add: example_transfer_def)
  with example_runs show "stock_step example_gen example_warehouse example_stocked" "stock_step example_gen example_stocked example_planned"
    "stock_step example_gen example_planned example_moved" "stock_step example_gen example_moved example_returned"
    by (blast intro: stock_step.intros)+
qed

lemma example_ok:
  "stock_ok example_gen example_stocked" "stock_ok example_gen example_planned" "stock_ok example_gen example_moved"
  using example_steps stock_step_keeps [OF _ _ example_gen_supply] example_warehouse_ok by blast+


text \<open>
  A rebuild of the projection changes nothing but the order of rows. After any history
  the rebuild succeeds, reports the organization's rows and their total, leaves the same
  multiset of balance rows, and on-hand quantities of every organization are what they were.
\<close>
theorem rebuild_changes_nothing:
  assumes "stock_ok gen db0" and "uuid_supply gen" and "stock_history gen db0 db"
  shows "\<exists>db'. inventoryRebuildStockBalances orgID db =
      Inr ((int (length (filter (\<lambda>b. bl_orgID b = orgID) (stock_balances db))),
            sum_list (map mv_quantityDelta (filter (\<lambda>m. mv_orgID m = orgID) (stock_movements db)))), db') \<and>
    mset (stock_balances db') = mset (stock_balances db) \<and> stock_movements db' = stock_movements db \<and>
    (\<forall>o' itemID location. inventoryStockOnHand o' itemID location db' = inventoryStockOnHand o' itemID location db)"
proof -
  have p: "projected db" using stock_okD(2) [OF stock_history_keeps [OF assms(3,1,2)]] .
  obtain bs where run: "inventoryRebuildStockBalances orgID db = Inr ((int (length (filter (\<lambda>b. bl_orgID b = orgID) (stock_balances db))),
      held (\<lambda>k. fst k = orgID) (stock_balances db)), db\<lparr>stock_balances := bs\<rparr>)" and bs: "mset bs = mset (stock_balances db)"
    using p by (rule rebuild_same)
  have "held (\<lambda>k. fst k = orgID) (stock_balances db) = sum_list (map mv_quantityDelta (filter (\<lambda>m. mv_orgID m = orgID) (stock_movements db)))"
    unfolding projected_held [OF p] by (simp add: movement_key_def)
  with run bs mset_on_hand [OF bs] show ?thesis by (intro exI [of _ "db\<lparr>stock_balances := bs\<rparr>"]) simp
qed

theorem rebuild_changes_nothing_witness:
  "\<exists>db'. inventoryRebuildStockBalances ''org'' example_returned = Inr ((2, 5000), db') \<and>
     stock_movements db' = stock_movements example_returned"
proof -
  have h: "stock_history example_gen example_warehouse example_returned"
    using example_steps by (meson rtranclp.rtrancl_into_rtrancl rtranclp.rtrancl_refl)
  have "length (filter (\<lambda>b. bl_orgID b = ''org'') (stock_balances example_returned)) = 2"
    "sum_list (map mv_quantityDelta (filter (\<lambda>m. mv_orgID m = ''org'') (stock_movements example_returned))) = 5000"
    by code_simp+
  with rebuild_changes_nothing [OF example_warehouse_ok example_gen_supply h, of "''org''"] show ?thesis by auto
qed

text \<open>
  C30. Reversing a transfer undoes its confirmation. When a pending transfer was confirmed, in
  whole or in part, its reversal brings what is at hand of every item, in all and at every
  location, back to what it was before the confirmation; and the transfer cannot be reversed
  a second time.
\<close>
theorem transfer_reversal_restores:
  assumes ok: "stock_ok gen db" and gen: "uuid_supply gen"
    and pending: "inventoryLoadTransfer (OrganizationID claims) (tf_TransferID input) db = Some t" "tr_status t = ''pending''"
    and confirm: "inventoryConfirmTransfer gen claims input now db = Inr (out, db1)"
    and reverse: "inventoryReverseTransfer gen claims' (tf_TransferID input) now' db1 = Inr (out', db2)"
    and same: "OrganizationID claims' = OrganizationID claims"
  shows "inventoryStockOnHand orgID itemID location db2 = inventoryStockOnHand orgID itemID location db \<and>
    isl (inventoryReverseTransfer gen claims' (tf_TransferID input) now'' db2)"
proof -
  let ?k = "tf_TransferID input" and ?org = "OrganizationID claims"
  note wf = stock_okD [OF ok]
  have t: "t \<in> set (stock_transfers db)" "tr_id t = ?k" using load_transfer_Some [OF pending(1)] by simp_all
  obtain given dc f where c: "confirms ?org t (inventoryLoadTransferLines ?k db) given db dc" and d1: "db1 = update_transfer (tr_id t) f dc"
    and f: "\<And>r. tr_id (f r) = tr_id r \<and> tr_fromLocation (f r) = tr_fromLocation r \<and> tr_toLocation (f r) = tr_toLocation r"
    using confirm ok
  proof (rule confirm_transfer_Inr, goal_cases)
    case (1 t' given dc)
    from 1(2) pending(1) have "t' = t" by simp
    with 1 t show ?case
      by (intro 1(1) [of given dc "\<lambda>t. t\<lparr>tr_status := fst (snd out), tr_confirmedAt := if fst (snd out) = ''confirmed'' then Some now else None\<rparr>"]) simp_all
  qed
  have zero: "tl_confirmed l = 0" if "l \<in> set (inventoryLoadTransferLines ?k db)" for l
    using wf(3) that t pending(2) by (auto simp: transfers_ok_def status_agrees_def)
  have ok1: "stock_ok gen db1" using confirm ok by (rule confirm_transfer_keeps)
  have reloc: "stock_transfers dc = stock_transfers db" using c relocates_frame(3) by (auto simp: confirms_def)
  show ?thesis using reverse ok1 gen
  proof (rule reverse_transfer_Inr, goal_cases)
    case (1 t' rv da db')
    have "t' = f t" using load_transfer_update [of dc t f "?org" t'] 1(1) same t f reloc wf(6) by (simp add: d1)
    with 1(4,5) f have rv: "tr_fromLocation rv = tr_toLocation t" "tr_toLocation rv = tr_fromLocation t" by simp_all
    have k: "tr_id t' = ?k" using 1(1) load_transfer_Some by blast
    have lines: "inventoryLoadTransferLines ?k db1 = inventoryLoadTransferLines ?k dc"
      by (simp add: d1 update_transfer_def inventoryLoadTransferLines_def)
    have bal: "inventoryStockOnHand o' i l db1 = inventoryStockOnHand o' i l dc" for o' i l
      by (rule on_hand_cong) (simp add: d1 update_transfer_def)
    have "inventoryStockOnHand orgID itemID location db2 = inventoryStockOnHand orgID itemID location db'"
      by (rule on_hand_cong) (simp add: 1(15) update_transfer_def)
    also have "\<dots> = inventoryStockOnHand orgID itemID location db"
      using c shifts_cancel [OF c zero rv, of orgID itemID location] by (simp add: confirms_def 1(14) k lines same bal del: load_lines_set)
    finally have restored: "inventoryStockOnHand orgID itemID location db2 = inventoryStockOnHand orgID itemID location db" .
    have "rv \<in> set (stock_transfers db')" using relocates_frame(3) [OF 1(13)] by (simp add: 1(10))
    then have "(\<lambda>r. if tr_id r = tr_id t' then r\<lparr>tr_status := ''reversed''\<rparr> else r) rv \<in> set (stock_transfers db2)"
      unfolding 1(15) update_transfer_def by simp
    then have again: "list_ex (\<lambda>r. tr_orgID r = OrganizationID claims' \<and> tr_reversalOfID r = Some ?k) (stock_transfers db2)"
      using 1(6,7) k unfolding list_ex_iff by (intro bexI) simp_all
    have "isl (inventoryReverseTransfer gen claims' ?k now'' db2)"
    proof (cases "inventoryLoadTransfer (OrganizationID claims') ?k db2")
      case None
      then show ?thesis by (simp add: inventoryReverseTransfer_def Let_def)
    next
      case (Some r)
      then have "tr_id r = ?k" using load_transfer_Some by blast
      with Some again show ?thesis by (simp add: inventoryReverseTransfer_def Let_def)
    qed
    with restored show ?case by simp
  qed
qed

theorem transfer_reversal_restores_witness:
  "inventoryStockOnHand ''org'' ''i1'' (Some ''l2'') example_moved = 2000 \<and>
   inventoryStockOnHand ''org'' ''i1'' (Some ''l2'') example_returned = inventoryStockOnHand ''org'' ''i1'' (Some ''l2'') example_planned \<and>
   isl (inventoryReverseTransfer example_gen example_claims (example_gen 1) example_now example_returned)"
proof -
  have "inventoryStockOnHand ''org'' ''i1'' (Some ''l2'') example_moved = 2000" by code_simp
  moreover have "inventoryLoadTransfer (OrganizationID example_claims) (tf_TransferID example_confirmation) example_planned =
      Some (hd (stock_transfers example_planned))" "tr_status (hd (stock_transfers example_planned)) = ''pending''"
    by code_simp+
  moreover have "tf_TransferID example_confirmation = example_gen 1" by (simp add: example_confirmation_def)
  ultimately show ?thesis using example_runs(3,4)
    transfer_reversal_restores [OF example_ok(2) example_gen_supply, of example_claims example_confirmation] by metis
qed

text \<open>
  The guards are per item and per location, not per lot: a transfer out of a lot that holds
  nothing is confirmed with the stock of another lot, and the balance of the lot is negative.
\<close>

definition example_lot_stocked :: warehouse where
  "example_lot_stocked = reached example_warehouse
     (inventoryAdjustStock example_gen example_claims (example_adjustment (Some ''B'')) example_warehouse)"

definition example_lot_planned :: warehouse where
  "example_lot_planned = reached example_lot_stocked
     (inventoryCreateTransfer example_gen example_claims (example_transfer (Some ''A'')) example_lot_stocked)"

definition example_lot_moved :: warehouse where
  "example_lot_moved = reached example_lot_planned
     (inventoryConfirmTransfer example_gen example_claims \<lparr>tf_TransferID = example_gen 3, tf_Lines = None\<rparr> example_now example_lot_planned)"

lemma lot_balance_goes_negative:
  "map (\<lambda>b. (bl_locationID b, bl_quantity b)) (stock_balances example_lot_moved) =
     [(Some ''l1'', 5000), (Some ''l1'', -2000), (Some ''l2'', 2000)] \<and>
   map lt_code (lots example_lot_moved) = [''B'', ''A'']"
  by code_simp

end
