(* ===== verification/Items.thy ===== *)
theory Items
  imports Warehouse Inputs
begin

text \<open>
  The item catalogue of the inventory: creating, patching and archiving items, locations, the
  bulk import with its undo, and stock reservations
  (src/apps/api/internal/capability/inventory_items.go and inventory_imports.go). The unique
  indexes of the table of items are checked on every insertion. \<^verbatim>\<open>strings.ToLower\<close> is the
  argument \<open>lower\<close>; the current time as text is the argument \<open>clock\<close>.
\<close>

section \<open>Tables\<close>

record reservation_row =
  rs_id :: string
  rs_orgID :: string
  rs_itemID :: string
  rs_quantity :: int
  rs_reason :: string
  rs_status :: string
  rs_actorType :: string
  rs_actorID :: "string option"
  rs_releasedAt :: "int option"

record cycle_count_row =
  cc_id :: string
  cc_orgID :: string
  cc_locationID :: "string option"
  cc_status :: string
  cc_note :: "string option"
  cc_postedAt :: "int option"
  cc_cancelledAt :: "int option"
  cc_actorType :: string
  cc_actorID :: "string option"

record cycle_line_row =
  cl_id :: string
  cl_orgID :: string
  cl_countID :: string
  cl_itemID :: string
  cl_expected :: int
  cl_movements :: int
  cl_counted :: "int option"

record stockroom = warehouse +
  reservations :: "reservation_row list"
  cycle_counts :: "cycle_count_row list"
  cycle_lines :: "cycle_line_row list"
  org_settings :: "(string \<times> json option) list" \<comment> \<open>organization and its settings column\<close>

section \<open>Items\<close>

record inventoryCreateItemInput =
  im_SKU :: string
  im_Name :: string
  im_Kind :: string
  im_UnitLabel :: string
  im_SalePriceMinor :: int
  im_ReorderPointThousandths :: int
  im_ImageURL :: "string option"
  im_Tags :: "string list"
  im_Barcode :: "string option"

definition some_ex :: "('a \<Rightarrow> bool) \<Rightarrow> 'a option \<Rightarrow> bool" where
  "some_ex P x = (case x of None \<Rightarrow> False | Some v \<Rightarrow> P v)"

lemma some_ex_simps [simp]: "some_ex P None = False" "some_ex P (Some v) = P v"
  by (simp_all add: some_ex_def)

definition has_sku :: "string \<Rightarrow> string \<Rightarrow> 'a warehouse_scheme \<Rightarrow> bool" where
  "has_sku orgID sku db \<longleftrightarrow> list_ex (\<lambda>i. it_orgID i = orgID \<and> it_sku i = sku) (items db)"

definition has_barcode :: "string \<Rightarrow> string \<Rightarrow> 'a warehouse_scheme \<Rightarrow> bool" where
  "has_barcode orgID barcode db \<longleftrightarrow> list_ex (\<lambda>i. it_orgID i = orgID \<and> it_barcode i = Some barcode) (items db)"

text \<open>An insertion into the table of items: the column ranges and the two unique indexes.\<close>

definition insert_item :: "uuid_source \<Rightarrow> (string \<Rightarrow> item_row) \<Rightarrow> 'a warehouse_scheme \<Rightarrow> (string \<times> 'a warehouse_scheme) result" where
  "insert_item gen row db =
     (let i = row (gen (uuid_draws db))
      in if \<not> in_int4 (it_salePriceMinor i) \<or> \<not> in_int4 (it_reorderPoint i) then Inl ''integer out of range''
         else if has_sku (it_orgID i) (it_sku i) db \<or> some_ex (\<lambda>b. has_barcode (it_orgID i) b db) (it_barcode i)
         then Inl ''duplicate key value violates unique constraint''
         else Inr (it_id i, db\<lparr>items := items db @ [i], uuid_draws := Suc (uuid_draws db)\<rparr>))"

definition inventoryCreateItem ::
  "uuid_source \<Rightarrow> string \<Rightarrow> inventoryCreateItemInput \<Rightarrow> 'a warehouse_scheme \<Rightarrow> (string \<times> 'a warehouse_scheme) result" where
  "inventoryCreateItem gen orgID input db =
     (let reorderPoint = (if im_Kind input = ''service'' then 0 else im_ReorderPointThousandths input)
      in if has_sku orgID (im_SKU input) db then Inl (''SKU '' @ quoted (im_SKU input) @ '' already exists'')
         else if some_ex (\<lambda>b. has_barcode orgID b db) (im_Barcode input)
         then Inl (''barcode '' @ quoted (the (im_Barcode input)) @ '' is already on another item'')
         else if maxDatabaseInteger < im_SalePriceMinor input \<or> maxDatabaseInteger < reorderPoint
         then Inl ''item amount exceeds the database integer range''
         else insert_item gen (\<lambda>k. \<lparr>it_id = k, it_orgID = orgID, it_sku = im_SKU input, it_name = im_Name input,
                it_kind = im_Kind input, it_unitLabel = im_UnitLabel input, it_salePriceMinor = im_SalePriceMinor input,
                it_reorderPoint = reorderPoint, it_imageURL = im_ImageURL input, it_tags = im_Tags input,
                it_barcode = im_Barcode input, it_archivedAt = None\<rparr>) db)"

text \<open>
  A patch: an absent field is untouched; the picture and the barcode may be set to null, so
  that presence and value are apart. The prior values come back in the same shape.
\<close>

record inventoryItemPatchInput =
  ip_SKU :: string
  ip_Name :: "string option"
  ip_UnitLabel :: "string option"
  ip_SalePriceMinor :: "int option"
  ip_ImageURL :: "string option option"
  ip_Tags :: "string list option"
  ip_Barcode :: "string option option"

definition patched :: "inventoryItemPatchInput \<Rightarrow> item_row \<Rightarrow> item_row" where
  "patched p i = i\<lparr>it_name := (case ip_Name p of None \<Rightarrow> it_name i | Some v \<Rightarrow> v),
     it_unitLabel := (case ip_UnitLabel p of None \<Rightarrow> it_unitLabel i | Some v \<Rightarrow> v),
     it_salePriceMinor := (case ip_SalePriceMinor p of None \<Rightarrow> it_salePriceMinor i | Some v \<Rightarrow> v),
     it_imageURL := (case ip_ImageURL p of None \<Rightarrow> it_imageURL i | Some v \<Rightarrow> v),
     it_tags := (case ip_Tags p of None \<Rightarrow> it_tags i | Some v \<Rightarrow> v),
     it_barcode := (case ip_Barcode p of None \<Rightarrow> it_barcode i | Some v \<Rightarrow> v)\<rparr>"

definition inventoryItemPrior :: "inventoryItemPatchInput \<Rightarrow> item_row \<Rightarrow> inventoryItemPatchInput" where
  "inventoryItemPrior p i =
     \<lparr>ip_SKU = ip_SKU p,
      ip_Name = map_option (\<lambda>_. it_name i) (ip_Name p),
      ip_UnitLabel = map_option (\<lambda>_. it_unitLabel i) (ip_UnitLabel p),
      ip_SalePriceMinor = map_option (\<lambda>_. it_salePriceMinor i) (ip_SalePriceMinor p),
      ip_ImageURL = map_option (\<lambda>_. it_imageURL i) (ip_ImageURL p),
      ip_Tags = map_option (\<lambda>_. it_tags i) (ip_Tags p),
      ip_Barcode = map_option (\<lambda>_. it_barcode i) (ip_Barcode p)\<rparr>"

definition patches_nothing :: "inventoryItemPatchInput \<Rightarrow> bool" where
  "patches_nothing p \<longleftrightarrow> ip_Name p = None \<and> ip_UnitLabel p = None \<and> ip_SalePriceMinor p = None \<and>
     ip_ImageURL p = None \<and> ip_Tags p = None \<and> ip_Barcode p = None"

definition barcode_taken :: "string \<Rightarrow> inventoryItemPatchInput \<Rightarrow> item_row \<Rightarrow> 'a warehouse_scheme \<Rightarrow> bool" where
  "barcode_taken orgID p i db \<longleftrightarrow>
     (case ip_Barcode p of
        Some (Some b) \<Rightarrow> it_barcode i \<noteq> Some b \<and> has_barcode orgID b db
      | _ \<Rightarrow> False)"

definition inventoryApplyItemPatch ::
  "string \<Rightarrow> inventoryItemPatchInput \<Rightarrow> 'a warehouse_scheme \<Rightarrow> (inventoryItemPatchInput \<times> 'a warehouse_scheme) result" where
  "inventoryApplyItemPatch orgID p db =
     (case find (\<lambda>i. it_orgID i = orgID \<and> it_sku i = ip_SKU p) (items db) of
        None \<Rightarrow> Inl (''no item with SKU '' @ ip_SKU p)
      | Some i \<Rightarrow>
          if barcode_taken orgID p i db
          then Inl (''barcode '' @ quoted (the (the (ip_Barcode p))) @ '' is already on another item'')
          else if some_ex (\<lambda>n. maxDatabaseInteger < n) (ip_SalePriceMinor p)
          then Inl ''salePriceMinor exceeds the database integer range''
          else if patches_nothing p then Inl ''nothing to update''
          else if some_ex (\<lambda>n. \<not> in_int4 n) (ip_SalePriceMinor p) then Inl ''integer out of range''
          else Inr (inventoryItemPrior p i,
                    db\<lparr>items := map (\<lambda>r. if it_orgID r = orgID \<and> it_id r = it_id i then patched p r else r) (items db)\<rparr>))"

definition inventoryUpdateItem ::
  "capabilityClaims \<Rightarrow> inventoryItemPatchInput \<Rightarrow> 'a warehouse_scheme \<Rightarrow> (inventoryItemPatchInput \<times> 'a warehouse_scheme) result" where
  "inventoryUpdateItem claims p db = inventoryApplyItemPatch (OrganizationID claims) p db"

definition inventoryRestoreItem ::
  "capabilityClaims \<Rightarrow> inventoryItemPatchInput \<Rightarrow> 'a warehouse_scheme \<Rightarrow> (inventoryItemPatchInput \<times> 'a warehouse_scheme) result" where
  "inventoryRestoreItem claims p db = inventoryApplyItemPatch (OrganizationID claims) p db"

definition inventoryArchiveItem ::
  "string \<Rightarrow> string \<Rightarrow> bool \<Rightarrow> int \<Rightarrow> 'a warehouse_scheme \<Rightarrow> ((string \<times> bool) \<times> 'a warehouse_scheme) result" where
  "inventoryArchiveItem orgID sku archive now db =
     (case find (\<lambda>i. it_orgID i = orgID \<and> it_sku i = sku) (items db) of
        None \<Rightarrow> Inl (''SKU '' @ quoted sku @ '' not found'')
      | Some i \<Rightarrow>
          Inr ((sku, archive),
               db\<lparr>items := map (\<lambda>r. if it_id r = it_id i then r\<lparr>it_archivedAt := (if archive then Some now else None)\<rparr> else r) (items db)\<rparr>))"

definition inventoryCreateLocation ::
  "uuid_source \<Rightarrow> string \<Rightarrow> string \<Rightarrow> string \<Rightarrow> 'a warehouse_scheme \<Rightarrow> (string \<times> 'a warehouse_scheme) result" where
  "inventoryCreateLocation gen orgID code name db =
     (if list_ex (\<lambda>l. lc_orgID l = orgID \<and> lc_code l = code) (stock_locations db)
      then Inl (''location code '' @ quoted code @ '' already exists'')
      else Inr (gen (uuid_draws db),
                db\<lparr>stock_locations := stock_locations db @ [\<lparr>lc_id = gen (uuid_draws db), lc_orgID = orgID, lc_code = code, lc_name = name\<rparr>],
                   uuid_draws := Suc (uuid_draws db)\<rparr>))"

text \<open>The lookup by barcode and the list of locations.\<close>

definition inventoryLookupByBarcode :: "string \<Rightarrow> string \<Rightarrow> 'a warehouse_scheme \<Rightarrow> item_row option" where
  "inventoryLookupByBarcode orgID barcode db =
     find (\<lambda>i. it_orgID i = orgID \<and> it_barcode i = Some barcode) (items db)"

definition inventoryListLocations :: "string \<Rightarrow> 'a warehouse_scheme \<Rightarrow> (string \<times> string) list" where
  "inventoryListLocations orgID db =
     map (\<lambda>l. (lc_code l, lc_name l))
       (stable_sort (\<lambda>a b. lc_code a < lc_code b) (filter (\<lambda>l. lc_orgID l = orgID) (stock_locations db)))"

section \<open>Import\<close>

record inventoryImportItemRow =
  ir_RowNumber :: int
  ir_SKU :: string
  ir_Name :: string
  ir_Kind :: string
  ir_UnitLabel :: string
  ir_SalePriceMinor :: int
  ir_ReorderPointThousandths :: int
  ir_Barcode :: "string option"
  ir_Tags :: "string list"

definition js_trim :: "string \<Rightarrow> string" where
  "js_trim s = identity_trim_right (identity_trim_left s)"

text \<open>The rows of one insertion are checked before any is written.\<close>

definition imported_item :: "string \<Rightarrow> inventoryImportItemRow \<Rightarrow> string \<Rightarrow> item_row" where
  "imported_item orgID row k =
     \<lparr>it_id = k, it_orgID = orgID, it_sku = ir_SKU row, it_name = ir_Name row, it_kind = ir_Kind row,
      it_unitLabel = ir_UnitLabel row, it_salePriceMinor = ir_SalePriceMinor row,
      it_reorderPoint = (if ir_Kind row = ''service'' then 0 else ir_ReorderPointThousandths row),
      it_imageURL = None, it_tags = ir_Tags row,
      it_barcode = (if ir_Kind row = ''service'' then None else ir_Barcode row), it_archivedAt = None\<rparr>"

definition import_row ::
  "uuid_source \<Rightarrow> string \<Rightarrow> string list \<times> 'a warehouse_scheme \<Rightarrow> inventoryImportItemRow \<Rightarrow> (string list \<times> 'a warehouse_scheme) result" where
  "import_row gen orgID st row =
     (case st of (ids, db) \<Rightarrow>
        bind_result (insert_item gen (imported_item orgID row) db) (\<lambda>(k, db1). Inr (ids @ [k], db1)))"

definition inventoryImportsInsertChunk ::
  "uuid_source \<Rightarrow> string \<Rightarrow> inventoryImportItemRow list \<Rightarrow> 'a warehouse_scheme \<Rightarrow> (string list \<times> 'a warehouse_scheme) result" where
  "inventoryImportsInsertChunk gen orgID chunk db =
     (if list_ex (\<lambda>row. maxDatabaseInteger < ir_SalePriceMinor row \<or>
           maxDatabaseInteger < (if ir_Kind row = ''service'' then 0 else ir_ReorderPointThousandths row)) chunk
      then Inl ''item amount exceeds the database integer range''
      else fold_result (import_row gen orgID) ([], db) chunk)"

text \<open>One row of the file against what the table and the rows before it hold.\<close>

definition import_step ::
  "(string \<Rightarrow> string) \<Rightarrow> string list \<times> string list \<times> int list \<times> inventoryImportItemRow list \<Rightarrow> inventoryImportItemRow
   \<Rightarrow> string list \<times> string list \<times> int list \<times> inventoryImportItemRow list" where
  "import_step lower st row =
     (case st of (seenSku, seenBarcode, skipped, fresh) \<Rightarrow>
        let sku = lower (ir_SKU row); barcode = (case ir_Barcode row of None \<Rightarrow> [] | Some b \<Rightarrow> lower b)
        in if sku \<in> set seenSku \<or> barcode \<noteq> [] \<and> barcode \<in> set seenBarcode
           then (seenSku, seenBarcode, skipped @ [ir_RowNumber row], fresh)
           else (sku # seenSku, (if barcode \<noteq> [] then barcode # seenBarcode else seenBarcode), skipped, fresh @ [row]))"

text \<open>The loop over the fresh rows, five hundred to an insertion.\<close>

function insert_chunks ::
  "uuid_source \<Rightarrow> string \<Rightarrow> inventoryImportItemRow list \<Rightarrow> string list \<times> 'a warehouse_scheme \<Rightarrow> (string list \<times> 'a warehouse_scheme) result" where
  "insert_chunks gen orgID fresh (ids, db) =
     (if fresh = [] then Inr (ids, db)
      else bind_result (inventoryImportsInsertChunk gen orgID (take 500 fresh) db) (\<lambda>(created, db1).
             insert_chunks gen orgID (drop 500 fresh) (ids @ created, db1)))"
  by pat_completeness auto
termination by (relation "measure (\<lambda>(_, _, fresh, _). length fresh)") auto

declare insert_chunks.simps [simp del]

text \<open>
  A member of a JSON object as \<^verbatim>\<open>json.Unmarshal\<close> into a map or a string leaves it: the empty
  value when the member is missing or of another kind.
\<close>

definition member_object :: "(string \<times> json) list \<Rightarrow> string \<Rightarrow> (string \<times> json) list" where
  "member_object obj key = (case map_of obj key of Some (JObj ps) \<Rightarrow> ps | _ \<Rightarrow> [])"

definition member_string :: "(string \<times> json) list \<Rightarrow> string \<Rightarrow> string" where
  "member_string obj key = (case map_of obj key of Some (JStr s) \<Rightarrow> s | _ \<Rightarrow> [])"

definition inventoryMarkProductsImportComplete ::
  "string \<Rightarrow> string \<Rightarrow> 'a stockroom_scheme \<Rightarrow> 'a stockroom_scheme result" where
  "inventoryMarkProductsImportComplete clock orgID db =
     (case map_of (org_settings db) orgID of
        None \<Rightarrow> Inl ''no rows in result set''
      | Some settings \<Rightarrow>
          let onboarding = member_object (case settings of Some (JObj ps) \<Rightarrow> ps | _ \<Rightarrow> []) ''onboarding'';
              path = (if member_string onboarding ''path'' \<in> {''import'', ''connect''} then member_string onboarding ''path'' else ''fresh'');
              startedAt = (if member_string onboarding ''startedAt'' = [] then clock else member_string onboarding ''startedAt'');
              steps = obj_put ''import_products'' (JStr ''done'') (member_object onboarding ''steps'');
              changed = obj_put ''steps'' (JObj steps) (obj_put ''startedAt'' (JStr startedAt) (obj_put ''path'' (JStr path) onboarding))
          in (case (case settings of None \<Rightarrow> JObj [] | Some v \<Rightarrow> v) of
                JObj ps \<Rightarrow> Inr (db\<lparr>org_settings := map (\<lambda>(k, v). if k = orgID then (k, Some (JObj (obj_put ''onboarding'' (JObj changed) ps))) else (k, v)) (org_settings db)\<rparr>)
              | JArr _ \<Rightarrow> Inl ''path element at position 1 is not an integer''
              | _ \<Rightarrow> Inl ''cannot set path in scalar''))"

record inventoryImportItemsOutput =
  io_CreatedIDs :: "string list"
  io_Imported :: int
  io_SkippedDuplicateRows :: "int list"

definition inventoryImportItems ::
  "(string \<Rightarrow> string) \<Rightarrow> uuid_source \<Rightarrow> string \<Rightarrow> string \<Rightarrow> inventoryImportItemRow list \<Rightarrow> 'a stockroom_scheme
   \<Rightarrow> (inventoryImportItemsOutput \<times> 'a stockroom_scheme) result" where
  "inventoryImportItems lower gen clock orgID rows db =
     (let mine = filter (\<lambda>i. it_orgID i = orgID) (items db);
          seenSku = map (\<lambda>i. lower (js_trim (it_sku i))) mine;
          seenBarcode = map (\<lambda>b. lower (js_trim b)) (List.map_filter it_barcode mine)
      in case foldl (import_step lower) (seenSku, seenBarcode, [], []) rows of (_, _, skipped, fresh) \<Rightarrow>
           bind_result (insert_chunks gen orgID fresh ([], db)) (\<lambda>(ids, db1).
           bind_result (if 0 < length ids then inventoryMarkProductsImportComplete clock orgID db1 else Inr db1) (\<lambda>db2.
           Inr (\<lparr>io_CreatedIDs = ids, io_Imported = int (length ids), io_SkippedDuplicateRows = skipped\<rparr>, db2))))"

definition inventorySortedUniqueIDs :: "string list \<Rightarrow> string list" where
  "inventorySortedUniqueIDs vs = stable_sort (<) (rev (foldl (\<lambda>ids v. if v \<in> set ids then ids else v # ids) [] vs))"

definition inventoryUndoItemImport ::
  "string \<Rightarrow> string list \<Rightarrow> int \<Rightarrow> 'a warehouse_scheme \<Rightarrow> (string list \<times> int) \<times> 'a warehouse_scheme" where
  "inventoryUndoItemImport orgID ids now db =
     (let hit = (\<lambda>i. it_orgID i = orgID \<and> it_id i \<in> set (inventorySortedUniqueIDs ids) \<and> it_archivedAt i = None);
          changed = map it_id (filter hit (items db))
      in ((changed, int (length changed)),
          db\<lparr>items := map (\<lambda>i. if hit i then i\<lparr>it_archivedAt := Some now\<rparr> else i) (items db)\<rparr>))"

definition inventoryRestoreItemImport ::
  "string \<Rightarrow> string list \<Rightarrow> 'a warehouse_scheme \<Rightarrow> (string list \<times> int) \<times> 'a warehouse_scheme" where
  "inventoryRestoreItemImport orgID ids db =
     (let hit = (\<lambda>i. it_orgID i = orgID \<and> it_id i \<in> set (inventorySortedUniqueIDs ids) \<and> it_archivedAt i \<noteq> None);
          changed = map it_id (filter hit (items db))
      in ((changed, int (length changed)),
          db\<lparr>items := map (\<lambda>i. if hit i then i\<lparr>it_archivedAt := None\<rparr> else i) (items db)\<rparr>))"

section \<open>Reservations\<close>

definition inventoryAvailableToPromise :: "int \<Rightarrow> int \<Rightarrow> int" where
  "inventoryAvailableToPromise onHand reservedOpen =
     (let reserved = (if reservedOpen < 0 then 0 else reservedOpen); available = onHand - reserved
      in if available < 0 then 0 else available)"

definition inventoryOpenReserved :: "string \<Rightarrow> string \<Rightarrow> 'a stockroom_scheme \<Rightarrow> int" where
  "inventoryOpenReserved orgID itemID db =
     sum_list (map rs_quantity (filter (\<lambda>r. rs_orgID r = orgID \<and> rs_itemID r = itemID \<and> rs_status r = ''open'') (reservations db)))"

definition inventoryReserveStock ::
  "uuid_source \<Rightarrow> capabilityClaims \<Rightarrow> string \<Rightarrow> int \<Rightarrow> string \<Rightarrow> 'a stockroom_scheme \<Rightarrow> ((string \<times> int) \<times> 'a stockroom_scheme) result" where
  "inventoryReserveStock gen claims sku quantity reason db =
     (let orgID = OrganizationID claims in
      bind_result (item_by_sku orgID sku db) (\<lambda>item.
        let onHand = inventoryStockOnHand orgID (it_id item) None db;
            reserved = inventoryOpenReserved orgID (it_id item) db;
            available = inventoryAvailableToPromise onHand reserved
        in if available < quantity
           then Inl (''only '' @ show_int available @ '' thousandths available to promise ('' @ show_int onHand @ '' on hand, ''
                     @ show_int reserved @ '' reserved)'')
           else if \<not> in_int4 quantity then Inl ''integer out of range''
           else Inr ((gen (uuid_draws db), available - quantity),
                     db\<lparr>uuid_draws := Suc (uuid_draws db),
                        reservations := reservations db @ [\<lparr>rs_id = gen (uuid_draws db), rs_orgID = orgID, rs_itemID = it_id item,
                          rs_quantity = quantity, rs_reason = reason, rs_status = ''open'', rs_actorType = ActorType claims,
                          rs_actorID = ActorID claims, rs_releasedAt = None\<rparr>]\<rparr>)))"

definition inventoryReleaseReservation ::
  "string \<Rightarrow> string \<Rightarrow> int \<Rightarrow> 'a stockroom_scheme \<Rightarrow> (bool \<times> 'a stockroom_scheme) result" where
  "inventoryReleaseReservation orgID k now db =
     (case find (\<lambda>r. rs_orgID r = orgID \<and> rs_id r = k) (reservations db) of
        None \<Rightarrow> Inl (''no reservation '' @ k)
      | Some r \<Rightarrow>
          if rs_status r \<noteq> ''open'' then Inl (''reservation is '' @ rs_status r @ '', only open ones can be released'')
          else Inr (True, db\<lparr>reservations := map (\<lambda>r. if rs_id r = k then r\<lparr>rs_status := ''released'', rs_releasedAt := Some now\<rparr> else r) (reservations db)\<rparr>))"

section \<open>The catalogue invariant\<close>

definition barcodes_unique :: "item_row list \<Rightarrow> bool" where
  "barcodes_unique is \<longleftrightarrow> (\<forall>i \<in> set is. \<forall>j \<in> set is. it_orgID i = it_orgID j \<and> it_barcode i = it_barcode j \<and> it_barcode i \<noteq> None \<longrightarrow> i = j)"

definition items_ok :: "uuid_source \<Rightarrow> 'a warehouse_scheme \<Rightarrow> bool" where
  "items_ok gen db \<longleftrightarrow>
     distinct (map it_id (items db)) \<and> (\<forall>n \<ge> uuid_draws db. gen n \<notin> it_id ` set (items db)) \<and>
     distinct (map (\<lambda>i. (it_orgID i, it_sku i)) (items db)) \<and> barcodes_unique (items db) \<and>
     (\<forall>i \<in> set (items db). in_int4 (it_salePriceMinor i) \<and> in_int4 (it_reorderPoint i))"

lemma items_okD:
  assumes "items_ok gen db"
  shows "distinct (map it_id (items db))" "distinct (map (\<lambda>i. (it_orgID i, it_sku i)) (items db))" "barcodes_unique (items db)"
  using assms by (auto simp: items_ok_def)

lemma barcodes_unique_snoc:
  assumes "barcodes_unique is"
    and "\<And>j. j \<in> set is \<Longrightarrow> it_orgID j = it_orgID i \<Longrightarrow> it_barcode i \<noteq> None \<Longrightarrow> it_barcode j \<noteq> it_barcode i"
  shows "barcodes_unique (is @ [i])"
proof -
  have "a = b" if "a \<in> set (is @ [i])" "b \<in> set (is @ [i])" "it_orgID a = it_orgID b" "it_barcode a = it_barcode b" "it_barcode a \<noteq> None" for a b
  proof (cases "a \<in> set is \<and> b \<in> set is")
    case True
    then show ?thesis using assms(1) that unfolding barcodes_unique_def by blast
  next
    case False
    then show ?thesis using assms(2) that by (metis Un_iff empty_iff empty_set insert_iff list.simps(15) set_append)
  qed
  then show ?thesis unfolding barcodes_unique_def by blast
qed

lemma insert_item_Inr:
  assumes ins: "insert_item gen row db = Inr (k, db')" and ok: "items_ok gen db" and gen: "uuid_supply gen" and id: "\<And>k. it_id (row k) = k"
  shows "items_ok gen db'" "k = gen (uuid_draws db)" "db' = db\<lparr>items := items db @ [row k], uuid_draws := Suc (uuid_draws db)\<rparr>"
proof -
  let ?i = "row (gen (uuid_draws db))"
  from ins id have k: "k = gen (uuid_draws db)" and d: "db' = db\<lparr>items := items db @ [?i], uuid_draws := Suc (uuid_draws db)\<rparr>"
    and r: "in_int4 (it_salePriceMinor ?i)" "in_int4 (it_reorderPoint ?i)" and nosku: "\<not> has_sku (it_orgID ?i) (it_sku ?i) db"
    and nobar: "\<not> some_ex (\<lambda>b. has_barcode (it_orgID ?i) b db) (it_barcode ?i)"
    by (auto simp: insert_item_def Let_def split: if_splits)
  show "k = gen (uuid_draws db)" "db' = db\<lparr>items := items db @ [row k], uuid_draws := Suc (uuid_draws db)\<rparr>"
    by (rule k) (simp only: k d)
  have "it_barcode j \<noteq> it_barcode ?i" if "j \<in> set (items db)" "it_orgID j = it_orgID ?i" "it_barcode ?i \<noteq> None" for j
    using nobar that by (cases "it_barcode ?i") (auto simp: has_barcode_def list_ex_iff)
  then have u: "barcodes_unique (items db @ [?i])" by (rule barcodes_unique_snoc [OF items_okD(3) [OF ok]])
  have n: "gen (uuid_draws db) \<notin> it_id ` set (items db)" using ok by (simp add: items_ok_def)
  have s: "(it_orgID ?i, it_sku ?i) \<notin> (\<lambda>i. (it_orgID i, it_sku i)) ` set (items db)" using nosku by (auto simp: has_sku_def list_ex_iff)
  show "items_ok gen db'" using ok gen u n s r by (auto simp: items_ok_def d id)
qed

lemma items_ok_same:
  assumes ok: "items_ok gen db" and "items db' = items db" "uuid_draws db \<le> uuid_draws db'"
  shows "items_ok gen db'"
  using assms by (simp add: items_ok_def)

section \<open>Patching\<close>

lemma find_map_same: "(\<And>x. P (g x) = P x) \<Longrightarrow> find P (map g xs) = map_option g (find P xs)"
  by (induction xs) auto

lemma patched_simps [simp]:
  "it_id (patched p i) = it_id i" "it_orgID (patched p i) = it_orgID i" "it_sku (patched p i) = it_sku i"
  "it_kind (patched p i) = it_kind i" "it_reorderPoint (patched p i) = it_reorderPoint i" "it_archivedAt (patched p i) = it_archivedAt i"
  by (simp_all add: patched_def)

lemma patched_back: "patched (inventoryItemPrior p i) (patched p i) = i"
  by (cases i) (auto simp: patched_def inventoryItemPrior_def split: option.splits)

lemma prior_back: "inventoryItemPrior (inventoryItemPrior p i) (patched p i) = p"
  by (cases p) (auto simp: patched_def inventoryItemPrior_def split: option.splits)

lemma prior_nothing [simp]: "patches_nothing (inventoryItemPrior p i) = patches_nothing p"
  by (simp add: patches_nothing_def inventoryItemPrior_def)

lemma prior_sku [simp]: "ip_SKU (inventoryItemPrior p i) = ip_SKU p"
  by (simp add: inventoryItemPrior_def)

lemma apply_patch_Inr:
  assumes "inventoryApplyItemPatch orgID p db = Inr (prior, db')"
  obtains i where "i \<in> set (items db)" "it_orgID i = orgID" "it_sku i = ip_SKU p"
    "find (\<lambda>i. it_orgID i = orgID \<and> it_sku i = ip_SKU p) (items db) = Some i" "\<not> barcode_taken orgID p i db"
    "prior = inventoryItemPrior p i" "\<not> patches_nothing p" "\<And>n. ip_SalePriceMinor p = Some n \<Longrightarrow> in_int4 n"
    "db' = db\<lparr>items := map (\<lambda>r. if it_orgID r = orgID \<and> it_id r = it_id i then patched p r else r) (items db)\<rparr>"
proof -
  from assms obtain i where f: "find (\<lambda>i. it_orgID i = orgID \<and> it_sku i = ip_SKU p) (items db) = Some i"
    by (auto simp: inventoryApplyItemPatch_def split: option.splits)
  then have "i \<in> set (items db) \<and> it_orgID i = orgID \<and> it_sku i = ip_SKU p" by (auto simp: find_Some_iff)
  with f assms show thesis
    by (intro that [of i]) (auto simp: inventoryApplyItemPatch_def split: if_splits)
qed

lemma barcode_takenD:
  "barcode_taken orgID p i db \<Longrightarrow> \<exists>b. ip_Barcode p = Some (Some b) \<and> it_barcode i \<noteq> Some b \<and> has_barcode orgID b db"
  by (auto simp: barcode_taken_def split: option.splits)

lemma has_barcode_map:
  "has_barcode orgID b (db\<lparr>items := map g xs\<rparr>) \<longleftrightarrow> (\<exists>r \<in> set xs. it_orgID (g r) = orgID \<and> it_barcode (g r) = Some b)"
  by (simp add: has_barcode_def list_ex_iff)

lemma patch_frees_barcode:
  assumes ok: "items_ok gen db" and i: "i \<in> set (items db)" "it_orgID i = orgID"
  shows "\<not> barcode_taken orgID (inventoryItemPrior p i) (patched p i)
    (db\<lparr>items := map (\<lambda>r. if it_orgID r = orgID \<and> it_id r = it_id i then patched p r else r) (items db)\<rparr>)"
proof
  assume t: "barcode_taken orgID (inventoryItemPrior p i) (patched p i)
    (db\<lparr>items := map (\<lambda>r. if it_orgID r = orgID \<and> it_id r = it_id i then patched p r else r) (items db)\<rparr>)"
  let ?g = "\<lambda>r. if it_orgID r = orgID \<and> it_id r = it_id i then patched p r else r"
  from barcode_takenD [OF t] obtain b where p: "ip_Barcode (inventoryItemPrior p i) = Some (Some b)"
    and nb: "it_barcode (patched p i) \<noteq> Some b" and h: "has_barcode orgID b (db\<lparr>items := map ?g (items db)\<rparr>)" by blast
  from p have b: "it_barcode i = Some b" "it_barcode (patched p i) \<noteq> Some b" using nb by (auto simp: inventoryItemPrior_def)
  from h obtain r where r: "r \<in> set (items db)" "it_orgID (?g r) = orgID" "it_barcode (?g r) = Some b"
    unfolding has_barcode_map by blast
  have ro: "it_orgID r = orgID" using r(2) by (simp split: if_splits)
  show False
  proof (cases "it_id r = it_id i")
    case True
    then have "r = i" using distinct_keyD [OF items_okD(1) [OF ok] r(1) i(1)] by simp
    with r(3) b i(2) show False by simp
  next
    case False
    then have "it_barcode r = Some b" using r(3) by simp
    with r(1) ro i b(1) items_okD(3) [OF ok] have "r = i" unfolding barcodes_unique_def by simp
    with False show False by simp
  qed
qed

lemma patch_roundtrip:
  assumes ok: "items_ok gen db" and run: "inventoryApplyItemPatch orgID p db = Inr (prior, db')"
  shows "inventoryApplyItemPatch orgID prior db' = Inr (p, db)"
proof -
  obtain i where i: "i \<in> set (items db)" "it_orgID i = orgID" "it_sku i = ip_SKU p"
    and f: "find (\<lambda>i. it_orgID i = orgID \<and> it_sku i = ip_SKU p) (items db) = Some i" and prior: "prior = inventoryItemPrior p i"
    and n: "\<not> patches_nothing p"
    and d: "db' = db\<lparr>items := map (\<lambda>r. if it_orgID r = orgID \<and> it_id r = it_id i then patched p r else r) (items db)\<rparr>"
    using run by (rule apply_patch_Inr)
  let ?g = "\<lambda>r. if it_orgID r = orgID \<and> it_id r = it_id i then patched p r else r"
  have f': "find (\<lambda>i. it_orgID i = orgID \<and> it_sku i = ip_SKU prior) (items db') = Some (patched p i)"
    using find_map_same [of "\<lambda>i. it_orgID i = orgID \<and> it_sku i = ip_SKU p" ?g "items db"] f i(2) by (simp add: d prior)
  have t: "\<not> barcode_taken orgID prior (patched p i) db'" unfolding prior d by (rule patch_frees_barcode [OF ok i(1,2)])
  have "in_int4 (it_salePriceMinor i)" using ok i(1) by (simp add: items_ok_def)
  then have price: "\<not> some_ex (\<lambda>n. maxDatabaseInteger < n) (ip_SalePriceMinor prior)"
      "\<not> some_ex (\<lambda>n. \<not> in_int4 n) (ip_SalePriceMinor prior)"
    by (auto simp: prior inventoryItemPrior_def some_ex_def in_int4_def split: option.splits)
  have "(if it_orgID (?g r) = orgID \<and> it_id (?g r) = it_id i then patched prior (?g r) else ?g r) = r" if "r \<in> set (items db)" for r
  proof (cases "it_orgID r = orgID \<and> it_id r = it_id i")
    case True
    then have "r = i" using distinct_keyD [OF items_okD(1) [OF ok] that i(1)] by simp
    with i(2) show ?thesis by (simp add: prior patched_back)
  qed auto
  then have "map (\<lambda>r. if it_orgID r = orgID \<and> it_id r = it_id (patched p i) then patched prior r else r) (items db') = items db"
    by (simp add: d map_idI)
  then show ?thesis using f' t price n unfolding inventoryApplyItemPatch_def by (simp add: prior prior_back) (simp add: d)
qed

section \<open>Importing\<close>

definition row_fits :: "inventoryImportItemRow \<Rightarrow> bool" where
  "row_fits row \<longleftrightarrow> 0 \<le> ir_SalePriceMinor row \<and> ir_SalePriceMinor row \<le> maxDatabaseInteger \<and>
     0 \<le> ir_ReorderPointThousandths row \<and> ir_ReorderPointThousandths row \<le> maxDatabaseInteger"

text \<open>What the parser of a row leaves: trimmed text and codes that are not empty.\<close>

definition row_trimmed :: "inventoryImportItemRow \<Rightarrow> bool" where
  "row_trimmed row \<longleftrightarrow> js_trim (ir_SKU row) = ir_SKU row \<and> (\<forall>b. ir_Barcode row = Some b \<longrightarrow> js_trim b = b \<and> b \<noteq> [])"

definition folded_skus :: "(string \<Rightarrow> string) \<Rightarrow> string \<Rightarrow> 'a warehouse_scheme \<Rightarrow> string set" where
  "folded_skus lower orgID db = (\<lambda>i. lower (js_trim (it_sku i))) ` set (filter (\<lambda>i. it_orgID i = orgID) (items db))"

definition folded_barcodes :: "(string \<Rightarrow> string) \<Rightarrow> string \<Rightarrow> 'a warehouse_scheme \<Rightarrow> string set" where
  "folded_barcodes lower orgID db =
     (\<Union>i \<in> set (filter (\<lambda>i. it_orgID i = orgID) (items db)). (\<lambda>b. lower (js_trim b)) ` set_option (it_barcode i))"

text \<open>Rows that collide neither with the table nor among themselves, upper and lower case taken together.\<close>

fun apart :: "(string \<Rightarrow> string) \<Rightarrow> string set \<Rightarrow> string set \<Rightarrow> inventoryImportItemRow list \<Rightarrow> bool" where
  "apart lower skus codes [] \<longleftrightarrow> True"
| "apart lower skus codes (row # rows) \<longleftrightarrow>
     lower (ir_SKU row) \<notin> skus \<and> (\<forall>b. ir_Barcode row = Some b \<longrightarrow> lower b \<notin> codes) \<and>
     apart lower (insert (lower (ir_SKU row)) skus) (codes \<union> lower ` set_option (ir_Barcode row)) rows"

lemma apart_mono: "apart lower skus codes rows \<Longrightarrow> skus' \<subseteq> skus \<Longrightarrow> codes' \<subseteq> codes \<Longrightarrow> apart lower skus' codes' rows"
proof (induction lower skus codes rows arbitrary: skus' codes' rule: apart.induct)
  case (2 lower skus codes row rows)
  have "apart lower (insert (lower (ir_SKU row)) skus') (codes' \<union> lower ` set_option (ir_Barcode row)) rows"
    by (rule "2.IH") (use 2 in auto)
  with 2 show ?case by auto
qed simp

lemma apart_append:
  "apart lower skus codes (xs @ ys) \<longleftrightarrow> apart lower skus codes xs \<and>
     apart lower (skus \<union> (\<lambda>r. lower (ir_SKU r)) ` set xs) (codes \<union> (\<Union>r \<in> set xs. lower ` set_option (ir_Barcode r))) ys"
  by (induction xs arbitrary: skus codes) (simp_all add: Un_assoc)

lemma imported_item_simps [simp]:
  "it_id (imported_item orgID row k) = k" "it_orgID (imported_item orgID row k) = orgID" "it_sku (imported_item orgID row k) = ir_SKU row"
  "it_archivedAt (imported_item orgID row k) = None"
  "it_barcode (imported_item orgID row k) = (if ir_Kind row = ''service'' then None else ir_Barcode row)"
  by (simp_all add: imported_item_def)

lemma import_insert:
  assumes ok: "items_ok gen db" and gen: "uuid_supply gen" and fit: "row_fits row" and trim: "row_trimmed row"
    and a: "apart lower (folded_skus lower orgID db) (folded_barcodes lower orgID db) (row # rows)"
  obtains db' where "insert_item gen (imported_item orgID row) db = Inr (gen (uuid_draws db), db')"
    "db' = db\<lparr>items := items db @ [imported_item orgID row (gen (uuid_draws db))], uuid_draws := Suc (uuid_draws db)\<rparr>"
    "items_ok gen db'" "apart lower (folded_skus lower orgID db') (folded_barcodes lower orgID db') rows"
proof -
  let ?i = "imported_item orgID row (gen (uuid_draws db))"
  let ?db = "db\<lparr>items := items db @ [?i], uuid_draws := Suc (uuid_draws db)\<rparr>"
  have tr: "js_trim (ir_SKU row) = ir_SKU row" "\<And>b. ir_Barcode row = Some b \<Longrightarrow> js_trim b = b" using trim by (auto simp: row_trimmed_def)
  have ns: "\<not> has_sku orgID (ir_SKU row) db"
  proof
    assume "has_sku orgID (ir_SKU row) db"
    then obtain i where "i \<in> set (items db)" "it_orgID i = orgID" "it_sku i = ir_SKU row" by (auto simp: has_sku_def list_ex_iff)
    then have "lower (js_trim (ir_SKU row)) \<in> folded_skus lower orgID db" by (force simp: folded_skus_def)
    with a tr(1) show False by simp
  qed
  have nb: "\<not> has_barcode orgID b db" if "ir_Barcode row = Some b" for b
  proof
    assume "has_barcode orgID b db"
    then have "lower (js_trim b) \<in> folded_barcodes lower orgID db" by (auto simp: has_barcode_def list_ex_iff folded_barcodes_def)
    with a that tr(2) show False by auto
  qed
  have "insert_item gen (imported_item orgID row) db = Inr (gen (uuid_draws db), ?db)"
    using fit ns nb by (auto simp: insert_item_def Let_def imported_item_def row_fits_def in_int4_def some_ex_def maxDatabaseInteger_def split: option.splits)
  moreover from insert_item_Inr(1) [OF this ok gen] have "items_ok gen ?db" by (simp add: imported_item_def)
  moreover have "folded_skus lower orgID ?db \<subseteq> insert (lower (ir_SKU row)) (folded_skus lower orgID db)"
    using tr(1) by (auto simp: folded_skus_def)
  moreover have "folded_barcodes lower orgID ?db \<subseteq> folded_barcodes lower orgID db \<union> lower ` set_option (ir_Barcode row)"
    using tr(2) by (auto simp: folded_barcodes_def split: if_splits)
  ultimately show thesis using a by (intro that [of ?db]) (auto intro: apart_mono)
qed

text \<open>The rows a whole insertion adds, with the identifiers drawn one after the other.\<close>

fun imported_items :: "uuid_source \<Rightarrow> string \<Rightarrow> nat \<Rightarrow> inventoryImportItemRow list \<Rightarrow> item_row list" where
  "imported_items gen orgID n [] = []"
| "imported_items gen orgID n (row # rows) = imported_item orgID row (gen n) # imported_items gen orgID (Suc n) rows"

lemma imported_items_append:
  "imported_items gen orgID n (xs @ ys) = imported_items gen orgID n xs @ imported_items gen orgID (n + length xs) ys"
  by (induction xs arbitrary: n) simp_all

lemma imported_Nil [simp]: "imported_items gen orgID n rows = [] \<longleftrightarrow> rows = []"
  by (cases rows) simp_all

lemma length_imported [simp]: "length (imported_items gen orgID n rows) = length rows"
  by (induction rows arbitrary: n) simp_all

lemma import_rows:
  assumes "items_ok gen db" and gen: "uuid_supply gen" and "\<forall>r \<in> set rows. row_fits r \<and> row_trimmed r"
    and "apart lower (folded_skus lower orgID db) (folded_barcodes lower orgID db) (rows @ rest)"
  shows "\<exists>db'. fold_result (import_row gen orgID) (ids, db) rows = Inr (ids @ map it_id (imported_items gen orgID (uuid_draws db) rows), db') \<and>
    db' = db\<lparr>items := items db @ imported_items gen orgID (uuid_draws db) rows, uuid_draws := uuid_draws db + length rows\<rparr> \<and>
    items_ok gen db' \<and> apart lower (folded_skus lower orgID db') (folded_barcodes lower orgID db') rest"
  using assms
proof (induction rows arbitrary: db ids)
  case (Cons row rows)
  then obtain db1 where 1: "insert_item gen (imported_item orgID row) db = Inr (gen (uuid_draws db), db1)"
    "db1 = db\<lparr>items := items db @ [imported_item orgID row (gen (uuid_draws db))], uuid_draws := Suc (uuid_draws db)\<rparr>"
    "items_ok gen db1" "apart lower (folded_skus lower orgID db1) (folded_barcodes lower orgID db1) (rows @ rest)"
    using import_insert [of gen db row lower orgID "rows @ rest"] by auto
  have d: "uuid_draws db1 = Suc (uuid_draws db)" "items db1 = items db @ [imported_item orgID row (gen (uuid_draws db))]" by (simp_all add: 1(2))
  from Cons.IH [OF 1(3) gen _ 1(4), of "ids @ [gen (uuid_draws db)]"] Cons.prems(3) obtain db' where
    "fold_result (import_row gen orgID) (ids @ [gen (uuid_draws db)], db1) rows =
       Inr ((ids @ [gen (uuid_draws db)]) @ map it_id (imported_items gen orgID (Suc (uuid_draws db)) rows), db')"
    "db' = db1\<lparr>items := items db1 @ imported_items gen orgID (Suc (uuid_draws db)) rows, uuid_draws := Suc (uuid_draws db) + length rows\<rparr>"
    "items_ok gen db'" "apart lower (folded_skus lower orgID db') (folded_barcodes lower orgID db') rest" by (auto simp: d)
  moreover have "import_row gen orgID (ids, db) row = Inr (ids @ [gen (uuid_draws db)], db1)" by (simp add: import_row_def 1(1))
  ultimately show ?case by (intro exI [of _ db']) (simp add: d, simp add: 1(2))
qed simp

text \<open>Five hundred to an insertion, or all one after the other.\<close>

lemma insert_chunks_rows:
  assumes "items_ok gen db" and gen: "uuid_supply gen" and "\<forall>r \<in> set rows. row_fits r \<and> row_trimmed r"
    and "apart lower (folded_skus lower orgID db) (folded_barcodes lower orgID db) rows"
  shows "\<exists>db'. insert_chunks gen orgID rows (ids, db) = Inr (ids @ map it_id (imported_items gen orgID (uuid_draws db) rows), db') \<and>
    db' = db\<lparr>items := items db @ imported_items gen orgID (uuid_draws db) rows, uuid_draws := uuid_draws db + length rows\<rparr> \<and>
    items_ok gen db'"
  using assms
proof (induction "length rows" arbitrary: rows ids db rule: less_induct)
  case less
  show ?case
  proof (cases "rows = []")
    case True
    with less.prems(1) show ?thesis by (simp add: insert_chunks.simps)
  next
    case False
    let ?a = "take 500 rows" and ?b = "drop 500 rows"
    have split: "?a @ ?b = rows" by simp
    have fits: "\<forall>r \<in> set ?a. row_fits r \<and> row_trimmed r" "\<forall>r \<in> set ?b. row_fits r \<and> row_trimmed r"
      using less.prems(3) by (auto dest: in_set_takeD in_set_dropD)
    obtain db1 where 1: "fold_result (import_row gen orgID) ([], db) ?a = Inr (map it_id (imported_items gen orgID (uuid_draws db) ?a), db1)"
      "db1 = db\<lparr>items := items db @ imported_items gen orgID (uuid_draws db) ?a, uuid_draws := uuid_draws db + length ?a\<rparr>"
      "items_ok gen db1" "apart lower (folded_skus lower orgID db1) (folded_barcodes lower orgID db1) ?b"
      using import_rows [OF less.prems(1) gen fits(1), of lower orgID ?b "[]"] less.prems(4) by (auto simp: split)
    have "\<not> list_ex (\<lambda>row. maxDatabaseInteger < ir_SalePriceMinor row \<or>
           maxDatabaseInteger < (if ir_Kind row = ''service'' then 0 else ir_ReorderPointThousandths row)) ?a"
      using fits(1) by (auto simp: list_ex_iff row_fits_def not_less maxDatabaseInteger_def)
    with 1(1) have chunk: "inventoryImportsInsertChunk gen orgID ?a db = Inr (map it_id (imported_items gen orgID (uuid_draws db) ?a), db1)"
      by (simp add: inventoryImportsInsertChunk_def)
    have shorter: "length ?b < length rows" using False by simp
    obtain db' where 2: "insert_chunks gen orgID ?b (ids @ map it_id (imported_items gen orgID (uuid_draws db) ?a), db1) =
        Inr ((ids @ map it_id (imported_items gen orgID (uuid_draws db) ?a)) @ map it_id (imported_items gen orgID (uuid_draws db1) ?b), db')"
      "db' = db1\<lparr>items := items db1 @ imported_items gen orgID (uuid_draws db1) ?b, uuid_draws := uuid_draws db1 + length ?b\<rparr>" "items_ok gen db'"
      using less.hyps [OF shorter 1(3) gen fits(2) 1(4), of "ids @ map it_id (imported_items gen orgID (uuid_draws db) ?a)"] by blast
    have n: "uuid_draws db1 = uuid_draws db + length ?a" and it: "items db1 = items db @ imported_items gen orgID (uuid_draws db) ?a"
      by (simp_all add: 1(2))
    have all: "imported_items gen orgID (uuid_draws db) ?a @ imported_items gen orgID (uuid_draws db1) ?b = imported_items gen orgID (uuid_draws db) rows"
      unfolding n by (simp only: imported_items_append [symmetric] split)
    have run: "insert_chunks gen orgID rows (ids, db) = Inr (ids @ map it_id (imported_items gen orgID (uuid_draws db) rows), db')"
      using 2(1) False by (simp add: insert_chunks.simps [of gen orgID rows] chunk all [symmetric])
    have len: "uuid_draws db1 + length ?b = uuid_draws db + length rows" unfolding n by (metis add.assoc length_append split)
    have "db' = db\<lparr>items := items db @ imported_items gen orgID (uuid_draws db) rows, uuid_draws := uuid_draws db + length rows\<rparr>"
      using 2(2) unfolding len it by (simp add: 1(2) flip: all)
    with run 2(3) show ?thesis by blast
  qed
qed

text \<open>The pass over the file keeps exactly the rows that collide with nothing before them.\<close>

lemma import_steps:
  assumes "foldl (import_step lower) (seenSku, seenBarcode, skipped, fresh) rows = (ss, sb, skipped', fresh')"
    and "\<forall>r \<in> set rows. row_trimmed r" and "\<And>s. lower s = [] \<Longrightarrow> s = []"
    and "apart lower skus codes fresh" and "set seenSku = skus \<union> (\<lambda>r. lower (ir_SKU r)) ` set fresh"
    and "set seenBarcode = codes \<union> (\<Union>r \<in> set fresh. lower ` set_option (ir_Barcode r))"
  shows "apart lower skus codes fresh' \<and> length skipped' + length fresh' = length skipped + length fresh + length rows \<and>
    set fresh' \<subseteq> set fresh \<union> set rows"
  using assms
proof (induction rows arbitrary: seenSku seenBarcode skipped fresh)
  case (Cons row rows)
  define barcode where "barcode = (case ir_Barcode row of None \<Rightarrow> [] | Some b \<Rightarrow> lower b)"
  have code: "lower ` set_option (ir_Barcode row) = (if barcode \<noteq> [] then {barcode} else {})"
  proof (cases "ir_Barcode row")
    case (Some b)
    have "lower b \<noteq> []" using Cons.prems(2,3) Some by (auto simp: row_trimmed_def)
    then show ?thesis by (simp add: barcode_def Some)
  qed (simp add: barcode_def)
  show ?case
  proof (cases "lower (ir_SKU row) \<in> set seenSku \<or> barcode \<noteq> [] \<and> barcode \<in> set seenBarcode")
    case True
    then have "import_step lower (seenSku, seenBarcode, skipped, fresh) row = (seenSku, seenBarcode, skipped @ [ir_RowNumber row], fresh)"
      by (simp add: import_step_def Let_def barcode_def)
    with Cons.IH [of seenSku seenBarcode "skipped @ [ir_RowNumber row]" fresh] Cons.prems show ?thesis by auto
  next
    case False
    let ?sb = "if barcode \<noteq> [] then barcode # seenBarcode else seenBarcode"
    have step: "import_step lower (seenSku, seenBarcode, skipped, fresh) row = (lower (ir_SKU row) # seenSku, ?sb, skipped, fresh @ [row])"
      using False by (auto simp: import_step_def Let_def barcode_def)
    have "\<forall>b. ir_Barcode row = Some b \<longrightarrow> lower b \<notin> set seenBarcode"
      using False code by (auto simp: barcode_def split: if_splits)
    then have a: "apart lower skus codes (fresh @ [row])" using False Cons.prems(4-6) by (simp add: apart_append)
    have s: "set (lower (ir_SKU row) # seenSku) = skus \<union> (\<lambda>r. lower (ir_SKU r)) ` set (fresh @ [row])" using Cons.prems(5) by auto
    have b: "set ?sb = codes \<union> (\<Union>r \<in> set (fresh @ [row]). lower ` set_option (ir_Barcode r))" using Cons.prems(6) code by auto
    from Cons.prems(1) have "foldl (import_step lower) (lower (ir_SKU row) # seenSku, ?sb, skipped, fresh @ [row]) rows = (ss, sb, skipped', fresh')"
      by (simp add: step)
    from Cons.IH [OF this _ Cons.prems(3) a s b] Cons.prems(2) show ?thesis by auto
  qed
qed auto

lemma mark_complete_Inr:
  assumes "map_of (org_settings db) orgID = Some settings" and "settings = None \<or> (\<exists>ps. settings = Some (JObj ps))"
  shows "\<exists>s. inventoryMarkProductsImportComplete clock orgID db = Inr (db\<lparr>org_settings := s\<rparr>)"
  using assms by (auto simp: inventoryMarkProductsImportComplete_def Let_def)

lemma seen_sets:
  "set (map (\<lambda>i. lower (js_trim (it_sku i))) (filter (\<lambda>i. it_orgID i = orgID) (items db))) = folded_skus lower orgID db"
  "set (map (\<lambda>b. lower (js_trim b)) (List.map_filter it_barcode (filter (\<lambda>i. it_orgID i = orgID) (items db)))) = folded_barcodes lower orgID db"
  by (auto simp: folded_skus_def folded_barcodes_def List.map_filter_def image_iff) (metis option.sel)+

lemma import_items_Inr:
  assumes ok: "items_ok gen db" and gen: "uuid_supply gen" and rows: "\<forall>r \<in> set rows. row_fits r \<and> row_trimmed r"
    and lower: "\<And>s. lower s = [] \<Longrightarrow> s = []" and settings: "map_of (org_settings db) orgID = Some settings" "settings = None \<or> (\<exists>ps. settings = Some (JObj ps))"
  obtains out db' fresh s where "inventoryImportItems lower gen clock orgID rows db = Inr (out, db')"
    "db' = db\<lparr>items := items db @ imported_items gen orgID (uuid_draws db) fresh, uuid_draws := uuid_draws db + length fresh, org_settings := s\<rparr>"
    "io_CreatedIDs out = map it_id (imported_items gen orgID (uuid_draws db) fresh)" "io_Imported out = int (length fresh)"
    "length (io_SkippedDuplicateRows out) + length fresh = length rows" "set fresh \<subseteq> set rows"
    "apart lower (folded_skus lower orgID db) (folded_barcodes lower orgID db) fresh" "items_ok gen db'"
proof -
  let ?ss = "map (\<lambda>i. lower (js_trim (it_sku i))) (filter (\<lambda>i. it_orgID i = orgID) (items db))"
  let ?sb = "map (\<lambda>b. lower (js_trim b)) (List.map_filter it_barcode (filter (\<lambda>i. it_orgID i = orgID) (items db)))"
  obtain ss sb skipped fresh where fold: "foldl (import_step lower) (?ss, ?sb, [], []) rows = (ss, sb, skipped, fresh)"
    by (metis prod_cases4)
  have F: "apart lower (folded_skus lower orgID db) (folded_barcodes lower orgID db) fresh" "length skipped + length fresh = length rows"
      "set fresh \<subseteq> set rows"
    using import_steps [OF fold _ lower, of "folded_skus lower orgID db" "folded_barcodes lower orgID db"] rows seen_sets [of lower orgID db] by auto
  let ?new = "imported_items gen orgID (uuid_draws db) fresh"
  have fr: "\<forall>r \<in> set fresh. row_fits r \<and> row_trimmed r" using rows F(3) by blast
  obtain db1 where 1: "insert_chunks gen orgID fresh ([], db) = Inr (map it_id ?new, db1)"
    "db1 = db\<lparr>items := items db @ ?new, uuid_draws := uuid_draws db + length fresh\<rparr>" "items_ok gen db1"
    using insert_chunks_rows [OF ok gen fr F(1), of "[]"] by auto
  have "map_of (org_settings db1) orgID = Some settings" by (simp add: 1(2) settings(1))
  then obtain s where mark: "(if 0 < length (map it_id ?new) then inventoryMarkProductsImportComplete clock orgID db1 else Inr db1) = Inr (db1\<lparr>org_settings := s\<rparr>)"
    using mark_complete_Inr [OF _ settings(2), of db1 orgID clock] by (cases "fresh = []") (auto intro: that [of "org_settings db1"])
  have ok2: "items_ok gen (db1\<lparr>org_settings := s\<rparr>)" by (rule items_ok_same [OF 1(3)]) simp_all
  have "inventoryImportItems lower gen clock orgID rows db =
      Inr (\<lparr>io_CreatedIDs = map it_id ?new, io_Imported = int (length (map it_id ?new)), io_SkippedDuplicateRows = skipped\<rparr>, db1\<lparr>org_settings := s\<rparr>)"
    unfolding inventoryImportItems_def Let_def fold using mark 1(1) by (cases "fresh = []") simp_all
  then show thesis by (rule that) (use 1(2) F ok2 in simp_all)
qed

section \<open>Undoing an import, reserving\<close>

lemma sorted_unique_set [simp]: "set (inventorySortedUniqueIDs ids) = set ids"
proof -
  have "set (foldl (\<lambda>ids v. if v \<in> set ids then ids else v # ids) acc ids) = set acc \<union> set ids" for acc
    by (induction ids arbitrary: acc) auto
  from this [of "[]"] show ?thesis by (simp add: inventorySortedUniqueIDs_def)
qed

lemma undo_restore_items:
  assumes ok: "items_ok gen db" and undo: "inventoryUndoItemImport orgID ids now db = ((changed, n), db1)"
    and restore: "inventoryRestoreItemImport orgID changed db1 = (r, db2)"
  shows "db2 = db" and "r = (changed, n)"
proof -
  let ?hit = "\<lambda>i. it_orgID i = orgID \<and> it_id i \<in> set ids \<and> it_archivedAt i = None"
  let ?g = "\<lambda>i. if ?hit i then i\<lparr>it_archivedAt := Some now\<rparr> else i"
  have c: "changed = map it_id (filter ?hit (items db))" and n: "n = int (length changed)" and d1: "db1 = db\<lparr>items := map ?g (items db)\<rparr>"
    using undo by (auto simp: inventoryUndoItemImport_def Let_def)
  let ?hit2 = "\<lambda>i. it_orgID i = orgID \<and> it_id i \<in> set changed \<and> it_archivedAt i \<noteq> None"
  have r: "r = (map it_id (filter ?hit2 (items db1)), int (length (filter ?hit2 (items db1))))"
    and d2: "db2 = db1\<lparr>items := map (\<lambda>i. if ?hit2 i then i\<lparr>it_archivedAt := None\<rparr> else i) (items db1)\<rparr>"
    using restore by (auto simp: inventoryRestoreItemImport_def Let_def)
  have mem: "it_id i \<in> set changed \<longleftrightarrow> ?hit i" if "i \<in> set (items db)" for i
    using distinct_keyD [OF items_okD(1) [OF ok] that] that by (auto simp: c)
  have hit: "?hit2 (?g i) \<longleftrightarrow> ?hit i" if "i \<in> set (items db)" for i
    using mem [OF that] by auto
  have "(if ?hit2 (?g i) then (?g i)\<lparr>it_archivedAt := None\<rparr> else ?g i) = i" if "i \<in> set (items db)" for i
    unfolding hit [OF that] by (cases i) auto
  then show "db2 = db" unfolding d2 d1 by (simp add: map_idI comp_def cong: map_cong)
  have it1: "items db1 = map ?g (items db)" by (simp add: d1)
  have "filter ?hit2 (items db1) = map ?g (filter ?hit (items db))"
    unfolding it1 filter_map comp_def by (rule arg_cong [where f = "map ?g"]) (rule filter_cong, simp_all only: hit)
  then have "map it_id (filter ?hit2 (items db1)) = map it_id (map ?g (filter ?hit (items db)))" by (rule arg_cong)
  also have "\<dots> = changed" unfolding c map_map comp_def by (rule map_cong [OF refl], simp only: if_distrib [of it_id], simp)
  finally have "map it_id (filter ?hit2 (items db1)) = changed" .
  moreover from arg_cong [OF this, of length] have "length (filter ?hit2 (items db1)) = length changed" by (simp only: length_map)
  ultimately show "r = (changed, n)" by (simp add: r n)
qed

lemma reserve_Inr:
  assumes run: "inventoryReserveStock gen claims sku quantity reason db = Inr ((k, after), db')" and q: "0 < quantity"
  obtains item where "item \<in> set (items db)" "it_sku item = sku" "it_orgID item = OrganizationID claims"
    "inventoryOpenReserved (OrganizationID claims) (it_id item) db' = inventoryOpenReserved (OrganizationID claims) (it_id item) db + quantity"
    "inventoryOpenReserved (OrganizationID claims) (it_id item) db' \<le> max quantity (inventoryStockOnHand (OrganizationID claims) (it_id item) None db)"
    "0 \<le> after"
proof -
  from run obtain item where f: "item_by_sku (OrganizationID claims) sku db = Inr item"
    and a: "quantity \<le> inventoryAvailableToPromise (inventoryStockOnHand (OrganizationID claims) (it_id item) None db)
       (inventoryOpenReserved (OrganizationID claims) (it_id item) db)"
    and r: "inventoryOpenReserved (OrganizationID claims) (it_id item) db' = inventoryOpenReserved (OrganizationID claims) (it_id item) db + quantity"
      "after = inventoryAvailableToPromise (inventoryStockOnHand (OrganizationID claims) (it_id item) None db)
       (inventoryOpenReserved (OrganizationID claims) (it_id item) db) - quantity"
    by (auto simp: inventoryReserveStock_def Let_def inventoryOpenReserved_def split: if_splits)
  have "item \<in> set (items db) \<and> it_sku item = sku \<and> it_orgID item = OrganizationID claims"
    using f by (auto simp: item_by_sku_def find_Some_iff split: option.splits)
  moreover have "inventoryOpenReserved (OrganizationID claims) (it_id item) db + quantity \<le>
      max quantity (inventoryStockOnHand (OrganizationID claims) (it_id item) None db)"
    using a q by (auto simp: inventoryAvailableToPromise_def Let_def split: if_splits)
  ultimately show thesis using that [of item] r a by simp
qed

section \<open>Properties of the catalogue\<close>

text \<open>
  An update of an item is undone by its prior values. Whatever an update patches, replaying
  the prior values it returned brings back the whole state, and that second patch returns the
  first one, so that it can be redone; in particular the barcode an update gave up is still
  free for the item to take back.
\<close>
theorem item_update_undone:
  assumes "items_ok gen db" and "inventoryUpdateItem claims p db = Inr (prior, db')"
  shows "inventoryRestoreItem claims prior db' = Inr (p, db)"
  using assms(2) unfolding inventoryUpdateItem_def inventoryRestoreItem_def by (rule patch_roundtrip [OF assms(1)])

definition example_stockroom :: stockroom where
  "example_stockroom = warehouse.extend example_warehouse
     \<lparr>reservations = [], cycle_counts = [], cycle_lines = [], org_settings = [(''org'', Some (JObj []))]\<rparr>"

definition example_patch :: inventoryItemPatchInput where
  "example_patch = \<lparr>ip_SKU = ''FLOUR'', ip_Name = Some ''Bread flour'', ip_UnitLabel = None, ip_SalePriceMinor = Some 300,
     ip_ImageURL = None, ip_Tags = Some [''new''], ip_Barcode = Some (Some ''4006381333931'')\<rparr>"

lemma example_stockroom_items: "items_ok example_gen example_stockroom"
  by (simp add: items_ok_def barcodes_unique_def example_stockroom_def example_warehouse_def example_item_def in_int4_def maxDatabaseInteger_def
      warehouse.defs receivables.defs example_gen_def)

theorem item_update_undone_witness:
  "\<exists>prior db'. inventoryUpdateItem example_claims example_patch example_stockroom = Inr (prior, db') \<and>
     map it_name (items db') = [''Bread flour''] \<and> inventoryRestoreItem example_claims prior db' = Inr (example_patch, example_stockroom)"
proof -
  define r where "r = inventoryUpdateItem example_claims example_patch example_stockroom"
  have "case r of Inr (_, db') \<Rightarrow> map it_name (items db') = [''Bread flour''] | Inl _ \<Rightarrow> False" unfolding r_def by code_simp
  then obtain prior db' where "r = Inr (prior, db')" "map it_name (items db') = [''Bread flour'']" by (auto split: sum.splits)
  then have u: "inventoryUpdateItem example_claims example_patch example_stockroom = Inr (prior, db')"
      "map it_name (items db') = [''Bread flour'']" unfolding r_def by simp_all
  with item_update_undone [OF example_stockroom_items u(1)] show ?thesis by (intro exI [of _ prior] exI [of _ db']) simp
qed


definition example_row :: "int \<Rightarrow> string \<Rightarrow> string \<Rightarrow> string option \<Rightarrow> inventoryImportItemRow" where
  "example_row n sku kind barcode = \<lparr>ir_RowNumber = n, ir_SKU = sku, ir_Name = sku, ir_Kind = kind, ir_UnitLabel = ''unit'',
     ir_SalePriceMinor = 100, ir_ReorderPointThousandths = 0, ir_Barcode = barcode, ir_Tags = []\<rparr>"

definition example_shop :: stockroom where
  "example_shop = example_stockroom\<lparr>items := [example_item\<lparr>it_sku := ''F''\<rparr>]\<rparr>"

lemma example_shop_items: "items_ok example_gen example_shop"
  using example_stockroom_items
  by (simp add: items_ok_def barcodes_unique_def example_shop_def example_stockroom_def example_warehouse_def example_item_def
      warehouse.defs receivables.defs)

definition example_file :: "inventoryImportItemRow list" where
  "example_file = [example_row 1 ''a'' ''goods'' (Some ''7''), example_row 2 ''f'' ''goods'' None,
     example_row 3 ''b'' ''goods'' (Some ''7''), example_row 4 ''A'' ''goods'' None]"


text \<open>
  Undoing an import and restoring it are inverse. The undo archives exactly the items it
  reports, leaving alone those archived before; restoring the reported identifiers brings back
  the whole catalogue and reports the same identifiers.
\<close>
theorem item_import_restored:
  assumes "items_ok gen db" and "inventoryUndoItemImport orgID ids now db = ((changed, n), db1)"
  shows "inventoryRestoreItemImport orgID changed db1 = ((changed, n), db) \<and> set changed \<subseteq> set ids \<and> n = int (length changed)"
proof -
  obtain r db2 where "inventoryRestoreItemImport orgID changed db1 = (r, db2)" by fastforce
  with undo_restore_items [OF assms this] assms(2) show ?thesis by (auto simp: inventoryUndoItemImport_def Let_def)
qed

theorem item_import_restored_witness:
  "\<exists>db1. inventoryUndoItemImport ''org'' [''i1'', ''gone''] 5 example_stockroom = (([''i1''], 1), db1) \<and>
     map it_archivedAt (items db1) = [Some 5] \<and> inventoryRestoreItemImport ''org'' [''i1''] db1 = (([''i1''], 1), example_stockroom)"
proof -
  obtain changed n db1 where u: "inventoryUndoItemImport ''org'' [''i1'', ''gone''] 5 example_stockroom = ((changed, n), db1)" by (metis prod.exhaust)
  have "fst (inventoryUndoItemImport ''org'' [''i1'', ''gone''] 5 example_stockroom) = ([''i1''], 1)"
    "map it_archivedAt (items (snd (inventoryUndoItemImport ''org'' [''i1'', ''gone''] 5 example_stockroom))) = [Some 5]" by code_simp+
  with item_import_restored [OF example_stockroom_items u] u show ?thesis by simp
qed

text \<open>
  A service keeps no barcode so that it cannot block the code of a product, but the pass over
  the file records it: a product further down with that code is skipped.
\<close>

lemma service_barcode_blocks_product:
  "bind_result
     (inventoryImportItems (map ascii_lower) example_gen ''now'' ''org''
       [example_row 1 ''Delivery'' ''service'' (Some ''4006381333931''), example_row 2 ''Pen'' ''goods'' (Some ''4006381333931'')] example_shop)
     (\<lambda>(out, db'). Inr (io_SkippedDuplicateRows out, map it_barcode (items db'))) = Inr ([2], [None, None])"
  by code_simp

end
