(* ===== verification/Counts.thy ===== *)
theory Counts
  imports Items
begin

text \<open>
  Cycle counts (src/apps/api/internal/capability/inventory_cycle_counts.go): a sheet of expected
  quantities is drawn, counted quantities are recorded on it, and posting it writes the
  variances as stock movements, unless stock of a counted item has moved since. Together with
  the other inventory operations they make the histories of a stockroom.
\<close>

section \<open>Operations\<close>

record inventoryCreateCycleCountInput =
  cn_LocationID :: "string option"
  cn_SKUs :: "string list option"
  cn_Note :: "string option"

definition inventoryLoadCycleCount :: "string \<Rightarrow> string \<Rightarrow> 'a stockroom_scheme \<Rightarrow> cycle_count_row result" where
  "inventoryLoadCycleCount orgID k db =
     (case find (\<lambda>c. cc_orgID c = orgID \<and> cc_id c = k) (cycle_counts db) of
        None \<Rightarrow> Inl (''no cycle count '' @ k)
      | Some c \<Rightarrow> Inr c)"

definition inventoryItemMovementCounts :: "string \<Rightarrow> string \<Rightarrow> 'a warehouse_scheme \<Rightarrow> int" where
  "inventoryItemMovementCounts orgID itemID db =
     int (length (filter (\<lambda>m. mv_orgID m = orgID \<and> mv_itemID m = itemID) (stock_movements db)))"

definition counted_items :: "string \<Rightarrow> string list option \<Rightarrow> 'a warehouse_scheme \<Rightarrow> item_row list" where
  "counted_items orgID skus db =
     stable_sort (\<lambda>a b. it_id a < it_id b)
       (filter (\<lambda>i. it_orgID i = orgID \<and> it_archivedAt i = None \<and> (case skus of None \<Rightarrow> True | Some ss \<Rightarrow> it_sku i \<in> set ss)) (items db))"

definition insert_count_line ::
  "uuid_source \<Rightarrow> string \<Rightarrow> string \<Rightarrow> string option \<Rightarrow> 'a stockroom_scheme \<Rightarrow> item_row \<Rightarrow> 'a stockroom_scheme result" where
  "insert_count_line gen orgID countID location db item =
     (let expected = inventoryStockOnHand orgID (it_id item) location db; n = inventoryItemMovementCounts orgID (it_id item) db
      in if \<not> in_int4 expected \<or> \<not> in_int4 n then Inl ''integer out of range''
         else Inr (db\<lparr>uuid_draws := Suc (uuid_draws db),
                     cycle_lines := cycle_lines db @ [\<lparr>cl_id = gen (uuid_draws db), cl_orgID = orgID, cl_countID = countID,
                       cl_itemID = it_id item, cl_expected = expected, cl_movements = n, cl_counted = None\<rparr>]\<rparr>))"

definition inventoryCreateCycleCount ::
  "uuid_source \<Rightarrow> capabilityClaims \<Rightarrow> inventoryCreateCycleCountInput \<Rightarrow> 'a stockroom_scheme \<Rightarrow> ((string \<times> int) \<times> 'a stockroom_scheme) result" where
  "inventoryCreateCycleCount gen claims input db =
     (let orgID = OrganizationID claims; counted = counted_items orgID (cn_SKUs input) db; countID = gen (uuid_draws db) in
      if (case cn_LocationID input of None \<Rightarrow> False
          | Some l \<Rightarrow> \<not> list_ex (\<lambda>r. lc_orgID r = orgID \<and> lc_id r = l) (stock_locations db))
      then Inl ''location not found''
      else if counted = []
      then Inl (if cn_SKUs input \<noteq> None then ''none of the requested SKUs are active items'' else ''no items to count'')
      else
        bind_result (fold_result (insert_count_line gen orgID countID (cn_LocationID input))
          (db\<lparr>uuid_draws := Suc (uuid_draws db),
              cycle_counts := cycle_counts db @ [\<lparr>cc_id = countID, cc_orgID = orgID, cc_locationID = cn_LocationID input,
                cc_status = ''open'', cc_note = cn_Note input, cc_postedAt = None, cc_cancelledAt = None,
                cc_actorType = ActorType claims, cc_actorID = ActorID claims\<rparr>]\<rparr>) counted) (\<lambda>db1.
        Inr ((countID, int (length counted)), db1)))"

definition record_count ::
  "string \<Rightarrow> string \<Rightarrow> 'a stockroom_scheme \<Rightarrow> string \<times> int \<Rightarrow> 'a stockroom_scheme result" where
  "record_count orgID countID db entry =
     (case entry of (sku, counted) \<Rightarrow>
        bind_result (item_by_sku orgID sku db) (\<lambda>item.
          if \<not> in_int4 counted then Inl ''integer out of range''
          else if \<not> list_ex (\<lambda>l. cl_orgID l = orgID \<and> cl_countID l = countID \<and> cl_itemID l = it_id item) (cycle_lines db)
          then Inl (''SKU '' @ sku @ '' is not part of this count'')
          else Inr (db\<lparr>cycle_lines := map (\<lambda>l. if cl_orgID l = orgID \<and> cl_countID l = countID \<and> cl_itemID l = it_id item
                        then l\<lparr>cl_counted := Some counted\<rparr> else l) (cycle_lines db)\<rparr>)))"

definition inventoryRecordCycleCounts ::
  "string \<Rightarrow> string \<Rightarrow> (string \<times> int) list \<Rightarrow> 'a stockroom_scheme \<Rightarrow> (int \<times> 'a stockroom_scheme) result" where
  "inventoryRecordCycleCounts orgID countID counts db =
     bind_result (inventoryLoadCycleCount orgID countID db) (\<lambda>sheet.
       if cc_status sheet \<noteq> ''open'' then Inl (''cycle count is '' @ cc_status sheet @ ''; only open counts accept entries'')
       else bind_result (fold_result (record_count orgID (cc_id sheet)) db counts) (\<lambda>db1. Inr (int (length counts), db1)))"

definition update_count :: "string \<Rightarrow> string \<Rightarrow> (cycle_count_row \<Rightarrow> cycle_count_row) \<Rightarrow> 'a stockroom_scheme \<Rightarrow> 'a stockroom_scheme" where
  "update_count orgID countID f db =
     db\<lparr>cycle_counts := map (\<lambda>c. if cc_orgID c = orgID \<and> cc_id c = countID then f c else c) (cycle_counts db)\<rparr>"

text \<open>One line of a posting: the variances so far, their sum and the tables.\<close>

definition post_line ::
  "uuid_source \<Rightarrow> capabilityClaims \<Rightarrow> cycle_count_row \<Rightarrow> int \<times> int \<times> 'a stockroom_scheme \<Rightarrow> cycle_line_row
   \<Rightarrow> (int \<times> int \<times> 'a stockroom_scheme) result" where
  "post_line gen claims sheet st line =
     (case st of (posted, net, db) \<Rightarrow>
        (case cl_counted line of
          None \<Rightarrow> Inr (posted, net, db)
        | Some counted \<Rightarrow>
            let delta = counted - cl_expected line;
                note = ''cycle count '' @ take 8 (cc_id sheet) @ '' variance'' @ (if cc_locationID sheet \<noteq> None then '' (bin-scoped)'' else [])
            in if delta = 0 then Inr (posted, net, db)
               else bind_result (inventoryApplyStockDelta gen (OrganizationID claims) (cl_itemID line) delta ''adjustment'' note
                      (Some ''cycle_count'') (Some (cc_id sheet)) (cc_locationID sheet) None (ActorType claims) (ActorID claims) db)
                    (\<lambda>(_, db1). Inr (posted + 1, net + delta, db1))))"

definition check_unmoved :: "string \<Rightarrow> 'a stockroom_scheme \<Rightarrow> unit \<Rightarrow> cycle_line_row \<Rightarrow> unit result" where
  "check_unmoved orgID db u line =
     (if cl_counted line = None then Inr ()
      else let movements = inventoryItemMovementCounts orgID (cl_itemID line) db
           in if movements \<noteq> cl_movements line
              then Inl (''stock for one of the counted items moved since the snapshot ('' @ show_int (movements - cl_movements line)
                        @ '' movements since); start a fresh count'')
              else Inr ())"

definition inventoryPostCycleCount ::
  "uuid_source \<Rightarrow> capabilityClaims \<Rightarrow> string \<Rightarrow> int \<Rightarrow> 'a stockroom_scheme \<Rightarrow> ((int \<times> int) \<times> 'a stockroom_scheme) result" where
  "inventoryPostCycleCount gen claims countID now db =
     (let orgID = OrganizationID claims in
      bind_result (inventoryLoadCycleCount orgID countID db) (\<lambda>sheet.
        if cc_status sheet \<noteq> ''open'' then Inl (''cycle count is '' @ cc_status sheet @ ''; only open counts can post'')
        else
          let lines = stable_sort (\<lambda>a b. cl_itemID a < cl_itemID b)
                        (filter (\<lambda>l. cl_orgID l = orgID \<and> cl_countID l = cc_id sheet) (cycle_lines db))
          in if \<not> list_ex (\<lambda>l. cl_counted l \<noteq> None) lines
             then Inl ''no counted quantity recorded on any line; enter counts before posting''
             else
               bind_result (fold_result (check_unmoved orgID db) () lines) (\<lambda>_.
               bind_result (fold_result (post_line gen claims sheet) (0, 0, db) lines) (\<lambda>(posted, net, db1).
               Inr ((posted, net), update_count orgID (cc_id sheet) (\<lambda>c. c\<lparr>cc_status := ''posted'', cc_postedAt := Some now\<rparr>) db1)))))"

definition inventoryCancelCycleCount ::
  "string \<Rightarrow> string \<Rightarrow> int \<Rightarrow> 'a stockroom_scheme \<Rightarrow> (bool \<times> 'a stockroom_scheme) result" where
  "inventoryCancelCycleCount orgID countID now db =
     bind_result (inventoryLoadCycleCount orgID countID db) (\<lambda>sheet.
       if cc_status sheet \<noteq> ''open'' then Inl (''cycle count is '' @ cc_status sheet @ ''; only open counts can be cancelled'')
       else Inr (True, update_count orgID (cc_id sheet) (\<lambda>c. c\<lparr>cc_status := ''cancelled'', cc_cancelledAt := Some now\<rparr>) db))"

section \<open>The watermark\<close>

text \<open>
  What a line of a count knows of the ledger: its expected quantity is what the first
  movements of the item, as many as the watermark says, left at the counted place.
\<close>

definition item_moves :: "string \<Rightarrow> string \<Rightarrow> 'a warehouse_scheme \<Rightarrow> movement_row list" where
  "item_moves orgID itemID db = filter (\<lambda>m. mv_orgID m = orgID \<and> mv_itemID m = itemID) (stock_movements db)"

definition watermark_ok :: "'a warehouse_scheme \<Rightarrow> cycle_count_row \<Rightarrow> cycle_line_row \<Rightarrow> bool" where
  "watermark_ok db c l \<longleftrightarrow>
     0 \<le> cl_movements l \<and> cl_movements l \<le> int (length (item_moves (cl_orgID l) (cl_itemID l) db)) \<and>
     cl_expected l = sum_list (map (place_delta (cl_orgID l) (cl_itemID l) (cc_locationID c))
       (take (nat (cl_movements l)) (item_moves (cl_orgID l) (cl_itemID l) db)))"

definition counts_ok :: "uuid_source \<Rightarrow> 'a stockroom_scheme \<Rightarrow> bool" where
  "counts_ok gen db \<longleftrightarrow>
     distinct (map cc_id (cycle_counts db)) \<and> (\<forall>n \<ge> uuid_draws db. gen n \<notin> cc_id ` set (cycle_counts db)) \<and>
     distinct (map (\<lambda>l. (cl_countID l, cl_itemID l)) (cycle_lines db)) \<and>
     (\<forall>l \<in> set (cycle_lines db). \<exists>c \<in> set (cycle_counts db). cl_countID l = cc_id c \<and> cl_orgID l = cc_orgID c \<and> watermark_ok db c l)"

lemma on_hand_moves:
  assumes "projected db"
  shows "inventoryStockOnHand orgID itemID location db = sum_list (map (place_delta orgID itemID location) (item_moves orgID itemID db))"
proof -
  have "sum_list (map mv_quantityDelta (filter (\<lambda>m. at_place orgID itemID location (movement_key m)) ms)) =
    sum_list (map (place_delta orgID itemID location) (filter (\<lambda>m. mv_orgID m = orgID \<and> mv_itemID m = itemID) ms))" for ms
    by (induction ms) (auto simp: place_delta_def at_place_def movement_key_def)
  then show ?thesis unfolding on_hand_held projected_held [OF assms] item_moves_def by simp
qed

lemma movement_counts_moves: "inventoryItemMovementCounts orgID itemID db = int (length (item_moves orgID itemID db))"
  by (simp add: inventoryItemMovementCounts_def item_moves_def)

lemma watermark_appends:
  assumes "watermark_ok db c l" and "stock_movements db' = stock_movements db @ ms"
  shows "watermark_ok db' c l"
  using assms by (auto simp: watermark_ok_def item_moves_def)

lemma watermark_on_hand:
  assumes "watermark_ok db c l" and "projected db" and "inventoryItemMovementCounts (cl_orgID l) (cl_itemID l) db = cl_movements l"
  shows "inventoryStockOnHand (cl_orgID l) (cl_itemID l) (cc_locationID c) db = cl_expected l"
  using assms by (simp add: watermark_ok_def on_hand_moves movement_counts_moves)

section \<open>What the operations keep\<close>

lemma counts_okE:
  assumes "counts_ok gen db" and "l \<in> set (cycle_lines db)"
  obtains c where "c \<in> set (cycle_counts db)" "cl_countID l = cc_id c" "cl_orgID l = cc_orgID c" "watermark_ok db c l"
  using assms unfolding counts_ok_def by blast

lemma counts_ok_later:
  assumes ok: "counts_ok gen db" and "cycle_counts db' = cycle_counts db" "cycle_lines db' = cycle_lines db"
    and ms: "\<exists>ms. stock_movements db' = stock_movements db @ ms" and "uuid_draws db \<le> uuid_draws db'"
  shows "counts_ok gen db'"
proof -
  obtain ms where "stock_movements db' = stock_movements db @ ms" using ms by blast
  then have "watermark_ok db' c l" if "watermark_ok db c l" for c l using that by (rule watermark_appends [rotated])
  with assms show ?thesis unfolding counts_ok_def by (metis order_trans)
qed

lemma stock_writes_extension:
  assumes "stock_writes db (db' :: 'a stockroom_scheme)"
  shows "cycle_counts db' = cycle_counts db" "cycle_lines db' = cycle_lines db" "reservations db' = reservations db" "org_settings db' = org_settings db"
  using assms by (auto elim!: stock_writesE)

lemma counts_ok_writes: "counts_ok gen db \<Longrightarrow> stock_writes db db' \<Longrightarrow> counts_ok gen db'"
  by (rule counts_ok_later) (use stock_writes_extension [of db db'] writes_frame [of db db'] in simp_all)

lemma counts_ok_update:
  assumes ok: "counts_ok gen db" and f: "\<And>c. cc_id (f c) = cc_id c \<and> cc_orgID (f c) = cc_orgID c \<and> cc_locationID (f c) = cc_locationID c"
  shows "counts_ok gen (update_count orgID k f db)"
proof -
  let ?g = "\<lambda>c. if cc_orgID c = orgID \<and> cc_id c = k then f c else c"
  have g: "cc_id (?g c) = cc_id c" "cc_orgID (?g c) = cc_orgID c" "cc_locationID (?g c) = cc_locationID c" for c using f by simp_all
  have "\<exists>c \<in> set (cycle_counts (update_count orgID k f db)). cl_countID l = cc_id c \<and> cl_orgID l = cc_orgID c \<and>
      watermark_ok (update_count orgID k f db) c l" if l: "l \<in> set (cycle_lines db)" for l
  proof -
    obtain c where c: "c \<in> set (cycle_counts db)" "cl_countID l = cc_id c" "cl_orgID l = cc_orgID c" "watermark_ok db c l"
      using ok l by (rule counts_okE)
    then show ?thesis by (intro bexI [of _ "?g c"]) (simp_all add: g watermark_ok_def item_moves_def update_count_def)
  qed
  moreover have ids: "map cc_id (cycle_counts (update_count orgID k f db)) = map cc_id (cycle_counts db)"
    unfolding update_count_def using g by simp
  moreover have "cc_id ` set (cycle_counts (update_count orgID k f db)) = cc_id ` set (cycle_counts db)"
    using arg_cong [OF ids, of set] by (simp only: set_map)
  moreover have "cycle_lines (update_count orgID k f db) = cycle_lines db" "uuid_draws (update_count orgID k f db) = uuid_draws db"
    by (simp_all add: update_count_def)
  ultimately show ?thesis using ok unfolding counts_ok_def by simp
qed

lemma counts_ok_counted:
  assumes "counts_ok gen db"
  shows "counts_ok gen (db\<lparr>cycle_lines := map (\<lambda>l. if P l then l\<lparr>cl_counted := v\<rparr> else l) (cycle_lines db)\<rparr>)"
proof -
  define g where "g l = (if P l then l\<lparr>cl_counted := v\<rparr> else l)" for l
  have g: "cl_countID (g l) = cl_countID l" "cl_itemID (g l) = cl_itemID l" "cl_orgID (g l) = cl_orgID l"
    "cl_expected (g l) = cl_expected l" "cl_movements (g l) = cl_movements l" for l by (simp_all add: g_def)
  let ?db = "db\<lparr>cycle_lines := map g (cycle_lines db)\<rparr>"
  have "\<exists>c \<in> set (cycle_counts ?db). cl_countID l = cc_id c \<and> cl_orgID l = cc_orgID c \<and> watermark_ok ?db c l"
    if l: "l \<in> set (cycle_lines ?db)" for l
  proof -
    obtain r where r: "r \<in> set (cycle_lines db)" "l = g r" using l by auto
    obtain c where "c \<in> set (cycle_counts db)" "cl_countID r = cc_id c" "cl_orgID r = cc_orgID c" "watermark_ok db c r"
      using counts_okE [OF assms r(1)] by blast
    then show ?thesis by (intro bexI [of _ c]) (simp_all add: r(2) g watermark_ok_def item_moves_def)
  qed
  moreover have "(\<lambda>l. (cl_countID l, cl_itemID l)) \<circ> g = (\<lambda>l. (cl_countID l, cl_itemID l))" by (simp add: fun_eq_iff g)
  ultimately have "counts_ok gen ?db" using assms unfolding counts_ok_def by simp
  then show ?thesis by (simp add: g_def [abs_def])
qed

lemma record_keeps:
  assumes "fold_result (record_count orgID k) db entries = Inr db'" and "counts_ok gen db"
  shows "counts_ok gen db' \<and> (\<exists>ls. db' = db\<lparr>cycle_lines := ls\<rparr>)"
  using assms
proof (induction entries arbitrary: db)
  case Nil
  then show ?case by (auto intro: exI [of _ "cycle_lines db"])
next
  case (Cons entry entries)
  then obtain db1 where step: "record_count orgID k db entry = Inr db1" and rest: "fold_result (record_count orgID k) db1 entries = Inr db'" by auto
  from step obtain P v where "db1 = db\<lparr>cycle_lines := map (\<lambda>l. if P l then l\<lparr>cl_counted := v\<rparr> else l) (cycle_lines db)\<rparr>"
    by (auto simp: record_count_def split: prod.splits if_splits)
  moreover from this have "counts_ok gen db1" using counts_ok_counted [OF Cons.prems(2)] by simp
  ultimately show ?case using Cons.IH [OF rest] by auto
qed

lemma insert_lines_count:
  assumes "fold_result (insert_count_line gen orgID k location) db its = Inr db'" and "counts_ok gen db" and "projected db" and gen: "uuid_supply gen"
    and "c \<in> set (cycle_counts db)" "cc_id c = k" "cc_orgID c = orgID" "cc_locationID c = location"
    and "distinct (map it_id its)" and "\<forall>l \<in> set (cycle_lines db). cl_countID l = k \<longrightarrow> cl_itemID l \<notin> it_id ` set its"
  shows "counts_ok gen db' \<and> (\<exists>ls n. db' = db\<lparr>uuid_draws := n, cycle_lines := ls\<rparr> \<and> uuid_draws db \<le> n)"
  using assms
proof (induction its arbitrary: db)
  case Nil
  then show ?case by (intro conjI exI [of _ "cycle_lines db"] exI [of _ "uuid_draws db"]) simp_all
next
  case (Cons i its)
  let ?l = "\<lparr>cl_id = gen (uuid_draws db), cl_orgID = orgID, cl_countID = k, cl_itemID = it_id i,
    cl_expected = inventoryStockOnHand orgID (it_id i) location db, cl_movements = inventoryItemMovementCounts orgID (it_id i) db, cl_counted = None\<rparr>"
  let ?db = "db\<lparr>uuid_draws := Suc (uuid_draws db), cycle_lines := cycle_lines db @ [?l]\<rparr>"
  from Cons.prems(1) obtain db1 where step: "insert_count_line gen orgID k location db i = Inr db1"
    and rest1: "fold_result (insert_count_line gen orgID k location) db1 its = Inr db'" by auto
  from step have "db1 = ?db" by (auto simp: insert_count_line_def Let_def split: if_splits)
  with rest1 have rest: "fold_result (insert_count_line gen orgID k location) ?db its = Inr db'" by simp
  have w: "watermark_ok db c ?l"
    using Cons.prems(8) by (simp add: watermark_ok_def movement_counts_moves on_hand_moves [OF Cons.prems(3)])
  have w': "watermark_ok ?db c' l \<longleftrightarrow> watermark_ok db c' l" for c' l by (simp add: watermark_ok_def item_moves_def)
  have new: "(k, it_id i) \<notin> (\<lambda>l. (cl_countID l, cl_itemID l)) ` set (cycle_lines db)" using Cons.prems(10) by auto
  have ok: "counts_ok gen ?db"
    using Cons.prems(2,5,6,7) w new by (auto simp: counts_ok_def w')
  have pj: "projected ?db" using Cons.prems(3) projected_cong [of ?db db] by simp
  have "counts_ok gen db' \<and> (\<exists>ls n. db' = ?db\<lparr>uuid_draws := n, cycle_lines := ls\<rparr> \<and> uuid_draws ?db \<le> n)"
    by (rule Cons.IH [OF rest ok pj gen]) (use Cons.prems(5-10) in auto)
  then obtain ls n where "counts_ok gen db'" "db' = ?db\<lparr>uuid_draws := n, cycle_lines := ls\<rparr>" "uuid_draws ?db \<le> n" by blast
  then show ?case by (intro conjI exI [of _ ls] exI [of _ n]) simp_all
qed

lemma sorted_items [simp]: "set (counted_items orgID skus db) \<subseteq> set (items db)"
  by (auto simp: counted_items_def)

lemma create_count_keeps:
  assumes run: "inventoryCreateCycleCount gen claims input db = Inr (out, db')" and ok: "counts_ok gen db" and p: "projected db"
    and gen: "uuid_supply gen" and it: "items_ok gen db"
  shows "counts_ok gen db' \<and> (\<exists>cs ls n. db' = db\<lparr>uuid_draws := n, cycle_counts := cs, cycle_lines := ls\<rparr> \<and> uuid_draws db \<le> n)"
proof -
  let ?k = "gen (uuid_draws db)" and ?org = "OrganizationID claims"
  let ?c = "\<lparr>cc_id = ?k, cc_orgID = ?org, cc_locationID = cn_LocationID input, cc_status = ''open'', cc_note = cn_Note input,
    cc_postedAt = None, cc_cancelledAt = None, cc_actorType = ActorType claims, cc_actorID = ActorID claims\<rparr>"
  let ?db = "db\<lparr>uuid_draws := Suc (uuid_draws db), cycle_counts := cycle_counts db @ [?c]\<rparr>"
  have fold: "fold_result (insert_count_line gen ?org ?k (cn_LocationID input)) ?db (counted_items ?org (cn_SKUs input) db) = Inr db'"
    using run by (auto simp: inventoryCreateCycleCount_def Let_def split: if_splits)
  have fresh: "?k \<notin> cc_id ` set (cycle_counts db)" using ok by (simp add: counts_ok_def)
  have w: "watermark_ok ?db c l \<longleftrightarrow> watermark_ok db c l" for c l by (simp add: watermark_ok_def item_moves_def)
  have ok1: "counts_ok gen ?db" using ok fresh gen by (auto simp: counts_ok_def w)
  have "cl_countID l \<noteq> ?k" if "l \<in> set (cycle_lines db)" for l
    using counts_okE [OF ok that] fresh by (metis image_eqI)
  then have none: "\<forall>l \<in> set (cycle_lines ?db). cl_countID l = ?k \<longrightarrow> cl_itemID l \<notin> it_id ` set (counted_items ?org (cn_SKUs input) db)"
    by simp
  have d: "distinct (map it_id (counted_items ?org (cn_SKUs input) db))"
    using items_okD(1) [OF it] by (simp add: counted_items_def distinct_map_filter)
  have pj: "projected ?db" using p projected_cong [of ?db db] by simp
  have "counts_ok gen db' \<and> (\<exists>ls n. db' = ?db\<lparr>uuid_draws := n, cycle_lines := ls\<rparr> \<and> uuid_draws ?db \<le> n)"
    by (rule insert_lines_count [OF fold ok1 pj gen _ _ _ _ d none, of ?c]) simp_all
  then obtain ls n where "counts_ok gen db'" "db' = ?db\<lparr>uuid_draws := n, cycle_lines := ls\<rparr>" "uuid_draws ?db \<le> n" by blast
  then show ?thesis by (intro conjI exI [of _ "cycle_counts db @ [?c]"] exI [of _ ls] exI [of _ n]) simp_all
qed

section \<open>Posting\<close>

definition variance :: "cycle_line_row \<Rightarrow> int" where
  "variance l = (case cl_counted l of None \<Rightarrow> 0 | Some n \<Rightarrow> n - cl_expected l)"

definition variance_at :: "string \<Rightarrow> string option \<Rightarrow> string \<Rightarrow> string \<Rightarrow> string option \<Rightarrow> cycle_line_row \<Rightarrow> int" where
  "variance_at orgID location o' i l line =
     (if o' = orgID \<and> i = cl_itemID line \<and> (l = None \<or> location = l) then variance line else 0)"

lemma post_line_Inr:
  assumes run: "post_line gen claims sheet (n, d, db) line = Inr (n', d', db')" and ok: "stock_ok gen db"
  shows "stock_ok gen db'" "stock_writes db db'" "d' = d + variance line"
    "inventoryStockOnHand o' i l db' = inventoryStockOnHand o' i l db + variance_at (OrganizationID claims) (cc_locationID sheet) o' i l line"
proof -
  have "stock_ok gen db' \<and> stock_writes db db' \<and> d' = d + variance line \<and>
    inventoryStockOnHand o' i l db' = inventoryStockOnHand o' i l db + variance_at (OrganizationID claims) (cc_locationID sheet) o' i l line"
  proof (cases "variance line = 0")
    case True
    with run have "db' = db" "d' = d" by (auto simp: post_line_def variance_def Let_def split: option.splits)
    with True ok show ?thesis by (simp add: variance_at_def writes_refl)
  next
    case False
    with run obtain m memo where d: "inventoryApplyStockDelta gen (OrganizationID claims) (cl_itemID line) (variance line) ''adjustment'' memo
        (Some ''cycle_count'') (Some (cc_id sheet)) (cc_locationID sheet) None (ActorType claims) (ActorID claims) db = Inr (m, db')"
      and "d' = d + variance line"
      by (auto simp: post_line_def variance_def Let_def split: option.splits if_splits)
    moreover note stock_delta_keeps [OF d ok] stock_delta_writes [OF d] stock_delta_Inr(3) [OF d stock_okD(1) [OF ok], of o' i l]
    ultimately show ?thesis by (simp add: variance_at_def)
  qed
  then show "stock_ok gen db'" "stock_writes db db'" "d' = d + variance line"
    "inventoryStockOnHand o' i l db' = inventoryStockOnHand o' i l db + variance_at (OrganizationID claims) (cc_locationID sheet) o' i l line"
    by simp_all
qed

lemma post_sheet_Inr:
  assumes "fold_result (post_line gen claims sheet) (n, d, db) ls = Inr (n', d', db')" and "stock_ok gen db"
  shows "stock_ok gen db' \<and> stock_writes db db' \<and> d' = d + sum_list (map variance ls) \<and>
    (\<forall>o' i l. inventoryStockOnHand o' i l db' = inventoryStockOnHand o' i l db +
       sum_list (map (variance_at (OrganizationID claims) (cc_locationID sheet) o' i l) ls))"
  using assms
proof (induction ls arbitrary: n d db)
  case Nil
  then show ?case by (simp add: writes_refl)
next
  case (Cons line ls)
  from Cons.prems(1) obtain n1 d1 db1 where step: "post_line gen claims sheet (n, d, db) line = Inr (n1, d1, db1)"
    and rest: "fold_result (post_line gen claims sheet) (n1, d1, db1) ls = Inr (n', d', db')" by auto
  note P = post_line_Inr [OF step Cons.prems(2)]
  from Cons.IH [OF rest P(1)] P(2,3) P(4) show ?case by (auto intro: writes_trans)
qed

lemma check_unmoved_all:
  "fold_result (check_unmoved orgID db) u ls = Inr u' \<Longrightarrow> l \<in> set ls \<Longrightarrow> cl_counted l \<noteq> None \<Longrightarrow>
     inventoryItemMovementCounts orgID (cl_itemID l) db = cl_movements l"
  by (induction ls arbitrary: u) (auto simp: check_unmoved_def Let_def split: if_splits)

lemma load_count_Inr:
  "inventoryLoadCycleCount orgID k db = Inr c \<Longrightarrow> c \<in> set (cycle_counts db) \<and> cc_orgID c = orgID \<and> cc_id c = k"
  by (auto simp: inventoryLoadCycleCount_def find_Some_iff split: option.splits)

definition sheet_lines :: "string \<Rightarrow> string \<Rightarrow> 'a stockroom_scheme \<Rightarrow> cycle_line_row list" where
  "sheet_lines orgID k db =
     stable_sort (\<lambda>a b. cl_itemID a < cl_itemID b) (filter (\<lambda>l. cl_orgID l = orgID \<and> cl_countID l = k) (cycle_lines db))"

lemma sheet_lines_set [simp]: "set (sheet_lines orgID k db) = {l \<in> set (cycle_lines db). cl_orgID l = orgID \<and> cl_countID l = k}"
  by (auto simp: sheet_lines_def)

lemma distinct_pairs_filter:
  "distinct (map (\<lambda>x. (f x, g x)) xs) \<Longrightarrow> distinct (map g (filter (\<lambda>x. P x \<and> f x = k) xs))"
  by (induction xs) (auto, metis (mono_tags, lifting) image_eqI)

lemma sheet_lines_distinct: "counts_ok gen db \<Longrightarrow> distinct (map cl_itemID (sheet_lines orgID k db))"
  by (simp add: sheet_lines_def counts_ok_def distinct_pairs_filter)

lemma post_count_Inr:
  assumes run: "inventoryPostCycleCount gen claims k now db = Inr ((n, d), db')" and ok: "stock_ok gen db"
  obtains c db1 where "inventoryLoadCycleCount (OrganizationID claims) k db = Inr c" "cc_status c = ''open''"
    "\<And>l. l \<in> set (sheet_lines (OrganizationID claims) k db) \<Longrightarrow> cl_counted l \<noteq> None \<Longrightarrow>
       inventoryItemMovementCounts (OrganizationID claims) (cl_itemID l) db = cl_movements l"
    "stock_ok gen db1" "stock_writes db db1" "d = sum_list (map variance (sheet_lines (OrganizationID claims) k db))"
    "\<And>o' i l. inventoryStockOnHand o' i l db1 = inventoryStockOnHand o' i l db +
       sum_list (map (variance_at (OrganizationID claims) (cc_locationID c) o' i l) (sheet_lines (OrganizationID claims) k db))"
    "db' = update_count (OrganizationID claims) k (\<lambda>c. c\<lparr>cc_status := ''posted'', cc_postedAt := Some now\<rparr>) db1"
proof -
  let ?org = "OrganizationID claims"
  obtain c where c: "inventoryLoadCycleCount ?org k db = Inr c" "cc_status c = ''open''"
    using run by (auto simp: inventoryPostCycleCount_def Let_def split: if_splits)
  have k: "cc_id c = k" using load_count_Inr [OF c(1)] by simp
  from run c k obtain db1 where chk: "fold_result (check_unmoved ?org db) () (sheet_lines ?org k db) = Inr ()"
    and post: "fold_result (post_line gen claims c) (0, 0, db) (sheet_lines ?org k db) = Inr (n, d, db1)"
    and d: "db' = update_count ?org k (\<lambda>c. c\<lparr>cc_status := ''posted'', cc_postedAt := Some now\<rparr>) db1"
    by (auto simp: inventoryPostCycleCount_def Let_def sheet_lines_def split: if_splits)
  note P = post_sheet_Inr [OF post ok]
  show thesis by (rule that [OF c check_unmoved_all [OF chk], of db1]) (use P d in simp_all)
qed

lemma sum_list_at:
  fixes f :: "'b \<Rightarrow> int"
  assumes "distinct (map key xs)" and "x \<in> set xs" and "\<And>y. y \<in> set xs \<Longrightarrow> key y \<noteq> key x \<Longrightarrow> f y = 0"
  shows "sum_list (map f xs) = f x"
  using assms
proof (induction xs)
  case (Cons y ys)
  show ?case
  proof (cases "y = x")
    case True
    have "f z = 0" if "z \<in> set ys" for z
    proof (rule Cons.prems(3))
      show "z \<in> set (y # ys)" using that by simp
      show "key z \<noteq> key x" using Cons.prems(1) True imageI [OF that, of key] by auto
    qed
    then have "sum_list (map f ys) = 0" by (induction ys) auto
    with True show ?thesis by simp
  next
    case False
    with Cons show ?thesis by auto
  qed
qed simp

section \<open>Histories of a stockroom\<close>

definition inventory_ok :: "uuid_source \<Rightarrow> 'a stockroom_scheme \<Rightarrow> bool" where
  "inventory_ok gen db \<longleftrightarrow> stock_ok gen db \<and> items_ok gen db \<and> counts_ok gen db"

inductive inventory_step :: "(string \<Rightarrow> string) \<Rightarrow> uuid_source \<Rightarrow> 'a stockroom_scheme \<Rightarrow> 'a stockroom_scheme \<Rightarrow> bool" for lower gen where
  stock: "stock_step gen db db' \<Longrightarrow> inventory_step lower gen db db'"
| item: "inventoryCreateItem gen orgID item db = Inr (k, db') \<Longrightarrow> inventory_step lower gen db db'"
| update: "inventoryUpdateItem claims p db = Inr (prior, db') \<Longrightarrow> inventory_step lower gen db db'"
| restore: "inventoryRestoreItem claims p db = Inr (prior, db') \<Longrightarrow> inventory_step lower gen db db'"
| archive: "inventoryArchiveItem orgID sku a now db = Inr (out, db') \<Longrightarrow> inventory_step lower gen db db'"
| location: "inventoryCreateLocation gen orgID code name db = Inr (k, db') \<Longrightarrow> inventory_step lower gen db db'"
| imported: "inventoryImportItems lower gen clock orgID rows db = Inr (report, db') \<Longrightarrow> inventory_step lower gen db db'"
| undone: "inventoryUndoItemImport orgID ids now db = (changed, db') \<Longrightarrow> inventory_step lower gen db db'"
| redone: "inventoryRestoreItemImport orgID ids db = (changed, db') \<Longrightarrow> inventory_step lower gen db db'"
| reserve: "inventoryReserveStock gen claims sku q reason db = Inr (reservation, db') \<Longrightarrow> inventory_step lower gen db db'"
| release: "inventoryReleaseReservation orgID k now db = Inr (b, db') \<Longrightarrow> inventory_step lower gen db db'"
| draw: "inventoryCreateCycleCount gen claims sheet db = Inr (drawn, db') \<Longrightarrow> inventory_step lower gen db db'"
| count: "inventoryRecordCycleCounts orgID k counts db = Inr (n, db') \<Longrightarrow> inventory_step lower gen db db'"
| post: "inventoryPostCycleCount gen claims k now db = Inr (variances, db') \<Longrightarrow> inventory_step lower gen db db'"
| cancel: "inventoryCancelCycleCount orgID k now db = Inr (b, db') \<Longrightarrow> inventory_step lower gen db db'"

text \<open>Operations on the catalogue leave the stock tables alone.\<close>

definition catalogue_writes :: "'a stockroom_scheme \<Rightarrow> 'a stockroom_scheme \<Rightarrow> bool" where
  "catalogue_writes db db' \<longleftrightarrow>
     (\<exists>xs ls rs s n. db' = db\<lparr>items := xs, stock_locations := ls, reservations := rs, org_settings := s, uuid_draws := n\<rparr> \<and> uuid_draws db \<le> n)"

lemma catalogue_writesI:
  "db' = db\<lparr>items := xs, stock_locations := ls, reservations := rs, org_settings := s, uuid_draws := n\<rparr> \<Longrightarrow> uuid_draws db \<le> n \<Longrightarrow>
     catalogue_writes db db'"
  unfolding catalogue_writes_def by blast

lemma catalogue_items: "uuid_draws db \<le> n \<Longrightarrow> catalogue_writes db (db\<lparr>items := xs, uuid_draws := n\<rparr>)"
  by (rule catalogue_writesI [where xs = xs and ls = "stock_locations db" and rs = "reservations db" and s = "org_settings db" and n = n]) simp_all

lemma catalogue_patch: "catalogue_writes db (db\<lparr>items := xs\<rparr>)"
  by (rule catalogue_writesI [where xs = xs and ls = "stock_locations db" and rs = "reservations db" and s = "org_settings db" and n = "uuid_draws db"]) simp_all

lemma catalogue_import: "uuid_draws db \<le> n \<Longrightarrow> catalogue_writes db (db\<lparr>items := xs, uuid_draws := n, org_settings := s\<rparr>)"
  by (rule catalogue_writesI [where xs = xs and ls = "stock_locations db" and rs = "reservations db" and s = s and n = n]) simp_all

lemma catalogue_location: "uuid_draws db \<le> n \<Longrightarrow> catalogue_writes db (db\<lparr>stock_locations := ls, uuid_draws := n\<rparr>)"
  by (rule catalogue_writesI [where xs = "items db" and ls = ls and rs = "reservations db" and s = "org_settings db" and n = n]) simp_all

lemma catalogue_reserve: "uuid_draws db \<le> n \<Longrightarrow> catalogue_writes db (db\<lparr>uuid_draws := n, reservations := rs\<rparr>)"
  by (rule catalogue_writesI [where xs = "items db" and ls = "stock_locations db" and rs = rs and s = "org_settings db" and n = n]) simp_all

lemma catalogue_release: "catalogue_writes db (db\<lparr>reservations := rs\<rparr>)"
  by (rule catalogue_writesI [where xs = "items db" and ls = "stock_locations db" and rs = rs and s = "org_settings db" and n = "uuid_draws db"]) simp_all

lemma stock_ok_same:
  assumes "stock_ok gen db" and "stock_movements db' = stock_movements db" "stock_balances db' = stock_balances db"
    "stock_transfers db' = stock_transfers db" "stock_transfer_lines db' = stock_transfer_lines db" "uuid_draws db \<le> uuid_draws db'"
  shows "stock_ok gen db'"
  using assms stocked_cong [of db' db] transfers_ok_later [of gen db db'] by (simp add: stock_ok_def)

lemma catalogue_keeps:
  assumes w: "catalogue_writes db db'" and ok: "inventory_ok gen db" and it: "items_ok gen db'"
  shows "inventory_ok gen db'"
proof -
  obtain xs ls rs s n where d: "db' = db\<lparr>items := xs, stock_locations := ls, reservations := rs, org_settings := s, uuid_draws := n\<rparr>"
    and n: "uuid_draws db \<le> n" using w unfolding catalogue_writes_def by blast
  have "stock_ok gen db'" by (rule stock_ok_same [of gen db]) (use ok n in \<open>simp_all add: inventory_ok_def d\<close>)
  moreover have "counts_ok gen db'" by (rule counts_ok_later [of gen db]) (use ok n in \<open>simp_all add: inventory_ok_def d\<close>)
  ultimately show ?thesis using it by (simp add: inventory_ok_def)
qed

lemma barcodes_uniqueD:
  "barcodes_unique xs \<Longrightarrow> i \<in> set xs \<Longrightarrow> j \<in> set xs \<Longrightarrow> it_orgID i = it_orgID j \<Longrightarrow> it_barcode i = it_barcode j \<Longrightarrow>
     it_barcode i \<noteq> None \<Longrightarrow> i = j"
  unfolding barcodes_unique_def by blast

lemma barcodes_unique_map:
  assumes "\<And>a b. a \<in> set xs \<Longrightarrow> b \<in> set xs \<Longrightarrow> it_orgID (g a) = it_orgID (g b) \<Longrightarrow> it_barcode (g a) = it_barcode (g b) \<Longrightarrow>
    it_barcode (g a) \<noteq> None \<Longrightarrow> g a = g b"
  shows "barcodes_unique (map g xs)"
  unfolding barcodes_unique_def set_map using assms by blast

lemma patch_keeps_items:
  assumes ok: "items_ok gen db" and run: "inventoryApplyItemPatch orgID p db = Inr (prior, db')"
  shows "items_ok gen db' \<and> (\<exists>xs. db' = db\<lparr>items := xs\<rparr>)"
proof -
  obtain i where i: "i \<in> set (items db)" "it_orgID i = orgID" and taken: "\<not> barcode_taken orgID p i db"
    and price: "\<And>n. ip_SalePriceMinor p = Some n \<Longrightarrow> in_int4 n"
    and d: "db' = db\<lparr>items := map (\<lambda>r. if it_orgID r = orgID \<and> it_id r = it_id i then patched p r else r) (items db)\<rparr>"
    using run
  proof (rule apply_patch_Inr, goal_cases)
    case (1 i)
    show ?case by (rule 1(1) [OF 1(2,3,6)]) (use 1(9,10) in blast)+
  qed
  define g where "g r = (if it_orgID r = orgID \<and> it_id r = it_id i then patched p r else r)" for r
  have g: "it_id (g r) = it_id r" "it_orgID (g r) = it_orgID r" "it_sku (g r) = it_sku r" "it_reorderPoint (g r) = it_reorderPoint r" for r
    by (simp_all add: g_def)
  have comp: "it_id \<circ> g = it_id" "(\<lambda>i. (it_orgID i, it_sku i)) \<circ> g = (\<lambda>i. (it_orgID i, it_sku i))" by (simp_all add: fun_eq_iff g)
  have other: "g r = r" if "r \<in> set (items db)" "r \<noteq> i" for r
    using distinct_keyD [OF items_okD(1) [OF ok] that(1) i(1)] that(2) by (auto simp: g_def)
  have self: "g i = patched p i" using i(2) by (simp add: g_def)
  have free: "it_barcode (patched p i) \<noteq> it_barcode r" if "r \<in> set (items db)" "r \<noteq> i" "it_orgID r = orgID" "it_barcode r = Some b" for r b
  proof
    assume same: "it_barcode (patched p i) = it_barcode r"
    have "it_barcode i \<noteq> Some b" using barcodes_uniqueD [OF items_okD(3) [OF ok] i(1) that(1)] i(2) that(2-4) by auto
    then have "ip_Barcode p = Some (Some b)" using same that(4) by (auto simp: patched_def split: option.splits)
    with taken \<open>it_barcode i \<noteq> Some b\<close> have "\<not> has_barcode orgID b db" by (simp add: barcode_taken_def)
    with that show False by (auto simp: has_barcode_def list_ex_iff)
  qed
  have "barcodes_unique (map g (items db))"
  proof -
    have "g a = g b" if ab: "a \<in> set (items db)" "b \<in> set (items db)" "it_orgID a = it_orgID b" "it_barcode (g a) = it_barcode (g b)" "it_barcode (g a) \<noteq> None" for a b
    proof (cases "a = b")
      case False
      obtain c where c: "it_barcode (g a) = Some c" using ab(5) by auto
      consider "a = i" | "b = i" | "a \<noteq> i" "b \<noteq> i" by blast
      then show ?thesis
      proof cases
        case 1
        with False ab c have "it_barcode b = Some c" "it_orgID b = orgID" "it_barcode (patched p i) = it_barcode b"
          using other [of b] self i(2) by auto
        with free [of b c] ab(2) False 1 show ?thesis by simp
      next
        case 2
        with False ab c have "it_barcode a = Some c" "it_orgID a = orgID" "it_barcode (patched p i) = it_barcode a"
          using other [of a] self i(2) by auto
        with free [of a c] ab(1) False 2 show ?thesis by simp
      next
        case 3
        show ?thesis using barcodes_uniqueD [OF items_okD(3) [OF ok] ab(1,2)] ab(3-5) other [OF ab(1) 3(1)] other [OF ab(2) 3(2)] by simp
      qed
    qed simp
    then show ?thesis by (intro barcodes_unique_map) (simp_all add: g)
  qed
  moreover have "in_int4 (it_salePriceMinor (g r)) \<and> in_int4 (it_reorderPoint (g r))" if "r \<in> set (items db)" for r
    using ok that price by (auto simp: items_ok_def g_def patched_def split: option.splits)
  moreover have d': "db' = db\<lparr>items := map g (items db)\<rparr>" unfolding d by (simp add: g_def [abs_def])
  ultimately have "items_ok gen db'" using ok by (simp add: items_ok_def comp image_image g)
  with d' show ?thesis by blast
qed

lemma archive_keeps_items:
  assumes "items_ok gen db"
  shows "items_ok gen (db\<lparr>items := map (\<lambda>i. if P i then i\<lparr>it_archivedAt := v\<rparr> else i) (items db)\<rparr>)"
proof -
  define g where "g i = (if P i then i\<lparr>it_archivedAt := v\<rparr> else i)" for i
  have g: "it_id (g r) = it_id r" "it_orgID (g r) = it_orgID r" "it_sku (g r) = it_sku r" "it_barcode (g r) = it_barcode r"
    "it_reorderPoint (g r) = it_reorderPoint r" "it_salePriceMinor (g r) = it_salePriceMinor r" for r by (simp_all add: g_def)
  have comp: "it_id \<circ> g = it_id" "(\<lambda>i. (it_orgID i, it_sku i)) \<circ> g = (\<lambda>i. (it_orgID i, it_sku i))" by (simp_all add: fun_eq_iff g)
  have "barcodes_unique (map g (items db))"
  proof (rule barcodes_unique_map)
    fix a b assume ab: "a \<in> set (items db)" "b \<in> set (items db)" "it_orgID (g a) = it_orgID (g b)"
      "it_barcode (g a) = it_barcode (g b)" "it_barcode (g a) \<noteq> None"
    show "g a = g b" using barcodes_uniqueD [OF items_okD(3) [OF assms] ab(1,2)] ab(3-5) by (simp add: g)
  qed
  with assms have "items_ok gen (db\<lparr>items := map g (items db)\<rparr>)" by (simp add: items_ok_def comp image_image g)
  then show ?thesis by (simp add: g_def [abs_def])
qed

lemma import_rows_keep:
  assumes "fold_result (import_row gen orgID) (ids, db) rows = Inr (ids', db')" and "items_ok gen db" and gen: "uuid_supply gen"
  shows "items_ok gen db' \<and> (\<exists>xs n. db' = db\<lparr>items := xs, uuid_draws := n\<rparr> \<and> uuid_draws db \<le> n)"
  using assms
proof (induction rows arbitrary: ids db)
  case Nil
  then show ?case by (intro conjI exI [of _ "items db"] exI [of _ "uuid_draws db"]) simp_all
next
  case (Cons row rows)
  from Cons.prems(1) obtain ids1 db1 where step: "import_row gen orgID (ids, db) row = Inr (ids1, db1)"
    and rest: "fold_result (import_row gen orgID) (ids1, db1) rows = Inr (ids', db')" by auto
  from step obtain k where ins: "insert_item gen (imported_item orgID row) db = Inr (k, db1)" by (auto simp: import_row_def)
  note I = insert_item_Inr [OF ins Cons.prems(2) gen imported_item_simps(1)]
  from Cons.IH [OF rest I(1) gen] obtain xs n where "items_ok gen db'" "db' = db1\<lparr>items := xs, uuid_draws := n\<rparr>" "uuid_draws db1 \<le> n" by blast
  then show ?case by (intro conjI exI [of _ xs] exI [of _ n]) (simp_all add: I(3))
qed

lemma insert_chunks_keep:
  assumes "insert_chunks gen orgID rows (ids, db) = Inr (ids', db')" and "items_ok gen db" and gen: "uuid_supply gen"
  shows "items_ok gen db' \<and> (\<exists>xs n. db' = db\<lparr>items := xs, uuid_draws := n\<rparr> \<and> uuid_draws db \<le> n)"
  using assms
proof (induction "length rows" arbitrary: rows ids db rule: less_induct)
  case less
  show ?case
  proof (cases "rows = []")
    case True
    with less.prems show ?thesis by (intro conjI exI [of _ "items db"] exI [of _ "uuid_draws db"]) (simp_all add: insert_chunks.simps)
  next
    case False
    then obtain created db1 where chunk: "inventoryImportsInsertChunk gen orgID (take 500 rows) db = Inr (created, db1)"
      and rest: "insert_chunks gen orgID (drop 500 rows) (ids @ created, db1) = Inr (ids', db')"
      using less.prems(1) by (auto simp: insert_chunks.simps [of gen orgID rows])
    from chunk have "fold_result (import_row gen orgID) ([], db) (take 500 rows) = Inr (created, db1)"
      by (simp add: inventoryImportsInsertChunk_def split: if_splits)
    from import_rows_keep [OF this less.prems(2) gen] obtain xs n where 1: "items_ok gen db1" "db1 = db\<lparr>items := xs, uuid_draws := n\<rparr>" "uuid_draws db \<le> n"
      by blast
    have shorter: "length (drop 500 rows) < length rows" using False by simp
    obtain ys m where "items_ok gen db'" "db' = db1\<lparr>items := ys, uuid_draws := m\<rparr>" "uuid_draws db1 \<le> m"
      using less.hyps [OF shorter rest 1(1) gen] by blast
    with 1(2,3) show ?thesis by (intro conjI exI [of _ ys] exI [of _ m]) simp_all
  qed
qed

lemma mark_complete_frame:
  "inventoryMarkProductsImportComplete clock orgID db = Inr db' \<Longrightarrow> \<exists>s. db' = db\<lparr>org_settings := s\<rparr>"
  by (auto simp: inventoryMarkProductsImportComplete_def Let_def split: option.splits json.splits)

lemma import_items_keep:
  assumes run: "inventoryImportItems lower gen clock orgID rows db = Inr (out, db')" and ok: "items_ok gen db" and gen: "uuid_supply gen"
  shows "items_ok gen db'" and "catalogue_writes db db'"
proof -
  obtain fresh ids db1 where ins: "insert_chunks gen orgID fresh ([], db) = Inr (ids, db1)"
    and mark: "(if 0 < length ids then inventoryMarkProductsImportComplete clock orgID db1 else Inr db1) = Inr db'"
    using run unfolding inventoryImportItems_def Let_def by (auto split: prod.splits)
  obtain xs n where 1: "items_ok gen db1" "db1 = db\<lparr>items := xs, uuid_draws := n\<rparr>" "uuid_draws db \<le> n"
    using insert_chunks_keep [OF ins ok gen] by blast
  have "\<exists>s. db' = db1\<lparr>org_settings := s\<rparr>"
    using mark mark_complete_frame [of clock orgID db1 db'] by (cases "0 < length ids") (auto intro: exI [of _ "org_settings db1"])
  then obtain s where s: "db' = db1\<lparr>org_settings := s\<rparr>" by blast
  show "items_ok gen db'" by (rule items_ok_same [OF 1(1)]) (simp_all add: s)
  have "db' = db\<lparr>items := xs, uuid_draws := n, org_settings := s\<rparr>" by (simp add: s 1(2))
  with catalogue_import [OF 1(3)] show "catalogue_writes db db'" by simp
qed

lemma create_item_keep:
  assumes run: "inventoryCreateItem gen orgID input db = Inr (k, db')" and ok: "items_ok gen db" and gen: "uuid_supply gen"
  shows "items_ok gen db'" and "catalogue_writes db db'"
proof -
  obtain row where ins: "insert_item gen row db = Inr (k, db')" and id: "\<And>k. it_id (row k) = k"
    using run by (auto simp: inventoryCreateItem_def Let_def split: if_splits)
  note I = insert_item_Inr [OF ins ok gen id]
  show "items_ok gen db'" by (rule I(1))
  show "catalogue_writes db db'" unfolding I(3) by (rule catalogue_items) simp
qed

lemma inventory_step_keeps:
  assumes "inventory_step lower gen db db'" and ok: "inventory_ok gen db" and gen: "uuid_supply gen"
  shows "inventory_ok gen db'"
proof -
  have parts: "stock_ok gen db" "items_ok gen db" "counts_ok gen db" using ok by (simp_all add: inventory_ok_def)
  have items: "inventory_ok gen d" if "d = db\<lparr>items := xs\<rparr>" "items_ok gen d" for d xs
    using catalogue_keeps [OF _ ok, of d] catalogue_patch [of db xs] that by simp
  have counts: "inventory_ok gen d" if "d = db\<lparr>uuid_draws := n, cycle_counts := cs, cycle_lines := ls\<rparr>" "uuid_draws db \<le> n" "counts_ok gen d" for d n cs ls
    using that parts stock_ok_same [OF parts(1), of d] items_ok_same [OF parts(2), of d] by (simp add: inventory_ok_def)
  have updated: "inventory_ok gen (update_count orgID k f d)"
    if "inventory_ok gen d" "\<And>c. cc_id (f c) = cc_id c \<and> cc_orgID (f c) = cc_orgID c \<and> cc_locationID (f c) = cc_locationID c" for d orgID k f
  proof -
    have "stock_ok gen (update_count orgID k f d)"
      by (rule stock_ok_same [of gen d]) (use that(1) in \<open>simp_all add: inventory_ok_def update_count_def\<close>)
    moreover have "items_ok gen (update_count orgID k f d)"
      by (rule items_ok_same [of gen d]) (use that(1) in \<open>simp_all add: inventory_ok_def update_count_def\<close>)
    moreover have "counts_ok gen (update_count orgID k f d)"
      by (rule counts_ok_update) (use that in \<open>simp_all add: inventory_ok_def\<close>)
    ultimately show ?thesis by (simp add: inventory_ok_def)
  qed
  show ?thesis
    using assms(1)
  proof cases
    case stock
    note w = stock_step_writes [OF stock parts(1) gen]
    show ?thesis using stock_step_keeps [OF stock parts(1) gen] items_ok_same [OF parts(2) writes_frame(1,3) [OF w]] counts_ok_writes [OF parts(3) w]
      by (simp add: inventory_ok_def)
  next
    case (item orgID item k)
    then show ?thesis using create_item_keep [OF _ parts(2) gen] catalogue_keeps [OF _ ok] by blast
  next
    case (update claims p prior)
    then show ?thesis using patch_keeps_items [OF parts(2)] items unfolding inventoryUpdateItem_def by blast
  next
    case (restore claims p prior)
    then show ?thesis using patch_keeps_items [OF parts(2)] items unfolding inventoryRestoreItem_def by blast
  next
    case (archive orgID sku a now out)
    then show ?thesis using archive_keeps_items [OF parts(2)] items by (auto simp: inventoryArchiveItem_def split: option.splits)
  next
    case (location orgID code name k)
    then have "catalogue_writes db db'" by (auto simp: inventoryCreateLocation_def intro: catalogue_location split: if_splits)
    moreover have "items db' = items db" "uuid_draws db \<le> uuid_draws db'"
      using location by (auto simp: inventoryCreateLocation_def split: if_splits)
    ultimately show ?thesis using catalogue_keeps [OF _ ok] items_ok_same [OF parts(2)] by blast
  next
    case (imported clock orgID rows report)
    then show ?thesis using import_items_keep [OF _ parts(2) gen] catalogue_keeps [OF _ ok] by blast
  next
    case (undone orgID ids now changed)
    then show ?thesis using archive_keeps_items [OF parts(2)] items by (auto simp: inventoryUndoItemImport_def Let_def)
  next
    case (redone orgID ids changed)
    then show ?thesis using archive_keeps_items [OF parts(2)] items by (auto simp: inventoryRestoreItemImport_def Let_def)
  next
    case (reserve claims sku q reason reservation)
    then have "catalogue_writes db db'" "items db' = items db" "uuid_draws db \<le> uuid_draws db'"
      by (auto simp: inventoryReserveStock_def Let_def intro!: catalogue_reserve split: if_splits)
    then show ?thesis using catalogue_keeps [OF _ ok] items_ok_same [OF parts(2)] by blast
  next
    case (release orgID k now b)
    then have "catalogue_writes db db'" "items db' = items db" "uuid_draws db \<le> uuid_draws db'"
      by (auto simp: inventoryReleaseReservation_def intro: catalogue_release split: option.splits if_splits)
    then show ?thesis using catalogue_keeps [OF _ ok] items_ok_same [OF parts(2)] by blast
  next
    case (draw claims sheet drawn)
    then obtain cs ls n where "counts_ok gen db'" "db' = db\<lparr>uuid_draws := n, cycle_counts := cs, cycle_lines := ls\<rparr>" "uuid_draws db \<le> n"
      using create_count_keeps [OF _ parts(3) stock_okD(2) [OF parts(1)] gen parts(2)] by blast
    then show ?thesis using counts by blast
  next
    case (count orgID k cs n)
    then obtain k' where "fold_result (record_count orgID k') db cs = Inr db'"
      by (auto simp: inventoryRecordCycleCounts_def split: if_splits)
    with record_keeps [OF _ parts(3)] obtain ls where "counts_ok gen db'" "db' = db\<lparr>cycle_lines := ls\<rparr>" by blast
    then show ?thesis by (intro counts [where n = "uuid_draws db" and cs = "cycle_counts db" and ls = ls]) simp_all
  next
    case (post claims k now variances)
    obtain n d where v: "variances = (n, d)" by (cases variances)
    show ?thesis
    proof (rule post_count_Inr [OF post [unfolded v] parts(1)], goal_cases)
      case (1 c db1)
      have "inventory_ok gen db1" using 1(4) items_ok_same [OF parts(2) writes_frame(1,3) [OF 1(5)]] counts_ok_writes [OF parts(3) 1(5)]
        by (simp add: inventory_ok_def)
      then show ?case unfolding 1(8) by (rule updated) simp
    qed
  next
    case (cancel orgID k now b)
    then show ?thesis using updated [OF ok] by (auto simp: inventoryCancelCycleCount_def split: if_splits)
  qed
qed

abbreviation inventory_history where "inventory_history lower gen \<equiv> (inventory_step lower gen)\<^sup>*\<^sup>*"

lemma inventory_history_keeps: "inventory_history lower gen db db' \<Longrightarrow> inventory_ok gen db \<Longrightarrow> uuid_supply gen \<Longrightarrow> inventory_ok gen db'"
  by (induction rule: rtranclp_induct) (auto intro: inventory_step_keeps)

section \<open>Properties of cycle counts\<close>

lemma updated_count_status:
  assumes "inventoryLoadCycleCount orgID k (update_count orgID k f db) = Inr r" and "\<And>c. cc_status (f c) = s"
  shows "cc_status r = s"
proof -
  have rows: "cycle_counts (update_count orgID k f db) = map (\<lambda>c. if cc_orgID c = orgID \<and> cc_id c = k then f c else c) (cycle_counts db)"
    by (simp add: update_count_def)
  have "r \<in> set (cycle_counts (update_count orgID k f db))" "cc_orgID r = orgID" "cc_id r = k" using load_count_Inr [OF assms(1)] by blast+
  then show ?thesis using assms(2) unfolding rows set_map by (auto split: if_splits)
qed

lemma closed_isl:
  assumes "\<And>r. inventoryLoadCycleCount orgID k db = Inr r \<Longrightarrow> cc_status r = ''posted''"
  shows "isl (inventoryPostCycleCount gen claims k later db) \<or> OrganizationID claims \<noteq> orgID"
    and "isl (inventoryCancelCycleCount orgID k later db)" and "isl (inventoryRecordCycleCounts orgID k counts db)"
proof -
  show "isl (inventoryPostCycleCount gen claims k later db) \<or> OrganizationID claims \<noteq> orgID"
    by (cases "inventoryLoadCycleCount orgID k db"; cases "OrganizationID claims = orgID") (use assms in \<open>simp_all add: inventoryPostCycleCount_def\<close>)
  show "isl (inventoryCancelCycleCount orgID k later db)"
    by (cases "inventoryLoadCycleCount orgID k db") (use assms in \<open>simp_all add: inventoryCancelCycleCount_def\<close>)
  show "isl (inventoryRecordCycleCounts orgID k counts db)"
    by (cases "inventoryLoadCycleCount orgID k db") (use assms in \<open>simp_all add: inventoryRecordCycleCounts_def\<close>)
qed

lemma sum_list_zeros:
  fixes f :: "'b \<Rightarrow> int"
  shows "(\<And>x. x \<in> set xs \<Longrightarrow> f x = 0) \<Longrightarrow> sum_list (map f xs) = 0"
  by (induction xs) auto

text \<open>
  C32. Posting a cycle count makes the stock what was counted. After any history of the stockroom
  a successful posting leaves, for every line of the sheet with a counted quantity, exactly that
  quantity at hand of the item at the counted place; items of the sheet without a count and items
  not on the sheet keep what they had; the sum reported is the sum of the variances; and the
  sheet can be posted, cancelled or counted no more.
\<close>
theorem cycle_count_settles:
  assumes "inventory_ok gen db0" and "uuid_supply gen" and "inventory_history lower gen db0 db"
    and post: "inventoryPostCycleCount gen claims k now db = Inr ((n, net), db')"
  shows "\<exists>c. inventoryLoadCycleCount (OrganizationID claims) k db = Inr c \<and> cc_status c = ''open'' \<and>
    (\<forall>l \<in> set (sheet_lines (OrganizationID claims) k db).
       inventoryStockOnHand (OrganizationID claims) (cl_itemID l) (cc_locationID c) db' =
         (case cl_counted l of Some counted \<Rightarrow> counted
          | None \<Rightarrow> inventoryStockOnHand (OrganizationID claims) (cl_itemID l) (cc_locationID c) db)) \<and>
    (\<forall>item location. item \<notin> cl_itemID ` set (sheet_lines (OrganizationID claims) k db) \<longrightarrow>
       inventoryStockOnHand (OrganizationID claims) item location db' = inventoryStockOnHand (OrganizationID claims) item location db) \<and>
    net = sum_list (map variance (sheet_lines (OrganizationID claims) k db)) \<and>
    isl (inventoryPostCycleCount gen claims k later db') \<and> isl (inventoryCancelCycleCount (OrganizationID claims) k later db') \<and>
    isl (inventoryRecordCycleCounts (OrganizationID claims) k counts db')"
proof -
  let ?org = "OrganizationID claims"
  have "inventory_ok gen db" using inventory_history_keeps [OF assms(3,1,2)] .
  then have ok: "stock_ok gen db" and cok: "counts_ok gen db" by (simp_all add: inventory_ok_def)
  show ?thesis
  proof (rule post_count_Inr [OF post ok], goal_cases)
    case (1 c db1)
    let ?ls = "sheet_lines ?org k db"
    have c: "c \<in> set (cycle_counts db)" "cc_orgID c = ?org" "cc_id c = k" using load_count_Inr [OF 1(1)] by simp_all
    have bal: "inventoryStockOnHand o' i l db' = inventoryStockOnHand o' i l db1" for o' i l
      by (rule on_hand_cong) (simp add: 1(8) update_count_def)
    have here: "inventoryStockOnHand ?org (cl_itemID l) (cc_locationID c) db' =
        inventoryStockOnHand ?org (cl_itemID l) (cc_locationID c) db + variance l" if l: "l \<in> set ?ls" for l
    proof -
      have "sum_list (map (variance_at ?org (cc_locationID c) ?org (cl_itemID l) (cc_locationID c)) ?ls) =
          variance_at ?org (cc_locationID c) ?org (cl_itemID l) (cc_locationID c) l"
        by (rule sum_list_at [OF sheet_lines_distinct [OF cok] l]) (auto simp: variance_at_def)
      then show ?thesis by (simp add: bal 1(7) variance_at_def)
    qed
    have lines: "inventoryStockOnHand ?org (cl_itemID l) (cc_locationID c) db' =
         (case cl_counted l of Some counted \<Rightarrow> counted | None \<Rightarrow> inventoryStockOnHand ?org (cl_itemID l) (cc_locationID c) db)"
      if l: "l \<in> set ?ls" for l
    proof (cases "cl_counted l")
      case None
      with here [OF l] show ?thesis by (simp add: variance_def)
    next
      case (Some m)
      from l have m: "l \<in> set (cycle_lines db)" "cl_orgID l = ?org" "cl_countID l = k" by simp_all
      obtain c' where "c' \<in> set (cycle_counts db)" "cl_countID l = cc_id c'" "watermark_ok db c' l" using counts_okE [OF cok m(1)] by blast
      moreover have "distinct (map cc_id (cycle_counts db))" using cok by (simp add: counts_ok_def)
      ultimately have w: "watermark_ok db c l" using distinct_keyD [of cc_id "cycle_counts db" c' c] c m(3) by simp
      have "inventoryItemMovementCounts ?org (cl_itemID l) db = cl_movements l" using 1(3) [OF l] Some by simp
      then have "inventoryStockOnHand ?org (cl_itemID l) (cc_locationID c) db = cl_expected l"
        using watermark_on_hand [OF w stock_okD(2) [OF ok]] m(2) by simp
      with here [OF l] Some show ?thesis by (simp add: variance_def)
    qed
    have others: "inventoryStockOnHand ?org item location db' = inventoryStockOnHand ?org item location db"
      if "item \<notin> cl_itemID ` set ?ls" for item location
    proof -
      have "sum_list (map (variance_at ?org (cc_locationID c) ?org item location) ?ls) = 0"
        by (rule sum_list_zeros) (use that in \<open>auto simp: variance_at_def\<close>)
      then show ?thesis by (simp add: bal 1(7))
    qed
    have closed: "cc_status r = ''posted''" if "inventoryLoadCycleCount ?org k db' = Inr r" for r
      by (rule updated_count_status [OF that [unfolded 1(8)]]) simp
    have shut: "isl (inventoryPostCycleCount gen claims k later db')" "isl (inventoryCancelCycleCount ?org k later db')"
      "isl (inventoryRecordCycleCounts ?org k counts db')"
      using closed_isl(1) [of ?org k db' gen claims later, OF closed] closed_isl(2) [of ?org k db' later, OF closed]
        closed_isl(3) [of ?org k db' counts, OF closed] by simp_all
    show ?case using 1(1,2,6) lines others shut by blast
  qed
qed

definition example_sheet :: inventoryCreateCycleCountInput where
  "example_sheet = \<lparr>cn_LocationID = Some ''l1'', cn_SKUs = None, cn_Note = None\<rparr>"

definition example_filled :: stockroom where
  "example_filled = reached example_stockroom (inventoryAdjustStock example_gen example_claims (example_adjustment None) example_stockroom)"

definition example_drawn :: stockroom where
  "example_drawn = reached example_filled (inventoryCreateCycleCount example_gen example_claims example_sheet example_filled)"

definition example_counted :: stockroom where
  "example_counted = reached example_drawn (inventoryRecordCycleCounts ''org'' (example_gen 1) [(''FLOUR'', 4600)] example_drawn)"

definition example_settled :: stockroom where
  "example_settled = reached example_counted (inventoryPostCycleCount example_gen example_claims (example_gen 1) example_now example_counted)"

lemma example_stockroom_ok: "inventory_ok example_gen example_stockroom"
proof -
  have "stock_ok example_gen example_stockroom"
    by (simp add: stock_ok_def stocked_def projected_def transfers_ok_def fresh_lines_def inventoryStockOnHand_def
        example_stockroom_def example_warehouse_def receivables.defs warehouse.defs)
  moreover have "counts_ok example_gen example_stockroom" by (simp add: counts_ok_def example_stockroom_def warehouse.defs)
  ultimately show ?thesis using example_stockroom_items by (simp add: inventory_ok_def)
qed

lemma example_counting:
  "\<exists>n. inventoryAdjustStock example_gen example_claims (example_adjustment None) example_stockroom = Inr (n, example_filled)"
  "\<exists>out. inventoryCreateCycleCount example_gen example_claims example_sheet example_filled = Inr (out, example_drawn)"
  "\<exists>n. inventoryRecordCycleCounts ''org'' (example_gen 1) [(''FLOUR'', 4600)] example_drawn = Inr (n, example_counted)"
  "\<exists>out. inventoryPostCycleCount example_gen example_claims (example_gen 1) example_now example_counted = Inr (out, example_settled)"
  unfolding example_filled_def example_drawn_def example_counted_def example_settled_def
  by (rule reached_Inr, code_simp)+

theorem cycle_count_settles_witness:
  "inventoryStockOnHand ''org'' ''i1'' (Some ''l1'') example_counted = 5000 \<and>
   inventoryStockOnHand ''org'' ''i1'' (Some ''l1'') example_settled = 4600 \<and>
   isl (inventoryPostCycleCount example_gen example_claims (example_gen 1) 0 example_settled)"
proof -
  have "inventory_step (\<lambda>s. s) example_gen example_stockroom example_filled" "inventory_step (\<lambda>s. s) example_gen example_filled example_drawn"
    "inventory_step (\<lambda>s. s) example_gen example_drawn example_counted"
    using example_counting by (blast intro: inventory_step.intros stock_step.intros)+
  then have h: "inventory_history (\<lambda>s. s) example_gen example_stockroom example_counted"
    by (meson rtranclp.rtrancl_into_rtrancl rtranclp.rtrancl_refl)
  have lines: "map (\<lambda>l. (cl_itemID l, cl_counted l)) (sheet_lines ''org'' (example_gen 1) example_counted) = [(''i1'', Some 4600)]"
    and place: "map_option cc_locationID (find (\<lambda>c. cc_orgID c = ''org'' \<and> cc_id c = example_gen 1) (cycle_counts example_counted)) = Some (Some ''l1'')"
    and before: "inventoryStockOnHand ''org'' ''i1'' (Some ''l1'') example_counted = 5000" by code_simp+
  have org: "OrganizationID example_claims = ''org''" by (simp add: example_claims_def)
  obtain n net where p: "inventoryPostCycleCount example_gen example_claims (example_gen 1) example_now example_counted = Inr ((n, net), example_settled)"
    using example_counting(4) by auto
  obtain l where l: "sheet_lines ''org'' (example_gen 1) example_counted = [l]" "cl_itemID l = ''i1''" "cl_counted l = Some 4600"
    using lines by (auto simp: map_eq_Cons_conv)
  from cycle_count_settles [OF example_stockroom_ok example_gen_supply h p, of 0 "[]"] obtain c where
    c: "inventoryLoadCycleCount ''org'' (example_gen 1) example_counted = Inr c"
      "inventoryStockOnHand ''org'' ''i1'' (cc_locationID c) example_settled = 4600"
      "isl (inventoryPostCycleCount example_gen example_claims (example_gen 1) 0 example_settled)" unfolding org l(1) using l(2,3) by auto
  have "cc_locationID c = Some ''l1''" using c(1) place by (auto simp: inventoryLoadCycleCount_def split: option.splits)
  with c before show ?thesis by simp
qed

end
