(* ===== verification/Valuation.thy ===== *)
theory Valuation
  imports Counts
begin

text \<open>
  Stock valuation (src/apps/api/internal/capability/inventory_valuation.go): the movements of an
  item replayed into a quantity and a value at moving average cost, the stock report, and the
  summary entry that brings the inventory account of the books to the value of the ledger.
  Movements are replayed in the order they were written.
\<close>

section \<open>Replaying the ledger\<close>

record inventoryValuationState =
  vs_quantityOnHand :: int
  vs_totalValueMinor :: int

record inventoryValuationMovement =
  vm_quantityDelta :: int
  vm_unitCostMinor :: "int option"
  vm_reason :: string

definition inventoryAverageUnitCost :: "inventoryValuationState \<Rightarrow> int result" where
  "inventoryAverageUnitCost state =
     (if vs_quantityOnHand state \<le> 0 then Inr 0
      else inventoryJsRoundProductDiv (vs_totalValueMinor state) 1000 (vs_quantityOnHand state))"

definition inventoryApplyValuationMovement ::
  "inventoryValuationState \<Rightarrow> inventoryValuationMovement \<Rightarrow> inventoryValuationState result" where
  "inventoryApplyValuationMovement state movement =
     (if \<not> inventorySafeInteger (vs_quantityOnHand state) \<or> \<not> inventorySafeInteger (vs_totalValueMinor state) \<or>
         \<not> inventorySafeInteger (vm_quantityDelta movement) \<or>
         (case vm_unitCostMinor movement of None \<Rightarrow> False | Some c \<Rightarrow> \<not> inventorySafeInteger c)
      then Inl ''inventory valuation exceeds the supported amount range''
      else if vm_reason movement = ''transfer'' then
        bind_result (inventoryAddSafeIntegers (vs_quantityOnHand state) (vm_quantityDelta movement)) (\<lambda>quantity.
        Inr (state\<lparr>vs_quantityOnHand := quantity\<rparr>))
      else if 0 < vm_quantityDelta movement then
        bind_result (inventoryAverageUnitCost state) (\<lambda>average.
        let cost = (case vm_unitCostMinor movement of None \<Rightarrow> average | Some c \<Rightarrow> c) in
        bind_result (inventoryJsRoundProductDiv (vm_quantityDelta movement) cost 1000) (\<lambda>valueIn.
        bind_result (inventoryAddSafeIntegers (vs_quantityOnHand state) (vm_quantityDelta movement)) (\<lambda>quantity.
        bind_result (inventoryAddSafeIntegers (vs_totalValueMinor state) valueIn) (\<lambda>worth.
        Inr \<lparr>vs_quantityOnHand = quantity, vs_totalValueMinor = worth\<rparr>))))
      else if vm_quantityDelta movement < 0 then
        (let out = - vm_quantityDelta movement
         in if vs_quantityOnHand state < out then Inl ''insufficient stock''
            else
              bind_result (if vs_quantityOnHand state \<noteq> 0
                 then inventoryJsRoundProductDiv (vs_totalValueMinor state) out (vs_quantityOnHand state) else Inr 0) (\<lambda>valueOut.
              bind_result (inventoryAddSafeIntegers (vs_quantityOnHand state) (- out)) (\<lambda>quantity.
              bind_result (inventoryAddSafeIntegers (vs_totalValueMinor state) (- valueOut)) (\<lambda>worth.
              Inr \<lparr>vs_quantityOnHand = quantity, vs_totalValueMinor = worth\<rparr>))))
      else Inr state)"

definition inventoryReplayValuation :: "inventoryValuationMovement list \<Rightarrow> inventoryValuationState result" where
  "inventoryReplayValuation history =
     fold_result inventoryApplyValuationMovement \<lparr>vs_quantityOnHand = 0, vs_totalValueMinor = 0\<rparr> history"

definition inventoryNeedsReorder :: "int \<Rightarrow> int \<Rightarrow> bool" where
  "inventoryNeedsReorder quantityOnHand reorderPoint \<longleftrightarrow> 0 < reorderPoint \<and> quantityOnHand \<le> reorderPoint"

definition inventoryMovementHistory :: "string \<Rightarrow> string \<Rightarrow> 'a warehouse_scheme \<Rightarrow> inventoryValuationMovement list" where
  "inventoryMovementHistory orgID itemID db =
     map (\<lambda>m. \<lparr>vm_quantityDelta = mv_quantityDelta m, vm_unitCostMinor = mv_unitCostMinor m, vm_reason = mv_reason m\<rparr>)
       (filter (\<lambda>m. mv_orgID m = orgID \<and> mv_itemID m = itemID) (stock_movements db))"

definition add_item_value :: "string \<Rightarrow> 'a warehouse_scheme \<Rightarrow> int \<Rightarrow> item_row \<Rightarrow> int result" where
  "add_item_value orgID db acc item =
     bind_result (inventoryReplayValuation (inventoryMovementHistory orgID (it_id item) db)) (\<lambda>valuation.
     inventoryAddSafeIntegers acc (vs_totalValueMinor valuation))"

definition inventoryLedgerValueMinor :: "string \<Rightarrow> 'a warehouse_scheme \<Rightarrow> int result" where
  "inventoryLedgerValueMinor orgID db = fold_result (add_item_value orgID db) 0 (filter (\<lambda>i. it_orgID i = orgID) (items db))"

section \<open>The stock report\<close>

record inventoryStockReportItem =
  sr_SKU :: string
  sr_Name :: string
  sr_Kind :: string
  sr_UnitLabel :: string
  sr_SalePriceMinor :: int
  sr_ImageURL :: "string option"
  sr_Tags :: "string list"
  sr_Barcode :: "string option"
  sr_OnHandThousandths :: int
  sr_ValueMinor :: int
  sr_AvgUnitCostMinor :: int
  sr_ReservedThousandths :: int
  sr_AvailableThousandths :: int
  sr_ReorderPointThousandths :: int
  sr_ReorderNeeded :: bool

definition report_item ::
  "string \<Rightarrow> bool \<Rightarrow> 'a stockroom_scheme \<Rightarrow> inventoryStockReportItem list \<times> int \<Rightarrow> item_row
   \<Rightarrow> (inventoryStockReportItem list \<times> int) result" where
  "report_item orgID belowReorderOnly db st item =
     (case st of (reported, acc) \<Rightarrow>
        let level = inventoryStockOnHand orgID (it_id item) None db in
        bind_result (inventoryReplayValuation (inventoryMovementHistory orgID (it_id item) db)) (\<lambda>valuation.
        let reserved = inventoryOpenReserved orgID (it_id item) db; available = inventoryAvailableToPromise level reserved in
        bind_result (inventoryAddSafeIntegers acc (vs_totalValueMinor valuation)) (\<lambda>acc1.
        let reorderNeeded = inventoryNeedsReorder level (it_reorderPoint item)
        in if belowReorderOnly \<and> \<not> reorderNeeded then Inr (reported, acc1)
           else
             bind_result (if 0 < level then inventoryJsRoundProductDiv (vs_totalValueMinor valuation) 1000 level else Inr 0) (\<lambda>average.
             Inr (reported @ [\<lparr>sr_SKU = it_sku item, sr_Name = it_name item, sr_Kind = it_kind item, sr_UnitLabel = it_unitLabel item,
                    sr_SalePriceMinor = it_salePriceMinor item, sr_ImageURL = it_imageURL item, sr_Tags = it_tags item,
                    sr_Barcode = it_barcode item, sr_OnHandThousandths = level, sr_ValueMinor = vs_totalValueMinor valuation,
                    sr_AvgUnitCostMinor = average, sr_ReservedThousandths = reserved, sr_AvailableThousandths = available,
                    sr_ReorderPointThousandths = it_reorderPoint item, sr_ReorderNeeded = reorderNeeded\<rparr>], acc1)))))"

definition inventoryStockReport ::
  "string \<Rightarrow> bool \<Rightarrow> 'a stockroom_scheme \<Rightarrow> (inventoryStockReportItem list \<times> int) result" where
  "inventoryStockReport orgID belowReorderOnly db =
     fold_result (report_item orgID belowReorderOnly db) ([], 0)
       (stable_sort (\<lambda>a b. it_sku a < it_sku b) (filter (\<lambda>i. it_orgID i = orgID \<and> it_archivedAt i = None) (items db)))"

section \<open>The valuation entry in the books\<close>

definition inventoryValuationAccountCode :: string where "inventoryValuationAccountCode = ''1200''"
definition inventoryCOGSAccountCode :: string where "inventoryCOGSAccountCode = ''5000''"
definition inventoryValuationSourceType :: string where "inventoryValuationSourceType = ''inventory-valuation''"
definition inventoryValuationReversalSourceType :: string where "inventoryValuationReversalSourceType = ''inventory-valuation-reversal''"

text \<open>The lines of the journal that name an account of the organization with the code, summed.\<close>

definition gl_balance :: "string \<Rightarrow> string \<Rightarrow> 'a books_scheme \<Rightarrow> int" where
  "gl_balance orgID code db =
     sum_list (concat (map (\<lambda>l. map (\<lambda>_. jl_debitMinor l - jl_creditMinor l)
       (filter (\<lambda>a. acc_id a = jl_accountID l \<and> acc_orgID a = orgID \<and> acc_code a = code) (accounts db))) (journal_lines db)))"

definition inventoryGLAccountBalanceMinor :: "string \<Rightarrow> string \<Rightarrow> 'a books_scheme \<Rightarrow> int result" where
  "inventoryGLAccountBalanceMinor orgID code db =
     (if \<not> inventorySafeInteger (gl_balance orgID code db) then Inl ''inventory GL balance exceeds the supported amount range''
      else Inr (gl_balance orgID code db))"

definition inventoryBaseCurrency :: "string \<Rightarrow> 'a receivables_scheme \<Rightarrow> string" where
  "inventoryBaseCurrency orgID db = (case map_of (organizations db) orgID of None \<Rightarrow> ''USD'' | Some c \<Rightarrow> c)"

definition inventoryValuationAdjustmentLines :: "int \<Rightarrow> journalEntryLineInput list" where
  "inventoryValuationAdjustmentLines varianceMinor =
     (if varianceMinor = 0 then []
      else if 0 < varianceMinor
      then [debit_line inventoryValuationAccountCode varianceMinor, credit_line inventoryCOGSAccountCode varianceMinor]
      else [debit_line inventoryCOGSAccountCode (- varianceMinor), credit_line inventoryValuationAccountCode (- varianceMinor)])"

record inventoryPostValuationSummaryOutput =
  vo_Posted :: bool
  vo_EntryID :: "string option"
  vo_VarianceMinor :: int
  vo_LedgerValueMinor :: int
  vo_GLBalanceMinor :: int

definition inventoryPostValuationSummary ::
  "uuid_source \<Rightarrow> capabilityClaims \<Rightarrow> string \<Rightarrow> int \<Rightarrow> 'a warehouse_scheme
   \<Rightarrow> (inventoryPostValuationSummaryOutput \<times> 'a warehouse_scheme) result" where
  "inventoryPostValuationSummary gen claims memo now db =
     (let orgID = OrganizationID claims in
      bind_result (inventoryLedgerValueMinor orgID db) (\<lambda>ledgerValue.
      bind_result (inventoryGLAccountBalanceMinor orgID inventoryValuationAccountCode db) (\<lambda>glBalance.
      bind_result (inventoryAddSafeIntegers ledgerValue (- glBalance)) (\<lambda>variance.
      if variance = 0
      then Inr (\<lparr>vo_Posted = False, vo_EntryID = None, vo_VarianceMinor = variance, vo_LedgerValueMinor = ledgerValue,
                 vo_GLBalanceMinor = glBalance\<rparr>, db)
      else
        bind_result (postJournalEntry gen (operational_posting claims memo inventoryValuationSourceType None None
          (inventoryBaseCurrency orgID db) now (inventoryValuationAdjustmentLines variance)) db) (\<lambda>(entryID, db1).
        Inr (\<lparr>vo_Posted = True, vo_EntryID = Some entryID, vo_VarianceMinor = variance, vo_LedgerValueMinor = ledgerValue,
              vo_GLBalanceMinor = glBalance\<rparr>, db1))))))"

text \<open>The lines of an entry joined with their accounts, the sides swapped.\<close>

definition swapped_lines :: "string \<Rightarrow> 'a books_scheme \<Rightarrow> journalEntryLineInput list" where
  "swapped_lines entryID db =
     concat (map (\<lambda>l. map (\<lambda>a. \<lparr>pl_accountCode = acc_code a, pl_debitMinor = jl_creditMinor l, pl_creditMinor = jl_debitMinor l\<rparr>)
         (filter (\<lambda>a. acc_id a = jl_accountID l) (accounts db)))
       (filter (\<lambda>l. jl_entryID l = entryID) (journal_lines db)))"

definition inventoryReverseValuationSummary ::
  "uuid_source \<Rightarrow> capabilityClaims \<Rightarrow> string \<Rightarrow> int \<Rightarrow> 'a warehouse_scheme \<Rightarrow> (string \<times> 'a warehouse_scheme) result" where
  "inventoryReverseValuationSummary gen claims entryID now db =
     (let orgID = OrganizationID claims in
      case find (\<lambda>e. je_id e = entryID \<and> je_orgID e = orgID) (journal_entries db) of
        None \<Rightarrow> Inl (''no journal entry '' @ entryID)
      | Some e \<Rightarrow>
          if je_sourceType e \<noteq> inventoryValuationSourceType
          then Inl (''entry '' @ entryID @ '' is not an inventory valuation summary'')
          else if list_ex (\<lambda>r. je_orgID r = orgID \<and> je_reversalOfID r = Some entryID) (journal_entries db)
          then Inl (''entry '' @ entryID @ '' has already been reversed'')
          else postJournalEntry gen (operational_posting claims (''Reversal: '' @ je_memo e) inventoryValuationReversalSourceType None
                 (Some entryID) (inventoryBaseCurrency orgID db) now (swapped_lines entryID db)) db)"

section \<open>Rounding\<close>

lemma go_floor:
  assumes "0 < b"
  shows "(if a < 0 \<and> go_rem a b \<noteq> 0 then go_quo a b - 1 else go_quo a b) = a div b"
proof (cases "a < 0")
  case True
  have q: "go_quo a b = - ((- a) div b)" using True assms by (simp add: go_quo_def)
  have "a div b = (if (- a) mod b = 0 then - ((- a) div b) else - ((- a) div b) - 1)"
    using zdiv_zminus1_eq_if [of b "- a"] assms by simp
  moreover have "go_rem a b = - ((- a) mod b)" unfolding go_rem_def q using minus_mult_div_eq_mod [of "- a" b] by simp
  ultimately show ?thesis using True q by simp
next
  case False
  then show ?thesis using assms by (simp add: go_quo_nonneg)
qed

lemma js_round_Inr:
  assumes "inventoryJsRoundProductDiv l r d = Inr q"
  shows "0 < d" and "nearest (l * r) d q" and "inventorySafeInteger q"
proof -
  from assms show d: "0 < d" by (auto simp: inventoryJsRoundProductDiv_def split: if_splits)
  have "q = (l * r * 2 + d) div (d * 2)" and "inventorySafeInteger q"
    using assms d go_floor [of "d * 2" "l * r * 2 + d"] by (auto simp: inventoryJsRoundProductDiv_def Let_def split: if_splits)
  with nearest_half_up [OF d, of "l * r"] show "nearest (l * r) d q" "inventorySafeInteger q" by (simp_all add: mult.commute)
qed

lemma add_safe_Inr: "inventoryAddSafeIntegers a b = Inr c \<Longrightarrow> c = a + b"
  by (auto simp: inventoryAddSafeIntegers_def split: if_splits)

lemma nearest_nonneg: "0 < d \<Longrightarrow> nearest n d q \<Longrightarrow> 0 \<le> n \<Longrightarrow> 0 \<le> q"
  using nearest_bounds(1) [of d n q "n"] by (simp add: mult_le_cancel_left1)

section \<open>One movement\<close>

lemma apply_transfer:
  assumes "inventoryApplyValuationMovement s m = Inr s'" and "vm_reason m = ''transfer''"
  shows "s' = s\<lparr>vs_quantityOnHand := vs_quantityOnHand s + vm_quantityDelta m\<rparr>"
  using assms by (auto simp: inventoryApplyValuationMovement_def dest: add_safe_Inr split: if_splits)

lemma average_Inr:
  assumes "inventoryAverageUnitCost s = Inr c"
  shows "if 0 < vs_quantityOnHand s then nearest (vs_totalValueMinor s * 1000) (vs_quantityOnHand s) c else c = 0"
  using assms js_round_Inr(2) [of "vs_totalValueMinor s" 1000 "vs_quantityOnHand s" c] by (auto simp: inventoryAverageUnitCost_def split: if_splits)

lemma apply_receipt:
  assumes "inventoryApplyValuationMovement s m = Inr s'" and "vm_reason m \<noteq> ''transfer''" and "0 < vm_quantityDelta m"
  obtains average where "inventoryAverageUnitCost s = Inr average"
    and "vs_quantityOnHand s' = vs_quantityOnHand s + vm_quantityDelta m"
    and "nearest (vm_quantityDelta m * (case vm_unitCostMinor m of None \<Rightarrow> average | Some c \<Rightarrow> c)) 1000 (vs_totalValueMinor s' - vs_totalValueMinor s)"
proof -
  obtain average v q t where 1: "inventoryAverageUnitCost s = Inr average"
    "inventoryJsRoundProductDiv (vm_quantityDelta m) (case vm_unitCostMinor m of None \<Rightarrow> average | Some c \<Rightarrow> c) 1000 = Inr v"
    "inventoryAddSafeIntegers (vs_quantityOnHand s) (vm_quantityDelta m) = Inr q" "inventoryAddSafeIntegers (vs_totalValueMinor s) v = Inr t"
    "s' = \<lparr>vs_quantityOnHand = q, vs_totalValueMinor = t\<rparr>"
    using assms by (auto simp: inventoryApplyValuationMovement_def Let_def split: if_splits)
  show thesis by (rule that [OF 1(1)]) (use js_round_Inr(2) [OF 1(2)] add_safe_Inr [OF 1(3)] add_safe_Inr [OF 1(4)] 1(5) in simp_all)
qed

lemma apply_issue:
  assumes "inventoryApplyValuationMovement s m = Inr s'" and "vm_reason m \<noteq> ''transfer''" and "vm_quantityDelta m < 0"
  shows "- vm_quantityDelta m \<le> vs_quantityOnHand s" and "vs_quantityOnHand s' = vs_quantityOnHand s + vm_quantityDelta m"
    and "nearest (vs_totalValueMinor s * - vm_quantityDelta m) (vs_quantityOnHand s) (vs_totalValueMinor s - vs_totalValueMinor s')"
proof -
  have q: "- vm_quantityDelta m \<le> vs_quantityOnHand s" using assms by (auto simp: inventoryApplyValuationMovement_def Let_def split: if_splits)
  then obtain v q t where 1: "inventoryJsRoundProductDiv (vs_totalValueMinor s) (- vm_quantityDelta m) (vs_quantityOnHand s) = Inr v"
    "inventoryAddSafeIntegers (vs_quantityOnHand s) (vm_quantityDelta m) = Inr q" "inventoryAddSafeIntegers (vs_totalValueMinor s) (- v) = Inr t"
    "s' = \<lparr>vs_quantityOnHand = q, vs_totalValueMinor = t\<rparr>"
    using assms by (auto simp: inventoryApplyValuationMovement_def Let_def split: if_splits)
  show "- vm_quantityDelta m \<le> vs_quantityOnHand s" by (rule q)
  show "vs_quantityOnHand s' = vs_quantityOnHand s + vm_quantityDelta m"
    and "nearest (vs_totalValueMinor s * - vm_quantityDelta m) (vs_quantityOnHand s) (vs_totalValueMinor s - vs_totalValueMinor s')"
    using js_round_Inr(2) [OF 1(1)] add_safe_Inr [OF 1(2)] add_safe_Inr [OF 1(3)] 1(4) by simp_all
qed

lemma apply_nothing:
  "inventoryApplyValuationMovement s m = Inr s' \<Longrightarrow> vm_reason m \<noteq> ''transfer'' \<Longrightarrow> vm_quantityDelta m = 0 \<Longrightarrow> s' = s"
  by (auto simp: inventoryApplyValuationMovement_def split: if_splits)

lemma apply_quantity:
  assumes "inventoryApplyValuationMovement s m = Inr s'"
  shows "vs_quantityOnHand s' = vs_quantityOnHand s + vm_quantityDelta m"
proof -
  consider "vm_reason m = ''transfer''" | "vm_reason m \<noteq> ''transfer''" "0 < vm_quantityDelta m"
    | "vm_reason m \<noteq> ''transfer''" "vm_quantityDelta m < 0" | "vm_reason m \<noteq> ''transfer''" "vm_quantityDelta m = 0" by linarith
  then show ?thesis
  proof cases
    case 1
    then show ?thesis using apply_transfer [OF assms] by simp
  next
    case 2
    with assms show ?thesis by (rule apply_receipt)
  next
    case 3
    with assms show ?thesis by (rule apply_issue(2))
  next
    case 4
    then show ?thesis using apply_nothing [OF assms] by simp
  qed
qed

lemma issue_value:
  assumes "0 < q" and "nearest (v * out) q w" and "0 \<le> v" "0 < out" "out \<le> q"
  shows "0 \<le> w" and "w \<le> v" and "out = q \<Longrightarrow> w = v"
proof -
  have "v * out \<le> v * q" using assms by (intro mult_left_mono) auto
  with nearest_bounds [OF assms(1,2), of v] assms(3,4) show "0 \<le> w" "w \<le> v" by simp_all
  show "out = q \<Longrightarrow> w = v" using nearest_unique [OF assms(1,2)] nearest_exact [OF assms(1)] by simp
qed

lemma average_nonneg: "inventoryAverageUnitCost s = Inr c \<Longrightarrow> 0 \<le> vs_totalValueMinor s \<Longrightarrow> 0 \<le> c"
  using average_Inr [of s c] nearest_nonneg [of "vs_quantityOnHand s" "vs_totalValueMinor s * 1000" c] by (auto split: if_splits)

definition priced :: "inventoryValuationMovement \<Rightarrow> bool" where
  "priced m \<longleftrightarrow> (\<forall>c. vm_unitCostMinor m = Some c \<longrightarrow> 0 \<le> c)"

lemma receipt_value:
  assumes "inventoryAverageUnitCost s = Inr average" and "0 < d" and "0 \<le> vs_totalValueMinor s" and "priced m"
    and "nearest (d * (case vm_unitCostMinor m of None \<Rightarrow> average | Some c \<Rightarrow> c)) 1000 w"
  shows "0 \<le> w"
  using nearest_nonneg [OF _ assms(5)] average_nonneg [OF assms(1,3)] assms(2,4) by (simp add: priced_def split: option.splits)

lemma apply_value_nonneg:
  assumes run: "inventoryApplyValuationMovement s m = Inr s'" and v: "0 \<le> vs_totalValueMinor s" and "priced m"
  shows "0 \<le> vs_totalValueMinor s'"
proof -
  consider "vm_reason m = ''transfer''" | "vm_reason m \<noteq> ''transfer''" "0 < vm_quantityDelta m"
    | "vm_reason m \<noteq> ''transfer''" "vm_quantityDelta m < 0" | "vm_reason m \<noteq> ''transfer''" "vm_quantityDelta m = 0" by linarith
  then show ?thesis
  proof cases
    case 1
    then show ?thesis using apply_transfer [OF run] v by simp
  next
    case 2
    show ?thesis by (rule apply_receipt [OF run 2]) (use receipt_value [OF _ 2(2) v assms(3)] v in force)
  next
    case 3
    have "0 < vs_quantityOnHand s" using apply_issue(1) [OF run 3] 3(2) by simp
    from issue_value(2) [OF this apply_issue(3) [OF run 3] v] apply_issue(1) [OF run 3] 3(2) show ?thesis by simp
  next
    case 4
    then show ?thesis using apply_nothing [OF run] v by simp
  qed
qed

lemma replay_fold:
  assumes "fold_result inventoryApplyValuationMovement s h = Inr s'" and "0 \<le> vs_totalValueMinor s" and "\<forall>m \<in> set h. priced m"
  shows "vs_quantityOnHand s' = vs_quantityOnHand s + sum_list (map vm_quantityDelta h) \<and> 0 \<le> vs_totalValueMinor s'"
  using assms
proof (induction h arbitrary: s)
  case (Cons m h)
  then obtain s1 where 1: "inventoryApplyValuationMovement s m = Inr s1" "fold_result inventoryApplyValuationMovement s1 h = Inr s'" by auto
  have "0 \<le> vs_totalValueMinor s1" using apply_value_nonneg [OF 1(1)] Cons.prems by simp
  with Cons.IH [OF 1(2)] Cons.prems(3) apply_quantity [OF 1(1)] show ?case by simp
qed simp

lemma replay_quantity:
  "fold_result inventoryApplyValuationMovement s h = Inr s' \<Longrightarrow> vs_quantityOnHand s' = vs_quantityOnHand s + sum_list (map vm_quantityDelta h)"
  by (induction h arbitrary: s) (auto dest: apply_quantity)

section \<open>The ledger never runs short\<close>

text \<open>
  No operation writes a movement that would take an item below zero, so the replay meets no issue
  greater than the quantity it has counted so far.
\<close>

fun covered :: "int \<Rightarrow> inventoryValuationMovement list \<Rightarrow> bool" where
  "covered q [] \<longleftrightarrow> True"
| "covered q (m # ms) \<longleftrightarrow> 0 \<le> q + vm_quantityDelta m \<and> covered (q + vm_quantityDelta m) ms"

lemma covered_append [simp]:
  "covered q (xs @ ys) \<longleftrightarrow> covered q xs \<and> covered (q + sum_list (map vm_quantityDelta xs)) ys"
  by (induction xs arbitrary: q) (auto simp: add.assoc)

definition never_short :: "'a warehouse_scheme \<Rightarrow> bool" where
  "never_short db \<longleftrightarrow> (\<forall>orgID itemID. covered 0 (inventoryMovementHistory orgID itemID db))"

lemma never_short_cong: "stock_movements db' = stock_movements db \<Longrightarrow> never_short db' = never_short db"
  by (simp add: never_short_def inventoryMovementHistory_def)

lemma history_sum:
  assumes "projected db"
  shows "sum_list (map vm_quantityDelta (inventoryMovementHistory orgID itemID db)) = inventoryStockOnHand orgID itemID None db"
proof -
  have "sum_list (map mv_quantityDelta (filter (\<lambda>m. mv_orgID m = orgID \<and> mv_itemID m = itemID) ms)) =
    sum_list (map (place_delta orgID itemID None) (filter (\<lambda>m. mv_orgID m = orgID \<and> mv_itemID m = itemID) ms))" for ms
    by (induction ms) (auto simp: place_delta_def at_place_def movement_key_def)
  then show ?thesis unfolding on_hand_moves [OF assms] item_moves_def inventoryMovementHistory_def by (simp add: comp_def)
qed

definition sound_ledger :: "'a warehouse_scheme \<Rightarrow> bool" where
  "sound_ledger db \<longleftrightarrow> stocked db \<and> never_short db"

lemma sound_ledger_cong:
  "stock_movements db' = stock_movements db \<Longrightarrow> stock_balances db' = stock_balances db \<Longrightarrow> sound_ledger db' = sound_ledger db"
  using stocked_cong [of db' db] never_short_cong [of db' db] by (simp add: sound_ledger_def)

lemma delta_sound:
  assumes run: "inventoryApplyStockDelta gen orgID itemID d reason note rt ri location lotID ty actor db = Inr (n, db')" and ok: "sound_ledger db"
  shows "sound_ledger db'"
proof -
  have st: "stocked db" "projected db" and ns: "never_short db" using ok by (simp_all add: sound_ledger_def stocked_def)
  note D = stock_delta_Inr [OF run st(1)]
  obtain m where m: "stock_movements db' = stock_movements db @ [m]" "movement_key m = (orgID, itemID, location, lotID)" "mv_quantityDelta m = d"
    using D(4) by blast
  have "0 \<le> inventoryStockOnHand orgID itemID None db'" using D(1) by (simp add: stocked_def)
  then have "0 \<le> inventoryStockOnHand orgID itemID None db + d" by (simp add: D(3))
  then have "covered 0 (inventoryMovementHistory o' i db')" for o' i
    using ns history_sum [OF st(2), of orgID itemID] m(2,3) unfolding never_short_def
    by (auto simp: inventoryMovementHistory_def m(1) movement_key_def comp_def)
  with D(1) show ?thesis by (simp add: sound_ledger_def never_short_def)
qed

lemma fold_sound:
  assumes "fold_result f s xs = Inr s'" and "\<And>s x s'. f s x = Inr s' \<Longrightarrow> P s \<Longrightarrow> P s'" and "P s"
  shows "P s'"
  using assms(1,3)
proof (induction xs arbitrary: s)
  case (Cons x xs)
  then obtain s1 where "f s x = Inr s1" "fold_result f s1 xs = Inr s'" by auto
  with Cons assms(2) show ?case by blast
qed simp

lemma confirm_line_sound:
  assumes run: "inventoryConfirmLine gen claims t line q db = Inr db'" and ok: "sound_ledger db"
  shows "sound_ledger db'"
proof -
  let ?leg = "\<lambda>d l. inventoryApplyStockDelta gen (OrganizationID claims) (tl_itemID line) d ''transfer'' [] (Some ''stock_transfer'')
    (Some (tr_id t)) (Some l) (tl_lotID line) (ActorType claims) (ActorID claims)"
  obtain a b db1 db2 where l: "?leg (- q) (tr_fromLocation t) db = Inr (a, db1)" "?leg q (tr_toLocation t) db1 = Inr (b, db2)"
    "db' = update_line (tl_id line) (tl_confirmed line + q) db2"
    using run by (auto simp: inventoryConfirmLine_def Let_def split: if_splits)
  have "sound_ledger db2" using delta_sound [OF l(2) delta_sound [OF l(1) ok]] .
  then show ?thesis using sound_ledger_cong [of db' db2] by (simp add: l(3) update_line_def)
qed

lemma confirm_sound:
  assumes run: "inventoryConfirmTransfer gen claims input now db = Inr (out, db')" and ok: "sound_ledger db"
  shows "sound_ledger db'"
proof -
  obtain t os n ovs db1 f k where fold: "fold_result (confirm_step gen claims t) (os, 0, db) (inventoryLoadTransferLines (tr_id t) db) = Inr (ovs, n, db1)"
    and d: "db' = update_transfer k f db1"
    using run by (auto simp: inventoryConfirmTransfer_def Let_def split: option.splits if_splits)
  have "(\<lambda>st. sound_ledger (snd (snd st))) (ovs, n, db1)"
    by (rule fold_sound [OF fold]) (use ok in \<open>auto simp: confirm_step_def Let_def dest: confirm_line_sound split: prod.splits if_splits\<close>)
  then show ?thesis using sound_ledger_cong [of db' db1] by (simp add: d update_transfer_def)
qed

lemma reverse_sound:
  assumes run: "inventoryReverseTransfer gen claims k now db = Inr (out, db')" and ok: "sound_ledger db"
  shows "sound_ledger db'"
proof -
  obtain rv row db1 db2 t ls f where ins: "insert_transfer gen row db = (rv, db1)"
    and fold: "fold_result (reverse_line gen claims rv) db1 ls = Inr db2" and d: "db' = update_transfer t f db2"
    using run by (auto simp: inventoryReverseTransfer_def Let_def split: option.splits if_splits prod.splits)
  have 1: "sound_ledger db1" using ins ok sound_ledger_cong [of db1 db] by (auto simp: insert_transfer_def Let_def)
  have step: "sound_ledger s'" if "reverse_line gen claims rv s l = Inr s'" "sound_ledger s" for s l s'
  proof -
    obtain s1 l' q where "insert_transfer_line gen (OrganizationID claims) (tr_id rv) s (tl_itemID l, tl_lotID l, tl_confirmed l) = Inr s1"
      "inventoryConfirmLine gen claims rv l' q s1 = Inr s'" using \<open>reverse_line gen claims rv s l = Inr s'\<close> by (auto simp: reverse_line_def)
    moreover from this that(2) have "sound_ledger s1" using sound_ledger_cong [of s1 s] by (auto simp: insert_transfer_line_def split: if_splits)
    ultimately show ?thesis using confirm_line_sound by blast
  qed
  have "sound_ledger db2" using fold_sound [where P = sound_ledger, OF fold step 1] .
  then show ?thesis using sound_ledger_cong [of db' db2] by (simp add: d update_transfer_def)
qed

lemma create_ledger:
  assumes "inventoryCreateTransfer gen claims input db = Inr (out, db')"
  shows "stock_movements db' = stock_movements db" and "stock_balances db' = stock_balances db"
proof -
  obtain rs db1 row t db2 where res: "fold_result (resolve_transfer_line gen (OrganizationID claims)) ([], db) (tc_Lines input) = Inr (rs, db1)"
    and ins: "insert_transfer gen row db1 = (t, db2)"
    and lines: "fold_result (insert_transfer_line gen (OrganizationID claims) (tr_id t)) db2 rs = Inr db'"
    using assms by (auto simp: inventoryCreateTransfer_def Let_def split: if_splits prod.splits)
  let ?P = "\<lambda>d. stock_movements d = stock_movements db \<and> stock_balances d = stock_balances db"
  have "?P db1" using resolve_fold_frame [OF res] by (auto simp: adds_lots_def)
  then have "?P db2" using ins by (auto simp: insert_transfer_def Let_def)
  have "?P db'" by (rule fold_sound [OF lines]) (use \<open>?P db2\<close> in \<open>auto simp: insert_transfer_line_def split: prod.splits if_splits\<close>)
  then show "stock_movements db' = stock_movements db" and "stock_balances db' = stock_balances db" by simp_all
qed

lemma adjust_sound:
  assumes run: "inventoryAdjustStock gen claims a db = Inr (n, db')" and ok: "sound_ledger db"
  shows "sound_ledger db'"
proof -
  obtain i l db1 loc where lot: "adjusted_lot gen (OrganizationID claims) i a db = Inr (l, db1)"
    and delta: "inventoryApplyStockDelta gen (OrganizationID claims) i (ia_QuantityDelta a) ''adjustment'' (ia_Note a) None None
      loc l (ActorType claims) (ActorID claims) db1 = Inr (n, db')"
    using run by (auto simp: inventoryAdjustStock_def Let_def split: if_splits)
  have "sound_ledger db1" using adjusted_lot_frame [OF lot] ok sound_ledger_cong [of db1 db] by (auto simp: adds_lots_def)
  with delta show ?thesis by (rule delta_sound)
qed

lemma rebuild_sound:
  assumes run: "inventoryRebuildStockBalances orgID db = Inr (out, db')" and ok: "sound_ledger db"
  shows "sound_ledger db'"
proof -
  have st: "stocked db" "never_short db" using ok by (simp_all add: sound_ledger_def)
  obtain bs where "db' = db\<lparr>stock_balances := bs\<rparr>" "mset bs = mset (stock_balances db)"
    using rebuild_same [of db orgID] st(1) run by (auto simp: stocked_def)
  then show ?thesis using mset_stocked [OF _ st(1)] st(2) never_short_cong [of db' db] by (auto simp: sound_ledger_def)
qed

lemma stock_step_sound:
  assumes "stock_step gen db db'" and ok: "sound_ledger db"
  shows "sound_ledger db'"
  using assms(1)
proof cases
  case create
  then show ?thesis using create_ledger ok sound_ledger_cong [of db' db] by blast
next
  case cancel
  then show ?thesis using ok sound_ledger_cong [of db' db]
    by (auto simp: inventoryCancelTransfer_def update_transfer_def split: option.splits if_splits)
qed (use ok in \<open>blast intro: adjust_sound confirm_sound reverse_sound rebuild_sound\<close>)+

lemma post_count_sound:
  assumes run: "inventoryPostCycleCount gen claims k now db = Inr (out, db')" and ok: "sound_ledger db"
  shows "sound_ledger db'"
proof -
  obtain c ls n d db1 t f where fold: "fold_result (post_line gen claims c) (0, 0, db) ls = Inr (n, d, db1)"
    and d: "db' = update_count (OrganizationID claims) t f db1"
    using run by (auto simp: inventoryPostCycleCount_def Let_def split: if_splits)
  have "(\<lambda>st. sound_ledger (snd (snd st))) (n, d, db1)"
    by (rule fold_sound [OF fold]) (use ok in \<open>auto simp: post_line_def Let_def dest: delta_sound split: prod.splits option.splits if_splits\<close>)
  then show ?thesis using sound_ledger_cong [of db' db1] by (simp add: d update_count_def)
qed

lemma catalogue_sound: "catalogue_writes db db' \<Longrightarrow> sound_ledger db \<Longrightarrow> sound_ledger db'"
  unfolding catalogue_writes_def using sound_ledger_cong [of db' db] by auto

lemma items_sound: "\<exists>xs. db' = db\<lparr>items := xs\<rparr> \<Longrightarrow> sound_ledger db \<Longrightarrow> sound_ledger db'"
  using sound_ledger_cong [of db' db] by auto

lemma sheet_sound: "\<exists>n cs ls. db' = db\<lparr>uuid_draws := n, cycle_counts := cs, cycle_lines := ls\<rparr> \<Longrightarrow> sound_ledger db \<Longrightarrow> sound_ledger db'"
  using sound_ledger_cong [of db' db] by auto

lemma inventory_step_sound:
  assumes "inventory_step lower gen db db'" and ok: "inventory_ok gen db" and gen: "uuid_supply gen" and sound: "sound_ledger db"
  shows "sound_ledger db'"
proof -
  have parts: "stock_ok gen db" "items_ok gen db" "counts_ok gen db" using ok by (simp_all add: inventory_ok_def)
  show ?thesis
    using assms(1)
  proof cases
    case stock
    then show ?thesis using sound by (rule stock_step_sound)
  next
    case (item orgID item k)
    then show ?thesis using create_item_keep(2) [OF _ parts(2) gen] catalogue_sound sound by blast
  next
    case (update claims p prior)
    then show ?thesis using patch_keeps_items [OF parts(2)] items_sound sound unfolding inventoryUpdateItem_def by blast
  next
    case (restore claims p prior)
    then show ?thesis using patch_keeps_items [OF parts(2)] items_sound sound unfolding inventoryRestoreItem_def by blast
  next
    case (archive orgID sku a now out)
    then show ?thesis using items_sound sound by (auto simp: inventoryArchiveItem_def split: option.splits)
  next
    case (location orgID code name k)
    then have "catalogue_writes db db'" by (auto simp: inventoryCreateLocation_def intro: catalogue_location split: if_splits)
    then show ?thesis using sound by (rule catalogue_sound)
  next
    case (imported clock orgID rows report)
    then show ?thesis using import_items_keep(2) [OF _ parts(2) gen] catalogue_sound sound by blast
  next
    case (undone orgID ids now changed)
    then show ?thesis using items_sound sound by (auto simp: inventoryUndoItemImport_def Let_def)
  next
    case (redone orgID ids changed)
    then show ?thesis using items_sound sound by (auto simp: inventoryRestoreItemImport_def Let_def)
  next
    case (reserve claims sku q reason reservation)
    then have "catalogue_writes db db'" by (auto simp: inventoryReserveStock_def Let_def intro!: catalogue_reserve split: if_splits)
    then show ?thesis using sound by (rule catalogue_sound)
  next
    case (release orgID k now b)
    then have "catalogue_writes db db'" by (auto simp: inventoryReleaseReservation_def intro: catalogue_release split: option.splits if_splits)
    then show ?thesis using sound by (rule catalogue_sound)
  next
    case (draw claims sheet drawn)
    then show ?thesis using create_count_keeps [OF _ parts(3) stock_okD(2) [OF parts(1)] gen parts(2)] sheet_sound sound by blast
  next
    case (count orgID k cs n)
    then obtain k' where fold: "fold_result (record_count orgID k') db cs = Inr db'"
      by (auto simp: inventoryRecordCycleCounts_def split: if_splits)
    from record_keeps [OF this parts(3)] obtain ls where "db' = db\<lparr>cycle_lines := ls\<rparr>" by blast
    then show ?thesis using sound_ledger_cong [of db' db] sound by simp
  next
    case (post claims k now variances)
    then show ?thesis using sound by (rule post_count_sound)
  next
    case (cancel orgID k now b)
    then show ?thesis using sound sound_ledger_cong [of db' db] by (auto simp: inventoryCancelCycleCount_def update_count_def split: if_splits)
  qed
qed

lemma inventory_history_sound:
  "inventory_history lower gen db db' \<Longrightarrow> inventory_ok gen db \<Longrightarrow> uuid_supply gen \<Longrightarrow> never_short db \<Longrightarrow>
    inventory_ok gen db' \<and> sound_ledger db'"
proof (induction rule: rtranclp_induct)
  case base
  then show ?case by (auto simp: sound_ledger_def inventory_ok_def dest: stock_okD(1))
next
  case (step db1 db2)
  then show ?case using inventory_step_sound [OF step.hyps(2)] inventory_step_keeps [OF step.hyps(2)] by blast
qed

lemma issue_covered:
  "inventoryApplyValuationMovement s m = Inl ''insufficient stock'' \<Longrightarrow> vs_quantityOnHand s + vm_quantityDelta m < 0"
  by (auto simp: inventoryApplyValuationMovement_def inventoryAddSafeIntegers_def inventoryAverageUnitCost_def inventoryJsRoundProductDiv_def
      Let_def bind_result_def split: if_splits sum.splits option.splits)

lemma covered_replay: "covered (vs_quantityOnHand s) h \<Longrightarrow> fold_result inventoryApplyValuationMovement s h \<noteq> Inl ''insufficient stock''"
proof (induction h arbitrary: s)
  case (Cons m h)
  show ?case
  proof (cases "inventoryApplyValuationMovement s m")
    case (Inl e)
    then show ?thesis using issue_covered [of s m] Cons.prems by auto
  next
    case (Inr s1)
    then show ?thesis using Cons apply_quantity [OF Inr] by simp
  qed
qed simp

lemma ledger_value_short:
  assumes "never_short db"
  shows "fold_result (add_item_value orgID db) acc is \<noteq> Inl ''insufficient stock''"
proof (induction "is" arbitrary: acc)
  case (Cons i rest)
  have "inventoryReplayValuation (inventoryMovementHistory orgID (it_id i) db) \<noteq> Inl ''insufficient stock''"
    using assms by (simp add: inventoryReplayValuation_def covered_replay never_short_def)
  then show ?case using Cons
    by (auto simp: add_item_value_def inventoryAddSafeIntegers_def bind_result_def split: sum.splits)
qed simp

section \<open>The balance of an account in the books\<close>

lemma gl_balance_codes:
  assumes ok: "accounts_ok gen db"
  shows "gl_balance orgID code db = sum_list (map (\<lambda>l. if has_code db orgID code l then jl_debitMinor l - jl_creditMinor l else 0) (journal_lines db))"
proof -
  have "sum_list (map (\<lambda>_. d) (filter (\<lambda>a. acc_id a = jl_accountID l \<and> acc_orgID a = orgID \<and> acc_code a = code) (accounts db))) =
      (if has_code db orgID code l then d else 0)" for l and d :: int
  proof (cases "has_code db orgID code l")
    case True
    then obtain a where a: "a \<in> set (accounts db)" "acc_id a = jl_accountID l" "acc_orgID a = orgID" "acc_code a = code"
      by (auto simp: has_code_def list_ex_iff)
    then have "filter (\<lambda>b. acc_id b = acc_id a \<and> acc_orgID b = orgID \<and> acc_code b = code) (accounts db) = [a]"
      using ok by (intro filter_single) (auto simp: accounts_ok_def)
    with True a show ?thesis by simp
  next
    case False
    then have "filter (\<lambda>a. acc_id a = jl_accountID l \<and> acc_orgID a = orgID \<and> acc_code a = code) (accounts db) = []"
      by (auto simp: has_code_def list_ex_iff filter_empty_conv)
    with False show ?thesis by simp
  qed
  then have "sum_list (concat (map (\<lambda>l. map (\<lambda>_. jl_debitMinor l - jl_creditMinor l)
       (filter (\<lambda>a. acc_id a = jl_accountID l \<and> acc_orgID a = orgID \<and> acc_code a = code) (accounts db))) ls)) =
     sum_list (map (\<lambda>l. if has_code db orgID code l then jl_debitMinor l - jl_creditMinor l else 0) ls)" for ls
    by (induction ls) simp_all
  then show ?thesis by (simp add: gl_balance_def)
qed

lemma post_gl_balance:
  assumes ok: "books_ok gen db" and post: "postJournalEntry gen input db = Inr (entryID, db')"
  shows "gl_balance (pj_orgID input) code db' = gl_balance (pj_orgID input) code db + input_code_net code (pj_lines input)"
proof -
  obtain ids where "entryID = gen (uuid_draws db)" and jl: "journal_lines db' = journal_lines db @ posted_lines gen (Suc (uuid_draws db)) entryID ids (pj_lines input)"
    and accs: "\<forall>line \<in> set (pj_lines input). \<exists>a \<in> set (accounts db). acc_orgID a = pj_orgID input \<and>
           acc_code a = pl_accountCode line \<and> acc_id a = ids (pl_accountCode line)"
    using post by (rule Journal.post_lines_Inr)
  have acc: "accounts db' = accounts db" using post by (rule post_Inr) simp
  have aok: "accounts_ok gen db" using ok by (simp add: books_ok_def)
  moreover have "uuid_draws db \<le> uuid_draws db'" using post by (rule post_Inr) simp
  ultimately have aok': "accounts_ok gen db'" by (simp add: accounts_ok_def acc)
  have code: "has_code db' (pj_orgID input) code = has_code db (pj_orgID input) code" by (simp add: fun_eq_iff has_code_def acc)
  show ?thesis
    unfolding gl_balance_codes [OF aok] gl_balance_codes [OF aok'] jl code by (simp add: posted_lines_code_net [OF aok accs])
qed

lemma swapped_mirror:
  assumes ok: "books_ok gen db" and e: "e \<in> set (journal_entries db)"
  shows "mset (swapped_lines (je_id e) db) = mset (mirror_lines db (je_orgID e) (je_id e))"
proof -
  have one: "filter (\<lambda>a. acc_id a = jl_accountID l) (accounts db) = filter (\<lambda>a. acc_id a = jl_accountID l \<and> acc_orgID a = je_orgID e) (accounts db)"
    if l: "l \<in> set (journal_lines db)" "jl_entryID l = je_id e" for l
  proof -
    obtain a where a: "a \<in> set (accounts db)" "acc_id a = jl_accountID l" "acc_orgID a = je_orgID e"
      and f: "filter (\<lambda>b. acc_id b = jl_accountID l \<and> acc_orgID b = je_orgID e) (accounts db) = [a]"
      using ok e l by (rule mirror_line_account)
    have "filter (\<lambda>b. acc_id b = acc_id a \<and> True) (accounts db) = [a]"
      by (rule filter_single) (use ok a in \<open>auto simp: books_ok_def accounts_ok_def\<close>)
    with f a show ?thesis by simp
  qed
  let ?g = "\<lambda>l. map (\<lambda>a. \<lparr>pl_accountCode = acc_code a, pl_debitMinor = jl_creditMinor l, pl_creditMinor = jl_debitMinor l\<rparr>)
         (filter (\<lambda>a. acc_id a = jl_accountID l \<and> acc_orgID a = je_orgID e) (accounts db))"
  have "swapped_lines (je_id e) db = concat (map ?g (filter (\<lambda>l. jl_entryID l = je_id e) (journal_lines db)))"
    unfolding swapped_lines_def by (intro arg_cong [where f = concat] map_cong refl) (simp add: one)
  moreover have "mset (concat (map f xs)) = (\<Sum>x \<in># mset xs. mset (f x))" for f :: "journal_line \<Rightarrow> journalEntryLineInput list" and xs
    by (induction xs) simp_all
  ultimately show ?thesis by (simp add: mirror_lines_def entry_line_rows_def)
qed

lemma swapped_code_net:
  assumes "books_ok gen db" and "e \<in> set (journal_entries db)"
  shows "input_code_net code (swapped_lines (je_id e) db) = - entry_code_net db (je_orgID e) code (je_id e)"
  unfolding mirror_code_net [OF assms, symmetric] input_code_net_def by (rule net_perm) (rule swapped_mirror [OF assms])

lemma adjustment_lines_net:
  "input_code_net inventoryValuationAccountCode (inventoryValuationAdjustmentLines v) = v"
  "input_code_net inventoryCOGSAccountCode (inventoryValuationAdjustmentLines v) = - v"
  by (simp_all add: inventoryValuationAdjustmentLines_def input_code_net_def debit_line_def credit_line_def
      inventoryValuationAccountCode_def inventoryCOGSAccountCode_def)

lemma ledger_value_cong:
  assumes "stock_movements db' = stock_movements db" and "items db' = items db"
  shows "inventoryLedgerValueMinor orgID db' = inventoryLedgerValueMinor orgID db"
proof -
  have "add_item_value orgID db' = add_item_value orgID db"
    by (simp add: fun_eq_iff add_item_value_def inventoryMovementHistory_def assms(1))
  then show ?thesis by (simp add: inventoryLedgerValueMinor_def assms(2))
qed

lemma post_stock_frame:
  assumes "postJournalEntry gen input (db :: 'a warehouse_scheme) = Inr (k, db')"
  shows "stock_movements db' = stock_movements db" and "items db' = items db" and "organizations db' = organizations db"
  using assms by (rule post_Inr, simp)+

lemma summary_Inr:
  assumes "inventoryPostValuationSummary gen claims memo now db = Inr (out, db')"
  obtains (settled) "inventoryLedgerValueMinor (OrganizationID claims) db = Inr (vo_LedgerValueMinor out)"
      "vo_GLBalanceMinor out = gl_balance (OrganizationID claims) inventoryValuationAccountCode db"
      "vo_LedgerValueMinor out = vo_GLBalanceMinor out" "\<not> vo_Posted out" "db' = db"
  | (posted) k where "inventoryLedgerValueMinor (OrganizationID claims) db = Inr (vo_LedgerValueMinor out)"
      "vo_GLBalanceMinor out = gl_balance (OrganizationID claims) inventoryValuationAccountCode db"
      "vo_VarianceMinor out = vo_LedgerValueMinor out - vo_GLBalanceMinor out" "vo_VarianceMinor out \<noteq> 0" "vo_Posted out" "vo_EntryID out = Some k"
      "inventorySafeInteger (vo_LedgerValueMinor out)"
      "postJournalEntry gen (operational_posting claims memo inventoryValuationSourceType None None
          (inventoryBaseCurrency (OrganizationID claims) db) now (inventoryValuationAdjustmentLines (vo_VarianceMinor out))) db = Inr (k, db')"
proof -
  obtain lv gl v where 1: "inventoryLedgerValueMinor (OrganizationID claims) db = Inr lv"
    "inventoryGLAccountBalanceMinor (OrganizationID claims) inventoryValuationAccountCode db = Inr gl" "inventoryAddSafeIntegers lv (- gl) = Inr v"
    using assms by (auto simp: inventoryPostValuationSummary_def Let_def)
  have gl: "gl = gl_balance (OrganizationID claims) inventoryValuationAccountCode db"
    using 1(2) by (simp add: inventoryGLAccountBalanceMinor_def split: if_splits)
  have v: "v = lv - gl" "inventorySafeInteger lv" using 1(3) by (auto simp: inventoryAddSafeIntegers_def split: if_splits)
  show thesis
  proof (cases "v = 0")
    case True
    then show thesis using assms 1 v gl by (intro settled) (auto simp: inventoryPostValuationSummary_def Let_def)
  next
    case False
    then obtain k where "postJournalEntry gen (operational_posting claims memo inventoryValuationSourceType None None
        (inventoryBaseCurrency (OrganizationID claims) db) now (inventoryValuationAdjustmentLines v)) db = Inr (k, db')"
      "out = \<lparr>vo_Posted = True, vo_EntryID = Some k, vo_VarianceMinor = v, vo_LedgerValueMinor = lv, vo_GLBalanceMinor = gl\<rparr>"
      using assms 1 by (auto simp: inventoryPostValuationSummary_def Let_def)
    with 1(1) v gl False show thesis by (intro posted) simp_all
  qed
qed

lemma reverse_summary_Inr:
  assumes "inventoryReverseValuationSummary gen claims k now db = Inr (r, db')"
  obtains e where "e \<in> set (journal_entries db)" "je_id e = k" "je_orgID e = OrganizationID claims"
    "postJournalEntry gen (operational_posting claims (''Reversal: '' @ je_memo e) inventoryValuationReversalSourceType None
       (Some k) (inventoryBaseCurrency (OrganizationID claims) db) now (swapped_lines k db)) db = Inr (r, db')"
proof -
  obtain e where f: "find (\<lambda>e. je_id e = k \<and> je_orgID e = OrganizationID claims) (journal_entries db) = Some e"
    using assms by (auto simp: inventoryReverseValuationSummary_def Let_def split: option.splits)
  moreover from f have "e \<in> set (journal_entries db)" "je_id e = k" "je_orgID e = OrganizationID claims" by (auto simp: find_Some_iff)
  ultimately show thesis using that assms by (auto simp: inventoryReverseValuationSummary_def Let_def split: if_splits)
qed

lemma reverse_summary_balance:
  assumes ok: "books_ok gen db" and run: "inventoryReverseValuationSummary gen claims k now db = Inr (r, db')"
  shows "gl_balance (OrganizationID claims) code db' = gl_balance (OrganizationID claims) code db - entry_code_net db (OrganizationID claims) code k"
    and "isl (inventoryReverseValuationSummary gen claims' k later db') \<or> OrganizationID claims' \<noteq> OrganizationID claims"
proof -
  obtain e where e: "e \<in> set (journal_entries db)" "je_id e = k" "je_orgID e = OrganizationID claims"
    "postJournalEntry gen (operational_posting claims (''Reversal: '' @ je_memo e) inventoryValuationReversalSourceType None
       (Some k) (inventoryBaseCurrency (OrganizationID claims) db) now (swapped_lines k db)) db = Inr (r, db')"
    using run by (rule reverse_summary_Inr)
  show "gl_balance (OrganizationID claims) code db' = gl_balance (OrganizationID claims) code db - entry_code_net db (OrganizationID claims) code k"
    using post_gl_balance [OF ok e(4)] swapped_code_net [OF ok e(1), of code] e(2,3) by simp
  show "isl (inventoryReverseValuationSummary gen claims' k later db') \<or> OrganizationID claims' \<noteq> OrganizationID claims"
  proof (cases "OrganizationID claims' = OrganizationID claims")
    case True
    have "isl (inventoryReverseValuationSummary gen claims' k later db')"
    proof (rule ccontr)
      assume "\<not> ?thesis"
      then obtain r' db'' where again: "inventoryReverseValuationSummary gen claims' k later db' = Inr (r', db'')"
        by (cases "inventoryReverseValuationSummary gen claims' k later db'") auto
      have "list_ex (\<lambda>r. je_orgID r = OrganizationID claims \<and> je_reversalOfID r = Some k) (journal_entries db')"
        using e(4) by (rule post_Inr) (auto simp: posted_entry_def)
      with again True show False by (auto simp: inventoryReverseValuationSummary_def Let_def split: option.splits if_splits)
    qed
    then show ?thesis ..
  qed simp
qed

section \<open>Properties of the valuation\<close>

text \<open>
  C33. The replay of a ledger values every movement exactly. When all recorded unit costs are
  nonnegative, the quantity after a replay is the sum of the movements and the value is never
  negative; a transfer leg leaves the value alone; a receipt adds its quantity times its cost,
  recorded or average, to the nearest minor unit; an issue is never greater than the quantity,
  takes its share of the value to the nearest minor unit, never more than there is, and an issue
  of everything leaves no value behind.
\<close>
theorem valuation_step_exact:
  assumes run: "inventoryReplayValuation (h @ [m]) = Inr s'"
    and prices: "\<forall>x \<in> set (h @ [m]). \<forall>c. vm_unitCostMinor x = Some c \<longrightarrow> 0 \<le> c"
  shows "\<exists>s. inventoryReplayValuation h = Inr s \<and>
    vs_quantityOnHand s = sum_list (map vm_quantityDelta h) \<and> vs_quantityOnHand s' = vs_quantityOnHand s + vm_quantityDelta m \<and>
    0 \<le> vs_totalValueMinor s \<and> 0 \<le> vs_totalValueMinor s' \<and>
    (if vm_reason m = ''transfer'' \<or> vm_quantityDelta m = 0 then vs_totalValueMinor s' = vs_totalValueMinor s
     else if 0 < vm_quantityDelta m then
       \<exists>average. (if 0 < vs_quantityOnHand s then nearest (vs_totalValueMinor s * 1000) (vs_quantityOnHand s) average else average = 0) \<and>
         nearest (vm_quantityDelta m * (case vm_unitCostMinor m of None \<Rightarrow> average | Some c \<Rightarrow> c)) 1000 (vs_totalValueMinor s' - vs_totalValueMinor s)
     else - vm_quantityDelta m \<le> vs_quantityOnHand s \<and>
       nearest (vs_totalValueMinor s * - vm_quantityDelta m) (vs_quantityOnHand s) (vs_totalValueMinor s - vs_totalValueMinor s') \<and>
       vs_totalValueMinor s' \<le> vs_totalValueMinor s \<and> (vs_quantityOnHand s' = 0 \<longrightarrow> vs_totalValueMinor s' = 0))"
proof -
  let ?s0 = "\<lparr>vs_quantityOnHand = 0, vs_totalValueMinor = 0\<rparr>"
  from run obtain s where s: "inventoryReplayValuation h = Inr s" and m: "inventoryApplyValuationMovement s m = Inr s'"
    by (auto simp: inventoryReplayValuation_def fold_result_append)
  have "\<forall>x \<in> set h. priced x" and pm: "priced m" using prices by (auto simp: priced_def)
  then have q: "vs_quantityOnHand s = sum_list (map vm_quantityDelta h)" and v: "0 \<le> vs_totalValueMinor s"
    using replay_fold [of ?s0 h s] s by (simp_all add: inventoryReplayValuation_def)
  have v': "0 \<le> vs_totalValueMinor s'" by (rule apply_value_nonneg [OF m v pm])
  note facts = s q v v' apply_quantity [OF m]
  consider "vm_reason m = ''transfer''" | "vm_reason m \<noteq> ''transfer''" "vm_quantityDelta m = 0"
    | "vm_reason m \<noteq> ''transfer''" "0 < vm_quantityDelta m" | "vm_reason m \<noteq> ''transfer''" "vm_quantityDelta m < 0" by linarith
  then show ?thesis
  proof cases
    case 1
    then show ?thesis using facts apply_transfer [OF m] by simp
  next
    case 2
    then show ?thesis using facts apply_nothing [OF m] by simp
  next
    case 3
    show ?thesis
    proof (rule apply_receipt [OF m 3], goal_cases)
      case (1 average)
      then show ?case using facts 3 average_Inr [OF 1(1)] by (intro exI [of _ s]) (auto intro!: exI [of _ average])
    qed
  next
    case 4
    note I = apply_issue [OF m 4]
    have pos: "0 < vs_quantityOnHand s" using I(1) 4(2) by linarith
    have "vs_totalValueMinor s' \<le> vs_totalValueMinor s" and "vs_quantityOnHand s' = 0 \<longrightarrow> vs_totalValueMinor s' = 0"
      using issue_value [OF pos I(3) v] I(1,2) 4(2) by simp_all
    with facts 4 I(1,3) show ?thesis by simp
  qed
qed

definition example_movement :: "int \<Rightarrow> int option \<Rightarrow> string \<Rightarrow> inventoryValuationMovement" where
  "example_movement d cost reason = \<lparr>vm_quantityDelta = d, vm_unitCostMinor = cost, vm_reason = reason\<rparr>"

definition example_costs :: "inventoryValuationMovement list" where
  "example_costs = [example_movement 3000 (Some 101) ''purchase'', example_movement 1000 (Some 98) ''purchase'']"

theorem valuation_step_exact_witness:
  "inventoryReplayValuation (example_costs @ [example_movement (- 1500) None ''sale'']) =
     Inr \<lparr>vs_quantityOnHand = 2500, vs_totalValueMinor = 251\<rparr> \<and> nearest (401 * 1500) 4000 (401 - 251)"
proof -
  have run: "inventoryReplayValuation (example_costs @ [example_movement (- 1500) None ''sale'']) =
      Inr \<lparr>vs_quantityOnHand = 2500, vs_totalValueMinor = 251\<rparr>" and before: "inventoryReplayValuation example_costs =
      Inr \<lparr>vs_quantityOnHand = 4000, vs_totalValueMinor = 401\<rparr>" by code_simp+
  from valuation_step_exact [OF run] before run show ?thesis by (auto simp: example_costs_def example_movement_def)
qed



text \<open>
  The valuation summary makes the books agree with the stock ledger, once. After a summary the
  inventory account carries the value of the ledger; the gap went against cost of goods sold; a
  second summary finds nothing to do and writes nothing. Reversing a posted summary gives both
  accounts back what they had before it, and it can be reversed only once.
\<close>
theorem valuation_summary_reconciles:
  assumes ok: "books_ok gen db" and gen: "uuid_supply gen"
    and run: "inventoryPostValuationSummary gen claims memo now db = Inr (out, db')"
  shows "inventoryLedgerValueMinor (OrganizationID claims) db' = Inr (vo_LedgerValueMinor out) \<and>
    gl_balance (OrganizationID claims) inventoryValuationAccountCode db' = vo_LedgerValueMinor out \<and>
    gl_balance (OrganizationID claims) inventoryValuationAccountCode db' + gl_balance (OrganizationID claims) inventoryCOGSAccountCode db' =
      gl_balance (OrganizationID claims) inventoryValuationAccountCode db + gl_balance (OrganizationID claims) inventoryCOGSAccountCode db \<and>
    (vo_Posted out \<longrightarrow> (\<exists>out2. inventoryPostValuationSummary gen claims memo' later db' = Inr (out2, db') \<and> \<not> vo_Posted out2)) \<and>
    (\<forall>k r db''. vo_EntryID out = Some k \<longrightarrow> vo_Posted out \<longrightarrow> inventoryReverseValuationSummary gen claims k later db' = Inr (r, db'') \<longrightarrow>
       gl_balance (OrganizationID claims) inventoryValuationAccountCode db'' = gl_balance (OrganizationID claims) inventoryValuationAccountCode db \<and>
       gl_balance (OrganizationID claims) inventoryCOGSAccountCode db'' = gl_balance (OrganizationID claims) inventoryCOGSAccountCode db \<and>
       isl (inventoryReverseValuationSummary gen claims k later' db''))"
  using run
proof (cases rule: summary_Inr)
  case settled
  then show ?thesis by simp
next
  case (posted k)
  let ?org = "OrganizationID claims"
  have inj: "inj gen" using gen by (simp add: uuid_supply_def)
  note ok' = post_books_ok [OF ok inj posted(8)]
  have lv: "inventoryLedgerValueMinor ?org db' = Inr (vo_LedgerValueMinor out)"
    using ledger_value_cong [of db' db] post_stock_frame [OF posted(8)] posted(1) by simp
  have gl: "gl_balance ?org inventoryValuationAccountCode db' = vo_LedgerValueMinor out"
    "gl_balance ?org inventoryCOGSAccountCode db' = gl_balance ?org inventoryCOGSAccountCode db - vo_VarianceMinor out"
    using post_gl_balance [OF ok posted(8)] posted(2,3) by (simp_all add: adjustment_lines_net)
  have safe: "inventoryAddSafeIntegers (vo_LedgerValueMinor out) (- vo_LedgerValueMinor out) = Inr 0"
    using posted(7) by (auto simp: inventoryAddSafeIntegers_def inventorySafeInteger_def)
  have again: "\<exists>out2. inventoryPostValuationSummary gen claims memo' later db' = Inr (out2, db') \<and> \<not> vo_Posted out2"
    using lv gl(1) posted(7) safe by (simp add: inventoryPostValuationSummary_def inventoryGLAccountBalanceMinor_def)
  have net: "entry_code_net db' ?org code k = input_code_net code (inventoryValuationAdjustmentLines (vo_VarianceMinor out))" for code
    using post_entry_code_net(1) [OF ok posted(8)] by simp
  have returned: "gl_balance ?org inventoryValuationAccountCode db'' = gl_balance ?org inventoryValuationAccountCode db \<and>
      gl_balance ?org inventoryCOGSAccountCode db'' = gl_balance ?org inventoryCOGSAccountCode db \<and>
      isl (inventoryReverseValuationSummary gen claims k later' db'')"
    if "inventoryReverseValuationSummary gen claims k later db' = Inr (r, db'')" for r db''
    using reverse_summary_balance [OF ok' that] gl posted(2,3) by (auto simp: net adjustment_lines_net)
  show ?thesis using lv gl again returned posted(2,3,6) by auto
qed

definition example_costed :: stockroom where
  "example_costed = example_stockroom\<lparr>accounts := [example_account ''a1'' ''1200'' ''asset'', example_account ''a2'' ''5000'' ''expense''],
     stock_movements := [\<lparr>mv_id = ''m'', mv_orgID = ''org'', mv_itemID = ''i1'', mv_quantityDelta = 4000, mv_reason = ''purchase'',
       mv_note = None, mv_refType = None, mv_refID = None, mv_unitCostMinor = Some 250, mv_locationID = None, mv_lotID = None,
       mv_actorType = ''human'', mv_actorID = None\<rparr>]\<rparr>"

definition example_summarised :: stockroom where
  "example_summarised = reached example_costed
     (inventoryPostValuationSummary example_gen example_claims ''Stock'' example_now example_costed)"

definition example_unsummarised :: stockroom where
  "example_unsummarised = reached example_summarised
     (inventoryReverseValuationSummary example_gen example_claims (example_gen 0) example_now example_summarised)"

lemma example_costed_books: "books_ok example_gen example_costed"
  by (auto simp: books_ok_def accounts_ok_def entries_ok_def example_costed_def example_stockroom_def example_warehouse_def
      example_receivables_def example_account_def example_gen_def warehouse.defs receivables.defs)

theorem valuation_summary_reconciles_witness:
  "gl_balance ''org'' inventoryValuationAccountCode example_costed = 0 \<and>
   gl_balance ''org'' inventoryValuationAccountCode example_summarised = 1000 \<and>
   gl_balance ''org'' inventoryValuationAccountCode example_unsummarised = 0 \<and>
   isl (inventoryReverseValuationSummary example_gen example_claims (example_gen 0) 0 example_unsummarised)"
proof -
  have org: "OrganizationID example_claims = ''org''" by (simp add: example_claims_def)
  have posts: "(case inventoryPostValuationSummary example_gen example_claims ''Stock'' example_now example_costed of
      Inl _ \<Rightarrow> False | Inr (o1, _) \<Rightarrow> vo_Posted o1 \<and> vo_EntryID o1 = Some (example_gen 0) \<and> vo_LedgerValueMinor o1 = 1000)" by code_simp
  then obtain o1 where o1: "inventoryPostValuationSummary example_gen example_claims ''Stock'' example_now example_costed = Inr (o1, example_summarised)"
    "vo_Posted o1" "vo_EntryID o1 = Some (example_gen 0)" "vo_LedgerValueMinor o1 = 1000"
    by (auto simp: example_summarised_def reached_def split: sum.splits)
  have "\<exists>r. inventoryReverseValuationSummary example_gen example_claims (example_gen 0) example_now example_summarised = Inr (r, example_unsummarised)"
    unfolding example_unsummarised_def by (rule reached_Inr) code_simp
  then obtain r where r: "inventoryReverseValuationSummary example_gen example_claims (example_gen 0) example_now example_summarised = Inr (r, example_unsummarised)" ..
  have "gl_balance ''org'' inventoryValuationAccountCode example_costed = 0" by code_simp
  moreover have "gl_balance ''org'' inventoryValuationAccountCode example_summarised = 1000"
    using valuation_summary_reconciles [OF example_costed_books example_gen_supply o1(1)] o1(4) unfolding org by simp
  moreover have "gl_balance ''org'' inventoryValuationAccountCode example_unsummarised = gl_balance ''org'' inventoryValuationAccountCode example_costed \<and>
      isl (inventoryReverseValuationSummary example_gen example_claims (example_gen 0) 0 example_unsummarised)"
    using valuation_summary_reconciles [OF example_costed_books example_gen_supply o1(1), where later = example_now and later' = 0] o1(2,3) r
    unfolding org by blast
  ultimately show ?thesis by simp
qed

text \<open>
  The comment on the source type of the reversal says it is distinct so that the reversal of a
  ledger entry routes it to the valuation handler. The routes have no entry for it, so the
  general reversal accepts the entry and reverses the reversal.
\<close>
lemma summary_reversal_not_routed:
  "map_of reverseEntryDomainRoutes inventoryValuationReversalSourceType = None \<and>
   (case inventoryReverseValuationSummary example_gen example_claims (example_gen 0) example_now example_summarised of
      Inl _ \<Rightarrow> False | Inr (k, db) \<Rightarrow> \<not> isl (executeReverseEntry example_gen ''org'' ''human'' None k example_now db))"
  by (rule conjI; code_simp)

end
