(* ===== verification/JobTables.thy ===== *)
theory JobTables
  imports Prelude
begin

text \<open>
  The job types of the capability queue: the Go map \<^verbatim>\<open>GoCapabilityPermissions\<close>
  (src/apps/api/internal/jobs/worker.go) with the permission each type is executed under, and
  the type list of the SQL function that claims jobs
  (src/packages/db/drizzle/0128_go_document_parse_jobs.sql, extended by
  0132_go_crm_lead_conversion_inverse_jobs.sql). The map is in two halves, in its order.
\<close>

definition go_permissions_first :: "(string \<times> string) list" where
  "go_permissions_first =
    [(''documents.listDocs'', ''documents.read''), (''documents.listDocVersions'', ''documents.read''),
     (''documents.getDocVersion'', ''documents.read''), (''documents.parseDocument'', ''documents.write''), (''crm.createCustomer'', ''crm.write''),
     (''crm.deactivateCustomer'', ''crm.write''), (''crm.mergeCustomers'', ''crm.write''), (''crm.restoreCustomerMerge'', ''crm.write''),
     (''crm.importCustomers'', ''crm.write''), (''crm.undoCustomerImport'', ''crm.write''), (''crm.restoreImportedCustomers'', ''crm.write''),
     (''crm.updateCustomerProfiles'', ''crm.write''), (''crm.restoreCustomerProfiles'', ''crm.write''),
     (''crm.reapplyCustomerProfiles'', ''crm.write''), (''crm.listCustomers'', ''crm.read''), (''crm.listCustomerViews'', ''crm.read''),
     (''crm.pipelineReport'', ''crm.read''), (''crm.listTasks'', ''crm.read''), (''crm.customerTimeline'', ''crm.read''),
     (''crm.createDeal'', ''crm.write''), (''crm.moveDealStage'', ''crm.write''), (''crm.convertLead'', ''crm.write''),
     (''crm.undoLeadConversion'', ''crm.write''), (''crm.reapplyLeadConversion'', ''crm.write''), (''crm.createTask'', ''crm.write''),
     (''crm.completeTask'', ''crm.write''), (''crm.updateTaskDetails'', ''crm.write''), (''crm.restoreTaskDetails'', ''crm.write''),
     (''accounting.createQuote'', ''accounting.write''), (''accounting.acceptQuote'', ''accounting.write''),
     (''accounting.declineQuote'', ''accounting.write''), (''accounting.expireQuote'', ''accounting.write''),
     (''accounting.listQuotes'', ''accounting.read''), (''accounting.createRecurringTemplate'', ''accounting.write''),
     (''accounting.pauseRecurringTemplate'', ''accounting.write''), (''accounting.resumeRecurringTemplate'', ''accounting.write''),
     (''accounting.listRecurringTemplates'', ''accounting.read''), (''hr.hireEmployee'', ''hr.write''), (''hr.deactivateEmployee'', ''hr.write''),
     (''hr.listEmployees'', ''hr.read''), (''hr.updateEmployeeStructure'', ''hr.write''), (''sales.createOrder'', ''sales.write''),
     (''sales.confirmOrder'', ''sales.write''), (''sales.deliverOrder'', ''sales.write''), (''sales.cancelOrder'', ''sales.write''),
     (''sales.listOrders'', ''sales.read''), (''accounting.createInvoice'', ''accounting.write''), (''accounting.recordFxRate'', ''accounting.post''),
     (''accounting.recordPayment'', ''accounting.post''), (''accounting.reversePayment'', ''accounting.post''),
     (''accounting.trialBalance'', ''accounting.read''), (''accounting.decideExpenseClaim'', ''expenses.decide''),
     (''accounting.payExpenseClaim'', ''accounting.post''), (''accounting.listExpenseClaims'', ''expenses.decide''),
     (''accounting.listExpensePolicies'', ''expenses.decide''), (''accounting.setExpensePolicy'', ''expenses.decide''),
     (''purchasing.createVendor'', ''purchasing.write''), (''purchasing.createPurchaseOrder'', ''purchasing.write''),
     (''purchasing.receiveGoods'', ''purchasing.write''), (''purchasing.returnGoods'', ''purchasing.write''),
     (''purchasing.createBill'', ''purchasing.write''), (''purchasing.payBill'', ''purchasing.post''),
     (''purchasing.reverseVendorPayment'', ''purchasing.post''), (''inventory.adjustStock'', ''inventory.write''),
     (''inventory.createTransfer'', ''inventory.write''), (''inventory.confirmTransfer'', ''inventory.write''),
     (''inventory.cancelTransfer'', ''inventory.write''), (''inventory.reverseTransfer'', ''inventory.write''),
     (''inventory.listTransfers'', ''inventory.read''), (''inventory.createCycleCount'', ''inventory.write''),
     (''inventory.recordCycleCounts'', ''inventory.write''), (''inventory.postCycleCount'', ''inventory.write''),
     (''inventory.cancelCycleCount'', ''inventory.write''), (''pos.openSession'', ''pos.write''), (''pos.completeSale'', ''pos.sell''),
     (''pos.closeSession'', ''pos.write''), (''pos.returnSale'', ''pos.sell''), (''pos.shiftSummary'', ''pos.read''),
     (''accounting.creditNote'', ''accounting.post''), (''accounting.shareInvoice'', ''accounting.write''),
     (''accounting.generateDueInvoices'', ''accounting.write''), (''accounting.reverseEntry'', ''accounting.post''),
     (''accounting.addBankAccount'', ''accounting.write''), (''accounting.importBankFeed'', ''accounting.write''),
     (''accounting.deleteBankTransaction'', ''accounting.write''), (''accounting.matchBankTransaction'', ''accounting.write''),
     (''accounting.unmatchBankTransaction'', ''accounting.write''), (''accounting.bankReconciliation'', ''accounting.read''),
     (''accounting.excludeBankTransaction'', ''accounting.write''), (''accounting.unexcludeBankTransaction'', ''accounting.write''),
     (''accounting.bankSummary'', ''accounting.read''), (''accounting.listBankingWorkspace'', ''accounting.read''),
     (''purchasing.createPurchaseRequest'', ''purchasing.write''), (''purchasing.decidePurchaseRequest'', ''purchasing.write''),
     (''purchasing.createRfq'', ''purchasing.write''), (''purchasing.recordQuote'', ''purchasing.write''),
     (''purchasing.selectWinningQuote'', ''purchasing.write''), (''purchasing.listPurchaseWorkflow'', ''purchasing.read''),
     (''purchasing.listWorkspace'', ''purchasing.read''), (''inventory.createItem'', ''inventory.write''),
     (''inventory.updateItem'', ''inventory.write''), (''inventory.restoreItem'', ''inventory.write''),
     (''inventory.archiveItem'', ''inventory.write''), (''inventory.createLocation'', ''inventory.write''),
     (''inventory.listLocations'', ''inventory.read''), (''inventory.listLocationRecords'', ''inventory.read''),
     (''inventory.listItemMetadata'', ''inventory.read''), (''inventory.lookupByBarcode'', ''inventory.read''),
     (''inventory.importItems'', ''inventory.write''), (''inventory.undoItemImport'', ''inventory.write''),
     (''inventory.restoreItemImport'', ''inventory.write''), (''inventory.reserveStock'', ''inventory.write''),
     (''inventory.releaseReservation'', ''inventory.write''), (''inventory.listReservations'', ''inventory.read''),
     (''purchasing.createPaymentRun'', ''purchasing.write''), (''purchasing.cancelPaymentRunDraft'', ''purchasing.write''),
     (''purchasing.restorePaymentRunDraft'', ''purchasing.write''), (''purchasing.instructPaymentRun'', ''purchasing.post''),
     (''purchasing.reversePaymentRun'', ''purchasing.post''), (''purchasing.listPaymentRuns'', ''purchasing.read''),
     (''accounting.periodCloseWorkbench'', ''accounting.read''), (''accounting.updatePeriodCloseCheck'', ''accounting.write''),
     (''accounting.restorePeriodCloseCheck'', ''accounting.write''), (''accounting.closePeriod'', ''accounting.admin''),
     (''accounting.reopenPeriod'', ''accounting.admin'')]"

definition go_permissions_second :: "(string \<times> string) list" where
  "go_permissions_second =
    [(''accounting.closeYear'', ''accounting.admin''), (''accounting.saveBudgetScenario'', ''accounting.write''),
     (''accounting.undoBudgetScenarioVersion'', ''accounting.write''), (''accounting.restoreBudgetScenarioVersion'', ''accounting.write''),
     (''accounting.listBudgetScenarios'', ''accounting.read''), (''accounting.budgetActualVsPlan'', ''accounting.read''),
     (''accounting.createTaxProfile'', ''accounting.admin''), (''accounting.removeTaxProfile'', ''accounting.admin''),
     (''accounting.createTaxCode'', ''accounting.admin''), (''accounting.archiveTaxCode'', ''accounting.admin''),
     (''accounting.activateTaxCode'', ''accounting.admin''), (''accounting.createTaxReturn'', ''accounting.write''),
     (''accounting.cancelTaxReturnDraft'', ''accounting.write''), (''accounting.restoreTaxReturnDraft'', ''accounting.write''),
     (''accounting.recordTaxReturnSubmission'', ''accounting.post''), (''accounting.createTaxReturnAmendment'', ''accounting.write''),
     (''accounting.recordTaxReturnAcknowledgment'', ''accounting.admin''), (''accounting.fileSalesTaxReturn'', ''accounting.post''),
     (''hr.requestLeave'', ''hr.write''), (''hr.cancelLeave'', ''hr.write''), (''hr.decideLeave'', ''hr.write''), (''hr.logTime'', ''hr.write''),
     (''hr.decideTimeEntry'', ''hr.write''), (''hr.clockIn'', ''hr.write''), (''hr.clockOut'', ''hr.write''), (''hr.leaveBalance'', ''hr.read''),
     (''hr.leaveCalendar'', ''hr.read''), (''hr.timeReport'', ''hr.read''), (''hr.createPayrollRun'', ''hr.write''),
     (''hr.executePayrollRun'', ''hr.write''), (''hr.voidPayrollRun'', ''hr.write''), (''hr.reversePayrollPosting'', ''hr.write''),
     (''hr.addApplicant'', ''hr.write''), (''hr.moveApplicant'', ''hr.write''), (''hr.hireApplicant'', ''hr.write''),
     (''hr.listApplicants'', ''hr.read''), (''purchasing.billCreditNote'', ''purchasing.write''),
     (''purchasing.closePurchaseOrder'', ''purchasing.write''), (''purchasing.listReceipts'', ''purchasing.read''),
     (''purchasing.apAging'', ''purchasing.read''), (''accounting.buildReminders'', ''accounting.read''),
     (''manufacturing.createWorkOrder'', ''manufacturing.write''), (''manufacturing.releaseWorkOrder'', ''manufacturing.write''),
     (''manufacturing.completeWorkOrder'', ''manufacturing.write''), (''manufacturing.cancelWorkOrder'', ''manufacturing.write''),
     (''manufacturing.reverseProductionRun'', ''manufacturing.write''), (''manufacturing.checkProductionFeasibility'', ''manufacturing.read''),
     (''manufacturing.workOrdersList'', ''manufacturing.read''), (''manufacturing.produceFromBom'', ''manufacturing.write''),
     (''manufacturing.defineBom'', ''manufacturing.write''), (''manufacturing.deleteBom'', ''manufacturing.write''),
     (''manufacturing.restoreBom'', ''manufacturing.write''), (''manufacturing.bomTree'', ''manufacturing.read''),
     (''manufacturing.bomReport'', ''manufacturing.read''), (''manufacturing.costPreview'', ''manufacturing.read''),
     (''manufacturing.lotTrace'', ''manufacturing.read''), (''manufacturing.productionRuns'', ''manufacturing.read''),
     (''marketing.createSegment'', ''marketing.write''), (''marketing.createCampaign'', ''marketing.write''),
     (''marketing.sendCampaign'', ''marketing.write''), (''marketing.campaignAnalytics'', ''marketing.read''), (''hr.createOpening'', ''hr.write''),
     (''hr.closeOpening'', ''hr.write''), (''iam.setModules'', ''iam.admin''), (''iam.restoreModules'', ''iam.admin''),
     (''iam.setModuleConfig'', ''iam.admin''), (''iam.setOrgPolicy'', ''iam.admin''), (''iam.setOrgBranding'', ''iam.admin''),
     (''purchasing.supplierPerformance'', ''purchasing.read''), (''purchasing.priceHistory'', ''purchasing.read''),
     (''purchasing.supplierStatement'', ''purchasing.read''), (''signals.list'', ''signals.read''), (''skills.find'', ''documents.read''),
     (''skills.load'', ''documents.read''), (''routines.create'', ''routines.write''), (''routines.list'', ''routines.read''),
     (''routines.update'', ''routines.write''), (''routines.delete'', ''routines.write''), (''routines.runNow'', ''routines.write''),
     (''analytics.renderReport'', ''analytics.report''), (''analytics.pipelineByStage'', ''crm.read''),
     (''analytics.revenueByMonth'', ''accounting.read''), (''analytics.invoiceAging'', ''accounting.read''),
     (''analytics.salesByCustomer'', ''accounting.read''), (''analytics.stockLevels'', ''inventory.read''),
     (''analytics.explainChange'', ''analytics.report''), (''analytics.askYourBusiness'', ''analytics.report''),
     (''support.startConversation'', ''support.write''), (''support.postMessage'', ''support.write''),
     (''support.listConversations'', ''support.read''), (''support.listLibrary'', ''support.read''), (''support.readConversation'', ''support.read''),
     (''support.lookupOrderStatus'', ''support.read''), (''support.searchKnowledge'', ''support.read''),
     (''support.escalateConversation'', ''support.write''), (''support.resolveConversation'', ''support.write''),
     (''support.reopenConversation'', ''support.write''), (''support.createTicket'', ''support.write''),
     (''support.updateTicket'', ''support.write''), (''support.suggestCategory'', ''support.read''),
     (''support.createCannedResponse'', ''support.write''), (''support.createKbArticle'', ''support.write''),
     (''inventory.postValuationSummary'', ''inventory.write''), (''inventory.reverseValuationSummary'', ''inventory.write''),
     (''inventory.stockReport'', ''inventory.read''), (''inventory.replenishmentPlan'', ''inventory.read''),
     (''inventory.itemHistory'', ''inventory.read''), (''inventory.listLots'', ''inventory.read''),
     (''inventory.listCycleCounts'', ''inventory.read''), (''inventory.rebuildStockProjections'', ''inventory.admin''),
     (''accounting.incomeStatement'', ''accounting.read''), (''accounting.balanceSheet'', ''accounting.read''),
     (''accounting.listInvoices'', ''accounting.read''), (''accounting.arAging'', ''accounting.read''),
     (''accounting.cashBasisReport'', ''accounting.read''), (''accounting.customerStatement'', ''accounting.read''),
     (''accounting.salesTaxReport'', ''accounting.read''), (''accounting.cashFlow'', ''accounting.read''),
     (''accounting.cashForecast'', ''accounting.read''), (''accounting.unrealizedFxExposure'', ''accounting.read''),
     (''accounting.revalueForeignReceivables'', ''accounting.post''), (''accounting.reversePeriodFxRevaluation'', ''accounting.post'')]"

definition GoCapabilityPermissions :: "(string \<times> string) list" where
  "GoCapabilityPermissions = go_permissions_first @ go_permissions_second"

text \<open>The types in the claim function, with the two that 0132 adds to it.\<close>

definition claimable_types :: "string list" where
  "claimable_types =
    [''crm.createCustomer'', ''crm.deactivateCustomer'', ''crm.mergeCustomers'', ''crm.restoreCustomerMerge'', ''crm.importCustomers'',
     ''crm.undoCustomerImport'', ''crm.restoreImportedCustomers'', ''crm.updateCustomerProfiles'', ''crm.restoreCustomerProfiles'',
     ''crm.reapplyCustomerProfiles'', ''crm.listCustomers'', ''crm.pipelineReport'', ''crm.listTasks'', ''crm.customerTimeline'', ''crm.createDeal'',
     ''crm.moveDealStage'', ''crm.convertLead'', ''crm.undoLeadConversion'', ''crm.reapplyLeadConversion'', ''crm.createTask'', ''crm.completeTask'',
     ''crm.updateTaskDetails'', ''crm.restoreTaskDetails'', ''accounting.createInvoice'', ''accounting.recordFxRate'', ''accounting.recordPayment'',
     ''accounting.reversePayment'', ''accounting.trialBalance'', ''hr.hireEmployee'', ''hr.deactivateEmployee'', ''hr.listEmployees'',
     ''hr.updateEmployeeStructure'', ''accounting.createQuote'', ''accounting.acceptQuote'', ''accounting.declineQuote'', ''accounting.expireQuote'',
     ''accounting.listQuotes'', ''accounting.createRecurringTemplate'', ''accounting.pauseRecurringTemplate'', ''accounting.resumeRecurringTemplate'',
     ''accounting.listRecurringTemplates'', ''sales.createOrder'', ''sales.confirmOrder'', ''sales.deliverOrder'', ''sales.cancelOrder'',
     ''sales.listOrders'', ''accounting.submitExpenseClaim'', ''accounting.decideExpenseClaim'', ''accounting.payExpenseClaim'',
     ''accounting.listExpenseClaims'', ''purchasing.createVendor'', ''purchasing.createPurchaseOrder'', ''purchasing.receiveGoods'',
     ''purchasing.createBill'', ''purchasing.payBill'', ''purchasing.reverseVendorPayment'', ''inventory.adjustStock'', ''inventory.createTransfer'',
     ''inventory.confirmTransfer'', ''inventory.cancelTransfer'', ''inventory.reverseTransfer'', ''inventory.listTransfers'',
     ''inventory.createCycleCount'', ''inventory.recordCycleCounts'', ''inventory.postCycleCount'', ''inventory.cancelCycleCount'',
     ''pos.openSession'', ''pos.completeSale'', ''pos.closeSession'', ''pos.returnSale'', ''pos.shiftSummary'', ''accounting.creditNote'',
     ''accounting.shareInvoice'', ''accounting.generateDueInvoices'', ''accounting.reverseEntry'', ''accounting.addBankAccount'',
     ''accounting.importBankFeed'', ''accounting.deleteBankTransaction'', ''accounting.matchBankTransaction'', ''accounting.unmatchBankTransaction'',
     ''accounting.bankReconciliation'', ''accounting.excludeBankTransaction'', ''accounting.unexcludeBankTransaction'', ''accounting.bankSummary'',
     ''purchasing.createPurchaseRequest'', ''purchasing.decidePurchaseRequest'', ''purchasing.createRfq'', ''purchasing.recordQuote'',
     ''purchasing.selectWinningQuote'', ''purchasing.listPurchaseWorkflow'', ''inventory.createItem'', ''inventory.updateItem'',
     ''inventory.restoreItem'', ''inventory.archiveItem'', ''inventory.createLocation'', ''inventory.listLocations'', ''inventory.lookupByBarcode'',
     ''purchasing.returnGoods'', ''inventory.importItems'', ''inventory.undoItemImport'', ''inventory.restoreItemImport'', ''inventory.reserveStock'',
     ''inventory.releaseReservation'', ''inventory.listReservations'', ''purchasing.createPaymentRun'', ''purchasing.cancelPaymentRunDraft'',
     ''purchasing.restorePaymentRunDraft'', ''purchasing.instructPaymentRun'', ''purchasing.reversePaymentRun'', ''purchasing.listPaymentRuns'',
     ''accounting.periodCloseWorkbench'', ''accounting.updatePeriodCloseCheck'', ''accounting.restorePeriodCloseCheck'', ''accounting.closePeriod'',
     ''accounting.reopenPeriod'', ''accounting.closeYear'', ''accounting.saveBudgetScenario'', ''accounting.undoBudgetScenarioVersion'',
     ''accounting.restoreBudgetScenarioVersion'', ''accounting.listBudgetScenarios'', ''accounting.budgetActualVsPlan'',
     ''accounting.createTaxProfile'', ''accounting.removeTaxProfile'', ''accounting.createTaxCode'', ''accounting.archiveTaxCode'',
     ''accounting.activateTaxCode'', ''accounting.createTaxReturn'', ''accounting.cancelTaxReturnDraft'', ''accounting.restoreTaxReturnDraft'',
     ''accounting.recordTaxReturnSubmission'', ''accounting.createTaxReturnAmendment'', ''accounting.recordTaxReturnAcknowledgment'',
     ''accounting.fileSalesTaxReturn'', ''hr.requestLeave'', ''hr.cancelLeave'', ''hr.decideLeave'', ''hr.logTime'', ''hr.decideTimeEntry'',
     ''hr.clockIn'', ''hr.clockOut'', ''hr.leaveBalance'', ''hr.leaveCalendar'', ''hr.timeReport'', ''hr.createPayrollRun'', ''hr.executePayrollRun'',
     ''hr.voidPayrollRun'', ''hr.reversePayrollPosting'', ''hr.addApplicant'', ''hr.moveApplicant'', ''hr.hireApplicant'', ''hr.listApplicants'',
     ''purchasing.billCreditNote'', ''purchasing.closePurchaseOrder'', ''purchasing.listReceipts'', ''purchasing.apAging'',
     ''accounting.buildReminders'', ''documents.listDocs'', ''documents.listDocVersions'', ''documents.getDocVersion'', ''documents.parseDocument'',
     ''manufacturing.createWorkOrder'', ''manufacturing.releaseWorkOrder'', ''manufacturing.completeWorkOrder'', ''manufacturing.cancelWorkOrder'',
     ''manufacturing.reverseProductionRun'', ''manufacturing.checkProductionFeasibility'', ''manufacturing.workOrdersList'',
     ''manufacturing.produceFromBom'', ''manufacturing.defineBom'', ''manufacturing.deleteBom'', ''manufacturing.bomTree'',
     ''manufacturing.bomReport'', ''manufacturing.costPreview'', ''manufacturing.lotTrace'', ''manufacturing.productionRuns'',
     ''marketing.createSegment'', ''marketing.createCampaign'', ''marketing.sendCampaign'', ''marketing.campaignAnalytics'', ''hr.createOpening'',
     ''hr.closeOpening'', ''iam.setModules'', ''iam.restoreModules'', ''iam.setModuleConfig'', ''iam.setOrgPolicy'', ''iam.setOrgBranding'',
     ''purchasing.supplierPerformance'', ''purchasing.priceHistory'', ''purchasing.supplierStatement'', ''signals.list'', ''skills.find'',
     ''skills.load'', ''routines.create'', ''routines.list'', ''routines.update'', ''routines.delete'', ''routines.runNow'',
     ''routines.executeRoutine'', ''analytics.renderReport'', ''analytics.pipelineByStage'', ''analytics.revenueByMonth'', ''analytics.invoiceAging'',
     ''analytics.salesByCustomer'', ''analytics.stockLevels'', ''analytics.explainChange'', ''analytics.askYourBusiness'',
     ''support.startConversation'', ''support.postMessage'', ''support.listConversations'', ''support.readConversation'',
     ''support.lookupOrderStatus'', ''support.searchKnowledge'', ''support.escalateConversation'', ''support.resolveConversation'',
     ''support.reopenConversation'', ''support.createTicket'', ''support.updateTicket'', ''support.suggestCategory'',
     ''support.createCannedResponse'', ''support.createKbArticle'', ''inventory.postValuationSummary'', ''inventory.reverseValuationSummary'',
     ''inventory.stockReport'', ''inventory.itemHistory'', ''inventory.listLots'', ''inventory.rebuildStockProjections'',
     ''accounting.incomeStatement'', ''accounting.balanceSheet'', ''accounting.listInvoices'', ''accounting.arAging'', ''accounting.cashBasisReport'',
     ''accounting.customerStatement'', ''accounting.salesTaxReport'', ''accounting.cashFlow'', ''accounting.cashForecast'',
     ''accounting.unrealizedFxExposure'', ''accounting.revalueForeignReceivables'', ''accounting.reversePeriodFxRevaluation'']"

end
