(* ===== verification/Tables.thy ===== *)
theory Tables
  imports "HOL-Library.Sublist" Main
begin

text \<open>
  How the rows of a table change over a history in which rows are updated in place and
  appended but never removed: \<open>rows_evolve E\<close> relates two states of a table whose rows change
  by \<open>E\<close>. The laws of \<open>E\<close> are the interface \<open>table_evolution\<close>; the job table of the capability
  queue and the approvals provide it.
\<close>

definition rows_evolve :: "('r \<Rightarrow> 'r \<Rightarrow> bool) \<Rightarrow> 'r list \<Rightarrow> 'r list \<Rightarrow> bool" where
  "rows_evolve E rows rows' \<longleftrightarrow> (\<exists>olds news. rows' = olds @ news \<and> list_all2 E rows olds)"

lemma rows_evolve_append: "(\<And>r. E r r) \<Longrightarrow> rows_evolve E rows (rows @ news)"
  by (auto simp: rows_evolve_def intro: list_all2_refl)

lemma rows_evolve_all2: "list_all2 E rows rows' \<Longrightarrow> rows_evolve E rows rows'"
  by (auto simp: rows_evolve_def)

lemma rows_evolve_mono: "(\<And>r r'. E r r' \<Longrightarrow> F r r') \<Longrightarrow> rows_evolve E rows rows' \<Longrightarrow> rows_evolve F rows rows'"
  by (auto simp: rows_evolve_def intro: list_all2_mono)

lemma rows_evolve_same_length:
  "rows_evolve E rows rows' \<Longrightarrow> length rows' = length rows \<Longrightarrow> list_all2 E rows rows'"
  by (auto simp: rows_evolve_def) (frule list_all2_lengthD, simp)

lemma rows_evolve_length: "rows_evolve E rows rows' \<Longrightarrow> length rows \<le> length rows'"
  by (auto simp: rows_evolve_def dest: list_all2_lengthD)

lemma rows_evolve_member:
  assumes "rows_evolve E rows rows'" and "r \<in> set rows"
  obtains r' where "r' \<in> set rows'" and "E r r'"
proof -
  from assms obtain olds news i where "rows' = olds @ news" "list_all2 E rows olds" "i < length rows" "r = rows ! i"
    by (auto simp: rows_evolve_def in_set_conv_nth)
  then show thesis by (intro that [of "olds ! i"]) (auto simp: list_all2_conv_all_nth)
qed

lemma rows_evolve_map:
  assumes "\<And>r. r \<in> set rows \<Longrightarrow> E r (f r)"
  shows "rows_evolve E rows (map f rows)"
  using assms by (intro rows_evolve_all2) (simp add: list_all2_conv_all_nth)

lemma rows_evolve_update:
  assumes "\<And>r. r \<in> set rows \<Longrightarrow> sel r \<Longrightarrow> E r (change r)" and "\<And>r. E r r"
  shows "rows_evolve E rows (map (\<lambda>r. if sel r then change r else r) rows)"
  using assms by (intro rows_evolve_map) simp

lemma list_all2_ids: "list_all2 E rows rows' \<Longrightarrow> (\<And>r r'. E r r' \<Longrightarrow> id_of r' = id_of r) \<Longrightarrow> map id_of rows' = map id_of rows"
  by (induction rule: list_all2_induct) auto

lemma rows_evolve_ids:
  assumes "rows_evolve E rows rows'" and "\<And>r r'. E r r' \<Longrightarrow> id_of r' = id_of r"
  obtains news where "map id_of rows' = map id_of rows @ map id_of news"
proof -
  from assms(1) obtain olds news where r: "rows' = olds @ news" "list_all2 E rows olds" by (auto simp: rows_evolve_def)
  have "map id_of olds = map id_of rows" using r(2) assms(2) by (rule list_all2_ids)
  with r(1) show thesis by (intro that [of news]) simp
qed

locale table_evolution =
  fixes E :: "'r \<Rightarrow> 'r \<Rightarrow> bool"
  assumes refl: "E r r"
    and trans: "E r s \<Longrightarrow> E s t \<Longrightarrow> E r t"
begin

lemma evolve_refl: "rows_evolve E rows rows"
  using rows_evolve_append [of E rows "[]"] refl by simp

lemma evolve_trans:
  assumes "rows_evolve E xs ys" and "rows_evolve E ys zs"
  shows "rows_evolve E xs zs"
proof -
  from assms obtain o1 n1 o2 n2 where 1: "ys = o1 @ n1" "list_all2 E xs o1" and 2: "zs = o2 @ n2" "list_all2 E ys o2"
    by (auto simp: rows_evolve_def)
  from 1 2 obtain o3 n3 where 3: "o2 = o3 @ n3" "list_all2 E o1 o3" by (auto simp: list_all2_append1)
  from 1(2) 3(2) have "list_all2 E xs o3" by (rule list_all2_trans [rotated]) (rule trans)
  with 2 3 show ?thesis by (auto simp: rows_evolve_def)
qed

lemma update: "(\<And>r. r \<in> set rows \<Longrightarrow> sel r \<Longrightarrow> E r (change r)) \<Longrightarrow>
    rows_evolve E rows (map (\<lambda>r. if sel r then change r else r) rows)"
  by (rule rows_evolve_update) (simp_all add: refl)

text \<open>A history all of whose steps let the table evolve.\<close>

lemma history:
  assumes "step\<^sup>*\<^sup>* q q'" and "\<And>q q'. step q q' \<Longrightarrow> rows_evolve E (table q) (table q')"
  shows "rows_evolve E (table q) (table q')"
  using assms(1) by (induction rule: rtranclp_induct) (auto intro: evolve_refl evolve_trans assms(2))

end

end
