(* ===== verification/Jobs.thy ===== *)
theory Jobs
  imports Approval JobTables Tables
begin

text \<open>
  The worker of the capability queue (src/apps/api/internal/jobs/worker.go) and the SQL function
  it claims with (src/packages/db/drizzle/0128_go_document_parse_jobs.sql). Each transaction of
  the worker is a function on the queue state; \<open>worker_step\<close> composes them as \<^verbatim>\<open>ProcessOne\<close> does,
  one transaction at a time, so that several workers, their crashes and the rest of the system
  interleave. A transaction may also fail or commit without its acknowledgement arriving
  (\<open>fault\<close>). Times are milliseconds, durations nanoseconds. The routine agent
  (\<^verbatim>\<open>RoutineJobRunner\<close>, routines.go) acts through system calls that appear as steps of their own;
  only its outcome is an input of the step. The identifier of a receipt is the pair of its
  organization and intent key, the unique key of the table. The claim function repeats the check
  of the worker identifier in \<open>NewWorker\<close>; the model has it there only.
\<close>

section \<open>State\<close>

record agent_run_row =
  rn_id :: string
  rn_orgID :: string
  rn_sessionID :: "string option"
  rn_goal :: string
  rn_status :: string
  rn_registryVersion :: string
  rn_modelRef :: "string option"
  rn_currentStep :: int
  rn_lastError :: "string option"
  rn_actorType :: string
  rn_actorID :: "string option"
  rn_startedAt :: "int option"
  rn_finishedAt :: "int option"
  rn_compositionID :: "string option"
  rn_profileID :: "string option"
  rn_profileVersion :: "string option"
  rn_compositionDigest :: "string option"

record run_step_row =
  rs_orgID :: string
  rs_runID :: string
  rs_stepIndex :: int
  rs_status :: string
  rs_capabilityID :: string
  rs_capabilityVersion :: string
  rs_inputHash :: string
  rs_input :: string
  rs_output :: "string option"
  rs_receiptID :: "(string \<times> string) option"
  rs_approvalID :: "string option"
  rs_error :: "string option"
  rs_startedAt :: "int option"
  rs_finishedAt :: "int option"

record 'd queue =
  q_db :: "'d exec_db"
  agent_runs :: "agent_run_row list"
  agent_run_steps :: "run_step_row list"

record claimedJob =
  cj_ID :: string
  cj_OrgID :: string
  cj_Type :: string
  cj_Attempts :: int
  cj_MaxAttempts :: int
  cj_WorkerID :: string
  cj_FencingToken :: int
  cj_LeaseExtensionMillis :: int
  cj_LeaseExpiresAt :: "int option"
  cj_RunID :: "string option"
  cj_RunStepIndex :: "int option"
  cj_ApprovedApprovalID :: "string option"

record worker =
  wk_workerID :: string
  wk_lease :: int
  wk_poll :: int
  wk_routineAgentRunner :: bool

abbreviation queue_jobs :: "'d queue \<Rightarrow> job_row list" where
  "queue_jobs q \<equiv> jobs (q_db q)"

definition with_jobs :: "job_row list \<Rightarrow> 'd queue \<Rightarrow> 'd queue" where
  "with_jobs js q = q\<lparr>q_db := (q_db q)\<lparr>jobs := js\<rparr>\<rparr>"

lemma with_jobs_simps [simp]:
  "queue_jobs (with_jobs js q) = js" "with_jobs js (with_jobs js' q) = with_jobs js q" "with_jobs (queue_jobs q) q = q"
  "agent_runs (with_jobs js q) = agent_runs q" "agent_run_steps (with_jobs js q) = agent_run_steps q"
  by (simp_all add: with_jobs_def)

section \<open>Workers\<close>

definition second :: int where "second = 1000000000"

definition minute :: int where "minute = 60 * second"

definition milliseconds :: "int \<Rightarrow> int" where "milliseconds duration = go_quo duration 1000000"

definition DefaultLeaseDuration :: int where "DefaultLeaseDuration = 60 * second"

definition DefaultPollInterval :: int where "DefaultPollInterval = 2 * second"

definition maxBackoff :: int where "maxBackoff = 5 * minute"

definition minimumInFlightLease :: int where "minimumInFlightLease = 3 * minute"

definition NewWorker :: "string \<Rightarrow> int \<Rightarrow> int \<Rightarrow> bool \<Rightarrow> worker result" where
  "NewWorker workerID leaseDuration pollInterval routineAgentRunner =
     (let lease = (if leaseDuration = 0 then DefaultLeaseDuration else leaseDuration);
          poll = (if pollInterval = 0 then DefaultPollInterval else pollInterval)
      in if trim_space workerID = [] then Inl ''capability jobs worker id is required''
         else if 128 < length workerID then Inl ''capability jobs worker id must not exceed 128 characters''
         else if lease < second \<or> 5 * minute < lease
         then Inl ''capability jobs lease must be between 1 second and 5 minutes''
         else if poll \<le> 0 \<or> minute < poll
         then Inl ''capability jobs poll interval must be between zero and one minute''
         else Inr \<lparr>wk_workerID = workerID, wk_lease = lease, wk_poll = poll, wk_routineAgentRunner = routineAgentRunner\<rparr>)"

definition retryDelay :: "int \<Rightarrow> int" where
  "retryDelay attempts =
     (if attempts \<le> 1 then second
      else let shift = attempts - 1
           in if 9 \<le> shift then maxBackoff
              else let delay = second * 2 ^ nat shift in if maxBackoff < delay then maxBackoff else delay)"

section \<open>Claiming\<close>

definition routineJobType :: string where "routineJobType = ''routines.executeRoutine''"

text \<open>The rows that the row policies of the table show to a worker: the supported types, routines behind the gate.\<close>

definition job_visible :: "bool \<Rightarrow> job_row \<Rightarrow> bool" where
  "job_visible gate j \<longleftrightarrow> jb_type j \<in> set claimable_types \<and> (jb_type j = routineJobType \<longrightarrow> gate)"

definition lease_expired :: "int \<Rightarrow> job_row \<Rightarrow> bool" where
  "lease_expired now j \<longleftrightarrow> (case jb_leaseExpiresAt j of None \<Rightarrow> False | Some e \<Rightarrow> e \<le> now)"

definition exhausted_row :: "bool \<Rightarrow> int \<Rightarrow> job_row \<Rightarrow> bool" where
  "exhausted_row gate now j \<longleftrightarrow>
     job_visible gate j \<and> jb_status j = ''processing'' \<and> lease_expired now j \<and> jb_maxAttempts j \<le> jb_attempts j"

definition fail_row :: "job_row \<Rightarrow> job_row" where
  "fail_row j = j\<lparr>jb_status := ''failed'', jb_lastError := Some ''job lease expired after maximum attempts'',
     jb_leaseOwner := None, jb_leaseExpiresAt := None\<rparr>"

definition claimable :: "bool \<Rightarrow> string list \<Rightarrow> int \<Rightarrow> job_row \<Rightarrow> bool" where
  "claimable gate locked now j \<longleftrightarrow> job_visible gate j \<and> jb_id j \<notin> set locked \<and>
     (jb_status j = ''pending'' \<and> jb_attempts j < jb_maxAttempts j \<and> jb_availableAt j \<le> now \<or>
      jb_status j = ''processing'' \<and> lease_expired now j \<and> jb_attempts j < jb_maxAttempts j)"

definition claim_before :: "job_row \<Rightarrow> job_row \<Rightarrow> bool" where
  "claim_before j k \<longleftrightarrow>
     jb_availableAt j < jb_availableAt k \<or> jb_availableAt j = jb_availableAt k \<and> jb_createdAt j \<le> jb_createdAt k"

definition first_claimable :: "job_row list \<Rightarrow> job_row option" where
  "first_claimable rows = find (\<lambda>j. list_all (claim_before j) rows) rows"

definition claim_row :: "string \<Rightarrow> int \<Rightarrow> int \<Rightarrow> job_row \<Rightarrow> job_row" where
  "claim_row workerID leaseMS now j =
     j\<lparr>jb_status := ''processing'', jb_attempts := jb_attempts j + 1, jb_leaseOwner := Some workerID,
       jb_leaseExpiresAt := Some (now + leaseMS), jb_fencingToken := jb_fencingToken j + 1\<rparr>"

text \<open>\<open>locked\<close> are the rows other transactions hold, which \<^verbatim>\<open>SKIP LOCKED\<close> passes over.\<close>

definition claim_capability_job ::
  "string \<Rightarrow> int \<Rightarrow> bool \<Rightarrow> string list \<Rightarrow> int \<Rightarrow> job_row list \<Rightarrow> (job_row option \<times> job_row list) result" where
  "claim_capability_job workerID leaseMS gate locked now rows =
     (if leaseMS < 1000 \<or> 300000 < leaseMS
      then Inl ''capability jobs lease must be between 1000 and 300000 milliseconds''
      else let rows1 = map (\<lambda>j. if exhausted_row gate now j then fail_row j else j) rows
           in case first_claimable (filter (claimable gate locked now) rows1) of
                None \<Rightarrow> Inr (None, rows1)
              | Some candidate \<Rightarrow>
                  Inr (Some (claim_row workerID leaseMS now candidate),
                       map (\<lambda>j. if jb_id j = jb_id candidate then claim_row workerID leaseMS now j else j) rows1))"

definition claimed :: "worker \<Rightarrow> job_row \<Rightarrow> claimedJob" where
  "claimed w j = \<lparr>cj_ID = jb_id j, cj_OrgID = jb_orgID j, cj_Type = jb_type j, cj_Attempts = jb_attempts j,
     cj_MaxAttempts = jb_maxAttempts j, cj_WorkerID = (case jb_leaseOwner j of None \<Rightarrow> [] | Some o' \<Rightarrow> o'),
     cj_FencingToken = jb_fencingToken j,
     cj_LeaseExtensionMillis = milliseconds (max (wk_lease w) minimumInFlightLease),
     cj_LeaseExpiresAt = jb_leaseExpiresAt j, cj_RunID = jb_runID j, cj_RunStepIndex = jb_runStepIndex j,
     cj_ApprovedApprovalID = jb_approvedApprovalID j\<rparr>"

definition ClaimOne :: "worker \<Rightarrow> string list \<Rightarrow> int \<Rightarrow> 'd queue \<Rightarrow> (claimedJob option \<times> 'd queue) result" where
  "ClaimOne w locked now q =
     bind_result (claim_capability_job (wk_workerID w) (milliseconds (wk_lease w)) (wk_routineAgentRunner w) locked now (queue_jobs q))
       (\<lambda>(row, rows).
        case row of
          None \<Rightarrow> Inr (None, with_jobs rows q)
        | Some j \<Rightarrow>
            let job = claimed w j
            in if cj_ID job = [] \<or> cj_OrgID job = [] \<or> cj_WorkerID job \<noteq> wk_workerID w \<or> cj_FencingToken job < 1 \<or>
                  cj_Attempts job < 1 \<or> cj_MaxAttempts job < cj_Attempts job
               then Inl ''capability jobs claim returned invalid lease metadata''
               else if map_of GoCapabilityPermissions (cj_Type job) = None \<and> cj_Type job \<noteq> routineJobType
               then Inl (''claim function returned unsupported Go job type '' @ quoted (cj_Type job))
               else Inr (Some job, with_jobs rows q))"

section \<open>Transactions under a lease\<close>

text \<open>Transactions of the worker's own role, which the row policies confine to the rows it may see.\<close>

definition owns_row :: "worker \<Rightarrow> claimedJob \<Rightarrow> job_row \<Rightarrow> bool" where
  "owns_row w job j \<longleftrightarrow> job_visible (wk_routineAgentRunner w) j \<and> jb_id j = cj_ID job \<and> jb_orgID j = cj_OrgID job \<and>
     jb_status j = ''processing'' \<and> jb_leaseOwner j = Some (cj_WorkerID job) \<and> jb_fencingToken j = cj_FencingToken job"

definition lease_live :: "int \<Rightarrow> job_row \<Rightarrow> bool" where
  "lease_live now j \<longleftrightarrow> (case jb_leaseExpiresAt j of None \<Rightarrow> False | Some e \<Rightarrow> now < e)"

definition loadPayload :: "worker \<Rightarrow> claimedJob \<Rightarrow> 'd queue \<Rightarrow> string result" where
  "loadPayload w job q =
     (if cj_OrgID job = [] then Inl ErrMissingOrgID
      else case find (owns_row w job) (queue_jobs q) of
        None \<Rightarrow> Inl ''no rows in result set''
      | Some j \<Rightarrow> if decodeJSON (jb_payload j) = None then Inl ''job payload is not valid JSON'' else Inr (jb_payload j))"

definition renewLease :: "worker \<Rightarrow> claimedJob \<Rightarrow> int \<Rightarrow> 'd queue \<Rightarrow> (bool \<times> 'd queue) result" where
  "renewLease w job now q =
     (let mine = (\<lambda>j. owns_row w job j \<and> lease_live now j)
      in if cj_OrgID job = [] then Inl ErrMissingOrgID
         else Inr (list_ex mine (queue_jobs q),
           with_jobs (map (\<lambda>j. if mine j then j\<lparr>jb_leaseExpiresAt := Some (now + milliseconds (wk_lease w))\<rparr> else j) (queue_jobs q)) q))"

definition nullableError :: "string \<Rightarrow> string option" where
  "nullableError message = (if message = [] then None else Some message)"

definition finalize_job :: "worker \<Rightarrow> claimedJob \<Rightarrow> string \<Rightarrow> string \<Rightarrow> int option \<Rightarrow> int \<Rightarrow> 'd queue \<Rightarrow> (bool \<times> 'd queue) result" where
  "finalize_job w job status lastError availableAt now q =
     (let mine = (\<lambda>j. owns_row w job j \<and> lease_live now j)
      in if status \<notin> set [''done'', ''failed'', ''pending''] then Inl ''invalid capability job final status''
         else if cj_OrgID job = [] then Inl ErrMissingOrgID
         else Inr (list_ex mine (queue_jobs q),
           with_jobs (map (\<lambda>j. if mine j
             then j\<lparr>jb_status := status, jb_lastError := nullableError lastError,
                    jb_availableAt := (case availableAt of None \<Rightarrow> jb_availableAt j | Some t \<Rightarrow> t),
                    jb_leaseOwner := None, jb_leaseExpiresAt := None\<rparr> else j) (queue_jobs q)) q))"

definition ErrJobLeaseLost :: string where "ErrJobLeaseLost = ''capability job lease is no longer owned''"

definition holds_lease :: "claimedJob \<Rightarrow> int \<Rightarrow> job_row \<Rightarrow> bool" where
  "holds_lease job now j \<longleftrightarrow> jb_id j = cj_ID job \<and> jb_orgID j = cj_OrgID job \<and> jb_status j = ''processing'' \<and>
     jb_leaseOwner j = Some (cj_WorkerID job) \<and> jb_fencingToken j = cj_FencingToken job \<and> lease_live now j"

definition requireCurrentJobLease :: "claimedJob \<Rightarrow> int \<Rightarrow> job_row list \<Rightarrow> job_row list result" where
  "requireCurrentJobLease job now rows =
     (if cj_ID job = [] \<or> cj_OrgID job = [] \<or> cj_WorkerID job = [] \<or> cj_FencingToken job < 1 \<or>
         cj_LeaseExtensionMillis job < milliseconds minimumInFlightLease \<or> milliseconds (5 * minute) < cj_LeaseExtensionMillis job
      then Inl ErrJobLeaseLost
      else if \<not> list_ex (holds_lease job now) rows then Inl ErrJobLeaseLost
      else Inr (map (\<lambda>j. if holds_lease job now j
             then j\<lparr>jb_leaseExpiresAt := map_option (max (now + cj_LeaseExtensionMillis job)) (jb_leaseExpiresAt j)\<rparr> else j) rows))"

definition withCurrentJobLeaseTx ::
  "claimedJob \<Rightarrow> int \<Rightarrow> ('d queue \<Rightarrow> 'd queue result) \<Rightarrow> 'd queue \<Rightarrow> 'd queue result" where
  "withCurrentJobLeaseTx job now f q =
     (if cj_OrgID job = [] then Inl ErrMissingOrgID
      else bind_result (requireCurrentJobLease job now (queue_jobs q)) (\<lambda>rows. f (with_jobs rows q)))"

section \<open>Durable runs\<close>

definition insert_job ::
  "exec_env \<Rightarrow> string \<Rightarrow> string \<Rightarrow> string \<Rightarrow> string option \<Rightarrow> int option \<Rightarrow> string option \<Rightarrow> int \<Rightarrow> 'd queue \<Rightarrow> 'd queue result" where
  "insert_job env orgID capabilityID payload runID stepIndex approvalID now q =
     (let db = q_db q; id = env_uuid env (gov_draws db);
          row = \<lparr>jb_id = id, jb_orgID = orgID, jb_type = capabilityID, jb_payload = payload, jb_status = ''pending'', jb_attempts = 0,
            jb_maxAttempts = 3, jb_lastError = None, jb_availableAt = now, jb_createdAt = now, jb_leaseOwner = None,
            jb_fencingToken = 0, jb_leaseExpiresAt = None, jb_runID = runID, jb_runStepIndex = stepIndex,
            jb_approvedApprovalID = approvalID\<rparr>
      in if list_ex (\<lambda>j. jb_id j = id) (jobs db) then Inl ''duplicate key value violates unique constraint jobs_pkey''
         else Inr (q\<lparr>q_db := db\<lparr>jobs := jobs db @ [row], gov_draws := Suc (gov_draws db)\<rparr>\<rparr>))"

definition run_terminal :: "string \<Rightarrow> bool" where
  "run_terminal status \<longleftrightarrow> status \<in> set [''completed'', ''cancelled'', ''failed'']"

definition step_of :: "string \<Rightarrow> string \<Rightarrow> int \<Rightarrow> run_step_row \<Rightarrow> bool" where
  "step_of orgID runID i s \<longleftrightarrow> rs_orgID s = orgID \<and> rs_runID s = runID \<and> rs_stepIndex s = i"

definition run_of :: "string \<Rightarrow> string \<Rightarrow> agent_run_row \<Rightarrow> bool" where
  "run_of orgID runID r \<longleftrightarrow> rn_orgID r = orgID \<and> rn_id r = runID"

text \<open>
  The trigger on \<^verbatim>\<open>agent_run_steps\<close>: a step that becomes committed enqueues the next pending one,
  and completes the run once every step is committed.
\<close>

definition complete_durable_run_after_final_step ::
  "exec_env \<Rightarrow> string \<Rightarrow> string \<Rightarrow> int \<Rightarrow> int \<Rightarrow> 'd queue \<Rightarrow> 'd queue result" where
  "complete_durable_run_after_final_step env orgID runID i now q =
     bind_result
       (case (find (run_of orgID runID) (agent_runs q), find (\<lambda>s. step_of orgID runID (i + 1) s \<and> rs_status s = ''pending'') (agent_run_steps q)) of
          (Some run, Some next) \<Rightarrow>
            if run_terminal (rn_status run) \<or>
               list_ex (\<lambda>j. jb_orgID j = orgID \<and> jb_runID j = Some runID \<and> jb_runStepIndex j = Some (rs_stepIndex next)) (queue_jobs q)
            then Inr q
            else insert_job env orgID (rs_capabilityID next) (rs_input next) (Some runID) (Some (rs_stepIndex next)) (rs_approvalID next) now q
        | _ \<Rightarrow> Inr q) (\<lambda>q1.
     let steps = filter (\<lambda>s. rs_orgID s = orgID \<and> rs_runID s = runID) (agent_run_steps q1)
     in Inr (if steps \<noteq> [] \<and> list_all (\<lambda>s. rs_status s = ''committed'') steps
             then q1\<lparr>agent_runs := map (\<lambda>r. if run_of orgID runID r \<and> \<not> run_terminal (rn_status r)
                    then r\<lparr>rn_status := ''completed'', rn_currentStep := max (rn_currentStep r) i,
                           rn_finishedAt := (case rn_finishedAt r of None \<Rightarrow> Some now | Some t \<Rightarrow> Some t)\<rparr> else r) (agent_runs q1)\<rparr>
             else q1))"

definition durableStep :: "claimedJob \<Rightarrow> (string \<times> int) option" where
  "durableStep job =
     (case (cj_RunID job, cj_RunStepIndex job) of (Some runID, Some i) \<Rightarrow> Some (runID, i) | _ \<Rightarrow> None)"

definition transitionRun ::
  "claimedJob \<Rightarrow> string \<Rightarrow> string \<Rightarrow> int \<Rightarrow> string \<Rightarrow> int \<Rightarrow> 'd queue \<Rightarrow> 'd queue result" where
  "transitionRun job runID status currentStep message now =
     withCurrentJobLeaseTx job now (\<lambda>q.
       Inr (q\<lparr>agent_runs := map (\<lambda>r. if run_of (cj_OrgID job) runID r
         then r\<lparr>rn_status := status, rn_currentStep := currentStep, rn_lastError := nullableError message,
                rn_startedAt := (if status = ''running'' then Some now else rn_startedAt r),
                rn_finishedAt := (if run_terminal status then Some now else rn_finishedAt r)\<rparr> else r) (agent_runs q)\<rparr>))"

definition transition_row ::
  "string \<Rightarrow> string \<Rightarrow> string \<Rightarrow> (string \<times> string) option \<Rightarrow> string option \<Rightarrow> int \<Rightarrow> run_step_row \<Rightarrow> run_step_row" where
  "transition_row status output message receiptID approvalID now s =
     s\<lparr>rs_status := status, rs_output := (if output = [] then rs_output s else Some output), rs_error := nullableError message,
       rs_receiptID := (if status = ''committed'' then receiptID else rs_receiptID s), rs_approvalID := approvalID,
       rs_startedAt := (if status = ''running'' then Some now else rs_startedAt s),
       rs_finishedAt := (if status \<in> set [''failed'', ''cancelled'', ''committed''] then Some now else rs_finishedAt s)\<rparr>"

definition transitionStep ::
  "exec_env \<Rightarrow> claimedJob \<Rightarrow> string \<Rightarrow> int \<Rightarrow> string \<Rightarrow> string \<Rightarrow> string \<Rightarrow> (string \<times> string) option \<Rightarrow> string option \<Rightarrow> int
   \<Rightarrow> 'd queue \<Rightarrow> 'd queue result" where
  "transitionStep env job runID i status output message receiptID approvalID now =
     withCurrentJobLeaseTx job now (\<lambda>q.
       let mine = step_of (cj_OrgID job) runID i;
           q1 = q\<lparr>agent_run_steps := map (\<lambda>s. if mine s then transition_row status output message receiptID approvalID now s else s)
                  (agent_run_steps q)\<rparr>
       in if status = ''committed'' \<and> list_ex (\<lambda>s. mine s \<and> rs_status s \<noteq> ''committed'') (agent_run_steps q)
          then complete_durable_run_after_final_step env (cj_OrgID job) runID i now q1 else Inr q1)"

definition findReceiptID :: "string \<Rightarrow> string \<Rightarrow> 'd queue \<Rightarrow> (string \<times> string) option result" where
  "findReceiptID orgID intentID q =
     (if orgID = [] then Inl ErrMissingOrgID
      else Inr (map_option (\<lambda>r. (rc_orgID r, rc_intentKey r)) (loadReceipt orgID (orgID @ '':'' @ intentID) (q_db q))))"

definition finishApproval :: "claimedJob \<Rightarrow> int \<Rightarrow> 'd queue \<Rightarrow> 'd queue result" where
  "finishApproval job now q =
     (case cj_ApprovedApprovalID job of
        None \<Rightarrow> Inl ''capability job has no approval to finish''
      | Some approvalID \<Rightarrow>
          withCurrentJobLeaseTx job now (\<lambda>q. Inr (q\<lparr>q_db := (q_db q)\<lparr>approvals := map (\<lambda>a.
            if ap_id a = approvalID \<and> ap_orgID a = cj_OrgID job \<and> ap_status a = ''executing''
            then a\<lparr>ap_status := ''executed'', ap_decidedAt := Some now\<rparr> else a) (approvals (q_db q))\<rparr>\<rparr>)) q)"

section \<open>Processing a job\<close>

text \<open>Where a worker stands between two transactions of \<^verbatim>\<open>ProcessOne\<close>.\<close>

datatype stage =
  Idle
| MarkRun claimedJob string int
| MarkStep claimedJob string int
| Load claimedJob
| RunRoutine claimedJob
| Act claimedJob string string \<comment> \<open>permission and payload\<close>
| Approve claimedJob exec_result
| FindReceipt claimedJob exec_result string int
| Commit claimedJob exec_result string int "(string \<times> string) option"
| Acknowledge claimedJob
| FailStep claimedJob string string int
| FailRun claimedJob string string int
| Retry claimedJob string bool \<comment> \<open>message, attempts exhausted\<close>

text \<open>
  What the outside decides at a transaction: the time, the rows locked by others, whether the
  transaction fails or its acknowledgement is lost, whether the heartbeat has reported the
  lease lost, and how the routine agent ended.
\<close>

datatype fault = NoFault | Aborted string | Unacknowledged string

record observation =
  ob_now :: int
  ob_locked :: "string list"
  ob_fault :: fault
  ob_leaseLost :: bool
  ob_routine :: "string option"

fun transact :: "fault \<Rightarrow> ('x \<times> 'q) result \<Rightarrow> 'q \<Rightarrow> 'x result \<times> 'q" where
  "transact (Aborted e) outcome q = (Inl e, q)"
| "transact f (Inl e) q = (Inl e, q)"
| "transact NoFault (Inr (x, q')) q = (Inr x, q')"
| "transact (Unacknowledged e) (Inr (x, q')) q = (Inl e, q')"

definition no_value :: "'q result \<Rightarrow> (unit \<times> 'q) result" where
  "no_value outcome = bind_result outcome (\<lambda>q. Inr ((), q))"

definition read_only :: "'q \<Rightarrow> 'x result \<Rightarrow> ('x \<times> 'q) result" where
  "read_only q outcome = bind_result outcome (\<lambda>x. Inr (x, q))"

definition on_effect :: "'d queue \<Rightarrow> (exec_result \<times> 'd exec_db) result \<Rightarrow> (exec_result \<times> 'd queue) result" where
  "on_effect q outcome = bind_result outcome (\<lambda>(r, db). Inr (r, q\<lparr>q_db := db\<rparr>))"

definition system_request :: "claimedJob \<Rightarrow> string \<Rightarrow> systemClaims" where
  "system_request job permission =
     \<lparr>sy_OrganizationID = cj_OrgID job, sy_CapabilityID = cj_Type job, sy_Permission = permission, sy_IntentID = cj_ID job,
      sy_ApprovedApprovalID = (case cj_ApprovedApprovalID job of None \<Rightarrow> [] | Some a \<Rightarrow> a), sy_AgentSessionID = [],
      sy_JobID = cj_ID job, sy_LeaseOwner = cj_WorkerID job, sy_FencingToken = cj_FencingToken job,
      sy_LeaseExtensionMillis = cj_LeaseExtensionMillis job\<rparr>"

definition start_stage :: "claimedJob \<Rightarrow> stage" where
  "start_stage job = (case durableStep job of None \<Rightarrow> Load job | Some (runID, i) \<Rightarrow> MarkRun job runID i)"

definition exhausted_job :: "claimedJob \<Rightarrow> string \<Rightarrow> bool" where
  "exhausted_job job message \<longleftrightarrow> cj_MaxAttempts job \<le> cj_Attempts job \<or> has_prefix ''unknown job capability:'' message"

definition failure_stage :: "bool \<Rightarrow> claimedJob \<Rightarrow> string \<Rightarrow> stage" where
  "failure_stage leaseLost job message =
     (if leaseLost then Idle
      else let exhausted = exhausted_job job message
           in case durableStep job of
                Some (runID, i) \<Rightarrow> if exhausted then FailStep job message runID i else Retry job message exhausted
              | None \<Rightarrow> Retry job message exhausted)"

definition payload_stage :: "bool \<Rightarrow> claimedJob \<Rightarrow> string \<Rightarrow> stage" where
  "payload_stage leaseLost job payload =
     (if cj_Type job = routineJobType then RunRoutine job
      else case map_of GoCapabilityPermissions (cj_Type job) of
             None \<Rightarrow> failure_stage leaseLost job (''unknown job capability: '' @ cj_Type job)
           | Some permission \<Rightarrow> Act job permission payload)"

definition approved_stage :: "claimedJob \<Rightarrow> exec_result \<Rightarrow> stage" where
  "approved_stage job r =
     (case durableStep job of None \<Rightarrow> Acknowledge job | Some (runID, i) \<Rightarrow> FindReceipt job r runID i)"

definition result_stage :: "bool \<Rightarrow> claimedJob \<Rightarrow> exec_result \<Rightarrow> stage" where
  "result_stage leaseLost job r =
     (if \<not> res_OK r then failure_stage leaseLost job (if res_Error r = [] then ''capability failed'' else res_Error r)
      else if leaseLost then Idle
      else if cj_ApprovedApprovalID job \<noteq> None then Approve job r
      else approved_stage job r)"

definition after :: "'x result \<times> 'q \<Rightarrow> ('x \<Rightarrow> stage) \<Rightarrow> (string \<Rightarrow> stage) \<Rightarrow> stage \<times> 'q" where
  "after outcome success failure = (case fst outcome of Inr x \<Rightarrow> success x | Inl e \<Rightarrow> failure e, snd outcome)"

text \<open>One transaction of \<^verbatim>\<open>ProcessOne\<close> and the stage it leads to; a Go error ends the pass.\<close>

fun worker_step ::
  "exec_env \<Rightarrow> 'd capability_impl \<Rightarrow> worker \<Rightarrow> observation \<Rightarrow> stage \<Rightarrow> 'd queue \<Rightarrow> stage \<times> 'd queue" where
  "worker_step env impl w ob Idle q =
     after (transact (ob_fault ob) (ClaimOne w (ob_locked ob) (ob_now ob) q) q)
       (\<lambda>job. case job of None \<Rightarrow> Idle | Some j \<Rightarrow> start_stage j) (\<lambda>_. Idle)"
| "worker_step env impl w ob (MarkRun job runID i) q =
     after (transact (ob_fault ob) (no_value (transitionRun job runID ''running'' i [] (ob_now ob) q)) q)
       (\<lambda>_. MarkStep job runID i) (\<lambda>_. Idle)"
| "worker_step env impl w ob (MarkStep job runID i) q =
     after (transact (ob_fault ob) (no_value
         (transitionStep env job runID i ''running'' [] [] None (cj_ApprovedApprovalID job) (ob_now ob) q)) q)
       (\<lambda>_. Load job) (\<lambda>_. Idle)"
| "worker_step env impl w ob (Load job) q =
     after (transact (ob_fault ob) (read_only q (loadPayload w job q)) q)
       (payload_stage (ob_leaseLost ob) job) (failure_stage (ob_leaseLost ob) job)"
| "worker_step env impl w ob (RunRoutine job) q =
     (case ob_routine ob of
        None \<Rightarrow> (if ob_leaseLost ob then Idle else Acknowledge job, q)
      | Some e \<Rightarrow> (failure_stage (ob_leaseLost ob) job e, q))"
| "worker_step env impl w ob (Act job permission payload) q =
     after (transact (ob_fault ob) (on_effect q
         (ExecuteSystem env impl (system_request job permission) payload (ob_now ob) (q_db q))) q)
       (result_stage (ob_leaseLost ob) job) (failure_stage (ob_leaseLost ob) job)"
| "worker_step env impl w ob (Approve job r) q =
     after (transact (ob_fault ob) (no_value (finishApproval job (ob_now ob) q)) q)
       (\<lambda>_. approved_stage job r) (\<lambda>_. Idle)"
| "worker_step env impl w ob (FindReceipt job r runID i) q =
     after (transact (ob_fault ob) (read_only q (findReceiptID (cj_OrgID job) (cj_ID job) q)) q)
       (Commit job r runID i) (\<lambda>_. Idle)"
| "worker_step env impl w ob (Commit job r runID i receiptID) q =
     after (transact (ob_fault ob) (no_value
         (transitionStep env job runID i ''committed'' (res_Data r) [] receiptID (cj_ApprovedApprovalID job) (ob_now ob) q)) q)
       (\<lambda>_. if ob_leaseLost ob then Idle else Acknowledge job) (\<lambda>_. Idle)"
| "worker_step env impl w ob (Acknowledge job) q =
     after (transact (ob_fault ob) (finalize_job w job ''done'' [] None (ob_now ob) q) q) (\<lambda>_. Idle) (\<lambda>_. Idle)"
| "worker_step env impl w ob (FailStep job message runID i) q =
     after (transact (ob_fault ob) (no_value
         (transitionStep env job runID i ''failed'' [] message None (cj_ApprovedApprovalID job) (ob_now ob) q)) q)
       (\<lambda>_. FailRun job message runID i) (\<lambda>_. Idle)"
| "worker_step env impl w ob (FailRun job message runID i) q =
     after (transact (ob_fault ob) (no_value (transitionRun job runID ''failed'' i message (ob_now ob) q)) q)
       (\<lambda>_. if ob_leaseLost ob then Idle else Retry job message True) (\<lambda>_. Idle)"
| "worker_step env impl w ob (Retry job message exhausted) q =
     after (transact (ob_fault ob) (finalize_job w job (if exhausted then ''failed'' else ''pending'') message
         (if exhausted then None else Some (ob_now ob + milliseconds (retryDelay (cj_Attempts job)))) (ob_now ob) q) q)
       (\<lambda>_. Idle) (\<lambda>_. Idle)"

fun stage_job :: "stage \<Rightarrow> claimedJob option" where
  "stage_job Idle = None"
| "stage_job (MarkRun job _ _) = Some job"
| "stage_job (MarkStep job _ _) = Some job"
| "stage_job (Load job) = Some job"
| "stage_job (RunRoutine job) = Some job"
| "stage_job (Act job _ _) = Some job"
| "stage_job (Approve job _) = Some job"
| "stage_job (FindReceipt job _ _ _) = Some job"
| "stage_job (Commit job _ _ _ _) = Some job"
| "stage_job (Acknowledge job) = Some job"
| "stage_job (FailStep job _ _ _) = Some job"
| "stage_job (FailRun job _ _ _) = Some job"
| "stage_job (Retry job _ _) = Some job"

end
