(* ===== verification/JobHistory.thy ===== *)
theory JobHistory
  imports Jobs
begin

text \<open>
  What any transaction does to the capability queue of theory \<^verbatim>\<open>Jobs\<close>: rows are never removed, a
  fencing token counts the claims of its job, a settled job stays as it is, receipts are only
  added, and the attempts left bound the claims still to come. Histories are sequences of
  transactions of workers, their heartbeats, the rest of the system and enqueuers, in any order.
\<close>

section \<open>How job rows change\<close>

text \<open>
  The fencing token counts the claims, as the attempts do; a settled job never changes again.
\<close>

definition job_settled :: "job_row \<Rightarrow> bool" where
  "job_settled j \<longleftrightarrow> jb_status j = ''done'' \<or> jb_status j = ''failed''"

definition same_job :: "job_row \<Rightarrow> job_row \<Rightarrow> bool" where
  "same_job j j' \<longleftrightarrow> j' = j\<lparr>jb_status := jb_status j', jb_attempts := jb_attempts j', jb_lastError := jb_lastError j',
     jb_availableAt := jb_availableAt j', jb_leaseOwner := jb_leaseOwner j', jb_fencingToken := jb_fencingToken j',
     jb_leaseExpiresAt := jb_leaseExpiresAt j'\<rparr>"

text \<open>
  A well-formed row: one of four statuses, a lease with an owner exactly while it is processed,
  no more attempts than allowed, and a token for every attempt.
\<close>

definition job_wf :: "job_row \<Rightarrow> bool" where
  "job_wf j \<longleftrightarrow> jb_status j \<in> {''pending'', ''processing'', ''done'', ''failed''} \<and>
     (jb_leaseOwner j = None \<longleftrightarrow> jb_status j \<noteq> ''processing'') \<and> (jb_leaseExpiresAt j = None \<longleftrightarrow> jb_status j \<noteq> ''processing'') \<and>
     0 \<le> jb_attempts j \<and> jb_attempts j \<le> jb_maxAttempts j \<and> jb_fencingToken j = jb_attempts j"

definition job_evolves :: "job_row \<Rightarrow> job_row \<Rightarrow> bool" where
  "job_evolves j j' \<longleftrightarrow> same_job j j' \<and> (job_settled j \<longrightarrow> j' = j) \<and> jb_attempts j \<le> jb_attempts j' \<and>
     jb_fencingToken j' - jb_fencingToken j = jb_attempts j' - jb_attempts j \<and>
     (jb_attempts j < jb_attempts j' \<longrightarrow> jb_attempts j' \<le> jb_maxAttempts j) \<and> (job_wf j \<longrightarrow> job_wf j')"

lemma same_job_trans: "same_job i j \<Longrightarrow> same_job j k \<Longrightarrow> same_job i k"
  unfolding same_job_def by (cases i; cases j; cases k) simp

lemma same_job_fields:
  "same_job j j' \<Longrightarrow> jb_id j' = jb_id j" "same_job j j' \<Longrightarrow> jb_orgID j' = jb_orgID j" "same_job j j' \<Longrightarrow> jb_type j' = jb_type j"
  "same_job j j' \<Longrightarrow> jb_maxAttempts j' = jb_maxAttempts j" "same_job j j' \<Longrightarrow> jb_runID j' = jb_runID j"
  "same_job j j' \<Longrightarrow> jb_runStepIndex j' = jb_runStepIndex j"
  by (cases j; cases j'; simp add: same_job_def)+

lemma job_evolves_same: "job_evolves j j' \<Longrightarrow> same_job j j'"
  by (simp add: job_evolves_def)

interpretation jt: table_evolution job_evolves
proof
  show "job_evolves j j" for j by (cases j) (simp add: job_evolves_def same_job_def)
  show "job_evolves i j \<Longrightarrow> job_evolves j k \<Longrightarrow> job_evolves i k" for i j k
    unfolding job_evolves_def using same_job_fields(4) [of i j] same_job_trans [of i j k] by force
qed

interpretation at: table_evolution row_evolves
  by unfold_locales (auto intro: row_evolves_trans)

abbreviation jobs_evolve :: "job_row list \<Rightarrow> job_row list \<Rightarrow> bool" where
  "jobs_evolve \<equiv> rows_evolve job_evolves"

lemma job_evolves_lease:
  "jb_status j = ''processing'' \<Longrightarrow> jb_leaseExpiresAt j \<noteq> None \<Longrightarrow> e \<noteq> None \<Longrightarrow> job_evolves j (j\<lparr>jb_leaseExpiresAt := e\<rparr>)"
  by (cases j) (auto simp: job_evolves_def same_job_def job_settled_def job_wf_def)

lemma lease_live_Some: "lease_live now j \<Longrightarrow> jb_leaseExpiresAt j \<noteq> None"
  by (auto simp: lease_live_def split: option.splits)

lemma job_evolves_release:
  "jb_status j = ''processing'' \<Longrightarrow> status \<in> {''pending'', ''done'', ''failed''} \<Longrightarrow> job_evolves j (j\<lparr>jb_status := status, jb_lastError := m, jb_availableAt := t, jb_leaseOwner := None, jb_leaseExpiresAt := None\<rparr>)"
  by (cases j) (auto simp: job_evolves_def same_job_def job_settled_def job_wf_def)

lemma fail_row_evolves: "exhausted_row gate now j \<Longrightarrow> job_evolves j (fail_row j)"
  by (cases j) (auto simp: job_evolves_def same_job_def exhausted_row_def fail_row_def job_settled_def job_wf_def)

lemma claim_row_evolves: "claimable gate locked now j \<Longrightarrow> job_evolves j (claim_row workerID leaseMS now j)"
  by (cases j) (auto simp: job_evolves_def same_job_def claimable_def claim_row_def job_settled_def job_wf_def)

section \<open>Job identifiers\<close>

abbreviation jobs_distinct :: "'a governance_scheme \<Rightarrow> bool" where
  "jobs_distinct db \<equiv> distinct (map jb_id (jobs db))"

lemma unique_job: "distinct (map jb_id rows) \<Longrightarrow> j \<in> set rows \<Longrightarrow> k \<in> set rows \<Longrightarrow> jb_id j = jb_id k \<Longrightarrow> j = k"
  by (auto simp: distinct_map inj_on_def)

lemma jobs_evolve_ids:
  "list_all2 job_evolves rows rows' \<Longrightarrow> map jb_id rows' = map jb_id rows"
  by (erule list_all2_ids) (auto dest: job_evolves_same same_job_fields(1))

lemma first_claimable_Some:
  assumes "first_claimable rows = Some j"
  shows "j \<in> set rows" and "\<And>k. k \<in> set rows \<Longrightarrow> claim_before j k"
  using assms by (auto simp: first_claimable_def find_Some_iff list_all_iff)

lemma first_claimable_Nil [simp]: "first_claimable [] = None"
  by (simp add: first_claimable_def)

lemma first_claimable_None: "first_claimable rows = None \<longleftrightarrow> rows = []"
proof
  have total: "claim_before j k \<or> claim_before k j" and trans: "claim_before j k \<Longrightarrow> claim_before k l \<Longrightarrow> claim_before j l" for j k l
    by (auto simp: claim_before_def)
  have "rows \<noteq> [] \<Longrightarrow> \<exists>j \<in> set rows. \<forall>k \<in> set rows. claim_before j k" for rows
  proof (induction rows)
    case (Cons a rows)
    show ?case
    proof (cases "rows = []")
      case True
      then show ?thesis using total [of a a] by auto
    next
      case False
      with Cons obtain j where "j \<in> set rows" "\<forall>k \<in> set rows. claim_before j k" by blast
      then show ?thesis using total [of a j] total [of a a] trans by (metis list.set_intros set_ConsD)
    qed
  qed simp
  then show "rows = []" if "first_claimable rows = None"
    using that unfolding first_claimable_def find_None_iff list_all_iff by blast
qed (simp add: first_claimable_def)

section \<open>What the pipeline does to the queue\<close>

text \<open>Jobs only change as above and receipts are only added.\<close>

definition queue_frame :: "'a governance_scheme \<Rightarrow> 'a governance_scheme \<Rightarrow> bool" where
  "queue_frame db db' \<longleftrightarrow> list_all2 job_evolves (jobs db) (jobs db') \<and> prefix (action_receipts db) (action_receipts db')"

lemma queue_frame_refl [simp]: "queue_frame db db"
  by (simp add: queue_frame_def list_all2_refl jt.refl)

lemma queue_frame_same: "jobs db' = jobs db \<Longrightarrow> prefix (action_receipts db) (action_receipts db') \<Longrightarrow> queue_frame db db'"
  by (simp add: queue_frame_def list_all2_refl jt.refl)

lemma queue_frame_trans [trans]: "queue_frame db1 db2 \<Longrightarrow> queue_frame db2 db3 \<Longrightarrow> queue_frame db1 db3"
  unfolding queue_frame_def by (auto intro: list_all2_trans [rotated, of job_evolves _ _ job_evolves] jt.trans prefix_order.trans)

lemma lease_held_row: "lease_held l now j \<Longrightarrow> jb_status j = ''processing'' \<and> jb_leaseExpiresAt j \<noteq> None"
  by (auto simp: lease_held_def split: option.splits)

lemma exec_enter_queue:
  assumes "exec_enter env claims lease system now db = Inr db1"
  shows "queue_frame db db1"
  using assms
  by (auto simp: exec_enter_def requireSystemJobLease_def queue_frame_def list_all2_conv_all_nth jt.refl
      intro!: job_evolves_lease dest!: lease_held_row split: if_splits option.splits)

lemma AppendTx_queue: "AppendTx H event db = Inr (seq, hash, db1) \<Longrightarrow> queue_frame db db1"
  by (auto elim!: AppendTx_Inr intro: queue_frame_same)

lemma exec_gate_queue:
  assumes "exec_gate env claims capabilityID spec input value inputHash system approvedApprovalID finalizing now db = Inr (early, db1)"
  shows "queue_frame db db1"
proof -
  have "queue_frame db db1" if "requestApproval env claims capabilityID (sp_risk spec) value inputHash rationale now db = Inr (a, db1)" for a rationale
    using that by (rule requestApproval_Inr) (simp add: queue_frame_same)
  with assms show ?thesis
    by (auto simp: exec_gate_def split: prod.splits if_splits dest: AppendTx_queue)
qed

lemma exec_effect_queue:
  assumes "exec_effect env impl claims capabilityID spec input inputHash finalize now db = Inr (r, db')"
    and fin: "\<And>f db1 db2. finalize = Some f \<Longrightarrow> f db1 = Inr db2 \<Longrightarrow> queue_frame db1 db2"
  shows "queue_frame db db'"
  using assms(1)
proof (rule exec_effect_Inr)
  fix out effect payload db1
  assume 1: "db1 = db\<lparr>domain := effect,
           ledger_events := ledger_events db @ [new_row (env_digest env)
             (executed_event claims capabilityID spec (impl_value impl input) now) payload
             (chain_head (ledger_events db)) (ledger_next_seq db)],
           ledger_next_seq := ledger_next_seq db + 1,
           action_receipts := action_receipts db @
             (if IntentID claims = [] then [] else [receipt_of env claims capabilityID inputHash r])\<rparr>"
    and f: "(case finalize of None \<Rightarrow> Inr db1 | Some f \<Rightarrow> f db1) = Inr db'"
  have "queue_frame db db1" by (rule queue_frame_same) (simp_all add: 1)
  also have "queue_frame db1 db'" using f fin by (cases finalize) auto
  finally show ?thesis .
qed

lemma executeWithFinalizer_queue:
  assumes run: "executeWithFinalizer env impl claims capabilityID rawInput system approvedApprovalID finalize lease now db = Inr (r, db')"
    and fin: "\<And>f db1 db2. finalize = Some f \<Longrightarrow> f db1 = Inr db2 \<Longrightarrow> queue_frame db1 db2"
  shows "queue_frame db db'"
  using run
proof (cases rule: executeWithFinalizer_stages)
  case (checks spec)
  then show ?thesis by (simp add: exec_enter_queue)
next
  case (gate spec db1 input inputHash)
  then show ?thesis by (blast intro: queue_frame_trans exec_enter_queue exec_gate_queue)
next
  case (effect spec db1 input inputHash db2)
  have "queue_frame db db1" by (rule exec_enter_queue [OF effect(2)])
  also have "queue_frame db1 db2" by (rule exec_gate_queue [OF effect(4)])
  also have "queue_frame db2 db'" by (rule exec_effect_queue [OF effect(5) fin])
  finally show ?thesis .
qed simp

lemma set_status_queue: "queue_frame db (set_status sel change db)"
  by (rule queue_frame_same) (simp_all add: set_status_def)

lemma finishTx_queue: "finishTx claims approvalID status comment decidedAt db = Inr db' \<Longrightarrow> queue_frame db db'"
  by (auto dest!: finishTx_Inr(1) intro: set_status_queue)

lemma ExecuteSystem_queue: "ExecuteSystem env impl request rawInput now db = Inr (r, db') \<Longrightarrow> queue_frame db db'"
  by (auto simp: ExecuteSystem_def execute_call_def dest: executeWithFinalizer_queue split: option.splits if_splits)

lemma decide_claim_queue:
  assumes "decide_claim env claims input now db = Inr (t, db')"
  shows "queue_frame db db'"
  using assms
  by (auto simp: decide_claim_def Let_def appendApprovalDecisionEventTx_def set_status_queue split: option.splits if_splits
      intro: queue_frame_trans [OF set_status_queue AppendTx_queue])

lemma decide_execute_queue: "queue_frame db (snd (decide_execute env impl claims input row now later db))"
proof -
  have f: "ExecuteWithApprovalFinalizer e impl c i p (Some (finishTx claims a s m now)) later db = Inr (r, db1) \<Longrightarrow> queue_frame db db1"
    for e c i p a s m r db1
    unfolding ExecuteWithApprovalFinalizer_def option.case
    by (erule executeWithFinalizer_queue) (auto dest: finishTx_queue)
  show ?thesis
    by (auto simp: decide_execute_def restorePending_def split: sum.splits prod.splits intro: set_status_queue
      dest!: f finishTx_queue dest: queue_frame_trans)
qed

lemma approval_step_queue: "approval_step env impl db db' \<Longrightarrow> queue_frame db db'"
proof (induction rule: approval_step.induct)
  case (call claims capabilityID rawInput now db r db')
  then show ?case by (auto simp: Execute_def execute_call_def dest: executeWithFinalizer_queue)
next
  case (execute claims input row now later db answer db')
  then show ?case using decide_execute_queue [of db env impl claims input row now later] by simp
qed (simp_all add: ExecuteSystem_queue decide_claim_queue)

section \<open>What the transactions of a worker do to the queue\<close>

text \<open>The attempts that the jobs of a table have left.\<close>

definition attempts_left :: "job_row list \<Rightarrow> nat" where
  "attempts_left rows = sum_list (map (\<lambda>j. nat (jb_maxAttempts j - jb_attempts j)) rows)"

lemma attempts_left_simps [simp]:
  "attempts_left [] = 0" "attempts_left (j # rows) = nat (jb_maxAttempts j - jb_attempts j) + attempts_left rows"
  "attempts_left (rows @ rows') = attempts_left rows + attempts_left rows'"
  by (simp_all add: attempts_left_def)

lemma attempts_left_decreases: "list_all2 job_evolves rows rows' \<Longrightarrow> attempts_left rows' \<le> attempts_left rows"
proof (induction rule: list_all2_induct)
  case (Cons j rows j' rows')
  then have "nat (jb_maxAttempts j' - jb_attempts j') \<le> nat (jb_maxAttempts j - jb_attempts j)"
    using same_job_fields(4) [of j j'] by (auto simp: job_evolves_def)
  with Cons show ?case by simp
qed simp

lemma attempts_left_bound:
  "list_all2 job_evolves rows rows' \<Longrightarrow> attempts_left rows' + 3 * length rows \<le> attempts_left rows + 3 * length rows'"
  using attempts_left_decreases [of rows rows'] list_all2_lengthD [of job_evolves rows rows'] by simp

lemma wf_evolves: "list_all2 job_evolves rows rows' \<Longrightarrow> list_all job_wf rows \<Longrightarrow> list_all job_wf rows'"
  by (induction rule: list_all2_induct) (auto simp: job_evolves_def)

definition queue_grows :: "'d queue \<Rightarrow> 'd queue \<Rightarrow> bool" where
  "queue_grows q q' \<longleftrightarrow> jobs_evolve (queue_jobs q) (queue_jobs q') \<and> (jobs_distinct (q_db q) \<longrightarrow> jobs_distinct (q_db q')) \<and>
     (list_all job_wf (queue_jobs q) \<longrightarrow> list_all job_wf (queue_jobs q')) \<and>
     prefix (action_receipts (q_db q)) (action_receipts (q_db q')) \<and>
     attempts_left (queue_jobs q') + 3 * length (queue_jobs q) \<le> attempts_left (queue_jobs q) + 3 * length (queue_jobs q')"

lemma queue_grows_refl [simp]: "queue_grows q q"
  by (simp add: queue_grows_def jt.evolve_refl)

lemma queue_grows_trans [trans]: "queue_grows q1 q2 \<Longrightarrow> queue_grows q2 q3 \<Longrightarrow> queue_grows q1 q3"
  unfolding queue_grows_def using jt.evolve_trans [of "queue_jobs q1" "queue_jobs q2" "queue_jobs q3"]
    prefix_order.trans [of "action_receipts (q_db q1)" "action_receipts (q_db q2)" "action_receipts (q_db q3)"] by linarith

lemma queue_frame_grows: "queue_frame (q_db q) db' \<Longrightarrow> queue_grows q (q\<lparr>q_db := db'\<rparr>)"
  by (auto simp: queue_frame_def queue_grows_def rows_evolve_all2 dest: jobs_evolve_ids attempts_left_bound wf_evolves)

lemma queue_grows_rows: "list_all2 job_evolves (queue_jobs q) rows \<Longrightarrow> queue_grows q (with_jobs rows q)"
  by (auto simp: queue_grows_def rows_evolve_all2 with_jobs_def dest: jobs_evolve_ids attempts_left_bound wf_evolves)

lemma queue_grows_runs:
  "queue_grows q' (q\<lparr>agent_runs := runs\<rparr>) = queue_grows q' q" "queue_grows q' (q\<lparr>agent_run_steps := steps\<rparr>) = queue_grows q' q"
  "queue_grows (q\<lparr>agent_run_steps := steps\<rparr>) q' = queue_grows q q'"
  by (simp_all add: queue_grows_def)

lemma all2_update:
  assumes "\<And>j. j \<in> set rows \<Longrightarrow> sel j \<Longrightarrow> job_evolves j (change j)"
  shows "list_all2 job_evolves rows (map (\<lambda>j. if sel j then change j else j) rows)"
  using assms by (simp add: list_all2_conv_all_nth jt.refl)

lemma expire_rows_ids: "map jb_id (map (\<lambda>j. if sel j then fail_row j else j) rows) = map jb_id rows"
  by (auto simp: fail_row_def)

lemma claim_capability_job_Inr:
  assumes "claim_capability_job workerID leaseMS gate locked now rows = Inr (x, rows')"
  defines "rows1 \<equiv> map (\<lambda>j. if exhausted_row gate now j then fail_row j else j) rows"
  shows "(x = None \<and> rows' = rows1 \<and> filter (claimable gate locked now) rows1 = []) \<or>
    (\<exists>j. j \<in> set rows1 \<and> claimable gate locked now j \<and> (\<forall>k \<in> set rows1. claimable gate locked now k \<longrightarrow> claim_before j k) \<and>
       x = Some (claim_row workerID leaseMS now j) \<and>
       rows' = map (\<lambda>k. if jb_id k = jb_id j then claim_row workerID leaseMS now k else k) rows1)"
proof (cases "first_claimable (filter (claimable gate locked now) rows1)")
  case None
  with assms show ?thesis by (auto simp: claim_capability_job_def Let_def first_claimable_None split: if_splits)
next
  case (Some j)
  with assms first_claimable_Some [OF Some] show ?thesis
    by (intro disjI2 exI [of _ j]) (simp_all add: claim_capability_job_def Let_def split: if_splits)
qed

lemma claim_capability_job_Some:
  assumes "claim_capability_job workerID leaseMS gate locked now rows = Inr (Some r, rows')"
    and "rows1 = map (\<lambda>j. if exhausted_row gate now j then fail_row j else j) rows"
  obtains j where "j \<in> set rows1" and "claimable gate locked now j"
    and "\<forall>k \<in> set rows1. claimable gate locked now k \<longrightarrow> claim_before j k" and "r = claim_row workerID leaseMS now j"
    and "rows' = map (\<lambda>k. if jb_id k = jb_id j then claim_row workerID leaseMS now k else k) rows1"
  using claim_capability_job_Inr [OF assms(1), folded assms(2)] that by blast

lemma claim_capability_job_evolves:
  assumes c: "claim_capability_job workerID leaseMS gate locked now rows = Inr (x, rows')" and d: "distinct (map jb_id rows)"
  shows "list_all2 job_evolves rows rows'"
proof -
  let ?rows1 = "map (\<lambda>j. if exhausted_row gate now j then fail_row j else j) rows"
  have 1: "list_all2 job_evolves rows ?rows1" by (rule all2_update) (rule fail_row_evolves)
  have d1: "distinct (map jb_id ?rows1)" using d by (simp only: expire_rows_ids)
  from claim_capability_job_Inr [OF c] show ?thesis
  proof
    assume "\<exists>j. j \<in> set ?rows1 \<and> claimable gate locked now j \<and> (\<forall>k \<in> set ?rows1. claimable gate locked now k \<longrightarrow> claim_before j k) \<and>
       x = Some (claim_row workerID leaseMS now j) \<and>
       rows' = map (\<lambda>k. if jb_id k = jb_id j then claim_row workerID leaseMS now k else k) ?rows1"
    then obtain j where j: "j \<in> set ?rows1" "claimable gate locked now j"
      and r: "rows' = map (\<lambda>k. if jb_id k = jb_id j then claim_row workerID leaseMS now k else k) ?rows1" by blast
    have "list_all2 job_evolves ?rows1 rows'"
      unfolding r by (rule all2_update) (use unique_job [OF d1 _ j(1)] j(2) in \<open>auto intro: claim_row_evolves\<close>)
    with 1 show ?thesis by (rule list_all2_trans [rotated]) (rule jt.trans)
  qed (use 1 in simp)
qed

lemma ClaimOne_Inr:
  assumes "ClaimOne w locked now q = Inr (x, q')"
  obtains row rows where "claim_capability_job (wk_workerID w) (milliseconds (wk_lease w)) (wk_routineAgentRunner w) locked now (queue_jobs q) = Inr (row, rows)"
    and "q' = with_jobs rows q" and "x = map_option (claimed w) row"
    and "\<And>j. row = Some j \<Longrightarrow> map_of GoCapabilityPermissions (jb_type j) \<noteq> None \<or> jb_type j = routineJobType"
  using assms by (auto simp: ClaimOne_def Let_def claimed_def split: option.splits if_splits)

lemma ClaimOne_grows:
  assumes c: "ClaimOne w locked now q = Inr (x, q')" and d: "jobs_distinct (q_db q)"
  shows "queue_grows q q'"
  using c by (rule ClaimOne_Inr) (simp add: queue_grows_rows claim_capability_job_evolves d)

lemma finalize_job_grows:
  assumes "finalize_job w job status lastError availableAt now q = Inr (x, q')"
  shows "queue_grows q q'"
proof -
  let ?mine = "\<lambda>j. owns_row w job j \<and> lease_live now j"
  have status: "status \<in> {''pending'', ''done'', ''failed''}" using assms by (auto simp: finalize_job_def Let_def split: if_splits)
  have "list_all2 job_evolves (queue_jobs q) (map (\<lambda>j. if ?mine j
    then j\<lparr>jb_status := status, jb_lastError := nullableError lastError,
                    jb_availableAt := (case availableAt of None \<Rightarrow> jb_availableAt j | Some t \<Rightarrow> t),
                    jb_leaseOwner := None, jb_leaseExpiresAt := None\<rparr> else j) (queue_jobs q))"
    by (rule all2_update) (use status in \<open>auto intro!: job_evolves_release simp: owns_row_def\<close>)
  with assms show ?thesis by (auto simp: finalize_job_def Let_def queue_grows_rows split: if_splits)
qed

lemma renewLease_grows:
  assumes "renewLease w job now q = Inr (x, q')"
  shows "queue_grows q q'"
proof -
  let ?mine = "\<lambda>j. owns_row w job j \<and> lease_live now j"
  have "list_all2 job_evolves (queue_jobs q)
      (map (\<lambda>j. if ?mine j then j\<lparr>jb_leaseExpiresAt := Some (now + milliseconds (wk_lease w))\<rparr> else j) (queue_jobs q))"
    by (rule all2_update) (auto intro!: job_evolves_lease simp: owns_row_def dest: lease_live_Some)
  with assms show ?thesis by (auto simp: renewLease_def Let_def queue_grows_rows split: if_splits)
qed

lemma withCurrentJobLeaseTx_Inr:
  assumes "withCurrentJobLeaseTx job now f q = Inr q'"
  obtains rows where "queue_grows q (with_jobs rows q)" and "f (with_jobs rows q) = Inr q'"
    and "list_ex (holds_lease job now) (queue_jobs q)"
    and "rows = map (\<lambda>j. if holds_lease job now j
             then j\<lparr>jb_leaseExpiresAt := map_option (max (now + cj_LeaseExtensionMillis job)) (jb_leaseExpiresAt j)\<rparr> else j) (queue_jobs q)"
proof -
  let ?rows = "map (\<lambda>j. if holds_lease job now j
             then j\<lparr>jb_leaseExpiresAt := map_option (max (now + cj_LeaseExtensionMillis job)) (jb_leaseExpiresAt j)\<rparr> else j) (queue_jobs q)"
  have "list_all2 job_evolves (queue_jobs q) ?rows"
    by (rule all2_update) (auto intro!: job_evolves_lease simp: holds_lease_def dest: lease_live_Some)
  with assms show thesis
    by (intro that [of ?rows]) (auto simp: withCurrentJobLeaseTx_def requireCurrentJobLease_def queue_grows_rows split: if_splits)
qed

lemma insert_job_grows: "insert_job env orgID capabilityID payload runID i approvalID now q = Inr q' \<Longrightarrow> queue_grows q q'"
  unfolding insert_job_def Let_def queue_grows_def
  by (auto simp: jt.refl list_ex_iff job_wf_def intro!: rows_evolve_append split: if_splits) (metis imageI)

lemma complete_durable_run_grows:
  assumes "complete_durable_run_after_final_step env orgID runID i now q = Inr q'"
  shows "queue_grows q q'"
  using assms
  by (auto simp: complete_durable_run_after_final_step_def Let_def queue_grows_runs dest!: insert_job_grows split: option.splits if_splits)

lemma transitionRun_grows: "transitionRun job runID status i m now q = Inr q' \<Longrightarrow> queue_grows q q'"
  unfolding transitionRun_def by (erule withCurrentJobLeaseTx_Inr) (auto simp: queue_grows_runs)

lemma transitionStep_grows: "transitionStep env job runID i status output m r a now q = Inr q' \<Longrightarrow> queue_grows q q'"
  unfolding transitionStep_def
  by (erule withCurrentJobLeaseTx_Inr)
    (auto simp: Let_def queue_grows_runs dest!: complete_durable_run_grows intro: queue_grows_trans split: if_splits)

lemma finishApproval_grows: "finishApproval job now q = Inr q' \<Longrightarrow> queue_grows q q'"
  unfolding finishApproval_def
  by (auto split: option.splits elim!: withCurrentJobLeaseTx_Inr simp: queue_grows_def)

section \<open>Passes\<close>

lemma transact_keeps: "P q \<Longrightarrow> (\<And>x q'. outcome = Inr (x, q') \<Longrightarrow> P q') \<Longrightarrow> P (snd (transact f outcome q))"
  by (cases f; cases outcome) auto

text \<open>A pass keeps what each of its transactions keeps.\<close>

lemma worker_step_keeps:
  assumes start: "P q"
    and claim: "\<And>x q'. stage = Idle \<Longrightarrow> ClaimOne w (ob_locked ob) (ob_now ob) q = Inr (x, q') \<Longrightarrow> P q'"
    and run: "\<And>job runID status i m q'. stage_job stage = Some job \<Longrightarrow> transitionRun job runID status i m (ob_now ob) q = Inr q' \<Longrightarrow> P q'"
    and step: "\<And>job runID i status output m r a q'. stage_job stage = Some job \<Longrightarrow>
      transitionStep env job runID i status output m r a (ob_now ob) q = Inr q' \<Longrightarrow> P q'"
    and act: "\<And>job permission payload r db. stage = Act job permission payload \<Longrightarrow>
      ExecuteSystem env impl (system_request job permission) payload (ob_now ob) (q_db q) = Inr (r, db) \<Longrightarrow> P (q\<lparr>q_db := db\<rparr>)"
    and approve: "\<And>job q'. stage_job stage = Some job \<Longrightarrow> finishApproval job (ob_now ob) q = Inr q' \<Longrightarrow> P q'"
    and settle: "\<And>job status m t x q'. stage_job stage = Some job \<Longrightarrow> finalize_job w job status m t (ob_now ob) q = Inr (x, q') \<Longrightarrow> P q'"
  shows "P (snd (worker_step env impl w ob stage q))"
proof -
  note keeps = transact_keeps [where P = P, OF start]
  show ?thesis
  proof (cases stage)
  case Idle
  then show ?thesis using claim by (auto simp: after_def intro: keeps)
next
  case (MarkRun job runID i)
  then show ?thesis by (auto simp: after_def no_value_def intro!: keeps intro: run)
next
  case (MarkStep job runID i)
  then show ?thesis by (auto simp: after_def no_value_def intro!: keeps intro: step)
next
  case (Load job)
  then show ?thesis by (auto simp: after_def read_only_def intro!: keeps intro: start)
next
  case (RunRoutine job)
  then show ?thesis using start by (auto split: option.splits)
next
  case (Act job permission payload)
  then show ?thesis by (auto simp: after_def on_effect_def intro!: keeps intro: act)
next
  case (Approve job r)
  then show ?thesis by (auto simp: after_def no_value_def intro!: keeps intro: approve)
next
  case (FindReceipt job r runID i)
  then show ?thesis by (auto simp: after_def read_only_def intro!: keeps intro: start)
next
  case (Commit job r runID i receiptID)
  then show ?thesis by (auto simp: after_def no_value_def intro!: keeps intro: step)
next
  case (Acknowledge job)
  then show ?thesis by (auto simp: after_def intro!: keeps intro: settle)
next
  case (FailStep job m runID i)
  then show ?thesis by (auto simp: after_def no_value_def intro!: keeps intro: step)
next
  case (FailRun job m runID i)
  then show ?thesis by (auto simp: after_def no_value_def intro!: keeps intro: run)
next
  case (Retry job m exhausted)
  then show ?thesis by (auto simp: after_def intro!: keeps intro: settle)
  qed
qed

lemma worker_step_grows:
  assumes "jobs_distinct (q_db q)"
  shows "queue_grows q (snd (worker_step env impl w ob stage q))"
proof (rule worker_step_keeps [where P = "queue_grows q"])
  show "queue_grows q q'" if "ClaimOne w (ob_locked ob) (ob_now ob) q = Inr (x, q')" for x q'
    using that assms by (rule ClaimOne_grows)
  show "queue_grows q (q\<lparr>q_db := db\<rparr>)"
    if "ExecuteSystem env impl (system_request job permission) payload (ob_now ob) (q_db q) = Inr (r, db)" for job permission payload r db
    by (rule queue_frame_grows, rule ExecuteSystem_queue, rule that)
qed (simp, (erule transitionRun_grows transitionStep_grows finishApproval_grows finalize_job_grows)+)

section \<open>Histories\<close>

text \<open>
  One transaction anywhere: of a worker at any stage with any claim it may still hold, of its
  heartbeat, of the rest of the system, or of whoever enqueues a job. A crashed worker is one
  that takes no further step.
\<close>

inductive queue_step :: "approval_env \<Rightarrow> 'd capability_impl \<Rightarrow> 'd queue \<Rightarrow> 'd queue \<Rightarrow> bool" for env impl where
  pass: "worker_step (exec_env.truncate env) impl w ob stage q = (stage', q') \<Longrightarrow> queue_step env impl q q'"
| heartbeat: "renewLease w job now q = Inr (owned, q') \<Longrightarrow> queue_step env impl q q'"
| elsewhere: "approval_step env impl (q_db q) db' \<Longrightarrow> queue_step env impl q (q\<lparr>q_db := db'\<rparr>)"
| enqueue: "insert_job (exec_env.truncate env) orgID capabilityID payload runID i approvalID now q = Inr q' \<Longrightarrow> queue_step env impl q q'"

abbreviation queue_history where "queue_history env impl \<equiv> (queue_step env impl)\<^sup>*\<^sup>*"

lemma queue_step_grows:
  assumes "queue_step env impl q q'" and "jobs_distinct (q_db q)"
  shows "queue_grows q q'"
  using assms
proof cases
  case (pass w ob stage stage')
  then show ?thesis using worker_step_grows [OF assms(2), of "exec_env.truncate env" impl w ob stage] by simp
next
  case (elsewhere db')
  then show ?thesis by (auto intro: queue_frame_grows approval_step_queue)
qed (auto intro: renewLease_grows insert_job_grows)

lemma queue_history_grows:
  assumes "queue_history env impl q q'" and "jobs_distinct (q_db q)"
  shows "queue_grows q q'"
  using assms
proof (induction rule: rtranclp_induct)
  case (step q1 q2)
  then have "queue_grows q q1" by simp
  moreover from this step have "queue_grows q1 q2" by (intro queue_step_grows) (auto simp: queue_grows_def)
  ultimately show ?case by (rule queue_grows_trans)
qed simp

lemma queue_grows_distinct: "queue_grows q q' \<Longrightarrow> jobs_distinct (q_db q) \<Longrightarrow> jobs_distinct (q_db q')"
  by (simp add: queue_grows_def)

lemma ClaimOne_step: "ClaimOne w locked now q = Inr (x, q') \<Longrightarrow> queue_step env impl q q'"
  by (rule queue_step.pass [where w = w and stage = Idle and
        ob = "\<lparr>ob_now = now, ob_locked = locked, ob_fault = NoFault, ob_leaseLost = False, ob_routine = None\<rparr>"])
    (auto simp: after_def prod_eq_iff)

section \<open>Claims exactly\<close>

lemma claimed_simps [simp]:
  "cj_ID (claimed w j) = jb_id j" "cj_OrgID (claimed w j) = jb_orgID j" "cj_FencingToken (claimed w j) = jb_fencingToken j"
  "cj_Type (claimed w j) = jb_type j"
  by (simp_all add: claimed_def)

lemma claim_row_simps [simp]:
  "jb_id (claim_row workerID leaseMS now j) = jb_id j" "jb_type (claim_row workerID leaseMS now j) = jb_type j"
  "jb_orgID (claim_row workerID leaseMS now j) = jb_orgID j"
  "jb_fencingToken (claim_row workerID leaseMS now j) = jb_fencingToken j + 1"
  by (simp_all add: claim_row_def)

lemma fail_row_not_claimable [simp]: "\<not> claimable gate locked now (fail_row j)"
  by (simp add: claimable_def fail_row_def)

lemma fail_row_id [simp]: "jb_id (fail_row j) = jb_id j"
  by (simp add: fail_row_def)

lemma claimable_not_exhausted: "claimable gate locked now j \<Longrightarrow> \<not> exhausted_row gate now j"
  by (auto simp: claimable_def exhausted_row_def)

lemma claim_exact:
  assumes c: "ClaimOne w locked now q = Inr (Some job, q')" and d: "jobs_distinct (q_db q)"
  defines "taken \<equiv> claim_row (wk_workerID w) (milliseconds (wk_lease w)) now"
  obtains j where "j \<in> set (queue_jobs q)" and "claimable (wk_routineAgentRunner w) locked now j"
    and "\<And>k. k \<in> set (queue_jobs q) \<Longrightarrow> claimable (wk_routineAgentRunner w) locked now k \<Longrightarrow> claim_before j k"
    and "job = claimed w (taken j)"
    and "q' = with_jobs (map (\<lambda>k. if k = j then taken k else if exhausted_row (wk_routineAgentRunner w) now k then fail_row k else k) (queue_jobs q)) q"
proof -
  let ?gate = "wk_routineAgentRunner w"
  let ?fail = "\<lambda>j. if exhausted_row ?gate now j then fail_row j else j"
  from c obtain row rows where k: "claim_capability_job (wk_workerID w) (milliseconds (wk_lease w)) ?gate locked now (queue_jobs q) = Inr (row, rows)"
    and q: "q' = with_jobs rows q" and x: "Some job = map_option (claimed w) row"
    by (rule ClaimOne_Inr)
  from x obtain r where r: "row = Some r" "job = claimed w r" by (cases row) auto
  obtain j where j: "j \<in> set (map ?fail (queue_jobs q))" "claimable ?gate locked now j"
    and first: "\<forall>k \<in> set (map ?fail (queue_jobs q)). claimable ?gate locked now k \<longrightarrow> claim_before j k"
    and e: "r = taken j" and rows: "rows = map (\<lambda>k. if jb_id k = jb_id j then taken k else k) (map ?fail (queue_jobs q))"
    unfolding taken_def by (rule claim_capability_job_Some [OF k [unfolded r(1)] refl])
  from e r(2) have job: "job = claimed w (taken j)" by simp
  from j have mem: "j \<in> set (queue_jobs q)" by (auto split: if_splits)
  have "rows = map (\<lambda>k. if k = j then taken k else ?fail k) (queue_jobs q)"
    unfolding rows using unique_job [OF d _ mem] claimable_not_exhausted [OF j(2)] by (auto simp: comp_def)
  moreover have "claim_before j k" if "k \<in> set (queue_jobs q)" "claimable ?gate locked now k" for k
    using first that claimable_not_exhausted [OF that(2)] by force
  ultimately show thesis using that [OF mem j(2) _ job] q by simp
qed

lemma claim_spends:
  assumes c: "ClaimOne w locked now q = Inr (Some job, q')" and d: "jobs_distinct (q_db q)"
  shows "attempts_left (queue_jobs q') < attempts_left (queue_jobs q)" and "length (queue_jobs q') = length (queue_jobs q)"
proof -
  obtain j where j: "j \<in> set (queue_jobs q)" "claimable (wk_routineAgentRunner w) locked now j"
    and q: "q' = with_jobs (map (\<lambda>k. if k = j then claim_row (wk_workerID w) (milliseconds (wk_lease w)) now k
       else if exhausted_row (wk_routineAgentRunner w) now k then fail_row k else k) (queue_jobs q)) q"
    by (rule claim_exact [OF c d])
  show "length (queue_jobs q') = length (queue_jobs q)" by (simp add: q)
  obtain xs ys where s: "queue_jobs q = xs @ j # ys" using j(1) by (meson split_list)
  let ?f = "\<lambda>k. if k = j then claim_row (wk_workerID w) (milliseconds (wk_lease w)) now k
       else if exhausted_row (wk_routineAgentRunner w) now k then fail_row k else k"
  have "job_evolves k (?f k)" for k
    using claim_row_evolves [OF j(2)] by (simp add: fail_row_evolves jt.refl)
  then have le: "attempts_left (map ?f zs) \<le> attempts_left zs" for zs
    by (intro attempts_left_decreases) (simp add: list_all2_conv_all_nth)
  have "nat (jb_maxAttempts j - jb_attempts (?f j)) < nat (jb_maxAttempts j - jb_attempts j)" "jb_maxAttempts (?f j) = jb_maxAttempts j"
    using j(2) by (auto simp: claim_row_def claimable_def)
  with le [of xs] le [of ys] show "attempts_left (queue_jobs q') < attempts_left (queue_jobs q)"
    unfolding q s with_jobs_simps(1) map_append list.map attempts_left_simps by linarith
qed

end
