(* ===== verification/Runs.thy ===== *)
theory Runs
  imports JobHistory
begin

text \<open>
  Durable runs (src/apps/api/internal/jobs/durable_run_dispatcher.go): an approved harness
  composition and a list of steps become a run, its step rows and the job of the first step; the
  worker of theory \<^verbatim>\<open>Jobs\<close> executes the job, and the trigger on the step table enqueues the next
  one. Identifiers are in the lower-case form in which PostgreSQL prints them, as the callers
  supply them. Whether the stored parts of a composition still hash to its digests
  (\<^verbatim>\<open>harnessAssertPersistedIdentity\<close>) and whether a registered capability has a handler
  (\<^verbatim>\<open>supportedCapability\<close>) are fields of \<open>dispatch_env\<close>.
\<close>

section \<open>Inputs\<close>

record durableRunStepInput =
  ds_CapabilityID :: string
  ds_Input :: string
  ds_ApprovedApprovalID :: "string option"

record startDurableRunInput =
  sd_RunID :: string
  sd_OrgID :: string
  sd_ActorID :: string
  sd_SessionID :: "string option"
  sd_Goal :: string
  sd_RegistryVersion :: string
  sd_ModelRef :: "string option"
  sd_HarnessCompositionID :: string
  sd_HarnessCompositionHash :: string
  sd_CompositionApprovalID :: string
  sd_Steps :: "durableRunStepInput list"

record startDurableRunResult =
  sr_RunID :: string
  sr_Status :: string
  sr_Replayed :: bool

record composition_row =
  co_id :: string
  co_orgID :: string
  co_profileID :: string
  co_profileVersion :: string
  co_profileDigest :: string
  co_compositionDigest :: string
  co_profile :: string
  co_bundles :: string
  co_patches :: string

record dispatch_env =
  de_supported :: "string list"
  de_intact :: "composition_row \<Rightarrow> unit result"
  de_compositions :: "composition_row list"

definition DurableRunMaxSteps :: int where "DurableRunMaxSteps = 100"

definition DurableRunMaxGoalUTF16 :: int where "DurableRunMaxGoalUTF16 = 2000"

definition DurableRunMaxModelRef :: int where "DurableRunMaxModelRef = 200"

definition DurableRunMaxStepInput :: int where "DurableRunMaxStepInput = 32768"

definition ErrDurableRunConflict :: string where
  "ErrDurableRunConflict = ''durable run idempotency key conflicts with an existing run''"

definition ErrDurableRunInput :: string where "ErrDurableRunInput = ''durable run input is invalid''"

definition ErrDurableRunComposition :: string where "ErrDurableRunComposition = ''durable run composition is not approved''"

definition ErrDurableRunApproval :: string where "ErrDurableRunApproval = ''durable run step approval is not ready''"

definition ErrDurableRunSession :: string where "ErrDurableRunSession = ''durable run session is not owned by this user''"

definition validDurableRunUUID :: "string \<Rightarrow> bool" where
  "validDurableRunUUID value \<longleftrightarrow> isUUID value"

definition validate_step :: "nat \<Rightarrow> durableRunStepInput \<Rightarrow> unit result" where
  "validate_step index step =
     (if map_of GoCapabilityPermissions (ds_CapabilityID step) = None
      then Inl (''step '' @ show_nat index @ '' capability is not enabled for Go jobs'')
      else if ds_Input step = [] \<or> DurableRunMaxStepInput < int (length (ds_Input step)) \<or> decodeJSON (ds_Input step) = None
      then Inl (''step '' @ show_nat index @ '' input is invalid or exceeds size limit'')
      else if (case decodeJSON (ds_Input step) of Some (JObj _) \<Rightarrow> False | _ \<Rightarrow> True)
      then Inl (''step '' @ show_nat index @ '' input must be a JSON object'')
      else if (case ds_ApprovedApprovalID step of None \<Rightarrow> False | Some a \<Rightarrow> \<not> validDurableRunUUID a)
      then Inl (''step '' @ show_nat index @ '' approval identity is invalid'')
      else Inr ())"

definition validateDurableRunInput :: "startDurableRunInput \<Rightarrow> unit result" where
  "validateDurableRunInput input =
     (if \<not> validDurableRunUUID (sd_RunID input) \<or> \<not> validDurableRunUUID (sd_OrgID input) \<or> \<not> validDurableRunUUID (sd_ActorID input) \<or>
         \<not> validDurableRunUUID (sd_HarnessCompositionID input) \<or> \<not> validDurableRunUUID (sd_CompositionApprovalID input)
      then Inl ''durable run identity is invalid''
      else if (case sd_SessionID input of None \<Rightarrow> False | Some s \<Rightarrow> \<not> validDurableRunUUID s)
      then Inl ''durable run session is invalid''
      else if utf16Length (sd_Goal input) < 1 \<or> DurableRunMaxGoalUTF16 < int (utf16Length (sd_Goal input))
      then Inl ''durable run goal is outside the allowed length''
      else if sd_RegistryVersion input = [] \<or> 64 < length (sd_RegistryVersion input) \<or> sd_Steps input = [] \<or>
              DurableRunMaxSteps < int (length (sd_Steps input))
      then Inl ''durable run version or step count is invalid''
      else if (case sd_ModelRef input of None \<Rightarrow> False | Some m \<Rightarrow> trim_space m = [] \<or> DurableRunMaxModelRef < int (utf16Length m))
      then Inl ''durable run model reference is invalid''
      else fold_result (\<lambda>_ (index, step). validate_step index step) () (enumerate 0 (sd_Steps input)))"

section \<open>Verification\<close>

definition harness_digest_ok :: "string \<Rightarrow> bool" where
  "harness_digest_ok s \<longleftrightarrow> length s = 64 \<and> list_all (\<lambda>c. c \<in> set ''0123456789abcdef'') s"

text \<open>The operator \<^verbatim>\<open>->>\<close> on a payload column; what else a field may hold is no identifier or digest.\<close>

definition json_text_field :: "string \<Rightarrow> string \<Rightarrow> string option" where
  "json_text_field payload key =
     (case decodeJSON payload of
        Some (JObj members) \<Rightarrow> (case map_of members key of Some (JStr s) \<Rightarrow> Some s | Some (JNum n) \<Rightarrow> Some n | _ \<Rightarrow> None)
      | _ \<Rightarrow> None)"

definition harnessApproveCompositionCapabilityID :: string where
  "harnessApproveCompositionCapabilityID = ''harness.approveComposition''"

definition VerifyDurableRunCompositionTx ::
  "dispatch_env \<Rightarrow> string \<Rightarrow> string \<Rightarrow> string \<Rightarrow> string \<Rightarrow> 'd queue \<Rightarrow> composition_row result" where
  "VerifyDurableRunCompositionTx de orgID compositionID compositionDigest approvalID q =
     (if \<not> isUUID orgID \<or> \<not> isUUID compositionID \<or> \<not> isUUID approvalID \<or> \<not> harness_digest_ok compositionDigest
      then Inl ''invalid durable run composition identity''
      else case find (\<lambda>c. co_orgID c = orgID \<and> co_id c = compositionID) (de_compositions de) of
        None \<Rightarrow> Inl ''harness composition not found for organization''
      | Some identity \<Rightarrow>
          bind_result (de_intact de identity) (\<lambda>_.
          if co_compositionDigest identity \<noteq> compositionDigest
          then Inl ''harness composition identity no longer matches the approval request''
          else if \<not> list_ex (\<lambda>a. ap_id a = approvalID \<and> ap_orgID a = orgID \<and> ap_capabilityID a = harnessApproveCompositionCapabilityID \<and>
                    ap_status a = ''executed'' \<and> json_text_field (ap_payload a) ''compositionId'' = Some compositionID \<and>
                    json_text_field (ap_payload a) ''compositionDigest'' = Some compositionDigest) (approvals (q_db q))
          then Inl ''harness composition approval is missing or not executed''
          else Inr identity))"

definition DurableRunCapabilityRisk :: "exec_env \<Rightarrow> dispatch_env \<Rightarrow> string \<Rightarrow> string option" where
  "DurableRunCapabilityRisk env de capabilityID =
     (case map_of (env_specs env) capabilityID of
        None \<Rightarrow> None
      | Some spec \<Rightarrow> if capabilityID \<in> set (de_supported de) then Some (sp_risk spec) else None)"

definition validateDurableRunApproval ::
  "exec_env \<Rightarrow> dispatch_env \<Rightarrow> string \<Rightarrow> durableRunStepInput \<Rightarrow> nat \<Rightarrow> int \<Rightarrow> 'd queue \<Rightarrow> unit result" where
  "validateDurableRunApproval env de orgID step index now q =
     (case DurableRunCapabilityRisk env de (ds_CapabilityID step) of
        None \<Rightarrow> Inl (ErrDurableRunInput @ '': step '' @ show_nat index @ '' capability is unsupported'')
      | Some risk \<Rightarrow>
          (case ds_ApprovedApprovalID step of
             None \<Rightarrow> if risk = ''read'' then Inr ()
                     else Inl (ErrDurableRunApproval @ '': step '' @ show_nat index @ '' requires an executed approval before durable dispatch'')
           | Some approvalID \<Rightarrow>
               if list_ex (\<lambda>a. ap_id a = approvalID \<and> ap_orgID a = orgID \<and> ap_capabilityID a = ds_CapabilityID step \<and>
                    ap_status a = ''executing'' \<and> (case ap_expiresAt a of None \<Rightarrow> False | Some t \<Rightarrow> now < t) \<and>
                    ap_payload a = env_jsonb env (ds_Input step)) (approvals (q_db q))
               then Inr ()
               else Inl (ErrDurableRunApproval @ '': step '' @ show_nat index @ '' approval is not executing for this capability input'')))"

section \<open>Dispatch\<close>

definition new_run :: "startDurableRunInput \<Rightarrow> composition_row \<Rightarrow> agent_run_row" where
  "new_run input composition =
     \<lparr>rn_id = sd_RunID input, rn_orgID = sd_OrgID input, rn_sessionID = sd_SessionID input, rn_goal = sd_Goal input,
      rn_status = ''pending'', rn_registryVersion = sd_RegistryVersion input, rn_modelRef = sd_ModelRef input, rn_currentStep = 0,
      rn_lastError = None, rn_actorType = ''human'', rn_actorID = Some (sd_ActorID input), rn_startedAt = None, rn_finishedAt = None,
      rn_compositionID = Some (co_id composition), rn_profileID = Some (co_profileID composition),
      rn_profileVersion = Some (co_profileVersion composition), rn_compositionDigest = Some (co_compositionDigest composition)\<rparr>"

definition durableRunMatchesRequest :: "startDurableRunInput \<Rightarrow> composition_row \<Rightarrow> 'd queue \<Rightarrow> bool result" where
  "durableRunMatchesRequest input composition q =
     (case find (run_of (sd_OrgID input) (sd_RunID input)) (agent_runs q) of
        None \<Rightarrow> Inl ''no rows in result set''
      | Some run \<Rightarrow>
          let steps = length (filter (\<lambda>s. rs_orgID s = sd_OrgID input \<and> rs_runID s = sd_RunID input) (agent_run_steps q))
          in Inr (rn_goal run = sd_Goal input \<and> rn_registryVersion run = sd_RegistryVersion input \<and> rn_modelRef run = sd_ModelRef input \<and>
               rn_compositionID run = Some (co_id composition) \<and> rn_profileID run = Some (co_profileID composition) \<and>
               rn_profileVersion run = Some (co_profileVersion composition) \<and>
               rn_compositionDigest run = Some (co_compositionDigest composition) \<and> rn_actorType run = ''human'' \<and>
               rn_actorID run = Some (sd_ActorID input) \<and> rn_sessionID run = sd_SessionID input \<and>
               (steps = 0 \<or> steps = length (sd_Steps input))))"

text \<open>The row policies show an organization its own rows only; the unique keys are global.\<close>

definition insert_run :: "startDurableRunInput \<Rightarrow> composition_row \<Rightarrow> 'd queue \<Rightarrow> (bool \<times> 'd queue) result" where
  "insert_run input composition q =
     (if \<not> list_ex (\<lambda>r. rn_id r = sd_RunID input) (agent_runs q)
      then Inr (True, q\<lparr>agent_runs := agent_runs q @ [new_run input composition]\<rparr>)
      else bind_result (durableRunMatchesRequest input composition q) (\<lambda>matches.
        if matches then Inr (False, q) else Inl ErrDurableRunConflict))"

definition new_step :: "exec_env \<Rightarrow> startDurableRunInput \<Rightarrow> nat \<Rightarrow> durableRunStepInput \<Rightarrow> string \<Rightarrow> run_step_row" where
  "new_step env input index step hash =
     \<lparr>rs_orgID = sd_OrgID input, rs_runID = sd_RunID input, rs_stepIndex = int index, rs_status = ''pending'',
      rs_capabilityID = ds_CapabilityID step, rs_capabilityVersion = sd_RegistryVersion input, rs_inputHash = hash,
      rs_input = env_jsonb env (ds_Input step), rs_output = None, rs_receiptID = None, rs_approvalID = ds_ApprovedApprovalID step,
      rs_error = None, rs_startedAt = None, rs_finishedAt = None\<rparr>"

definition insert_step ::
  "exec_env \<Rightarrow> startDurableRunInput \<Rightarrow> nat \<Rightarrow> durableRunStepInput \<Rightarrow> 'd queue \<Rightarrow> (string \<times> 'd queue) result" where
  "insert_step env input index step q =
     (case InputHash (env_digest env) (ds_Input step) of
        Inl e \<Rightarrow> Inl (''step '' @ show_nat index @ '' input is invalid: '' @ e)
      | Inr hash \<Rightarrow>
          if \<not> list_ex (\<lambda>s. rs_runID s = sd_RunID input \<and> rs_stepIndex s = int index) (agent_run_steps q)
          then Inr (''pending'', q\<lparr>agent_run_steps := agent_run_steps q @ [new_step env input index step hash]\<rparr>)
          else case find (step_of (sd_OrgID input) (sd_RunID input) (int index)) (agent_run_steps q) of
            None \<Rightarrow> Inl ''no rows in result set''
          | Some s \<Rightarrow>
              if rs_inputHash s \<noteq> hash \<or> rs_capabilityID s \<noteq> ds_CapabilityID step \<or> rs_capabilityVersion s \<noteq> sd_RegistryVersion input \<or>
                 rs_approvalID s \<noteq> ds_ApprovedApprovalID step
              then Inl ErrDurableRunConflict else Inr (rs_status s, q))"

definition step_job :: "string \<Rightarrow> string \<Rightarrow> int \<Rightarrow> job_row \<Rightarrow> bool" where
  "step_job orgID runID i j \<longleftrightarrow> jb_orgID j = orgID \<and> jb_runID j = Some runID \<and> jb_runStepIndex j = Some i"

definition enqueue_step ::
  "exec_env \<Rightarrow> startDurableRunInput \<Rightarrow> nat \<Rightarrow> durableRunStepInput \<Rightarrow> int \<Rightarrow> 'd queue \<Rightarrow> 'd queue result" where
  "enqueue_step env input index step now q =
     (let mine = step_job (sd_OrgID input) (sd_RunID input) (int index);
          existing = filter mine (queue_jobs q)
      in if 1 < length existing then Inl ErrDurableRunConflict
         else if length existing = 1 then
           (if list_ex (\<lambda>j. jb_type j = ds_CapabilityID step \<and> jb_payload j = env_jsonb env (ds_Input step) \<and>
                jb_approvedApprovalID j = ds_ApprovedApprovalID step) existing
            then Inr q else Inl ErrDurableRunConflict)
         else insert_job env (sd_OrgID input) (ds_CapabilityID step) (env_jsonb env (ds_Input step)) (Some (sd_RunID input))
                (Some (int index)) (ds_ApprovedApprovalID step) now q)"

definition dispatch_step ::
  "exec_env \<Rightarrow> dispatch_env \<Rightarrow> startDurableRunInput \<Rightarrow> int \<Rightarrow> 'd queue \<Rightarrow> nat \<times> durableRunStepInput \<Rightarrow> 'd queue result" where
  "dispatch_step env de input now q0 indexed =
     (case indexed of (index, step) \<Rightarrow>
        bind_result (insert_step env input index step q0) (\<lambda>(status, q).
        if status \<noteq> ''pending'' then Inr q
        else bind_result (validateDurableRunApproval env de (sd_OrgID input) step index now q) (\<lambda>_.
          if index = 0 then enqueue_step env input index step now q
          else case find (step_of (sd_OrgID input) (sd_RunID input) (int index - 1)) (agent_run_steps q) of
            None \<Rightarrow> Inl ''no rows in result set''
          | Some previous \<Rightarrow> if rs_status previous \<noteq> ''committed'' then Inr q else enqueue_step env input index step now q)))"

definition CreateAndDispatch ::
  "exec_env \<Rightarrow> dispatch_env \<Rightarrow> startDurableRunInput \<Rightarrow> int \<Rightarrow> 'd queue \<Rightarrow> (startDurableRunResult \<times> 'd queue) result" where
  "CreateAndDispatch env de input now q0 =
     (case validateDurableRunInput input of
        Inl e \<Rightarrow> Inl (ErrDurableRunInput @ '': '' @ e)
      | Inr _ \<Rightarrow>
          (case VerifyDurableRunCompositionTx de (sd_OrgID input) (sd_HarnessCompositionID input) (sd_HarnessCompositionHash input)
                  (sd_CompositionApprovalID input) q0 of
             Inl e \<Rightarrow> Inl (ErrDurableRunComposition @ '': '' @ e)
           | Inr composition \<Rightarrow>
               if (case sd_SessionID input of None \<Rightarrow> False | Some session \<Rightarrow>
                     \<not> list_ex (\<lambda>s. ag_id s = session \<and> ag_orgID s = sd_OrgID input \<and> ag_userID s = sd_ActorID input) (agent_sessions (q_db q0)))
               then Inl ErrDurableRunSession
               else bind_result (insert_run input composition q0) (\<lambda>(inserted, q1).
                 bind_result (fold_result (dispatch_step env de input now) q1 (enumerate 0 (sd_Steps input))) (\<lambda>q2.
                 case (if inserted then Some ''pending'' else map_option rn_status (find (run_of (sd_OrgID input) (sd_RunID input)) (agent_runs q2))) of
                   None \<Rightarrow> Inl ''no rows in result set''
                 | Some status \<Rightarrow> Inr (\<lparr>sr_RunID = sd_RunID input, sr_Status = status, sr_Replayed = \<not> inserted\<rparr>, q2)))))"

end
