(* ===== verification/JobQueue.thy ===== *)
theory JobQueue
  imports JobHistory
begin

text \<open>
  The properties of the capability queue: fencing, effects that are not repeated, the order and
  the number of claims, progress, and what the retry of a failed attempt does.
\<close>

section \<open>Stale workers\<close>

definition superseded :: "claimedJob \<Rightarrow> job_row list \<Rightarrow> bool" where
  "superseded job rows \<longleftrightarrow> (\<exists>j \<in> set rows. jb_id j = cj_ID job \<and> cj_FencingToken job < jb_fencingToken j)"

lemma superseded_none:
  assumes "superseded job rows" and "distinct (map jb_id rows)" and "j \<in> set rows" and "jb_id j = cj_ID job"
  shows "jb_fencingToken j \<noteq> cj_FencingToken job"
  using assms unique_job by (fastforce simp: superseded_def)

lemma superseded_evolves:
  assumes "superseded job rows" and "jobs_evolve rows rows'"
  shows "superseded job rows'"
proof -
  from assms(1) obtain j where j: "j \<in> set rows" "jb_id j = cj_ID job" "cj_FencingToken job < jb_fencingToken j"
    by (auto simp: superseded_def)
  from assms(2) j(1) obtain j' where "j' \<in> set rows'" "job_evolves j j'" by (rule rows_evolve_member)
  with j show ?thesis by (auto simp: superseded_def job_evolves_def dest: same_job_fields(1) intro!: bexI [of _ j'])
qed

lemma claim_token:
  assumes "ClaimOne w locked now q = Inr (Some job, q')" and "jobs_distinct (q_db q)"
  obtains j where "j \<in> set (queue_jobs q')" and "jb_id j = cj_ID job" and "jb_fencingToken j = cj_FencingToken job"
    and "\<exists>i \<in> set (queue_jobs q). jb_id i = cj_ID job \<and> jb_fencingToken i < cj_FencingToken job"
proof -
  let ?take = "claim_row (wk_workerID w) (milliseconds (wk_lease w)) now"
  obtain j where j: "j \<in> set (queue_jobs q)" and job: "job = claimed w (?take j)"
    and q: "q' = with_jobs (map (\<lambda>k. if k = j then ?take k else if exhausted_row (wk_routineAgentRunner w) now k then fail_row k else k) (queue_jobs q)) q"
    by (rule claim_exact [OF assms])
  show thesis by (rule that [of "?take j"]) (use j in \<open>auto simp: job q intro!: image_eqI [of _ _ j]\<close>)
qed

lemma ExecuteSystem_needs_lease:
  assumes "ExecuteSystem env impl request rawInput now db = Inr (r, db')"
    and "\<not> list_ex (lease_held (system_lease request) now) (jobs db)"
  shows "db' = db"
proof -
  have lost: "exec_enter env claims (Some (system_lease request)) True now db \<noteq> Inr x" for claims x
    using assms(2) by (simp add: exec_enter_def requireSystemJobLease_def)
  have "db' = db" if "executeWithFinalizer env impl claims c rawInput True a None (Some (system_lease request)) now db = Inr (r, db')" for claims c a
    using that by (cases rule: executeWithFinalizer_stages) (simp_all add: lost)
  with assms(1) show ?thesis
    by (auto simp: ExecuteSystem_def execute_call_def split: option.splits if_splits)
qed

lemma superseded_worker_idle:
  assumes s: "superseded job (queue_jobs q)" and d: "jobs_distinct (q_db q)" and st: "stage_job stage = Some job"
  shows "snd (worker_step env impl w ob stage q) = q"
proof -
  note none = superseded_none [OF s d]
  have holds: "\<not> list_ex (holds_lease job now) (queue_jobs q)" for now
    using none by (auto simp: list_ex_iff holds_lease_def)
  have owns: "map (\<lambda>j. if owns_row w job j \<and> lease_live now j then change j else j) (queue_jobs q) = queue_jobs q" for now change
    using none by (intro map_idI) (auto simp: owns_row_def)
  show ?thesis
  proof (rule worker_step_keeps [where P = "\<lambda>q'. q' = q"])
    show "q' = q" if "stage_job stage = Some job'" "transitionRun job' runID status i m (ob_now ob) q = Inr q'" for job' runID status i m q'
      using that st holds unfolding transitionRun_def by (auto elim!: withCurrentJobLeaseTx_Inr)
    show "q' = q" if "stage_job stage = Some job'" "transitionStep env job' runID i status data m r a (ob_now ob) q = Inr q'"
      for job' runID i status data m r a q'
      using that st holds unfolding transitionStep_def by (auto elim!: withCurrentJobLeaseTx_Inr)
    show "q' = q" if "stage_job stage = Some job'" "finishApproval job' (ob_now ob) q = Inr q'" for job' q'
      using that st holds unfolding finishApproval_def by (auto elim!: withCurrentJobLeaseTx_Inr split: option.splits)
    show "q\<lparr>q_db := db\<rparr> = q" if "stage = Act job' permission payload"
      "ExecuteSystem env impl (system_request job' permission) payload (ob_now ob) (q_db q) = Inr (r, db)" for job' permission payload r db
    proof -
      from that(1) st have [simp]: "job' = job" by simp
      have "\<not> list_ex (lease_held (system_lease (system_request job permission)) (ob_now ob)) (queue_jobs q)"
        using none by (auto simp: list_ex_iff lease_held_def system_lease_def system_request_def)
      with that(2) have "db = q_db q" by (auto dest: ExecuteSystem_needs_lease)
      then show ?thesis by simp
    qed
    show "q' = q" if "stage_job stage = Some job'" "finalize_job w job' status m t (ob_now ob) q = Inr (x, q')" for job' status m t x q'
      using that st owns by (auto simp: finalize_job_def Let_def split: if_splits)
  qed (use st in simp_all)
qed

text \<open>
  C9. Fencing. Once a job has been claimed again, whatever happens in between and afterwards, its
  first claim carries a smaller token, and no transaction that the first worker still attempts at
  any stage of its pass with that claim changes anything.
\<close>

theorem superseded_worker_changes_nothing:
  assumes "ClaimOne w1 locked1 now1 q0 = Inr (Some job1, q1)" and "queue_history env impl q1 q2"
    and "ClaimOne w2 locked2 now2 q2 = Inr (Some job2, q3)" and "cj_ID job2 = cj_ID job1"
    and "queue_history env impl q3 q4" and "jobs_distinct (q_db q0)" and "stage_job stage = Some job1"
  shows "cj_FencingToken job1 < cj_FencingToken job2 \<and> snd (worker_step (exec_env.truncate env) impl w1 ob stage q4) = q4"
proof -
  have g1: "queue_grows q0 q1" by (rule ClaimOne_grows [OF assms(1,6)])
  have d1: "jobs_distinct (q_db q1)" by (rule queue_grows_distinct [OF g1 assms(6)])
  have g2: "queue_grows q1 q2" by (rule queue_history_grows [OF assms(2) d1])
  have d2: "jobs_distinct (q_db q2)" by (rule queue_grows_distinct [OF g2 d1])
  have d3: "jobs_distinct (q_db q3)" by (rule queue_grows_distinct [OF ClaimOne_grows [OF assms(3) d2] d2])
  have g4: "queue_grows q3 q4" by (rule queue_history_grows [OF assms(5) d3])
  obtain j1 where j1: "j1 \<in> set (queue_jobs q1)" "jb_id j1 = cj_ID job1" "jb_fencingToken j1 = cj_FencingToken job1"
    by (rule claim_token [OF assms(1,6)])
  have "jobs_evolve (queue_jobs q1) (queue_jobs q2)" using g2 by (simp add: queue_grows_def)
  then obtain i2 where i2: "i2 \<in> set (queue_jobs q2)" "job_evolves j1 i2" using j1(1) by (rule rows_evolve_member)
  obtain j2 where j2: "j2 \<in> set (queue_jobs q3)" "jb_id j2 = cj_ID job2" "jb_fencingToken j2 = cj_FencingToken job2"
    and "\<exists>i \<in> set (queue_jobs q2). jb_id i = cj_ID job2 \<and> jb_fencingToken i < cj_FencingToken job2"
    by (rule claim_token [OF assms(3) d2])
  then have "jb_fencingToken i2 < cj_FencingToken job2"
    using unique_job [OF d2 i2(1)] same_job_fields(1) [OF job_evolves_same [OF i2(2)]] j1(2) assms(4) by fastforce
  then have less: "cj_FencingToken job1 < cj_FencingToken job2" using i2(2) j1(3) by (simp add: job_evolves_def)
  have "superseded job1 (queue_jobs q3)" using j2 less assms(4) by (auto simp: superseded_def)
  then have "superseded job1 (queue_jobs q4)" by (rule superseded_evolves) (use g4 in \<open>simp add: queue_grows_def\<close>)
  with less show ?thesis
    using superseded_worker_idle [OF _ queue_grows_distinct [OF g4 d3] assms(7)] by blast
qed

section \<open>Effects\<close>

lemma loadReceipt_grows:
  assumes "prefix (action_receipts db) (action_receipts db')" and "loadReceipt orgID key db = Some receipt"
  shows "loadReceipt orgID key db' = Some receipt"
  using assms by (auto simp: loadReceipt_def prefix_def find_append)

lemma executeWithFinalizer_replays:
  assumes run: "executeWithFinalizer env impl claims capabilityID rawInput system a finalize lease now db = Inr (r, db')"
    and prior: "loadReceipt (OrganizationID claims) (intent_key claims) db = Some prior" and i: "IntentID claims \<noteq> []"
  shows "no_effect db db'" and "res_OK r \<Longrightarrow> r = replay_result prior"
proof -
  have stop: "exec_checks env impl claims capabilityID rawInput spec system a f db1 \<noteq> Proceed x"
    if "exec_enter env claims lease system now db = Inr db1" for spec x f db1
  proof -
    have "loadReceipt (OrganizationID claims) (intent_key claims) db1 = Some prior"
      using prior exec_enter_no_effect(1) [OF that] by (simp add: loadReceipt_def no_effect_def)
    with i show ?thesis by (auto simp: exec_checks_def exec_replay_def split: sum.splits if_splits)
  qed
  from run show n: "no_effect db db'"
    by (cases rule: executeWithFinalizer_cases) (use stop in auto)
  assume "res_OK r"
  from run show "r = replay_result prior"
  proof (cases rule: executeWithFinalizer_cases)
    case kept
    from kept(2) [OF \<open>res_OK r\<close>] n prior show ?thesis
      by (auto simp: replayed_from_def loadReceipt_def no_effect_def)
  qed (use stop in auto)
qed

lemma executeWithFinalizer_receipt:
  assumes run: "executeWithFinalizer env impl claims capabilityID rawInput system a None lease now db = Inr (r, db')"
    and ok: "res_OK r" and i: "IntentID claims \<noteq> []"
  obtains receipt where "loadReceipt (OrganizationID claims) (intent_key claims) db' = Some receipt"
    and "rc_data receipt = (if res_Replayed r then res_Data r else env_jsonb env (res_Data r))"
  using run
proof (cases rule: executeWithFinalizer_cases)
  case kept
  from kept(2) [OF ok] that ok show thesis by (auto simp: replayed_from_def replay_result_def)
next
  case (effect spec db1 input inputHash db2)
  from effect(5) obtain out where n: "loadReceipt (OrganizationID claims) (intent_key claims) db2 = None"
    and a: "action_receipts db' = action_receipts db2 @ [receipt_of env claims capabilityID inputHash r]"
    and o: "r = executed_result out"
    by (rule exec_effect_Inr) (auto simp: i)
  have "loadReceipt (OrganizationID claims) (intent_key claims) db' = Some (receipt_of env claims capabilityID inputHash r)"
    using n unfolding loadReceipt_def a by (rule find_snoc) (simp add: receipt_of_def)
  then show thesis by (rule that) (simp_all add: receipt_of_def o executed_result_def)
qed

lemma ExecuteSystem_Inr:
  assumes "ExecuteSystem env impl request rawInput now db = Inr (r, db')"
  obtains (unknown) "db' = db" and "\<not> res_OK r"
  | (run) spec digest where "executeWithFinalizer env impl (system_claims request spec digest) (sy_CapabilityID request) rawInput True
        (sy_ApprovedApprovalID request) None (Some (system_lease request)) now db = Inr (r, db')"
      and "isUUID (sy_IntentID request)"
  using assms by (auto simp: ExecuteSystem_def execute_call_def failed_def split: option.splits if_splits)

lemma system_intent:
  "OrganizationID (system_claims (system_request job permission) spec digest) = cj_OrgID job"
  "IntentID (system_claims (system_request job permission) spec digest) = cj_ID job"
  "sy_IntentID (system_request job permission) = cj_ID job"
  by (simp_all add: system_claims_def system_request_def)

lemma system_intent_key:
  "intent_key (system_claims (system_request job permission) spec digest) =
     (if cj_ID job = [] then [] else cj_OrgID job @ '':'' @ cj_ID job)"
  by (simp add: intent_key_def system_intent)

text \<open>
  C8. The effect of a job happens at most once. After an execution of a job that succeeded, and
  whatever happens then (lost acknowledgements, crashes, later claims by any worker, other
  calls), executing the same job again leaves the business state, the receipts and the audit of
  effects as they are; if the second execution reports success, it repeats the recorded result.
\<close>

theorem job_takes_effect_once:
  assumes "ExecuteSystem (exec_env.truncate env) impl (system_request job permission) payload now (q_db q) = Inr (r, db)"
    and "res_OK r" and "jobs_distinct (q_db q)"
    and "queue_history env impl (q\<lparr>q_db := db\<rparr>) q'"
    and "ExecuteSystem (exec_env.truncate env) impl (system_request job' permission') payload' now' (q_db q') = Inr (r', db')"
    and "cj_ID job' = cj_ID job" and "cj_OrgID job' = cj_OrgID job"
  shows "no_effect (q_db q') db' \<and>
    (res_OK r' \<longrightarrow> res_Replayed r' \<and> res_Data r' = (if res_Replayed r then res_Data r else env_jsonb env (res_Data r)))"
proof -
  let ?key = "cj_OrgID job @ '':'' @ cj_ID job"
  from assms(1) obtain receipt where receipt: "loadReceipt (cj_OrgID job) ?key db = Some receipt"
    "rc_data receipt = (if res_Replayed r then res_Data r else env_jsonb env (res_Data r))" and id: "cj_ID job \<noteq> []"
  proof (cases rule: ExecuteSystem_Inr)
    case (run spec digest)
    have i: "IntentID (system_claims (system_request job permission) spec digest) \<noteq> []"
      using isUUID_nonempty [OF run(2)] by (simp add: system_intent)
    from run(1) assms(2) i show thesis
      by (rule executeWithFinalizer_receipt) (use i in \<open>auto simp: system_intent system_intent_key exec_env.truncate_def intro: that\<close>)
  qed (use assms(2) in simp)
  have "queue_grows q (q\<lparr>q_db := db\<rparr>)" by (rule queue_frame_grows, rule ExecuteSystem_queue, rule assms(1))
  then have "jobs_distinct (q_db (q\<lparr>q_db := db\<rparr>))" using assms(3) by (rule queue_grows_distinct)
  with assms(4) have "queue_grows (q\<lparr>q_db := db\<rparr>) q'" by (rule queue_history_grows)
  then have prior: "loadReceipt (cj_OrgID job) ?key (q_db q') = Some receipt"
    using receipt(1) by (auto simp: queue_grows_def intro: loadReceipt_grows)
  from assms(5) show ?thesis
  proof (cases rule: ExecuteSystem_Inr)
    case (run spec digest)
    let ?c = "system_claims (system_request job' permission') spec digest"
    have p: "loadReceipt (OrganizationID ?c) (intent_key ?c) (q_db q') = Some receipt" and i: "IntentID ?c \<noteq> []"
      using prior id assms(6,7) by (simp_all add: system_intent system_intent_key)
    show ?thesis using executeWithFinalizer_replays [OF run(1) p i] receipt(2) by (auto simp: replay_result_def)
  qed simp
qed

section \<open>How often a job is claimed\<close>

text \<open>
  C36. A history of \<open>n\<close> transactions makes at most as many claims as the jobs had attempts left,
  and three more for every job enqueued on the way: no job is retried forever.
\<close>

theorem claims_are_bounded:
  fixes f :: "nat \<Rightarrow> 'd queue"
  assumes "\<And>i. i < n \<Longrightarrow> queue_step env impl (f i) (f (Suc i))" and "jobs_distinct (q_db (f 0))"
  shows "card {i. i < n \<and> (\<exists>w locked now job. ClaimOne w locked now (f i) = Inr (Some job, f (Suc i)))} + attempts_left (queue_jobs (f n))
    \<le> attempts_left (queue_jobs (f 0)) + 3 * (length (queue_jobs (f n)) - length (queue_jobs (f 0)))"
proof -
  let ?claim = "\<lambda>i. \<exists>w locked now job. ClaimOne w locked now (f i) = Inr (Some job, f (Suc i))"
  have "queue_grows (f 0) (f k) \<and> card {i. i < k \<and> ?claim i} + attempts_left (queue_jobs (f k)) + 3 * length (queue_jobs (f 0))
      \<le> attempts_left (queue_jobs (f 0)) + 3 * length (queue_jobs (f k))" if "k \<le> n" for k
    using that
  proof (induction k)
    case (Suc k)
    then have ih: "queue_grows (f 0) (f k)" "card {i. i < k \<and> ?claim i} + attempts_left (queue_jobs (f k)) + 3 * length (queue_jobs (f 0))
      \<le> attempts_left (queue_jobs (f 0)) + 3 * length (queue_jobs (f k))" by simp_all
    have d: "jobs_distinct (q_db (f k))" by (rule queue_grows_distinct [OF ih(1) assms(2)])
    have g: "queue_grows (f k) (f (Suc k))" using assms(1) [of k] Suc.prems d by (intro queue_step_grows) auto
    have split: "{i. i < Suc k \<and> ?claim i} = {i. i < k \<and> ?claim i} \<union> (if ?claim k then {k} else {})" by (auto simp: less_Suc_eq)
    have "card {i. i < Suc k \<and> ?claim i} = card {i. i < k \<and> ?claim i} + (if ?claim k then 1 else 0)"
      unfolding split by (subst card_Un_disjoint) auto
    moreover have "attempts_left (queue_jobs (f (Suc k))) + (if ?claim k then 1 else 0) + 3 * length (queue_jobs (f k))
        \<le> attempts_left (queue_jobs (f k)) + 3 * length (queue_jobs (f (Suc k)))"
      using g claim_spends [OF _ d] by (fastforce simp: queue_grows_def)
    ultimately show ?case using ih queue_grows_trans [OF ih(1) g] by linarith
  qed simp
  from this [of n] show ?thesis by linarith
qed

section \<open>A concrete queue\<close>

definition example_worker :: worker where
  "example_worker = \<lparr>wk_workerID = ''w'', wk_lease = DefaultLeaseDuration, wk_poll = DefaultPollInterval, wk_routineAgentRunner = False\<rparr>"

definition example_pending_row :: job_row where
  "example_pending_row = (example_job_row 0)\<lparr>jb_payload := example_input, jb_status := ''pending'', jb_attempts := 0,
     jb_leaseOwner := None, jb_fencingToken := 0, jb_leaseExpiresAt := None\<rparr>"

definition example_queue :: "int queue" where
  "example_queue = \<lparr>q_db = (example_exec_db 10)\<lparr>jobs := [example_pending_row]\<rparr>, agent_runs = [], agent_run_steps = []\<rparr>"

definition example_claimed :: claimedJob where
  "example_claimed = claimed example_worker (claim_row ''w'' 60000 1700000000000 example_pending_row)"

definition example_reclaimed :: claimedJob where
  "example_reclaimed = claimed example_worker (claim_row ''w'' 60000 1700000060000 (claim_row ''w'' 60000 1700000000000 example_pending_row))"

definition example_queue1 :: "int queue" where
  "example_queue1 = with_jobs [claim_row ''w'' 60000 1700000000000 example_pending_row] example_queue"

definition example_queue2 :: "int queue" where
  "example_queue2 = with_jobs [claim_row ''w'' 60000 1700000060000 (claim_row ''w'' 60000 1700000000000 example_pending_row)] example_queue"

lemma example_claims_run:
  "ClaimOne example_worker [] 1700000000000 example_queue = Inr (Some example_claimed, example_queue1)"
  "ClaimOne example_worker [] 1700000060000 example_queue1 = Inr (Some example_reclaimed, example_queue2)"
  by code_simp+

definition example_request :: systemClaims where
  "example_request = system_request example_claimed ''accounting.post''"

definition example_held :: "int queue" where
  "example_held = with_jobs [(claim_row ''w'' 60000 1700000000000 example_pending_row)\<lparr>jb_leaseExpiresAt := Some 1700000180000\<rparr>] example_queue"

definition example_job_receipt :: action_receipt where
  "example_job_receipt = receipt_of example_exec_env (system_claims example_request example_spec ''{\"amountMinor\":5}'')
     ''accounting.recordPayment'' ''{\"amountMinor\":5}'' example_outcome"

definition example_done_db :: "ledger_row \<Rightarrow> int exec_db" where
  "example_done_db row = (q_db example_held)\<lparr>domain := 5, ledger_events := [row], ledger_next_seq := 2, action_receipts := [example_job_receipt]\<rparr>"

lemma example_job_runs:
  "\<exists>row. ExecuteSystem example_exec_env example_exec_impl example_request example_input 1700000000000 (q_db example_queue1) =
     Inr (example_outcome, example_done_db row)"
proof -
  let ?c = "system_claims example_request example_spec ''{\"amountMinor\":5}''" and ?l = "Some (system_lease example_request)"
  have spec: "map_of (env_specs example_exec_env) ''accounting.recordPayment'' = Some example_spec" by (simp add: example_exec_env_def)
  have pre: "isUUID (sy_IntentID example_request)" "lease_ok (system_lease example_request)"
    "sy_Permission example_request = sp_permission example_spec" "sy_ApprovedApprovalID example_request = []"
    "sy_AgentSessionID example_request = []" "sy_CapabilityID example_request = ''accounting.recordPayment''"
    "InputHash (env_digest example_exec_env) example_input = Inr ''{\"amountMinor\":5}''" by code_simp+
  have s: "exec_scope example_exec_env ?c ''accounting.recordPayment'' example_input ?l True = Proceed example_spec" by code_simp
  have e: "exec_enter example_exec_env ?c ?l True 1700000000000 (q_db example_queue1) = Inr (q_db example_held)" by code_simp
  have k: "exec_checks example_exec_env example_exec_impl ?c ''accounting.recordPayment'' example_input example_spec True [] False (q_db example_held)
    = Proceed (example_pay 5, ''{\"amountMinor\":5}'')" by code_simp
  have q: "requiresApproval ?c ''accounting.recordPayment'' example_spec (example_pay 5) (q_db example_held) = (False, ''within policy'')" by code_simp
  have g: "exec_gate example_exec_env ?c ''accounting.recordPayment'' example_spec (example_pay 5) v h True [] False now (q_db example_held) =
      Inr (None, q_db example_held)" for v h now
    by (simp add: exec_gate_def q)
  have o: "OrganizationID ?c \<noteq> []" and r: "action_receipts (q_db example_held) = []" "IntentID ?c \<noteq> []" by code_simp+
  have d: "domain (q_db example_held) = 0" "ledger_events (q_db example_held) = []" "ledger_next_seq (q_db example_held) = 1" by code_simp+
  obtain row where "exec_effect example_exec_env example_exec_impl ?c ''accounting.recordPayment'' example_spec (example_pay 5)
      ''{\"amountMinor\":5}'' None 1700000000000 (q_db example_held) = Inr (example_outcome, example_done_db row)"
    using example_effect [OF r, of "''{\"amountMinor\":5}''" 1700000000000]
    by (auto simp: example_done_db_def example_job_receipt_def d)
  then show ?thesis
    by (intro exI [of _ row]) (simp add: ExecuteSystem_def execute_call_def executeWithFinalizer_def spec pre o e k g s)
qed

lemma example_job_again:
  "case ExecuteSystem example_exec_env example_exec_impl example_request example_input 1700000000000 (example_done_db row) of
     Inl _ \<Rightarrow> False | Inr (r, _) \<Rightarrow> res_OK r"
  by code_simp

theorem superseded_worker_changes_nothing_witness:
  "cj_FencingToken example_claimed < cj_FencingToken example_reclaimed \<and>
   snd (worker_step (exec_env.truncate example_approval_env) example_exec_impl example_worker
     \<lparr>ob_now = 1700000060000, ob_locked = [], ob_fault = NoFault, ob_leaseLost = False, ob_routine = None\<rparr>
     (Acknowledge example_claimed) example_queue2) = example_queue2"
proof -
  have i: "cj_ID example_reclaimed = cj_ID example_claimed" and d: "jobs_distinct (q_db example_queue)" by code_simp+
  show ?thesis
    by (rule superseded_worker_changes_nothing [OF example_claims_run(1) rtranclp.rtrancl_refl example_claims_run(2) i rtranclp.rtrancl_refl d]) simp
qed

theorem job_takes_effect_once_witness:
  "\<exists>row r db. ExecuteSystem example_exec_env example_exec_impl example_request example_input 1700000000000 (example_done_db row) = Inr (r, db) \<and>
     res_OK r \<and> res_Replayed r \<and> no_effect (example_done_db row) db"
proof -
  obtain row where 1: "ExecuteSystem example_exec_env example_exec_impl example_request example_input 1700000000000 (q_db example_queue1) =
     Inr (example_outcome, example_done_db row)" using example_job_runs by blast
  obtain r db where 2: "ExecuteSystem example_exec_env example_exec_impl example_request example_input 1700000000000 (example_done_db row) = Inr (r, db)"
    and ok: "res_OK r" using example_job_again [of row] by (auto split: sum.splits prod.splits)
  let ?q = "example_queue1\<lparr>q_db := example_done_db row\<rparr>"
  have d: "jobs_distinct (q_db example_queue1)" "res_OK example_outcome" by code_simp+
  have t: "exec_env.truncate example_approval_env = example_exec_env" by (rule example_truncate)
  have "no_effect (q_db ?q) db \<and> (res_OK r \<longrightarrow> res_Replayed r \<and> res_Data r =
      (if res_Replayed example_outcome then res_Data example_outcome else env_jsonb example_approval_env (res_Data example_outcome)))"
    by (rule job_takes_effect_once [of example_approval_env example_exec_impl example_claimed "''accounting.post''" example_input 1700000000000
          example_queue1 example_outcome "example_done_db row" ?q example_claimed "''accounting.post''" example_input 1700000000000 r db])
      (use 1 2 d in \<open>simp_all add: t example_request_def\<close>)
  with 2 ok show ?thesis by auto
qed

theorem claims_are_bounded_witness:
  "card {i. i < (2::nat) \<and> (\<exists>w locked now job. ClaimOne w locked now ([example_queue, example_queue1, example_queue2] ! i) =
      Inr (Some job, [example_queue, example_queue1, example_queue2] ! Suc i))} + 1 \<le> 3"
proof -
  let ?f = "\<lambda>i. [example_queue, example_queue1, example_queue2] ! i"
  have s: "queue_step example_approval_env example_exec_impl (?f i) (?f (Suc i))" if "i < 2" for i
    using that ClaimOne_step [OF example_claims_run(1)] ClaimOne_step [OF example_claims_run(2)] by (auto simp: less_2_cases_iff)
  have d: "jobs_distinct (q_db (?f 0))" by code_simp
  have "attempts_left (queue_jobs (?f 2)) = 1" "attempts_left (queue_jobs (?f 0)) = 3" "length (queue_jobs (?f 2)) = length (queue_jobs (?f 0))"
    by code_simp+
  with claims_are_bounded [where f = ?f and n = 2, OF s d] show ?thesis by simp
qed

section \<open>Which job is claimed\<close>

text \<open>
  A claim takes exactly the first due job: the row is visible to the worker, not held by another
  transaction, has attempts left and is due or abandoned, none such is available or created
  earlier; it gets one attempt and one token more and a lease from now on. Abandoned rows
  without attempts left are failed, and nothing else changes.
\<close>

theorem claim_takes_first_due:
  assumes "ClaimOne w locked now q = Inr (Some job, q')" and "jobs_distinct (q_db q)"
  shows "\<exists>j \<in> set (queue_jobs q). claimable (wk_routineAgentRunner w) locked now j \<and>
    (\<forall>k \<in> set (queue_jobs q). claimable (wk_routineAgentRunner w) locked now k \<longrightarrow> claim_before j k) \<and>
    job = claimed w (claim_row (wk_workerID w) (milliseconds (wk_lease w)) now j) \<and>
    q' = with_jobs (map (\<lambda>k. if k = j then claim_row (wk_workerID w) (milliseconds (wk_lease w)) now k
       else if exhausted_row (wk_routineAgentRunner w) now k then fail_row k else k) (queue_jobs q)) q"
  by (rule claim_exact [OF assms]) blast

theorem claim_takes_first_due_witness:
  "example_claimed = claimed example_worker (claim_row ''w'' 60000 1700000000000 example_pending_row)"
proof -
  have d: "jobs_distinct (q_db example_queue)" and j: "queue_jobs example_queue = [example_pending_row]"
    and w: "wk_workerID example_worker = ''w''" "milliseconds (wk_lease example_worker) = 60000"
    by code_simp+
  show ?thesis using claim_takes_first_due [OF example_claims_run(1) d] by (simp add: j w)
qed

section \<open>Progress\<close>

text \<open>
  C35. Well-formedness. Over every history of workers, heartbeats, crashes, enqueuers and the rest of
  the system, job rows keep distinct identifiers and stay well-formed: a known status, a lease with
  an owner exactly while the job is processed, and as many tokens as attempts, never more than
  allowed.
\<close>

theorem job_rows_stay_well_formed:
  assumes "queue_history env impl q q'" and "jobs_distinct (q_db q)" and "list_all job_wf (queue_jobs q)"
  shows "jobs_distinct (q_db q') \<and> list_all job_wf (queue_jobs q')"
  using queue_history_grows [OF assms(1,2)] assms(2,3) by (simp add: queue_grows_def)

theorem job_rows_stay_well_formed_witness:
  "queue_history example_approval_env example_exec_impl example_queue example_queue2 \<and> jobs_distinct (q_db example_queue2) \<and>
   list_all job_wf (queue_jobs example_queue2)"
proof -
  have h: "queue_history example_approval_env example_exec_impl example_queue example_queue2"
    using ClaimOne_step [OF example_claims_run(1)] ClaimOne_step [OF example_claims_run(2)]
    by (meson rtranclp.rtrancl_into_rtrancl rtranclp.rtrancl_refl)
  have "jobs_distinct (q_db example_queue)" "list_all job_wf (queue_jobs example_queue)" by code_simp+
  with h job_rows_stay_well_formed [OF h] show ?thesis by blast
qed

text \<open>A job whose type the worker knows.\<close>

definition supported :: "job_row \<Rightarrow> bool" where
  "supported j \<longleftrightarrow> map_of GoCapabilityPermissions (jb_type j) \<noteq> None \<or> jb_type j = routineJobType"

definition job_named :: "job_row \<Rightarrow> bool" where
  "job_named j \<longleftrightarrow> jb_id j \<noteq> [] \<and> jb_orgID j \<noteq> []"

lemma unsupported_claimable: "map_of GoCapabilityPermissions ''accounting.submitExpenseClaim'' = None"
  "''accounting.submitExpenseClaim'' \<in> set claimable_types"
  by code_simp+

lemma NewWorker_Inr:
  assumes "NewWorker workerID lease poll gate = Inr w"
  shows "1000 \<le> milliseconds (wk_lease w)" and "milliseconds (wk_lease w) \<le> 300000" and "wk_workerID w = workerID"
    and "workerID \<noteq> []" and "second \<le> wk_lease w" and "wk_lease w \<le> 5 * minute"
proof -
  from assms have w: "second \<le> wk_lease w" "wk_lease w \<le> 5 * minute" "wk_workerID w = workerID" "trim_space workerID \<noteq> []"
    by (auto simp: NewWorker_def Let_def split: if_splits)
  then show "wk_workerID w = workerID" "workerID \<noteq> []" "second \<le> wk_lease w" "wk_lease w \<le> 5 * minute" by auto
  from w have "1000000000 \<le> wk_lease w" "wk_lease w \<le> 300000000000" by (simp_all add: second_def minute_def)
  then show "1000 \<le> milliseconds (wk_lease w)" "milliseconds (wk_lease w) \<le> 300000"
    by (simp_all add: milliseconds_def go_quo_def)
qed

lemma ClaimOne_first:
  assumes w: "NewWorker workerID lease poll gate = Inr w" and j: "j \<in> set (queue_jobs q)" and c: "claimable (wk_routineAgentRunner w) locked now j"
  obtains k rows where "k \<in> set (queue_jobs q)" and "claimable (wk_routineAgentRunner w) locked now k"
    and "\<And>i. i \<in> set (queue_jobs q) \<Longrightarrow> claimable (wk_routineAgentRunner w) locked now i \<Longrightarrow> claim_before k i"
    and "claim_capability_job (wk_workerID w) (milliseconds (wk_lease w)) (wk_routineAgentRunner w) locked now (queue_jobs q) =
      Inr (Some (claim_row (wk_workerID w) (milliseconds (wk_lease w)) now k), rows)"
proof -
  let ?gate = "wk_routineAgentRunner w"
  let ?rows1 = "map (\<lambda>j. if exhausted_row ?gate now j then fail_row j else j) (queue_jobs q)"
  have eq: "i \<in> set ?rows1 \<and> claimable ?gate locked now i \<longleftrightarrow> i \<in> set (queue_jobs q) \<and> claimable ?gate locked now i" for i
    using claimable_not_exhausted by (auto simp: image_iff intro: bexI [of _ i])
  have "filter (claimable ?gate locked now) ?rows1 \<noteq> []"
    using eq [of j] j c by (auto simp: filter_empty_conv)
  then obtain k where k: "first_claimable (filter (claimable ?gate locked now) ?rows1) = Some k"
    using first_claimable_None by (metis not_None_eq)
  note f = first_claimable_Some [OF k, unfolded set_filter mem_Collect_eq]
  have m: "k \<in> set (queue_jobs q)" "claimable ?gate locked now k" using f(1) eq by blast+
  have "\<And>i. i \<in> set (queue_jobs q) \<Longrightarrow> claimable ?gate locked now i \<Longrightarrow> claim_before k i" using f(2) eq by blast
  from that [OF m this] show thesis
    using NewWorker_Inr(1,2) [OF w] by (simp add: claim_capability_job_def k Let_def)
qed

text \<open>
  C37. Progress. Whenever a job is due and not held by another transaction, a worker that polls
  claims a job, provided that every due job has a type the worker knows.
\<close>

theorem due_job_is_claimed:
  assumes "NewWorker workerID lease poll gate = Inr w"
    and "list_all (\<lambda>k. job_wf k \<and> job_named k \<and> (claimable (wk_routineAgentRunner w) locked now k \<longrightarrow> supported k)) (queue_jobs q)"
    and "j \<in> set (queue_jobs q)" and "claimable (wk_routineAgentRunner w) locked now j"
  shows "\<exists>job q'. ClaimOne w locked now q = Inr (Some job, q')"
proof -
  obtain k rows where k: "k \<in> set (queue_jobs q)" "claimable (wk_routineAgentRunner w) locked now k"
    and c: "claim_capability_job (wk_workerID w) (milliseconds (wk_lease w)) (wk_routineAgentRunner w) locked now (queue_jobs q) =
      Inr (Some (claim_row (wk_workerID w) (milliseconds (wk_lease w)) now k), rows)"
    by (rule ClaimOne_first [OF assms(1,3,4)])
  have "job_wf k" "job_named k" "supported k" using assms(2) k by (auto simp: list_all_iff)
  moreover have "jb_attempts k < jb_maxAttempts k" using k(2) by (auto simp: claimable_def)
  ultimately show ?thesis by (auto simp: ClaimOne_def c claimed_def claim_row_def Let_def job_wf_def job_named_def supported_def)
qed

theorem due_job_is_claimed_witness: "\<exists>job q'. ClaimOne example_worker [] 1700000000000 example_queue = Inr (Some job, q')"
proof -
  have w: "NewWorker ''w'' 0 0 False = Inr example_worker" and j: "queue_jobs example_queue = [example_pending_row]" by code_simp+
  have "job_wf example_pending_row" "job_named example_pending_row" "supported example_pending_row" by code_simp+
  then have ok: "list_all (\<lambda>k. job_wf k \<and> job_named k \<and> (claimable (wk_routineAgentRunner example_worker) [] 1700000000000 k \<longrightarrow> supported k))
    (queue_jobs example_queue)" by (simp add: j)
  have c: "claimable (wk_routineAgentRunner example_worker) [] 1700000000000 example_pending_row" by code_simp
  show ?thesis by (rule due_job_is_claimed [OF w ok _ c]) (simp add: j)
qed

text \<open>
  C38. The claim function also serves \<^verbatim>\<open>accounting.submitExpenseClaim\<close>, which the worker refuses after
  claiming it. Such a job, once it is the first due one, stops every worker for every
  organization: each poll claims it, fails and rolls back, whatever the time and whoever polls.
\<close>

theorem unsupported_job_blocks_queue:
  assumes "NewWorker workerID lease poll gate = Inr w" and "p \<in> set (queue_jobs q)" and "jb_type p = ''accounting.submitExpenseClaim''"
    and "jb_status p = ''pending''" and "jb_attempts p < jb_maxAttempts p" and "jb_availableAt p \<le> now" and "jb_id p \<notin> set locked"
    and "list_all (\<lambda>k. k = p \<or> \<not> claim_before k p) (queue_jobs q)" and "job_wf p" and "job_named p"
  shows "ClaimOne w locked now q = Inl (''claim function returned unsupported Go job type '' @ quoted ''accounting.submitExpenseClaim'') \<and>
    worker_step env impl w \<lparr>ob_now = now, ob_locked = locked, ob_fault = fault, ob_leaseLost = lost, ob_routine = routine\<rparr> Idle q = (Idle, q)"
proof -
  have c: "claimable (wk_routineAgentRunner w) locked now p"
    using assms(3-7) unsupported_claimable(2) by (simp add: claimable_def job_visible_def routineJobType_def)
  obtain k rows where k: "k \<in> set (queue_jobs q)" "\<And>i. i \<in> set (queue_jobs q) \<Longrightarrow> claimable (wk_routineAgentRunner w) locked now i \<Longrightarrow> claim_before k i"
    and e: "claim_capability_job (wk_workerID w) (milliseconds (wk_lease w)) (wk_routineAgentRunner w) locked now (queue_jobs q) =
      Inr (Some (claim_row (wk_workerID w) (milliseconds (wk_lease w)) now k), rows)"
    by (rule ClaimOne_first [OF assms(1,2) c]) blast
  have "k = p" using assms(8) k(1) k(2) [OF assms(2) c] by (auto simp: list_all_iff)
  then have "ClaimOne w locked now q = Inl (''claim function returned unsupported Go job type '' @ quoted ''accounting.submitExpenseClaim'')"
    using assms(3,5,9,10) e unsupported_claimable(1)
    by (simp add: ClaimOne_def claimed_def claim_row_def job_wf_def job_named_def routineJobType_def Let_def)
  then show ?thesis by (cases fault) (simp_all add: after_def)
qed

definition example_blocker :: job_row where
  "example_blocker = example_pending_row\<lparr>jb_id := example_user, jb_type := ''accounting.submitExpenseClaim'', jb_availableAt := 1600000000000\<rparr>"

theorem unsupported_job_blocks_queue_witness:
  "\<exists>e. ClaimOne example_worker [] 1700000000000 (with_jobs [example_pending_row, example_blocker] example_queue) = Inl e"
proof -
  let ?q = "with_jobs [example_pending_row, example_blocker] example_queue"
  have w: "NewWorker ''w'' 0 0 False = Inr example_worker" by code_simp
  have h: "jb_type example_blocker = ''accounting.submitExpenseClaim''" "jb_status example_blocker = ''pending''"
    "jb_attempts example_blocker < jb_maxAttempts example_blocker" "jb_availableAt example_blocker \<le> 1700000000000"
    "jb_id example_blocker \<notin> set []" "list_all (\<lambda>k. k = example_blocker \<or> \<not> claim_before k example_blocker) (queue_jobs ?q)"
    "job_wf example_blocker" "job_named example_blocker"
    by code_simp+
  have p: "example_blocker \<in> set (queue_jobs ?q)" by simp
  from unsupported_job_blocks_queue [OF w p h] show ?thesis by blast
qed

section \<open>Retries\<close>

text \<open>The wait after the n-th failed attempt doubles from one second and stops at five minutes.\<close>

theorem retry_delay_doubles:
  "retryDelay attempts = (if attempts \<le> 1 then second else min (second * 2 ^ nat (attempts - 1)) (5 * minute)) \<and>
   second \<le> retryDelay attempts \<and> retryDelay attempts \<le> 5 * minute"
proof -
  have "second * 2 ^ nat (attempts - 1) \<ge> 5 * minute" if "9 \<le> attempts - 1"
  proof -
    have "(2::int) ^ 9 \<le> 2 ^ nat (attempts - 1)" using that by (intro power_increasing) auto
    then show ?thesis by (simp add: second_def minute_def)
  qed
  moreover have "second \<le> second * 2 ^ n" for n by (simp add: second_def)
  ultimately show ?thesis by (auto simp: retryDelay_def maxBackoff_def Let_def min_def) (auto simp: second_def minute_def)
qed

section \<open>A pass ends\<close>

fun stage_rank :: "stage \<Rightarrow> nat" where
  "stage_rank Idle = 0"
| "stage_rank (Acknowledge _) = 1"
| "stage_rank (Retry _ _ _) = 1"
| "stage_rank (FailRun _ _ _ _) = 2"
| "stage_rank (FailStep _ _ _ _) = 3"
| "stage_rank (Commit _ _ _ _ _) = 2"
| "stage_rank (FindReceipt _ _ _ _) = 3"
| "stage_rank (Approve _ _) = 4"
| "stage_rank (RunRoutine _) = 5"
| "stage_rank (Act _ _ _) = 5"
| "stage_rank (Load _) = 6"
| "stage_rank (MarkStep _ _ _) = 7"
| "stage_rank (MarkRun _ _ _) = 8"

lemma stage_bounds:
  "stage_rank (failure_stage leaseLost job message) \<le> 3" "stage_rank (approved_stage job r) \<le> 3"
  "stage_rank (result_stage leaseLost job r) \<le> 4" "stage_rank (payload_stage leaseLost job payload) \<le> 5"
  "stage_rank (start_stage job) \<le> 8"
proof -
  show f: "stage_rank (failure_stage leaseLost job message) \<le> 3" for message
    by (auto simp: failure_stage_def Let_def split: option.splits prod.splits)
  show a: "stage_rank (approved_stage job r) \<le> 3" by (auto simp: approved_stage_def split: option.splits prod.splits)
  show "stage_rank (result_stage leaseLost job r) \<le> 4"
    using f [of "res_Error r"] f [of "''capability failed''"] a by (auto simp: result_stage_def)
  show "stage_rank (payload_stage leaseLost job payload) \<le> 5"
    using f [of "''unknown job capability: '' @ cj_Type job"] by (auto simp: payload_stage_def split: option.splits)
  show "stage_rank (start_stage job) \<le> 8" by (auto simp: start_stage_def split: option.splits prod.splits)
qed

lemma worker_step_rank:
  assumes "stage \<noteq> Idle"
  shows "stage_rank (fst (worker_step env impl w ob stage q)) < stage_rank stage"
  using assms le_less_trans [OF stage_bounds(1)] le_less_trans [OF stage_bounds(2)] le_less_trans [OF stage_bounds(3)]
    le_less_trans [OF stage_bounds(4)]
  by (cases stage) (auto simp: after_def split: option.splits sum.splits)

definition run_pass ::
  "exec_env \<Rightarrow> 'd capability_impl \<Rightarrow> worker \<Rightarrow> observation list \<Rightarrow> stage \<times> 'd queue \<Rightarrow> stage \<times> 'd queue" where
  "run_pass env impl w obs start =
     foldl (\<lambda>(stage, q) ob. if stage = Idle then (Idle, q) else worker_step env impl w ob stage q) start obs"

text \<open>
  C39. A pass over a claimed job ends: whatever the time, faults and lost leases at each of its
  transactions, the worker is back at polling after at most eight of them.
\<close>

theorem pass_terminates:
  assumes "8 \<le> length obs"
  shows "fst (run_pass env impl w obs (start_stage job, q)) = Idle"
proof -
  let ?go = "\<lambda>(stage, q) ob. if stage = Idle then (Idle, q) else worker_step env impl w ob stage q"
  have "stage_rank (fst (foldl ?go s obs)) \<le> stage_rank (fst s) - length obs" for s obs
  proof (induction obs arbitrary: s)
    case (Cons ob obs)
    obtain stage q where s: "s = (stage, q)" by (cases s)
    have "stage_rank (fst (?go s ob)) \<le> stage_rank (fst s) - 1"
      using worker_step_rank [of stage env impl w ob q] by (auto simp: s)
    with Cons [of "?go s ob"] show ?case by simp
  qed simp
  from this [of "(start_stage job, q)" obs] stage_bounds(5) [of job] assms
  have "stage_rank (fst (foldl ?go (start_stage job, q) obs)) = 0" by simp
  moreover have "stage_rank stage = 0 \<Longrightarrow> stage = Idle" for stage by (cases stage) auto
  ultimately show ?thesis by (simp add: run_pass_def)
qed

theorem pass_terminates_witness:
  "fst (run_pass example_exec_env example_exec_impl example_worker
     (replicate 8 \<lparr>ob_now = 1700000000000, ob_locked = [], ob_fault = Aborted ''timeout'', ob_leaseLost = False, ob_routine = None\<rparr>)
     (start_stage example_claimed, example_queue1)) = Idle"
  by (rule pass_terminates) simp

end
