(* ===== verification/RunHistory.thy ===== *)
theory RunHistory
  imports Runs JobQueue
begin

text \<open>
  Durable runs over time: worker threads at their stages, crashes, heartbeats, dispatches and the
  rest of the system interleave. A step is never enqueued before its predecessor has taken
  effect, and never twice.
\<close>

section \<open>Threads\<close>

type_synonym 'd system = "'d queue \<times> (worker \<times> stage) list"

inductive run_step :: "approval_env \<Rightarrow> dispatch_env \<Rightarrow> 'd capability_impl \<Rightarrow> 'd system \<Rightarrow> 'd system \<Rightarrow> bool" for env de impl where
  advance: "i < length threads \<Longrightarrow> threads ! i = (w, stage) \<Longrightarrow> worker_step (exec_env.truncate env) impl w ob stage q = (stage', q') \<Longrightarrow>
     run_step env de impl (q, threads) (q', threads[i := (w, stage')])"
| crash: "i < length threads \<Longrightarrow> threads ! i = (w, stage) \<Longrightarrow> run_step env de impl (q, threads) (q, threads[i := (w, Idle)])"
| join: "run_step env de impl (q, threads) (q, threads @ [(w, Idle)])"
| heartbeat: "(w, stage) \<in> set threads \<Longrightarrow> stage_job stage = Some job \<Longrightarrow> renewLease w job now q = Inr (owned, q') \<Longrightarrow>
     run_step env de impl (q, threads) (q', threads)"
| elsewhere: "approval_step env impl (q_db q) db' \<Longrightarrow> run_step env de impl (q, threads) (q\<lparr>q_db := db'\<rparr>, threads)"
| dispatch: "CreateAndDispatch (exec_env.truncate env) de input now q = Inr (r, q') \<Longrightarrow> run_step env de impl (q, threads) (q', threads)"
| enqueue: "insert_job (exec_env.truncate env) orgID capabilityID payload None None approvalID now q = Inr q' \<Longrightarrow>
     run_step env de impl (q, threads) (q', threads)"

abbreviation run_history where "run_history env de impl \<equiv> (run_step env de impl)\<^sup>*\<^sup>*"

section \<open>What holds of the tables\<close>

definition job_key :: "string \<Rightarrow> string \<Rightarrow> string" where "job_key orgID jobID = orgID @ '':'' @ jobID"

definition has_receipt :: "string \<Rightarrow> string \<Rightarrow> 'd queue \<Rightarrow> bool" where
  "has_receipt orgID jobID q \<longleftrightarrow> loadReceipt orgID (job_key orgID jobID) (q_db q) \<noteq> None"

text \<open>The step has taken effect: it points to the receipt that a job of this step left.\<close>

definition step_done :: "'d queue \<Rightarrow> run_step_row \<Rightarrow> bool" where
  "step_done q s \<longleftrightarrow> (\<exists>j \<in> set (queue_jobs q). step_job (rs_orgID s) (rs_runID s) (rs_stepIndex s) j \<and>
     rs_receiptID s = Some (rs_orgID s, job_key (rs_orgID s) (jb_id j)) \<and> has_receipt (rs_orgID s) (jb_id j) q)"

definition recorded :: "'d queue \<Rightarrow> string \<Rightarrow> string \<Rightarrow> int \<Rightarrow> bool" where
  "recorded q orgID runID i \<longleftrightarrow> (\<exists>s \<in> set (agent_run_steps q). step_of orgID runID i s \<and> rs_receiptID s \<noteq> None)"

definition steps_ok :: "'d queue \<Rightarrow> bool" where
  "steps_ok q \<longleftrightarrow> (\<forall>s \<in> set (agent_run_steps q). (rs_status s = ''committed'' \<longrightarrow> rs_receiptID s \<noteq> None) \<and>
     (rs_receiptID s \<noteq> None \<longrightarrow> step_done q s))"

definition order_ok :: "'d queue \<Rightarrow> bool" where
  "order_ok q \<longleftrightarrow> (\<forall>j \<in> set (queue_jobs q). \<forall>runID i. jb_runID j = Some runID \<longrightarrow> jb_runStepIndex j = Some i \<longrightarrow> 0 < i \<longrightarrow>
     recorded q (jb_orgID j) runID (i - 1))"

definition unique_ok :: "'d queue \<Rightarrow> bool" where
  "unique_ok q \<longleftrightarrow> (\<forall>orgID runID i. \<forall>j \<in> set (queue_jobs q). \<forall>k \<in> set (queue_jobs q).
     step_job orgID runID i j \<longrightarrow> step_job orgID runID i k \<longrightarrow> j = k)"

definition runs_ok :: "'d queue \<Rightarrow> bool" where
  "runs_ok q \<longleftrightarrow> jobs_distinct (q_db q) \<and> steps_ok q \<and> order_ok q \<and> unique_ok q"

lemmas run_defs = runs_ok_def steps_ok_def order_ok_def unique_ok_def

lemma step_job_evolves: "job_evolves j j' \<Longrightarrow> step_job orgID runID i j' = step_job orgID runID i j"
  by (auto simp: step_job_def job_evolves_def dest: same_job_fields)

lemma has_receipt_grows: "has_receipt orgID jobID q \<Longrightarrow> queue_grows q q' \<Longrightarrow> has_receipt orgID jobID q'"
  by (auto simp: has_receipt_def queue_grows_def intro: loadReceipt_grows)

lemma step_done_grows:
  assumes "step_done q s" and g: "queue_grows q q'"
  shows "step_done q' s"
proof -
  from assms(1) obtain j where j: "j \<in> set (queue_jobs q)" "step_job (rs_orgID s) (rs_runID s) (rs_stepIndex s) j"
    "rs_receiptID s = Some (rs_orgID s, job_key (rs_orgID s) (jb_id j))" "has_receipt (rs_orgID s) (jb_id j) q"
    by (auto simp: step_done_def)
  from g have "jobs_evolve (queue_jobs q) (queue_jobs q')" by (simp add: queue_grows_def)
  then obtain j' where j': "j' \<in> set (queue_jobs q')" "job_evolves j j'" using j(1) by (rule rows_evolve_member)
  moreover have "jb_id j' = jb_id j" using j'(2) by (auto dest: job_evolves_same same_job_fields(1))
  ultimately show ?thesis
    unfolding step_done_def using j step_job_evolves [OF j'(2)] has_receipt_grows [OF j(4) g] by (auto intro!: bexI [of _ j'])
qed

lemma all2_member:
  assumes "list_all2 E xs ys" and "y \<in> set ys"
  obtains x where "x \<in> set xs" and "E x y"
  using assms by (auto simp: list_all2_conv_all_nth in_set_conv_nth) blast

text \<open>Transactions that neither enqueue a job nor touch a step keep it all.\<close>

lemma runs_ok_keeps:
  assumes ok: "runs_ok q" and g: "queue_grows q q'" and steps: "agent_run_steps q' = agent_run_steps q"
    and len: "length (queue_jobs q') = length (queue_jobs q)"
  shows "runs_ok q'"
proof -
  have all2: "list_all2 job_evolves (queue_jobs q) (queue_jobs q')"
    using g len by (auto simp: queue_grows_def intro: rows_evolve_same_length)
  have "steps_ok q'" using ok step_done_grows [OF _ g] by (simp add: run_defs steps)
  moreover have "order_ok q'"
    unfolding order_ok_def
  proof (intro ballI allI impI)
    fix j' runID i
    assume h: "j' \<in> set (queue_jobs q')" "jb_runID j' = Some runID" "jb_runStepIndex j' = Some i" "0 < i"
    from all2 h(1) obtain j where j: "j \<in> set (queue_jobs q)" "job_evolves j j'" by (rule all2_member)
    note f = same_job_fields [OF job_evolves_same [OF j(2)]]
    from ok j(1) h f show "recorded q' (jb_orgID j') runID (i - 1)" by (auto simp: run_defs recorded_def steps)
  qed
  moreover have "unique_ok q'"
    unfolding unique_ok_def
  proof (intro ballI allI impI)
    fix orgID runID i j' k'
    assume h: "j' \<in> set (queue_jobs q')" "k' \<in> set (queue_jobs q')" "step_job orgID runID i j'" "step_job orgID runID i k'"
    from all2 h(1) obtain j where j: "j \<in> set (queue_jobs q)" "job_evolves j j'" by (rule all2_member)
    from all2 h(2) obtain k where k: "k \<in> set (queue_jobs q)" "job_evolves k k'" by (rule all2_member)
    have "j = k" using ok j k h step_job_evolves [OF j(2)] step_job_evolves [OF k(2)] by (auto simp: run_defs)
    then have "jb_id j' = jb_id k'"
      using same_job_fields(1) [OF job_evolves_same [OF j(2)]] same_job_fields(1) [OF job_evolves_same [OF k(2)]] by simp
    then show "j' = k'" using ok g h(1,2) unique_job by (auto simp: run_defs queue_grows_def)
  qed
  ultimately show ?thesis using ok g by (simp add: run_defs queue_grows_def)
qed

lemma insert_job_Inr:
  assumes "insert_job env orgID capabilityID payload runID i approvalID now q = Inr q'"
  obtains row where "queue_jobs q' = queue_jobs q @ [row]" and "jb_orgID row = orgID" and "jb_runID row = runID" and "jb_runStepIndex row = i"
    and "agent_run_steps q' = agent_run_steps q" and "agent_runs q' = agent_runs q"
  using assms by (auto simp: insert_job_def Let_def split: if_splits)

lemma insert_job_runs_ok:
  assumes ok: "runs_ok q" and ins: "insert_job env orgID capabilityID payload runID i approvalID now q = Inr q'"
    and new: "runID = None \<or> i = None \<or>
      (\<exists>r n. runID = Some r \<and> i = Some n \<and> (\<forall>j \<in> set (queue_jobs q). \<not> step_job orgID r n j) \<and> (0 < n \<longrightarrow> recorded q orgID r (n - 1)))"
  shows "runs_ok q'"
proof -
  from ins obtain row where rows: "queue_jobs q' = queue_jobs q @ [row]" and row: "jb_orgID row = orgID" "jb_runID row = runID" "jb_runStepIndex row = i"
    and steps: "agent_run_steps q' = agent_run_steps q" by (rule insert_job_Inr)
  have g: "queue_grows q q'" by (rule insert_job_grows [OF ins])
  have rec: "recorded q' = recorded q" by (simp add: recorded_def steps fun_eq_iff)
  have "steps_ok q'" using ok step_done_grows [OF _ g] by (simp add: run_defs steps)
  moreover have "order_ok q'" using ok new row by (auto simp: run_defs rows rec)
  moreover have "unique_ok q'" using ok new row by (auto simp: run_defs rows step_job_def)
  ultimately show ?thesis using ok g by (simp add: run_defs queue_grows_def)
qed

lemma runs_ok_agent_runs [simp]: "runs_ok (q\<lparr>agent_runs := runs\<rparr>) = runs_ok q"
  by (simp add: run_defs step_done_def has_receipt_def recorded_def)

definition job_claimed :: "'d queue \<Rightarrow> claimedJob \<Rightarrow> bool" where
  "job_claimed q job \<longleftrightarrow> (\<exists>j \<in> set (queue_jobs q). jb_id j = cj_ID job \<and> jb_orgID j = cj_OrgID job \<and> jb_runID j = cj_RunID job \<and>
     jb_runStepIndex j = cj_RunStepIndex job)"

text \<open>What a worker knows when it marks a step committed.\<close>

definition commits_effect :: "'d queue \<Rightarrow> claimedJob \<Rightarrow> string \<Rightarrow> int \<Rightarrow> (string \<times> string) option \<Rightarrow> bool" where
  "commits_effect q job runID i receiptID \<longleftrightarrow> job_claimed q job \<and> has_receipt (cj_OrgID job) (cj_ID job) q \<and>
     durableStep job = Some (runID, i) \<and> receiptID = Some (cj_OrgID job, job_key (cj_OrgID job) (cj_ID job))"

lemma durableStep_Some: "durableStep job = Some (runID, i) \<longleftrightarrow> cj_RunID job = Some runID \<and> cj_RunStepIndex job = Some i"
  by (auto simp: durableStep_def split: option.splits)

lemma job_claimed_grows:
  assumes "job_claimed q job" and "queue_grows q q'"
  shows "job_claimed q' job"
proof -
  from assms(1) obtain j where j: "j \<in> set (queue_jobs q)" "jb_id j = cj_ID job" "jb_orgID j = cj_OrgID job" "jb_runID j = cj_RunID job"
    "jb_runStepIndex j = cj_RunStepIndex job" by (auto simp: job_claimed_def)
  from assms(2) have "jobs_evolve (queue_jobs q) (queue_jobs q')" by (simp add: queue_grows_def)
  then obtain j' where "j' \<in> set (queue_jobs q')" "job_evolves j j'" using j(1) by (rule rows_evolve_member)
  then show ?thesis
    using j same_job_fields [OF job_evolves_same] by (auto simp: job_claimed_def intro!: bexI [of _ j'])
qed

lemma commits_effect_grows: "commits_effect q job runID i receiptID \<Longrightarrow> queue_grows q q' \<Longrightarrow> commits_effect q' job runID i receiptID"
  by (auto simp: commits_effect_def intro: job_claimed_grows has_receipt_grows)

lemma update_steps_runs_ok:
  assumes ok: "runs_ok q" and c: "status = ''committed'' \<Longrightarrow> commits_effect q job runID i receiptID"
  shows "runs_ok (q\<lparr>agent_run_steps := map (\<lambda>s. if step_of (cj_OrgID job) runID i s
    then transition_row status out m receiptID a now s else s) (agent_run_steps q)\<rparr>)" (is "runs_ok ?q'")
proof -
  let ?t = "\<lambda>s. if step_of (cj_OrgID job) runID i s then transition_row status out m receiptID a now s else s"
  have keys: "rs_orgID (?t s) = rs_orgID s" "rs_runID (?t s) = rs_runID s" "rs_stepIndex (?t s) = rs_stepIndex s" for s
    by (simp_all add: transition_row_def)
  have done': "step_done ?q' = step_done q" by (simp add: step_done_def has_receipt_def fun_eq_iff)
  have kept: "rs_receiptID s \<noteq> None \<Longrightarrow> rs_receiptID (?t s) \<noteq> None" for s
    using c by (auto simp: transition_row_def commits_effect_def)
  have "steps_ok ?q'"
    unfolding steps_ok_def done'
  proof
    fix s' assume "s' \<in> set (agent_run_steps ?q')"
    then obtain s where s: "s \<in> set (agent_run_steps q)" "s' = ?t s" by auto
    with ok have old: "rs_status s = ''committed'' \<longrightarrow> rs_receiptID s \<noteq> None" "rs_receiptID s \<noteq> None \<longrightarrow> step_done q s"
      by (auto simp: run_defs)
    show "(rs_status s' = ''committed'' \<longrightarrow> rs_receiptID s' \<noteq> None) \<and> (rs_receiptID s' \<noteq> None \<longrightarrow> step_done q s')"
    proof (cases "step_of (cj_OrgID job) runID i s \<and> status = ''committed''")
      case True
      then have "commits_effect q job runID i receiptID" using c by simp
      with True show ?thesis
        by (auto simp: s(2) transition_row_def commits_effect_def job_claimed_def durableStep_Some step_done_def step_job_def step_of_def)
    qed (use old in \<open>auto simp: s(2) transition_row_def step_done_def\<close>)
  qed
  moreover have "recorded q orgID r n \<Longrightarrow> recorded ?q' orgID r n" for orgID r n
    using kept keys by (fastforce simp: recorded_def step_of_def)
  then have "order_ok ?q'" using ok by (auto simp: run_defs)
  ultimately show ?thesis using ok by (simp add: run_defs)
qed

lemma find_Some_holds: "find P xs = Some x \<Longrightarrow> P x"
  by (induction xs) (auto split: if_splits)

lemma trigger_runs_ok:
  assumes ok: "runs_ok q" and rec: "recorded q orgID runID i"
    and t: "complete_durable_run_after_final_step env orgID runID i now q = Inr q'"
  shows "runs_ok q'"
proof -
  obtain q1 where 1: "q1 = q \<or> (\<exists>next. step_of orgID runID (i + 1) next \<and>
      \<not> list_ex (\<lambda>j. jb_orgID j = orgID \<and> jb_runID j = Some runID \<and> jb_runStepIndex j = Some (rs_stepIndex next)) (queue_jobs q) \<and>
      insert_job env orgID (rs_capabilityID next) (rs_input next) (Some runID) (Some (rs_stepIndex next)) (rs_approvalID next) now q = Inr q1)"
    and 2: "q' = q1 \<or> (\<exists>runs. q' = q1\<lparr>agent_runs := runs\<rparr>)"
  proof -
    let ?inner = "case (find (run_of orgID runID) (agent_runs q), find (\<lambda>s. step_of orgID runID (i + 1) s \<and> rs_status s = ''pending'') (agent_run_steps q)) of
          (Some run, Some next) \<Rightarrow>
            if run_terminal (rn_status run) \<or>
               list_ex (\<lambda>j. jb_orgID j = orgID \<and> jb_runID j = Some runID \<and> jb_runStepIndex j = Some (rs_stepIndex next)) (queue_jobs q)
            then Inr q
            else insert_job env orgID (rs_capabilityID next) (rs_input next) (Some runID) (Some (rs_stepIndex next)) (rs_approvalID next) now q
        | _ \<Rightarrow> Inr q"
    from t obtain q1 where inner: "?inner = Inr q1" and rest: "q' = q1 \<or> (\<exists>runs. q' = q1\<lparr>agent_runs := runs\<rparr>)"
      unfolding complete_durable_run_after_final_step_def by (rule bind_result_InrE) (auto simp: Let_def split: if_splits)
    show thesis by (rule that [OF _ rest]) (use inner in \<open>auto split: option.splits if_splits dest: find_Some_holds\<close>)
  qed
  have "runs_ok q1"
    using 1
  proof
    assume "\<exists>next. step_of orgID runID (i + 1) next \<and>
      \<not> list_ex (\<lambda>j. jb_orgID j = orgID \<and> jb_runID j = Some runID \<and> jb_runStepIndex j = Some (rs_stepIndex next)) (queue_jobs q) \<and>
      insert_job env orgID (rs_capabilityID next) (rs_input next) (Some runID) (Some (rs_stepIndex next)) (rs_approvalID next) now q = Inr q1"
    then obtain s where so: "step_of orgID runID (i + 1) s" and s:
      "\<not> list_ex (\<lambda>j. jb_orgID j = orgID \<and> jb_runID j = Some runID \<and> jb_runStepIndex j = Some (rs_stepIndex s)) (queue_jobs q)"
      and ins: "insert_job env orgID (rs_capabilityID s) (rs_input s) (Some runID) (Some (rs_stepIndex s)) (rs_approvalID s) now q = Inr q1"
      by blast
    have "rs_stepIndex s = i + 1" using so by (simp add: step_of_def)
    with s rec show ?thesis by (intro insert_job_runs_ok [OF ok ins]) (auto simp: list_ex_iff step_job_def)
  qed (use ok in simp)
  with 2 show ?thesis by auto
qed

lemma transitionStep_runs_ok:
  assumes ok: "runs_ok q" and t: "transitionStep env job runID i status out m receiptID a now q = Inr q'"
    and c: "status = ''committed'' \<Longrightarrow> commits_effect q job runID i receiptID"
  shows "runs_ok q'"
  using t unfolding transitionStep_def
proof (rule withCurrentJobLeaseTx_Inr)
  fix rows
  let ?q1 = "with_jobs rows q"
  let ?q2 = "?q1\<lparr>agent_run_steps := map (\<lambda>s. if step_of (cj_OrgID job) runID i s
    then transition_row status out m receiptID a now s else s) (agent_run_steps ?q1)\<rparr>"
  assume g: "queue_grows q ?q1"
    and f: "(let mine = step_of (cj_OrgID job) runID i;
           q1 = ?q1\<lparr>agent_run_steps := map (\<lambda>s. if mine s then transition_row status out m receiptID a now s else s)
                  (agent_run_steps ?q1)\<rparr>
       in if status = ''committed'' \<and> list_ex (\<lambda>s. mine s \<and> rs_status s \<noteq> ''committed'') (agent_run_steps ?q1)
          then complete_durable_run_after_final_step env (cj_OrgID job) runID i now q1 else Inr q1) = Inr q'"
    and rows: "rows = map (\<lambda>j. if holds_lease job now j
             then j\<lparr>jb_leaseExpiresAt := map_option (max (now + cj_LeaseExtensionMillis job)) (jb_leaseExpiresAt j)\<rparr> else j) (queue_jobs q)"
  have "runs_ok ?q1" by (rule runs_ok_keeps [OF ok g]) (simp_all add: rows)
  then have 2: "runs_ok ?q2" by (rule update_steps_runs_ok) (use c g in \<open>auto intro: commits_effect_grows\<close>)
  show ?thesis
  proof (cases "status = ''committed'' \<and> list_ex (\<lambda>s. step_of (cj_OrgID job) runID i s \<and> rs_status s \<noteq> ''committed'') (agent_run_steps ?q1)")
    case True
    then obtain s where "s \<in> set (agent_run_steps ?q1)" "step_of (cj_OrgID job) runID i s" by (auto simp: list_ex_iff)
    moreover have "step_of (cj_OrgID job) runID i (transition_row status out m receiptID a now s)"
      "rs_receiptID (transition_row status out m receiptID a now s) \<noteq> None"
      using True c \<open>step_of (cj_OrgID job) runID i s\<close> by (auto simp: step_of_def transition_row_def commits_effect_def)
    ultimately have "recorded ?q2 (cj_OrgID job) runID i" unfolding recorded_def by fastforce
    moreover have "complete_durable_run_after_final_step env (cj_OrgID job) runID i now ?q2 = Inr q'"
      using f True by (simp only: Let_def if_True simp_thms)
    ultimately show ?thesis by (rule trigger_runs_ok [OF 2])
  qed (use f 2 in \<open>auto simp: Let_def split: if_splits\<close>)
qed

section \<open>Dispatching\<close>

lemma insert_run_keeps:
  assumes "insert_run input composition q = Inr (x, q')"
  shows "queue_jobs q' = queue_jobs q" and "queue_grows q q'" and "runs_ok q' = runs_ok q"
proof -
  have "q' = q \<or> (\<exists>runs. q' = q\<lparr>agent_runs := runs\<rparr>)"
    using assms by (auto simp: insert_run_def split: if_splits)
  then show "queue_jobs q' = queue_jobs q" "queue_grows q q'" "runs_ok q' = runs_ok q"
    by (auto simp: queue_grows_runs)
qed

lemma append_step_runs_ok:
  assumes "runs_ok q" and "rs_status s \<noteq> ''committed''" and "rs_receiptID s = None"
  shows "runs_ok (q\<lparr>agent_run_steps := agent_run_steps q @ [s]\<rparr>)" (is "runs_ok ?q'")
proof -
  have d: "step_done ?q' = step_done q" by (simp add: step_done_def has_receipt_def fun_eq_iff)
  have "steps_ok ?q'" using assms by (simp add: run_defs d)
  moreover have "recorded q orgID r n \<Longrightarrow> recorded ?q' orgID r n" for orgID r n by (auto simp: recorded_def)
  then have "order_ok ?q'" using assms(1) by (auto simp: run_defs)
  ultimately show ?thesis using assms(1) by (simp add: run_defs)
qed

lemma insert_step_keeps:
  assumes "insert_step env input index step q = Inr (x, q')" and "runs_ok q"
  shows "queue_grows q q'" and "runs_ok q'"
proof -
  have q': "q' = q \<or> (\<exists>hash. q' = q\<lparr>agent_run_steps := agent_run_steps q @ [new_step env input index step hash]\<rparr>)"
    using assms(1) by (auto simp: insert_step_def split: if_splits sum.splits option.splits)
  then show "queue_grows q q'" by (auto simp: queue_grows_runs)
  from q' show "runs_ok q'" using assms(2) by (auto intro: append_step_runs_ok simp: new_step_def)
qed

lemma enqueue_step_keeps:
  assumes e: "enqueue_step env input index step now q = Inr q'" and ok: "runs_ok q"
    and rec: "0 < index \<Longrightarrow> recorded q (sd_OrgID input) (sd_RunID input) (int index - 1)"
  shows "queue_grows q q'" and "runs_ok q'"
proof -
  from e consider "q' = q" | "filter (step_job (sd_OrgID input) (sd_RunID input) (int index)) (queue_jobs q) = []"
      "insert_job env (sd_OrgID input) (ds_CapabilityID step) (env_jsonb env (ds_Input step)) (Some (sd_RunID input))
        (Some (int index)) (ds_ApprovedApprovalID step) now q = Inr q'"
    by (auto simp: enqueue_step_def Let_def split: if_splits) (metis One_nat_def Suc_lessI length_0_conv neq0_conv)
  then have "queue_grows q q' \<and> runs_ok q'"
  proof cases
    case 2
    then show ?thesis
      using insert_job_grows [OF 2(2)] insert_job_runs_ok [OF ok 2(2)] rec by (auto simp: filter_empty_conv)
  qed (use ok in simp)
  then show "queue_grows q q'" "runs_ok q'" by simp_all
qed

lemma dispatch_step_keeps:
  assumes d: "dispatch_step env de input now q (index, step) = Inr q'" and ok: "runs_ok q"
  shows "queue_grows q q'" and "runs_ok q'"
proof -
  from d obtain status q1 where i: "insert_step env input index step q = Inr (status, q1)"
    and r: "q' = q1 \<or> index = 0 \<and> enqueue_step env input index step now q1 = Inr q' \<or>
      (\<exists>previous. find (step_of (sd_OrgID input) (sd_RunID input) (int index - 1)) (agent_run_steps q1) = Some previous \<and>
        rs_status previous = ''committed'' \<and> enqueue_step env input index step now q1 = Inr q')"
    by (auto simp: dispatch_step_def split: if_splits option.splits)
  note k = insert_step_keeps [OF i ok]
  have "recorded q1 (sd_OrgID input) (sd_RunID input) (int index - 1)"
    if "find (step_of (sd_OrgID input) (sd_RunID input) (int index - 1)) (agent_run_steps q1) = Some previous"
      and "rs_status previous = ''committed''" for previous
  proof -
    have "previous \<in> set (agent_run_steps q1)" "step_of (sd_OrgID input) (sd_RunID input) (int index - 1) previous"
      using that(1) by (auto simp: find_Some_iff)
    with that(2) k(2) show ?thesis by (auto simp: recorded_def run_defs)
  qed
  with r enqueue_step_keeps [OF _ k(2), of env input index step now q'] have "queue_grows q1 q' \<and> runs_ok q'"
    using k(2) by (elim disjE exE conjE) simp_all
  with k show "queue_grows q q'" "runs_ok q'" by (auto intro: queue_grows_trans)
qed

lemma CreateAndDispatch_Inr:
  assumes "CreateAndDispatch env de input now q = Inr (r, q')"
  obtains inserted composition q1 where "insert_run input composition q = Inr (inserted, q1)"
    and "fold_result (dispatch_step env de input now) q1 (enumerate 0 (sd_Steps input)) = Inr q'"
    and "sr_Replayed r = (\<not> inserted)" and "sr_RunID r = sd_RunID input"
  using assms by (auto simp: CreateAndDispatch_def split: sum.splits if_splits option.splits)

lemma CreateAndDispatch_keeps:
  assumes d: "CreateAndDispatch env de input now q = Inr (r, q')" and ok: "runs_ok q"
  shows "queue_grows q q'" and "runs_ok q'"
proof -
  from d obtain inserted composition q1 where i: "insert_run input composition q = Inr (inserted, q1)"
    and f: "fold_result (dispatch_step env de input now) q1 (enumerate 0 (sd_Steps input)) = Inr q'"
    by (rule CreateAndDispatch_Inr)
  from insert_run_keeps [OF i] ok have 1: "queue_grows q q1 \<and> runs_ok q1" by simp
  have "queue_grows q q' \<and> runs_ok q'"
    using f 1 by (rule fold_result_invariant) (auto intro: queue_grows_trans dispatch_step_keeps)
  then show "queue_grows q q'" "runs_ok q'" by simp_all
qed

section \<open>Threads know what they do\<close>

fun stage_ok :: "'d queue \<Rightarrow> stage \<Rightarrow> bool" where
  "stage_ok q Idle \<longleftrightarrow> True"
| "stage_ok q (MarkRun job runID i) \<longleftrightarrow> job_claimed q job \<and> durableStep job = Some (runID, i)"
| "stage_ok q (MarkStep job runID i) \<longleftrightarrow> job_claimed q job \<and> durableStep job = Some (runID, i)"
| "stage_ok q (Load job) \<longleftrightarrow> job_claimed q job"
| "stage_ok q (RunRoutine job) \<longleftrightarrow> job_claimed q job"
| "stage_ok q (Act job _ _) \<longleftrightarrow> job_claimed q job"
| "stage_ok q (Approve job _) \<longleftrightarrow> job_claimed q job \<and> has_receipt (cj_OrgID job) (cj_ID job) q"
| "stage_ok q (FindReceipt job _ runID i) \<longleftrightarrow>
     job_claimed q job \<and> has_receipt (cj_OrgID job) (cj_ID job) q \<and> durableStep job = Some (runID, i)"
| "stage_ok q (Commit job _ runID i receiptID) \<longleftrightarrow> commits_effect q job runID i receiptID"
| "stage_ok q (Acknowledge job) \<longleftrightarrow> job_claimed q job"
| "stage_ok q (FailStep job _ runID i) \<longleftrightarrow> job_claimed q job \<and> durableStep job = Some (runID, i)"
| "stage_ok q (FailRun job _ runID i) \<longleftrightarrow> job_claimed q job \<and> durableStep job = Some (runID, i)"
| "stage_ok q (Retry job _ _) \<longleftrightarrow> job_claimed q job"

lemma stage_ok_grows: "stage_ok q stage \<Longrightarrow> queue_grows q q' \<Longrightarrow> stage_ok q' stage"
  by (cases stage) (auto intro: job_claimed_grows has_receipt_grows commits_effect_grows)

lemma stage_ok_claimed: "stage_ok q stage \<Longrightarrow> stage_job stage = Some job \<Longrightarrow> job_claimed q job"
  by (cases stage) (auto simp: commits_effect_def)

lemma next_stage_ok:
  "job_claimed q job \<Longrightarrow> stage_ok q (start_stage job)"
  "job_claimed q job \<Longrightarrow> stage_ok q (failure_stage leaseLost job message)"
  "job_claimed q job \<Longrightarrow> stage_ok q (payload_stage leaseLost job payload)"
  "job_claimed q job \<Longrightarrow> has_receipt (cj_OrgID job) (cj_ID job) q \<Longrightarrow> stage_ok q (approved_stage job r)"
  "job_claimed q job \<Longrightarrow> res_OK r \<longrightarrow> has_receipt (cj_OrgID job) (cj_ID job) q \<Longrightarrow> stage_ok q (result_stage leaseLost job r)"
proof -
  show f: "job_claimed q job \<Longrightarrow> stage_ok q (failure_stage leaseLost job message)" for message
    by (auto simp: failure_stage_def Let_def split: option.splits)
  show a: "job_claimed q job \<Longrightarrow> has_receipt (cj_OrgID job) (cj_ID job) q \<Longrightarrow> stage_ok q (approved_stage job r)"
    by (auto simp: approved_stage_def split: option.splits)
  show "job_claimed q job \<Longrightarrow> stage_ok q (start_stage job)" by (auto simp: start_stage_def split: option.splits)
  show "job_claimed q job \<Longrightarrow> stage_ok q (payload_stage leaseLost job payload)"
    by (auto simp: payload_stage_def f split: option.splits)
  show "job_claimed q job \<Longrightarrow> res_OK r \<longrightarrow> has_receipt (cj_OrgID job) (cj_ID job) q \<Longrightarrow> stage_ok q (result_stage leaseLost job r)"
    by (auto simp: result_stage_def f a)
qed

section \<open>A worker at any stage\<close>

lemma after_ok:
  assumes ok: "runs_ok q" and failure: "\<And>e. stage_ok q (failure e)"
    and success: "\<And>x q'. outcome = Inr (x, q') \<Longrightarrow> queue_grows q q' \<and> runs_ok q' \<and> stage_ok q' (success x)"
    and a: "after (transact f outcome q) success failure = (stage', q')"
  shows "runs_ok q' \<and> stage_ok q' stage'"
proof (cases outcome)
  case (Inl e)
  then show ?thesis using assms by (cases f) (auto simp: after_def)
next
  case (Inr p)
  obtain x q1 where p: "outcome = Inr (x, q1)" using Inr by (cases p) simp
  then show ?thesis using assms success [OF p] by (cases f) (auto simp: after_def intro: stage_ok_grows)
qed

lemma claim_ok:
  assumes ok: "runs_ok q" and c: "ClaimOne w locked now q = Inr (x, q')"
  shows "runs_ok q'" and "x = Some job \<Longrightarrow> job_claimed q' job"
proof -
  have d: "jobs_distinct (q_db q)" using ok by (simp add: runs_ok_def)
  have g: "queue_grows q q'" using c d by (rule ClaimOne_grows)
  from c show "runs_ok q'"
  proof (rule ClaimOne_Inr)
    fix row rows
    assume r: "claim_capability_job (wk_workerID w) (milliseconds (wk_lease w)) (wk_routineAgentRunner w) locked now (queue_jobs q) = Inr (row, rows)"
      and q': "q' = with_jobs rows q"
    show ?thesis
      by (rule runs_ok_keeps [OF ok g]) (use list_all2_lengthD [OF claim_capability_job_evolves [OF r d]] in \<open>simp_all add: q'\<close>)
  qed
  assume "x = Some job"
  with c have c': "ClaimOne w locked now q = Inr (Some job, q')" by simp
  let ?take = "claim_row (wk_workerID w) (milliseconds (wk_lease w)) now"
  obtain j where j: "j \<in> set (queue_jobs q)" and job: "job = claimed w (?take j)"
    and q: "q' = with_jobs (map (\<lambda>k. if k = j then ?take k else if exhausted_row (wk_routineAgentRunner w) now k then fail_row k else k) (queue_jobs q)) q"
    by (rule claim_exact [OF c' d])
  have "?take j \<in> set (queue_jobs q')" using j by (auto simp: q intro!: image_eqI [of _ _ j])
  then show "job_claimed q' job" by (auto simp: job_claimed_def job claimed_def intro!: bexI [of _ "?take j"])
qed

lemma finalize_runs_ok: "runs_ok q \<Longrightarrow> finalize_job w job status m t now q = Inr (x, q') \<Longrightarrow> runs_ok q'"
  by (rule runs_ok_keeps, assumption, erule finalize_job_grows) (auto simp: finalize_job_def Let_def split: if_splits)

lemma renewLease_runs_ok: "runs_ok q \<Longrightarrow> renewLease w job now q = Inr (x, q') \<Longrightarrow> runs_ok q'"
  by (rule runs_ok_keeps, assumption, erule renewLease_grows) (auto simp: renewLease_def Let_def split: if_splits)

lemma transitionRun_runs_ok: "runs_ok q \<Longrightarrow> transitionRun job runID status i m now q = Inr q' \<Longrightarrow> runs_ok q'"
  by (rule runs_ok_keeps, assumption, erule transitionRun_grows) (auto simp: transitionRun_def elim!: withCurrentJobLeaseTx_Inr)

lemma finishApproval_runs_ok: "runs_ok q \<Longrightarrow> finishApproval job now q = Inr q' \<Longrightarrow> runs_ok q'"
  by (rule runs_ok_keeps, assumption, erule finishApproval_grows)
    (auto simp: finishApproval_def elim!: withCurrentJobLeaseTx_Inr split: option.splits)

lemma frame_runs_ok:
  assumes "runs_ok q" and f: "queue_frame (q_db q) db"
  shows "runs_ok (q\<lparr>q_db := db\<rparr>)"
  by (rule runs_ok_keeps [OF assms(1) queue_frame_grows [OF f]]) (use f in \<open>auto simp: queue_frame_def dest: list_all2_lengthD\<close>)

lemma effect_leaves_receipt:
  assumes e: "ExecuteSystem env impl (system_request job permission) payload now (q_db q) = Inr (r, db)" and ok: "res_OK r"
  shows "has_receipt (cj_OrgID job) (cj_ID job) (q\<lparr>q_db := db\<rparr>)"
  using e
proof (cases rule: ExecuteSystem_Inr)
  case (run spec digest)
  have i: "IntentID (system_claims (system_request job permission) spec digest) \<noteq> []"
    using isUUID_nonempty [OF run(2)] by (simp add: system_intent)
  from run(1) ok i show ?thesis
    by (rule executeWithFinalizer_receipt) (use i in \<open>auto simp: system_intent system_intent_key has_receipt_def job_key_def\<close>)
qed (use ok in simp)

lemma receipt_found:
  assumes "has_receipt (cj_OrgID job) (cj_ID job) q" and "findReceiptID (cj_OrgID job) (cj_ID job) q = Inr x"
  shows "x = Some (cj_OrgID job, job_key (cj_OrgID job) (cj_ID job))"
  using assms by (auto simp: has_receipt_def findReceiptID_def job_key_def loadReceipt_def split: if_splits dest!: find_Some_holds)

lemma approved_ok:
  assumes "runs_ok q" and "finishApproval job now q = Inr q'" and "stage_ok q (Approve job r)"
  shows "queue_grows q q' \<and> runs_ok q' \<and> stage_ok q' (approved_stage job r)"
  using assms finishApproval_grows [OF assms(2)] finishApproval_runs_ok [OF assms(1,2)]
  by (auto intro: next_stage_ok job_claimed_grows has_receipt_grows)

lemma acted_ok:
  assumes ok: "runs_ok q" and c: "job_claimed q job"
    and e: "ExecuteSystem env impl (system_request job permission) payload now (q_db q) = Inr (r, db)"
  shows "queue_grows q (q\<lparr>q_db := db\<rparr>) \<and> runs_ok (q\<lparr>q_db := db\<rparr>) \<and> stage_ok (q\<lparr>q_db := db\<rparr>) (result_stage leaseLost job r)"
proof -
  have f: "queue_frame (q_db q) db" by (rule ExecuteSystem_queue [OF e])
  note g = queue_frame_grows [OF f]
  show ?thesis
    using g frame_runs_ok [OF ok f] next_stage_ok(5) [OF job_claimed_grows [OF c g]] effect_leaves_receipt [OF e] by blast
qed

lemma worker_step_ok:
  assumes ok: "runs_ok q" and st: "stage_ok q stage" and w: "worker_step env impl w ob stage q = (stage', q')"
  shows "runs_ok q' \<and> stage_ok q' stage'"
proof (cases stage)
  case Idle
  show ?thesis
  proof (rule after_ok [OF ok _ _ w [unfolded Idle worker_step.simps]])
    fix x q1 assume c: "ClaimOne w (ob_locked ob) (ob_now ob) q = Inr (x, q1)"
    have "queue_grows q q1" using c ok by (auto intro: ClaimOne_grows simp: runs_ok_def)
    then show "queue_grows q q1 \<and> runs_ok q1 \<and> stage_ok q1 (case x of None \<Rightarrow> Idle | Some j \<Rightarrow> start_stage j)"
      using claim_ok [OF ok c] by (auto intro: next_stage_ok split: option.split)
  qed simp
next
  case (MarkRun job runID i)
  show ?thesis
    by (rule after_ok [OF ok _ _ w [unfolded MarkRun worker_step.simps]])
      (use st MarkRun in \<open>auto simp: no_value_def intro: transitionRun_grows transitionRun_runs_ok [OF ok] job_claimed_grows\<close>)
next
  case (MarkStep job runID i)
  show ?thesis
    by (rule after_ok [OF ok _ _ w [unfolded MarkStep worker_step.simps]])
      (use st MarkStep in \<open>auto simp: no_value_def intro: transitionStep_grows transitionStep_runs_ok [OF ok] job_claimed_grows\<close>)
next
  case (Load job)
  show ?thesis
    by (rule after_ok [OF ok _ _ w [unfolded Load worker_step.simps]])
      (use st Load ok in \<open>auto simp: read_only_def intro: next_stage_ok\<close>)
next
  case (RunRoutine job)
  then show ?thesis using ok st w by (auto intro: next_stage_ok split: option.splits)
next
  case (Act job permission payload)
  show ?thesis
    by (rule after_ok [OF ok _ _ w [unfolded Act worker_step.simps]])
      (use st Act acted_ok [OF ok] in \<open>auto simp: on_effect_def intro: next_stage_ok\<close>)
next
  case (Approve job r)
  show ?thesis
    by (rule after_ok [OF ok _ _ w [unfolded Approve worker_step.simps]])
      (use st Approve approved_ok [OF ok] in \<open>auto simp: no_value_def\<close>)
next
  case (FindReceipt job r runID i)
  show ?thesis
    by (rule after_ok [OF ok _ _ w [unfolded FindReceipt worker_step.simps]])
      (use st FindReceipt ok receipt_found in \<open>auto simp: read_only_def commits_effect_def\<close>)
next
  case (Commit job r runID i receiptID)
  show ?thesis
    by (rule after_ok [OF ok _ _ w [unfolded Commit worker_step.simps]])
      (use st Commit in \<open>auto simp: no_value_def commits_effect_def intro: transitionStep_grows transitionStep_runs_ok [OF ok] job_claimed_grows\<close>)
next
  case (Acknowledge job)
  show ?thesis
    by (rule after_ok [OF ok _ _ w [unfolded Acknowledge worker_step.simps]])
      (auto intro: finalize_job_grows finalize_runs_ok [OF ok])
next
  case (FailStep job m runID i)
  show ?thesis
    by (rule after_ok [OF ok _ _ w [unfolded FailStep worker_step.simps]])
      (use st FailStep in \<open>auto simp: no_value_def intro: transitionStep_grows transitionStep_runs_ok [OF ok] job_claimed_grows\<close>)
next
  case (FailRun job m runID i)
  show ?thesis
    by (rule after_ok [OF ok _ _ w [unfolded FailRun worker_step.simps]])
      (use st FailRun in \<open>auto simp: no_value_def intro: transitionRun_grows transitionRun_runs_ok [OF ok] job_claimed_grows\<close>)
next
  case (Retry job m exhausted)
  show ?thesis
    by (rule after_ok [OF ok _ _ w [unfolded Retry worker_step.simps]])
      (auto intro: finalize_job_grows finalize_runs_ok [OF ok])
qed

section \<open>Histories\<close>

definition threads_ok :: "'d system \<Rightarrow> bool" where
  "threads_ok s \<longleftrightarrow> runs_ok (fst s) \<and> list_all (\<lambda>(w, stage). stage_ok (fst s) stage) (snd s)"

lemma threads_grow: "list_all (\<lambda>(w, stage). stage_ok q stage) threads \<Longrightarrow> queue_grows q q' \<Longrightarrow> list_all (\<lambda>(w, stage). stage_ok q' stage) threads"
  by (auto simp: list_all_iff dest: stage_ok_grows)

lemma threads_update: "list_all P threads \<Longrightarrow> P t \<Longrightarrow> list_all P (threads[i := t])"
  using set_update_subset_insert [of threads i t] by (auto simp: list_all_iff)

lemma run_step_ok:
  assumes "run_step env de impl s s'" and "threads_ok s"
  shows "threads_ok s'"
  using assms
proof cases
  case (advance i threads w stage ob q stage' q')
  then have ok: "runs_ok q" "list_all (\<lambda>(w, stage). stage_ok q stage) threads" using assms(2) by (simp_all add: threads_ok_def)
  then have st: "stage_ok q stage" using advance nth_mem [of i threads] by (auto simp: list_all_iff)
  have g: "queue_grows q q'" using worker_step_grows [of q "exec_env.truncate env" impl w ob stage] advance ok by (simp add: runs_ok_def)
  show ?thesis
    using worker_step_ok [OF ok(1) st advance(5)] threads_grow [OF ok(2) g] advance by (simp add: threads_ok_def threads_update)
next
  case (crash i threads w stage q)
  then show ?thesis using assms(2) by (simp add: threads_ok_def threads_update)
next
  case (join q threads w)
  then show ?thesis using assms(2) by (simp add: threads_ok_def)
next
  case (heartbeat w stage threads job now q owned q')
  then show ?thesis
    using assms(2) renewLease_runs_ok [of q w job now owned q'] threads_grow [OF _ renewLease_grows] by (auto simp: threads_ok_def)
next
  case (elsewhere q db' threads)
  then have f: "queue_frame (q_db q) db'" by (simp add: approval_step_queue)
  then show ?thesis
    using assms(2) frame_runs_ok [OF _ f] threads_grow [of q threads "q\<lparr>q_db := db'\<rparr>", OF _ queue_frame_grows [OF f]]
    by (simp add: elsewhere(1,2) threads_ok_def)
next
  case (dispatch input now q r q' threads)
  then show ?thesis
    using assms(2) CreateAndDispatch_keeps [OF dispatch(3)] threads_grow [of q threads q'] by (simp add: threads_ok_def)
next
  case (enqueue orgID capabilityID payload approvalID now q q' threads)
  then show ?thesis
    using assms(2) insert_job_runs_ok [OF _ enqueue(3)] threads_grow [of q threads q', OF _ insert_job_grows [OF enqueue(3)]]
    by (simp add: enqueue(1,2) threads_ok_def)
qed

lemma run_history_ok: "run_history env de impl s s' \<Longrightarrow> threads_ok s \<Longrightarrow> threads_ok s'"
  by (induction rule: rtranclp_induct) (auto intro: run_step_ok)

end
