(* ===== verification/DurableRuns.thy ===== *)
theory DurableRuns
  imports RunHistory
begin

text \<open>
  The properties of durable runs: steps take effect in order and a step is enqueued once, a
  dispatch that is repeated changes nothing, and what a late claim does to a finished run.
\<close>

section \<open>A run on a concrete queue\<close>

text \<open>A run of two steps is dispatched, and a worker executes the first one up to its commit.\<close>

definition example_uuid :: "nat \<Rightarrow> string" where
  "example_uuid n = ''00000000-0000-4000-8000-00000000000'' @ show_nat n"

definition example_read :: capabilitySpec where
  "example_read = example_spec\<lparr>sp_module := ''documents'', sp_permission := ''documents.read'', sp_risk := ''read''\<rparr>"

definition example_run_env :: approval_env where
  "example_run_env = \<lparr>env_digest = (\<lambda>s. s), env_lower = (\<lambda>s. s), env_uuid = example_uuid, env_jsonb = (\<lambda>s. s),
     env_specs = [(''documents.listDocs'', example_read)],
     env_webhookURL = [], env_smtpHost = [], env_smtpTo = [],
     env_fallbackPermission = (\<lambda>_. None), env_verifiable = []\<rparr>"

definition example_hash :: string where "example_hash = replicate 64 CHR ''a''"

definition example_composition :: composition_row where
  "example_composition = \<lparr>co_id = example_uuid 9, co_orgID = example_org, co_profileID = ''p'', co_profileVersion = ''1'',
     co_profileDigest = example_hash, co_compositionDigest = example_hash, co_profile = ''{}'', co_bundles = ''[]'', co_patches = ''[]''\<rparr>"

definition example_dispatch_env :: dispatch_env where
  "example_dispatch_env = \<lparr>de_supported = [''documents.listDocs''], de_intact = (\<lambda>_. Inr ()), de_compositions = [example_composition]\<rparr>"

definition example_run_input :: startDurableRunInput where
  "example_run_input = \<lparr>sd_RunID = example_uuid 7, sd_OrgID = example_org, sd_ActorID = example_user, sd_SessionID = None,
     sd_Goal = ''tidy'', sd_RegistryVersion = ''1'', sd_ModelRef = None, sd_HarnessCompositionID = example_uuid 9,
     sd_HarnessCompositionHash = example_hash, sd_CompositionApprovalID = example_uuid 8,
     sd_Steps = [\<lparr>ds_CapabilityID = ''documents.listDocs'', ds_Input = example_input, ds_ApprovedApprovalID = None\<rparr>,
       \<lparr>ds_CapabilityID = ''documents.listDocs'', ds_Input = example_input, ds_ApprovedApprovalID = None\<rparr>]\<rparr>"

definition example_agreed :: approval_row where
  "example_agreed = example_asked\<lparr>ap_id := example_uuid 8, ap_capabilityID := harnessApproveCompositionCapabilityID,
     ap_payload := ''{\"compositionId\":\"'' @ example_uuid 9 @ ''\",\"compositionDigest\":\"'' @ example_hash @ ''\"}'', ap_status := ''executed''\<rparr>"

definition example_run_queue :: "int queue" where
  "example_run_queue = \<lparr>q_db = (example_exec_db 10)\<lparr>jobs := [], approvals := [example_agreed]\<rparr>, agent_runs = [], agent_run_steps = []\<rparr>"

definition example_at :: "int \<Rightarrow> observation" where
  "example_at now = \<lparr>ob_now = now, ob_locked = [], ob_fault = NoFault, ob_leaseLost = False, ob_routine = None\<rparr>"

abbreviation example_env :: exec_env where "example_env \<equiv> exec_env.truncate example_run_env"

definition example_step_job :: "nat \<Rightarrow> job_row" where
  "example_step_job i = \<lparr>jb_id = example_uuid (Suc i), jb_orgID = example_org, jb_type = ''documents.listDocs'', jb_payload = example_input,
     jb_status = ''pending'', jb_attempts = 0, jb_maxAttempts = 3, jb_lastError = None, jb_availableAt = 1700000000000,
     jb_createdAt = 1700000000000, jb_leaseOwner = None, jb_fencingToken = 0, jb_leaseExpiresAt = None,
     jb_runID = Some (example_uuid 7), jb_runStepIndex = Some (int i), jb_approvedApprovalID = None\<rparr>"

definition example_step_row :: "nat \<Rightarrow> run_step_row" where
  "example_step_row i = new_step example_env example_run_input i (hd (sd_Steps example_run_input)) ''{\"amountMinor\":5}''"

definition example_dispatched :: "int queue" where
  "example_dispatched = \<lparr>q_db = (q_db example_run_queue)\<lparr>jobs := [example_step_job 0], gov_draws := 2\<rparr>,
     agent_runs = [new_run example_run_input example_composition], agent_run_steps = [example_step_row 0, example_step_row 1]\<rparr>"

lemma example_dispatch_runs:
  "CreateAndDispatch example_env example_dispatch_env example_run_input 1700000000000 example_run_queue =
     Inr (\<lparr>sr_RunID = example_uuid 7, sr_Status = ''pending'', sr_Replayed = False\<rparr>, example_dispatched)"
proof -
  have v: "validateDurableRunInput example_run_input = Inr ()" by code_simp
  have c: "VerifyDurableRunCompositionTx example_dispatch_env (sd_OrgID example_run_input) (sd_HarnessCompositionID example_run_input)
    (sd_HarnessCompositionHash example_run_input) (sd_CompositionApprovalID example_run_input) example_run_queue = Inr example_composition"
    by code_simp
  have i: "insert_run example_run_input example_composition example_run_queue =
    Inr (True, example_run_queue\<lparr>agent_runs := [new_run example_run_input example_composition]\<rparr>)" by code_simp
  have f: "fold_result (dispatch_step example_env example_dispatch_env example_run_input 1700000000000)
    (example_run_queue\<lparr>agent_runs := [new_run example_run_input example_composition]\<rparr>) (enumerate 0 (sd_Steps example_run_input)) =
    Inr example_dispatched" by code_simp
  show ?thesis
    by (simp add: CreateAndDispatch_def v c i f) (simp add: example_run_input_def)
qed

definition example_held_row :: "int \<Rightarrow> job_row" where
  "example_held_row expires = (claim_row ''w'' 60000 1700000000000 (example_step_job 0))\<lparr>jb_leaseExpiresAt := Some expires\<rparr>"

definition example_step_claim :: claimedJob where
  "example_step_claim = claimed example_worker (example_held_row 1700000060000)"

definition example_running :: "int queue" where
  "example_running = (with_jobs [example_held_row 1700000180000] example_dispatched)\<lparr>
     agent_runs := [(new_run example_run_input example_composition)\<lparr>rn_status := ''running'', rn_startedAt := Some 1700000000000\<rparr>],
     agent_run_steps := [(example_step_row 0)\<lparr>rs_status := ''running'', rs_startedAt := Some 1700000000000\<rparr>, example_step_row 1]\<rparr>"

abbreviation example_advance where
  "example_advance \<equiv> worker_step example_env example_exec_impl example_worker (example_at 1700000000000)"

lemma example_claim_step:
  "example_advance Idle example_dispatched =
     (MarkRun example_step_claim (example_uuid 7) 0, with_jobs [example_held_row 1700000060000] example_dispatched)"
  by code_simp

lemma example_mark_run:
  "example_advance (MarkRun example_step_claim (example_uuid 7) 0) (with_jobs [example_held_row 1700000060000] example_dispatched) =
     (MarkStep example_step_claim (example_uuid 7) 0, example_running\<lparr>agent_run_steps := [example_step_row 0, example_step_row 1]\<rparr>)"
  by code_simp

lemma example_mark_step:
  "example_advance (MarkStep example_step_claim (example_uuid 7) 0) (example_running\<lparr>agent_run_steps := [example_step_row 0, example_step_row 1]\<rparr>) =
     (Load example_step_claim, example_running)"
  by code_simp

lemma example_load:
  "example_advance (Load example_step_claim) example_running = (Act example_step_claim ''documents.read'' example_input, example_running)"
  by code_simp

lemma example_read_effect:
  assumes "action_receipts db = []" and "IntentID claims \<noteq> []"
  shows "\<exists>row. exec_effect example_env example_exec_impl claims ''documents.listDocs'' example_read (example_pay 5) h None now db =
   Inr (example_outcome, db\<lparr>domain := domain db + 5, ledger_events := ledger_events db @ [row], ledger_next_seq := ledger_next_seq db + 1,
     action_receipts := [receipt_of example_env claims ''documents.listDocs'' h example_outcome]\<rparr>)"
proof -
  let ?e = "executed_event claims ''documents.listDocs'' example_read (impl_value example_exec_impl (example_pay 5)) now"
  have p: "stringifyPayload (ev_payload ?e) = Inr ''{\"input\":{\"amountMinor\":5}}''"
    using example_payload_text by (simp add: executed_event_def example_read_def example_spec_def example_exec_impl_def)
  have a: "ev_authSessionID ?e = None" by (simp add: executed_event_def)
  show ?thesis unfolding exec_effect_def AppendTx_plain [OF a p] using assms
    by (intro exI) (simp add: example_exec_impl_def insertReceipt_def receipt_of_def intent_key_def Let_def example_outcome_def)
qed

definition example_step_request :: systemClaims where
  "example_step_request = system_request example_step_claim ''documents.read''"

definition example_step_receipt :: action_receipt where
  "example_step_receipt = receipt_of example_env (system_claims example_step_request example_read ''{\"amountMinor\":5}'')
     ''documents.listDocs'' ''{\"amountMinor\":5}'' example_outcome"

definition example_acted :: "ledger_row \<Rightarrow> int queue" where
  "example_acted row = example_running\<lparr>q_db := (q_db example_running)\<lparr>domain := 5, ledger_events := [row], ledger_next_seq := 2,
     action_receipts := [example_step_receipt]\<rparr>\<rparr>"

lemma example_act:
  "\<exists>row. example_advance (Act example_step_claim ''documents.read'' example_input) example_running =
     (FindReceipt example_step_claim example_outcome (example_uuid 7) 0, example_acted row)"
proof -
  let ?c = "system_claims example_step_request example_read ''{\"amountMinor\":5}''" and ?l = "Some (system_lease example_step_request)"
    and ?db = "q_db example_running"
  have spec: "map_of (env_specs example_env) ''documents.listDocs'' = Some example_read" by code_simp
  have pre: "isUUID (sy_IntentID example_step_request)" "lease_ok (system_lease example_step_request)"
    "sy_Permission example_step_request = sp_permission example_read" "sy_ApprovedApprovalID example_step_request = []"
    "sy_AgentSessionID example_step_request = []" "sy_CapabilityID example_step_request = ''documents.listDocs''"
    "InputHash (env_digest example_env) example_input = Inr ''{\"amountMinor\":5}''" by code_simp+
  have s: "exec_scope example_env ?c ''documents.listDocs'' example_input ?l True = Proceed example_read" by code_simp
  have e: "exec_enter example_env ?c ?l True 1700000000000 ?db = Inr ?db" by code_simp
  have k: "exec_checks example_env example_exec_impl ?c ''documents.listDocs'' example_input example_read True [] False ?db
    = Proceed (example_pay 5, ''{\"amountMinor\":5}'')" by code_simp
  have q: "requiresApproval ?c ''documents.listDocs'' example_read (example_pay 5) ?db = (False, ''within policy'')" by code_simp
  have g: "exec_gate example_env ?c ''documents.listDocs'' example_read (example_pay 5) v h True [] False now ?db = Inr (None, ?db)" for v h now
    by (simp add: exec_gate_def q)
  have o: "OrganizationID ?c \<noteq> []" and r: "action_receipts ?db = []" "IntentID ?c \<noteq> []" by code_simp+
  have d: "domain ?db = 0" "ledger_events ?db = []" "ledger_next_seq ?db = 1" by code_simp+
  obtain row where "exec_effect example_env example_exec_impl ?c ''documents.listDocs'' example_read (example_pay 5)
      ''{\"amountMinor\":5}'' None 1700000000000 ?db = Inr (example_outcome, q_db (example_acted row))"
    using example_read_effect [OF r, of "''{\"amountMinor\":5}''" 1700000000000]
    by (auto simp: example_acted_def example_step_receipt_def d)
  then have x: "ExecuteSystem example_env example_exec_impl example_step_request example_input 1700000000000 ?db =
      Inr (example_outcome, q_db (example_acted row))"
    by (simp add: ExecuteSystem_def execute_call_def executeWithFinalizer_def spec pre o e k g s)
  have n: "result_stage False example_step_claim example_outcome = FindReceipt example_step_claim example_outcome (example_uuid 7) 0" by code_simp
  show ?thesis
    by (intro exI [of _ row])
      (simp add: after_def on_effect_def example_at_def x [unfolded example_step_request_def] n, simp add: example_acted_def)
qed

definition example_committed_step :: run_step_row where
  "example_committed_step = (example_step_row 0)\<lparr>rs_status := ''committed'', rs_startedAt := Some 1700000000000,
     rs_finishedAt := Some 1700000000000, rs_output := Some (res_Data example_outcome),
     rs_receiptID := Some (example_org, job_key example_org (example_uuid 1))\<rparr>"

lemma example_receipt_found:
  "example_advance (FindReceipt example_step_claim example_outcome (example_uuid 7) 0) (example_acted row) =
     (Commit example_step_claim example_outcome (example_uuid 7) 0 (Some (example_org, job_key example_org (example_uuid 1))), example_acted row)"
  by code_simp

lemma example_commit:
  "example_advance (Commit example_step_claim example_outcome (example_uuid 7) 0 (Some (example_org, job_key example_org (example_uuid 1))))
     (example_acted row) =
     (Acknowledge example_step_claim, (example_acted row)\<lparr>q_db := (q_db (example_acted row))\<lparr>jobs := [example_held_row 1700000180000, example_step_job 1], gov_draws := 3\<rparr>,
        agent_run_steps := [example_committed_step, example_step_row 1]\<rparr>)"
  by code_simp

lemma run_advance:
  assumes "run_history env de impl s (q, [(w, stage)])"
    and "worker_step (exec_env.truncate env) impl w ob stage q = (stage', q')"
  shows "run_history env de impl s (q', [(w, stage')])"
proof -
  have "run_step env de impl (q, [(w, stage)]) (q', [(w, stage)][0 := (w, stage')])"
    by (rule advance) (use assms(2) in simp_all)
  with assms(1) show ?thesis by simp
qed

definition example_committed :: "ledger_row \<Rightarrow> int queue" where
  "example_committed row = (example_acted row)\<lparr>
     q_db := (q_db (example_acted row))\<lparr>jobs := [example_held_row 1700000180000, example_step_job 1], gov_draws := 3\<rparr>,
     agent_run_steps := [example_committed_step, example_step_row 1]\<rparr>"

lemma example_run_history:
  "\<exists>row. run_history example_run_env example_dispatch_env example_exec_impl (example_run_queue, [])
     (example_committed row, [(example_worker, Acknowledge example_step_claim)])"
proof -
  let ?h = "run_history example_run_env example_dispatch_env example_exec_impl (example_run_queue, [])"
  have "?h (example_dispatched, [])" by (rule r_into_rtranclp, rule dispatch, rule example_dispatch_runs)
  then have "?h (example_dispatched, [(example_worker, Idle)])" using join [where q = example_dispatched and threads = "[]"]
    by (simp add: rtranclp.rtrancl_into_rtrancl)
  then have "?h (example_running, [(example_worker, Act example_step_claim ''documents.read'' example_input)])"
    by (intro run_advance [OF _ example_load] run_advance [OF _ example_mark_step] run_advance [OF _ example_mark_run]
      run_advance [OF _ example_claim_step])
  with example_act obtain row where "?h (example_acted row, [(example_worker, FindReceipt example_step_claim example_outcome (example_uuid 7) 0)])"
    by (blast intro: run_advance)
  then have "?h (example_committed row, [(example_worker, Acknowledge example_step_claim)])"
    unfolding example_committed_def by (intro run_advance [OF _ example_commit] run_advance [OF _ example_receipt_found])
  then show ?thesis by blast
qed

section \<open>Order\<close>

lemma no_runs_ok:
  assumes "jobs_distinct (q_db q)" and "list_all (\<lambda>j. jb_runID j = None) (queue_jobs q)" and "agent_run_steps q = []"
  shows "threads_ok (q, [])"
  using assms by (auto simp: threads_ok_def run_defs list_all_iff step_job_def)

text \<open>
  C5. The steps of a run execute in order, each as one job. From a queue without runs, whatever
  workers, crashes, lost acknowledgements, repeated dispatches and other calls then do: when a
  job of a later step exists, the step before it has recorded the receipt that a job of that
  step left, and that receipt is in the table; and no step ever has two jobs.
\<close>

theorem runs_execute_in_order:
  assumes "run_history env de impl (q, []) (q', threads)" and "jobs_distinct (q_db q)"
    and "list_all (\<lambda>j. jb_runID j = None) (queue_jobs q)" and "agent_run_steps q = []"
    and "j \<in> set (queue_jobs q')" and "step_job orgID runID i j"
  shows "(0 < i \<longrightarrow> (\<exists>s \<in> set (agent_run_steps q'). step_of orgID runID (i - 1) s \<and> step_done q' s)) \<and>
    (\<forall>k \<in> set (queue_jobs q'). step_job orgID runID i k \<longrightarrow> k = j)"
proof -
  have ok: "runs_ok q'" using run_history_ok [OF assms(1) no_runs_ok [OF assms(2-4)]] by (simp add: threads_ok_def)
  have "\<exists>s \<in> set (agent_run_steps q'). step_of orgID runID (i - 1) s \<and> step_done q' s" if "0 < i"
    using ok assms(5,6) that by (fastforce simp: runs_ok_def order_ok_def steps_ok_def recorded_def step_job_def)
  moreover have "k = j" if "k \<in> set (queue_jobs q')" "step_job orgID runID i k" for k
    using ok assms(5,6) that by (auto simp: runs_ok_def unique_ok_def)
  ultimately show ?thesis by blast
qed

theorem runs_execute_in_order_witness:
  "\<exists>row. list_ex (\<lambda>s. step_of example_org (example_uuid 7) 0 s \<and> step_done (example_committed row) s) (agent_run_steps (example_committed row))"
proof -
  obtain row where h: "run_history example_run_env example_dispatch_env example_exec_impl (example_run_queue, [])
     (example_committed row, [(example_worker, Acknowledge example_step_claim)])" using example_run_history by blast
  have d: "jobs_distinct (q_db example_run_queue)" "list_all (\<lambda>j. jb_runID j = None) (queue_jobs example_run_queue)"
    "agent_run_steps example_run_queue = []" by (simp_all add: example_run_queue_def)
  have j: "example_step_job 1 \<in> set (queue_jobs (example_committed row))" by (simp add: example_committed_def)
  have s: "step_job example_org (example_uuid 7) 1 (example_step_job 1)" by (simp add: example_step_job_def step_job_def)
  show ?thesis using runs_execute_in_order [OF h d j s] by (auto simp: list_ex_iff)
qed

section \<open>Dispatching again\<close>

text \<open>A step that a dispatch has inserted as asked, and the job of the first one.\<close>

definition step_dispatched ::
  "exec_env \<Rightarrow> dispatch_env \<Rightarrow> startDurableRunInput \<Rightarrow> int \<Rightarrow> 'd queue \<Rightarrow> nat \<times> durableRunStepInput \<Rightarrow> bool" where
  "step_dispatched env de input now q indexed \<longleftrightarrow> (case indexed of (index, step) \<Rightarrow>
     (\<exists>hash. InputHash (env_digest env) (ds_Input step) = Inr hash \<and>
        find (step_of (sd_OrgID input) (sd_RunID input) (int index)) (agent_run_steps q) = Some (new_step env input index step hash)) \<and>
     validateDurableRunApproval env de (sd_OrgID input) step index now q = Inr () \<and>
     (index = 0 \<longrightarrow> (\<exists>j. filter (step_job (sd_OrgID input) (sd_RunID input) 0) (queue_jobs q) = [j] \<and> jb_type j = ds_CapabilityID step \<and>
        jb_payload j = env_jsonb env (ds_Input step) \<and> jb_approvedApprovalID j = ds_ApprovedApprovalID step)))"

definition dispatched ::
  "exec_env \<Rightarrow> dispatch_env \<Rightarrow> startDurableRunInput \<Rightarrow> int \<Rightarrow> 'd queue \<Rightarrow> durableRunStepInput list \<Rightarrow> 'd queue \<Rightarrow> bool" where
  "dispatched env de input now q0 steps q \<longleftrightarrow>
     (\<forall>x \<in> set (enumerate 0 steps). step_dispatched env de input now q x) \<and>
     (\<forall>s \<in> set (agent_run_steps q). rs_runID s = sd_RunID input \<longrightarrow> rs_stepIndex s < int (length steps)) \<and>
     length (filter (\<lambda>s. rs_orgID s = sd_OrgID input \<and> rs_runID s = sd_RunID input) (agent_run_steps q)) = length steps \<and>
     (steps = [] \<longrightarrow> (\<forall>j \<in> set (queue_jobs q). jb_runID j \<noteq> Some (sd_RunID input))) \<and>
     agent_runs q = agent_runs q0 \<and> approvals (q_db q) = approvals (q_db q0) \<and> agent_sessions (q_db q) = agent_sessions (q_db q0)"

lemma validateDurableRunApproval_cong:
  "approvals (q_db q') = approvals (q_db q) \<Longrightarrow>
   validateDurableRunApproval env de orgID step index now q' = validateDurableRunApproval env de orgID step index now q"
  by (auto simp: validateDurableRunApproval_def split: option.splits)

lemma new_step_fields [simp]:
  "rs_status (new_step env input index step hash) = ''pending''" "rs_inputHash (new_step env input index step hash) = hash"
  "rs_capabilityID (new_step env input index step hash) = ds_CapabilityID step"
  "rs_capabilityVersion (new_step env input index step hash) = sd_RegistryVersion input"
  "rs_approvalID (new_step env input index step hash) = ds_ApprovedApprovalID step"
  "rs_orgID (new_step env input index step hash) = sd_OrgID input" "rs_runID (new_step env input index step hash) = sd_RunID input"
  "rs_stepIndex (new_step env input index step hash) = int index"
  by (simp_all add: new_step_def)

lemma insert_job_new:
  assumes "insert_job env orgID capabilityID payload runID i approvalID now q = Inr q'"
  obtains row where "queue_jobs q' = queue_jobs q @ [row]" and "jb_orgID row = orgID" and "jb_runID row = runID" and "jb_runStepIndex row = i"
    and "jb_type row = capabilityID" and "jb_payload row = payload" and "jb_approvedApprovalID row = approvalID"
    and "agent_run_steps q' = agent_run_steps q" and "agent_runs q' = agent_runs q" and "approvals (q_db q') = approvals (q_db q)"
    and "agent_sessions (q_db q') = agent_sessions (q_db q)"
  using assms by (auto simp: insert_job_def Let_def split: if_splits)

lemma find_step_member:
  "find (step_of orgID runID i) rows = Some s \<Longrightarrow> s \<in> set rows \<and> step_of orgID runID i s"
  by (auto simp: find_Some_iff)

lemma last_enumerated: "(length xs, y) \<in> set (enumerate 0 (xs @ [y]))"
  by (simp add: enumerate_append_eq)

text \<open>One step more, at its first dispatch.\<close>

lemma dispatch_next:
  assumes d: "dispatched env de input now q0 steps q" and s: "dispatch_step env de input now q (length steps, step) = Inr q'"
  shows "dispatched env de input now q0 (steps @ [step]) q'"
proof -
  let ?org = "sd_OrgID input" and ?run = "sd_RunID input" and ?k = "length steps"
  have fresh: "\<not> list_ex (\<lambda>s. rs_runID s = ?run \<and> rs_stepIndex s = int ?k) (agent_run_steps q)"
    using d by (auto simp: dispatched_def list_ex_iff)
  obtain hash where h: "InputHash (env_digest env) (ds_Input step) = Inr hash"
    using s by (auto simp: dispatch_step_def insert_step_def split: sum.splits)
  let ?q1 = "q\<lparr>agent_run_steps := agent_run_steps q @ [new_step env input ?k step hash]\<rparr>"
  have "insert_step env input ?k step q = Inr (''pending'', ?q1)" by (simp add: insert_step_def h fresh)
  with s have "bind_result (validateDurableRunApproval env de ?org step ?k now ?q1) (\<lambda>_. if steps = [] then enqueue_step env input ?k step now ?q1
          else case find (step_of ?org ?run (int ?k - 1)) (agent_run_steps ?q1) of
            None \<Rightarrow> Inl ''no rows in result set''
          | Some previous \<Rightarrow> if rs_status previous \<noteq> ''committed'' then Inr ?q1 else enqueue_step env input ?k step now ?q1) = Inr q'"
    by (simp add: dispatch_step_def)
  then have v: "validateDurableRunApproval env de ?org step ?k now ?q1 = Inr ()"
    and r: "(if steps = [] then enqueue_step env input ?k step now ?q1
          else case find (step_of ?org ?run (int ?k - 1)) (agent_run_steps ?q1) of
            None \<Rightarrow> Inl ''no rows in result set''
          | Some previous \<Rightarrow> if rs_status previous \<noteq> ''committed'' then Inr ?q1 else enqueue_step env input ?k step now ?q1) = Inr q'"
    by (rule bind_result_InrE, simp)+
  have none: "find (step_of ?org ?run (int ?k)) (agent_run_steps q) = None"
    using fresh by (auto simp: find_None_iff list_ex_iff step_of_def)
  have this_step: "find (step_of ?org ?run (int ?k)) (agent_run_steps ?q1) = Some (new_step env input ?k step hash)"
    by (simp add: find_append none) (simp add: step_of_def)
  have bound: "\<forall>s \<in> set (agent_run_steps ?q1). rs_runID s = ?run \<longrightarrow> rs_stepIndex s < int (length (steps @ [step]))"
    using d by (auto simp: dispatched_def)
  have count: "length (filter (\<lambda>s. rs_orgID s = ?org \<and> rs_runID s = ?run) (agent_run_steps ?q1)) = length (steps @ [step])"
    using d by (simp add: dispatched_def)
  have v1: "validateDurableRunApproval env de ?org step ?k now q = Inr ()" using v validateDurableRunApproval_cong [of q ?q1] by simp
  show ?thesis
  proof (cases "steps = []")
    case True
    with d have nojob: "filter (step_job ?org ?run 0) (queue_jobs q) = []" by (auto simp: dispatched_def filter_empty_conv step_job_def)
    with True r have "insert_job env ?org (ds_CapabilityID step) (env_jsonb env (ds_Input step)) (Some ?run) (Some 0) (ds_ApprovedApprovalID step) now ?q1 = Inr q'"
      by (simp add: enqueue_step_def)
    then obtain row where q': "queue_jobs q' = queue_jobs ?q1 @ [row]" "jb_orgID row = ?org" "jb_runID row = Some ?run" "jb_runStepIndex row = Some 0"
      "jb_type row = ds_CapabilityID step" "jb_payload row = env_jsonb env (ds_Input step)" "jb_approvedApprovalID row = ds_ApprovedApprovalID step"
      "agent_run_steps q' = agent_run_steps ?q1" "agent_runs q' = agent_runs ?q1" "approvals (q_db q') = approvals (q_db ?q1)"
      "agent_sessions (q_db q') = agent_sessions (q_db ?q1)" by (rule insert_job_new)
    have "step_dispatched env de input now q' (0, step)"
      using this_step h v1 nojob True validateDurableRunApproval_cong [of q' q]
      by (auto simp: step_dispatched_def q' step_job_def)
    with True bound count d show ?thesis by (simp add: dispatched_def q')
  next
    case False
    then obtain before prev where steps: "steps = before @ [prev]" by (cases steps rule: rev_cases) auto
    then have "step_dispatched env de input now q (length before, prev)"
      using d last_enumerated [of before prev] unfolding dispatched_def by blast
    then obtain hash' where p: "find (step_of ?org ?run (int ?k - 1)) (agent_run_steps q) = Some (new_step env input (length before) prev hash')"
      by (auto simp: step_dispatched_def steps)
    have q': "q' = ?q1" using r False p by (simp add: find_append)
    have old: "step_dispatched env de input now q' x" if "step_dispatched env de input now q x" for x
      using that validateDurableRunApproval_cong [of q' q] by (auto simp: q' step_dispatched_def find_append split: prod.splits)
    have "step_dispatched env de input now q' (?k, step)"
      using this_step h v False by (auto simp: step_dispatched_def q')
    with old bound count d False show ?thesis by (auto simp: dispatched_def q' enumerate_append_eq)
  qed
qed

lemma dispatch_rest:
  "dispatched env de input now q0 steps q \<Longrightarrow> fold_result (dispatch_step env de input now) q (enumerate (length steps) rest) = Inr q' \<Longrightarrow>
   dispatched env de input now q0 (steps @ rest) q'"
proof (induction rest arbitrary: steps q)
  case (Cons step rest)
  from Cons.prems(2) obtain q1 where 1: "dispatch_step env de input now q (length steps, step) = Inr q1"
    and 2: "fold_result (dispatch_step env de input now) q1 (enumerate (Suc (length steps)) rest) = Inr q'"
    by (auto split: sum.splits)
  from Cons.IH [OF dispatch_next [OF Cons.prems(1) 1]] 2 show ?case by simp
qed (simp add: dispatched_def)

text \<open>Once dispatched, a step is dispatched again without effect.\<close>

lemma dispatch_again:
  assumes d: "dispatched env de input now q0 steps q" and x: "x \<in> set (enumerate 0 steps)"
  shows "dispatch_step env de input now' q x = bind_result
    (case x of (index, step) \<Rightarrow> validateDurableRunApproval env de (sd_OrgID input) step index now' q) (\<lambda>_. Inr q)"
proof -
  obtain index step where xs: "x = (index, step)" by (cases x)
  with x have i: "index < length steps" "step = steps ! index" by (auto simp: in_set_enumerate_eq)
  from d x have s: "step_dispatched env de input now q (index, step)" by (auto simp: dispatched_def xs)
  have "(\<exists>s. rs_status s \<noteq> ''committed'' \<and> find (step_of (sd_OrgID input) (sd_RunID input) (int index - 1)) (agent_run_steps q) = Some s)" if "0 < index"
  proof -
    from that obtain k where k: "index = Suc k" by (cases index) auto
    then have "(k, steps ! k) \<in> set (enumerate 0 steps)" using i by (simp add: in_set_enumerate_eq)
    with d have "step_dispatched env de input now q (k, steps ! k)" by (auto simp: dispatched_def)
    then show ?thesis by (auto simp: step_dispatched_def k)
  qed
  moreover from s obtain hash where h: "InputHash (env_digest env) (ds_Input step) = Inr hash"
    and f: "find (step_of (sd_OrgID input) (sd_RunID input) (int index)) (agent_run_steps q) = Some (new_step env input index step hash)"
    by (auto simp: step_dispatched_def)
  then have "insert_step env input index step q = Inr (''pending'', q)"
    using find_step_member [OF f] by (auto simp: insert_step_def list_ex_iff step_of_def)
  ultimately show ?thesis
    using s by (auto simp: xs dispatch_step_def step_dispatched_def enqueue_step_def)
qed

lemma fold_result_stays: "\<forall>x \<in> set xs. f q x = bind_result (g x) (\<lambda>_. Inr q) \<Longrightarrow> fold_result f q xs = Inr q' \<Longrightarrow> q' = q"
  by (induction xs) (auto split: sum.splits)

lemma fold_result_fixed: "\<forall>x \<in> set xs. f q x = Inr q \<Longrightarrow> fold_result f q xs = Inr q"
  by (induction xs) auto

lemma run_matches_new:
  assumes "\<not> list_ex (\<lambda>r. rn_id r = sd_RunID input) (agent_runs q0)" and "agent_runs q = agent_runs q0 @ [new_run input composition]"
    and "length (filter (\<lambda>s. rs_orgID s = sd_OrgID input \<and> rs_runID s = sd_RunID input) (agent_run_steps q)) = length (sd_Steps input)"
  shows "insert_run input composition q = Inr (False, q)"
    and "find (run_of (sd_OrgID input) (sd_RunID input)) (agent_runs q) = Some (new_run input composition)"
proof -
  have "find (run_of (sd_OrgID input) (sd_RunID input)) (agent_runs q0) = None"
    using assms(1) by (auto simp: find_None_iff list_ex_iff run_of_def)
  then show f: "find (run_of (sd_OrgID input) (sd_RunID input)) (agent_runs q) = Some (new_run input composition)"
    by (simp add: assms(2) find_append) (simp add: run_of_def new_run_def)
  have "durableRunMatchesRequest input composition q = Inr True"
    using assms(3) by (simp add: durableRunMatchesRequest_def f) (simp add: new_run_def)
  then show "insert_run input composition q = Inr (False, q)" by (simp add: insert_run_def assms(2)) (simp add: new_run_def)
qed



section \<open>Late claims\<close>

lemma claim_holds_lease:
  assumes w: "NewWorker workerID lease poll gate = Inr w" and c: "ClaimOne w locked now q = Inr (Some job, q')" and d: "jobs_distinct (q_db q)"
    and t: "now' < now + milliseconds (wk_lease w)"
  shows "\<exists>rows. \<forall>f. withCurrentJobLeaseTx job now' f q' = f (with_jobs rows q)"
proof -
  note n = NewWorker_Inr [OF w]
  let ?take = "claim_row (wk_workerID w) (milliseconds (wk_lease w)) now"
  obtain j where j: "j \<in> set (queue_jobs q)" and job: "job = claimed w (?take j)"
    and q: "q' = with_jobs (map (\<lambda>k. if k = j then ?take k else if exhausted_row (wk_routineAgentRunner w) now k then fail_row k else k) (queue_jobs q)) q"
    by (rule claim_exact [OF c d])
  have m: "?take j \<in> set (queue_jobs q')" using j by (auto simp: q intro!: image_eqI [of _ _ j])
  have "holds_lease job now' (?take j)"
    using t by (simp add: holds_lease_def job claimed_def claim_row_def lease_live_def)
  with m have held: "list_ex (holds_lease job now') (queue_jobs q')" by (auto simp: list_ex_iff)
  from c have ids: "cj_ID job \<noteq> []" "cj_OrgID job \<noteq> []" "1 \<le> cj_FencingToken job" "cj_WorkerID job = wk_workerID w"
    by (auto simp: ClaimOne_def Let_def split: option.splits if_splits)
  have "cj_LeaseExtensionMillis job = milliseconds (max (wk_lease w) minimumInFlightLease)" by (simp add: job claimed_def)
  moreover have "180000000000 \<le> max (wk_lease w) minimumInFlightLease" "max (wk_lease w) minimumInFlightLease \<le> 300000000000"
    using n(6) by (simp_all add: minimumInFlightLease_def minute_def second_def)
  then have "milliseconds minimumInFlightLease \<le> milliseconds (max (wk_lease w) minimumInFlightLease)"
    "milliseconds (max (wk_lease w) minimumInFlightLease) \<le> milliseconds (5 * minute)"
    using zdiv_mono1 [of 180000000000 "max (wk_lease w) minimumInFlightLease" 1000000]
      zdiv_mono1 [of "max (wk_lease w) minimumInFlightLease" 300000000000 1000000]
    by (simp_all add: milliseconds_def go_quo_def minute_def second_def minimumInFlightLease_def del: max.bounded_iff)
  ultimately have "requireCurrentJobLease job now' (queue_jobs q') = Inr (map (\<lambda>j. if holds_lease job now' j
             then j\<lparr>jb_leaseExpiresAt := map_option (max (now' + cj_LeaseExtensionMillis job)) (jb_leaseExpiresAt j)\<rparr> else j) (queue_jobs q'))"
    using held ids n(3,4) by (simp add: requireCurrentJobLease_def)
  with ids show ?thesis by (auto simp: withCurrentJobLeaseTx_def q)
qed

text \<open>
  C40. A claim reopens a finished run. A worker whose attempt committed the last step but was cut
  off before it acknowledged the job leaves a completed run and a job whose lease will expire.
  The next claim of that job first sets the run to running, whatever its status was, and keeps
  the time it finished; if the attempts run out there, the run stays so.
\<close>

theorem late_claim_reopens_run:
  assumes "NewWorker workerID lease poll gate = Inr w" and "ClaimOne w locked now q = Inr (Some job, q')" and "jobs_distinct (q_db q)"
    and "durableStep job = Some (runID, i)" and "run \<in> set (agent_runs q)" and "run_of (cj_OrgID job) runID run"
    and "ob_now ob < now + milliseconds (wk_lease w)" and "ob_fault ob = NoFault"
  shows "start_stage job = MarkRun job runID i \<and>
    (\<exists>q''. worker_step env impl w ob (start_stage job) q' = (MarkStep job runID i, q'') \<and>
       run\<lparr>rn_status := ''running'', rn_currentStep := i, rn_lastError := None, rn_startedAt := Some (ob_now ob)\<rparr> \<in> set (agent_runs q''))"
proof -
  have s: "start_stage job = MarkRun job runID i" by (simp add: start_stage_def assms(4))
  let ?mark = "\<lambda>r. if run_of (cj_OrgID job) runID r then r\<lparr>rn_status := ''running'', rn_currentStep := i, rn_lastError := None,
    rn_startedAt := Some (ob_now ob)\<rparr> else r"
  obtain rows where "\<forall>f. withCurrentJobLeaseTx job (ob_now ob) f q' = f (with_jobs rows q)"
    using claim_holds_lease [OF assms(1-3,7)] by blast
  then have t: "transitionRun job runID ''running'' i [] (ob_now ob) q' = Inr ((with_jobs rows q)\<lparr>agent_runs := map ?mark (agent_runs q)\<rparr>)"
    by (simp add: transitionRun_def nullableError_def run_terminal_def cong: if_cong)
  have "?mark run \<in> set (map ?mark (agent_runs q))" using assms(5) by simp
  with assms(6) t show ?thesis by (auto simp: s after_def no_value_def assms(8))
qed

definition example_finished_run :: agent_run_row where
  "example_finished_run = (new_run example_run_input example_composition)\<lparr>rn_status := ''completed'', rn_finishedAt := Some 1700000000000\<rparr>"

theorem late_claim_reopens_run_witness:
  "\<exists>job q' q''. ClaimOne example_worker [] 1700000000000 (example_dispatched\<lparr>agent_runs := [example_finished_run]\<rparr>) = Inr (Some job, q') \<and>
     example_advance (start_stage job) q' = (MarkStep job (example_uuid 7) 0, q'') \<and>
     list_ex (\<lambda>r. rn_status r = ''running'' \<and> rn_finishedAt r = Some 1700000000000) (agent_runs q'')"
proof -
  let ?q = "example_dispatched\<lparr>agent_runs := [example_finished_run]\<rparr>"
  have w: "NewWorker ''w'' 0 0 False = Inr example_worker" by code_simp
  have c: "ClaimOne example_worker [] 1700000000000 ?q = Inr (Some example_step_claim, with_jobs [example_held_row 1700000060000] ?q)"
    by code_simp
  have d: "jobs_distinct (q_db ?q)" and s: "durableStep example_step_claim = Some (example_uuid 7, 0)"
    and r: "example_finished_run \<in> set (agent_runs ?q)" "run_of (cj_OrgID example_step_claim) (example_uuid 7) example_finished_run" by code_simp+
  have t: "ob_now (example_at 1700000000000) < 1700000000000 + milliseconds (wk_lease example_worker)"
    "ob_fault (example_at 1700000000000) = NoFault" by code_simp+
  have f: "rn_finishedAt example_finished_run = Some 1700000000000" by (simp add: example_finished_run_def)
  from late_claim_reopens_run [OF w c d s r t, of example_env example_exec_impl]
  obtain q'' where 1: "example_advance (start_stage example_step_claim) (with_jobs [example_held_row 1700000060000] ?q) =
      (MarkStep example_step_claim (example_uuid 7) 0, q'')"
    and 2: "example_finished_run\<lparr>rn_status := ''running'', rn_currentStep := 0, rn_lastError := None,
      rn_startedAt := Some (ob_now (example_at 1700000000000))\<rparr> \<in> set (agent_runs q'')" by auto
  have "list_ex (\<lambda>r. rn_status r = ''running'' \<and> rn_finishedAt r = Some 1700000000000) (agent_runs q'')"
    unfolding list_ex_iff by (rule bexI [OF _ 2]) (simp add: f)
  with 1 c show ?thesis by blast
qed

end
