(* ===== verification/Spec2Isabelle.thy ===== *)
theory Spec2Isabelle
  imports Ledger Registry Pipeline Valuation DurableRuns
begin

text \<open>
  ChasteBusinessOS is a business system whose every change goes through a Go API
  (src/apps/api/internal). A request names a \<^emph>\<open>capability\<close> (for instance
  \<^verbatim>\<open>accounting.recordPayment\<close>) and carries a JSON input and the claims of a signed assertion;
  the executor checks who calls, whether the call is allowed, has happened before or needs a
  human, runs the handler of the capability in one database transaction and appends an event to
  a hash-chained ledger. This library models that pipeline, the handlers of accounting
  receivables and of inventory, and the books and stock tables they write.

  \<^bold>\<open>How the source corresponds to the model.\<close> Names are those of the source. A Go struct is a
  record, a database table a list of records in insertion order, the database a record of tables;
  the records are extended along the imports (books, receivables, warehouse, stockroom; and
  governance, exec\_db), so an operation on \<^verbatim>\<open>'a books_scheme\<close> runs on every larger state. A
  function returning \<^verbatim>\<open>(T, error)\<close> is a function into \<^verbatim>\<open>'a result\<close> (a sum, \<^verbatim>\<open>Inl\<close> the error
  message); a handler takes the database and returns the new one, and an error returns none,
  which is the rollback of its transaction. \<^verbatim>\<open>int64\<close> is \<^verbatim>\<open>int\<close> with the wrap-around written
  out (\<^verbatim>\<open>i64\<close>) where a value may leave the range; \<^verbatim>\<open>big.Int\<close> is \<^verbatim>\<open>int\<close>; JavaScript's safe
  integers and the database's 32-bit columns appear as the bounds the source checks. Strings are
  lists of bytes. SQL is translated clause by clause: a \<^verbatim>\<open>WHERE\<close> is a filter, an \<^verbatim>\<open>ORDER BY\<close> a
  stable sort (bytewise, and by insertion where the source leaves ties open), \<^verbatim>\<open>LIMIT 1\<close> a find,
  a unique index a test on insertion. Row and advisory locks have no counterpart, because a
  handler is one step; concurrency is the interleaving of steps.

  \<^bold>\<open>What is outside.\<close> The database's \<^verbatim>\<open>gen_random_uuid()\<close> is the parameter \<^verbatim>\<open>gen\<close>, drawn from
  at the index \<^verbatim>\<open>uuid_draws\<close>; the theorems that need it assume \<^verbatim>\<open>uuid_supply gen\<close>: values are
  distinct and nonempty. SHA-256 is the parameter \<^verbatim>\<open>digest\<close>: tamper evidence is stated up to a
  collision that the proof exhibits. \<^verbatim>\<open>strings.ToLower\<close> on arbitrary text is a parameter
  (\<^verbatim>\<open>lower\<close>), as are the clock and the handler of the capabilities that are not modelled
  (\<^verbatim>\<open>impl\<close> of theory Executor).

  \<^bold>\<open>The theories.\<close>

  \<^item> Prelude: results, folds that stop at an error, Go's division, bytes and decimal numbers,
    stable sorting, calendar arithmetic, lemmas on lists with a key.
  \<^item> Json (capability/input.go, digest.go): values, decoding, the canonical encoding and the
    digests of inputs. The decoder recurses on fuel; the length of the text is enough, because
    every call consumes a character.
  \<^item> Ledger (ledger/): the event chain, its digest, append and the pages of the history.
  \<^item> Money (capability/accounting.go): currencies, decimal exchange rates, conversion, line
    amounts, credit note shares, the rounding quotient of inventory and orders.
  \<^item> Journal (accounting.go, accounting_invoice_ops.go): the posting door, the trial balance,
    reversal of entries; the invariant \<^verbatim>\<open>books_ok\<close>.
  \<^item> Claims, Receivables, Reconciliation (accounting.go, accounting_payments.go,
    accounting_invoice_ops.go): invoices, payments in base and foreign currency, their reversal,
    credit notes; the invariant \<^verbatim>\<open>receivables_ok\<close> and the histories of the receivables.
  \<^item> Governance (executor.go): identity, permissions, policies, thresholds and the gate of
    autonomous actors.
  \<^item> Executor (executor.go): the pipeline of a call in the order of the code (scope, identity,
    approval binding, permission, parsing, gates, effect, replay), calls of jobs under a lease,
    replays.
  \<^item> Approval (approval.go): the decisions on approvals as a state machine over stored rows.
  \<^item> Catalog, Registry (executor.go, approval.go, documents.go, messaging.go): the declared table
    of capabilities and what can be decided.
  \<^item> Inputs (accounting.go, profiles.go and others): field readers and parsers of inputs; a number
    literal is read through float64 as strconv reads it.
  \<^item> Pipeline (executor.go): the receivables handlers behind the executor; the locale
    \<^verbatim>\<open>capability_contract\<close> is what the pipeline needs of a set of handlers.
  \<^item> Stock, Warehouse (inventory_stock.go, the rebuild of inventory_valuation.go and the trigger
    of 0053_stock_projections.sql): movements, balances, transfers; \<^verbatim>\<open>stock_ok\<close>, histories.
  \<^item> Items (inventory_items.go, inventory_imports.go): the catalogue, bulk import, reservations.
  \<^item> Counts (inventory_cycle_counts.go): count sheets; \<^verbatim>\<open>inventory_ok\<close> and the histories
    \<^verbatim>\<open>inventory_step\<close> of all inventory operations.
  \<^item> Valuation (inventory_valuation.go): moving average cost, the stock report, the summary entry.

  \<^bold>\<open>What the lemmas show.\<close> Each theory proves that its operations keep its invariant
  (\<^verbatim>\<open>..._keeps\<close>), what a successful operation wrote (\<^verbatim>\<open>..._Inr\<close>, \<^verbatim>\<open>..._frame\<close>) and, where the
  code promises it, when it succeeds. The properties, numbered C1, C2, ... in the texts, rest on
  these: the books and the stock reconcile over every history of operations, effects happen
  once, with authority and on the record, approvals act on what was approved, reversals restore,
  parsers deliver what the handlers rely on. Each property with hypotheses has a witness on a
  concrete state.

  \<^bold>\<open>Not modelled.\<close> The HTTP layer (httpapi) and generated contract code (apicontract), session and
  single sign-on handling beyond the identity check, the outbox and mail transports, the
  language-model harness (chat sessions, routines), and the capabilities of CRM, sales orders,
  point of sale, purchasing, payroll, projects, documents, messaging, support, signals and
  analytics beyond what the registry declares; reports that only read (listings, accounting
  reports, tax returns). Floating-point statistics of replenishment are left out because the
  logic has no IEEE square root among its libraries here. The web front end and the TypeScript
  packages are another language.
\<close>

section \<open>A company whose books are behind the pipeline\<close>

definition company_books :: receivables where
  "company_books = example_receivables
     \<lparr>accounts := map (\<lambda>a. a\<lparr>acc_orgID := example_org\<rparr>) (accounts example_receivables),
      organizations := [(example_org, ''USD'')],
      customers := [\<lparr>cus_id = ''c1'', cus_orgID = example_org, cus_paymentTermDays = Some 30\<rparr>]\<rparr>"

definition company_invoiced :: receivables where
  "company_invoiced = run_state company_books
     (createInvoice example_gen (Executor.example_claims ''human'' ''i'') (example_invoice None None) example_now company_books)"

definition company :: "receivables \<Rightarrow> receivables exec_db" where
  "company books = governance.extend (governance.truncate (example_exec_db 1000)) \<lparr>domain = books\<rparr>"

definition company_env :: exec_env where
  "company_env = example_exec_env\<lparr>env_specs := capabilitySpecs\<rparr>"

definition payment_text :: string where
  "payment_text = ''{\"amountMinor\":300,\"invoiceNumber\":1,\"method\":\"cash\"}''"

definition payment_claims :: capabilityClaims where
  "payment_claims = (Executor.example_claims ''agent'' ''i'')\<lparr>InputSHA256 := payment_text\<rparr>"

lemma company_ok: "receivables_ok example_gen company_books"
proof -
  have "books_ok example_gen company_books"
    by (auto simp: books_ok_def accounts_ok_def entries_ok_def company_books_def example_receivables_def example_account_def example_gen_def)
  then show ?thesis
    by (auto simp: receivables_ok_def receivables_wf_def numbering_ok_def reconciled_def code_balance_def
        open_receivables_def paid_is_live_def company_books_def example_receivables_def)
qed

lemma company_invoiced_ok: "receivables_ok example_gen company_invoiced"
proof -
  have "\<not> isl (createInvoice example_gen (Executor.example_claims ''human'' ''i'') (example_invoice None None) example_now company_books)"
    by code_simp
  from run_state_Inr [OF this] obtain out where
    "createInvoice example_gen (Executor.example_claims ''human'' ''i'') (example_invoice None None) example_now company_books = Inr (out, company_invoiced)"
    unfolding company_invoiced_def by blast
  from create_invoice_keeps_ok [OF company_ok example_gen_supply this] show ?thesis .
qed

lemma payment_parsed: "ParseRecordPaymentInput payment_text = Inr (example_payment 300 None)"
  by code_simp


definition company_paid :: receivables where
  "company_paid = run_state company_invoiced
     (recordPayment example_gen payment_claims (example_payment 300 None) 1700000000000 company_invoiced)"

definition company_output :: json where
  "company_output = (case recordPayment example_gen payment_claims (example_payment 300 None) 1700000000000 company_invoiced of
     Inr (out, _) \<Rightarrow> payment_output out | Inl _ \<Rightarrow> JNull)"

lemma company_pays:
  "accounting_run example_gen payment_claims (RecordPaymentI (example_payment 300 None)) 1700000000000 company_invoiced =
     Inr (company_output, company_paid)"
proof -
  have "\<not> isl (recordPayment example_gen payment_claims (example_payment 300 None) 1700000000000 company_invoiced)" by code_simp
  then show ?thesis
    by (cases "recordPayment example_gen payment_claims (example_payment 300 None) 1700000000000 company_invoiced")
      (auto simp: map_result_def company_output_def company_paid_def run_state_def)
qed

definition payment_spec :: capabilitySpec where
  "payment_spec = (spec ''accounting'' ''accounting.post'' ''money'')
     \<lparr>sp_moneyThresholdMinor := 50000, sp_inverseCapabilityID := ''accounting.reversePayment''\<rparr>"

lemma payment_declared: "map_of capabilitySpecs ''accounting.recordPayment'' = Some payment_spec"
  by code_simp

lemma company_scope:
  "exec_scope company_env payment_claims ''accounting.recordPayment'' payment_text None False = Proceed payment_spec"
proof -
  have "InputHash (env_digest company_env) payment_text = Inr (InputSHA256 payment_claims)" by code_simp
  moreover have "map_of (env_specs company_env) ''accounting.recordPayment'' = Some payment_spec"
    using payment_declared by (simp add: company_env_def)
  ultimately show ?thesis
    by (simp add: exec_scope_def) (code_simp)
qed


lemma company_identity: "verifyIdentity (env_lower company_env) payment_claims 1700000000000 (company books) = Inr ()"
  by code_simp

lemma company_checks:
  "exec_checks company_env (accounting_impl example_gen) payment_claims ''accounting.recordPayment'' payment_text payment_spec
     False [] False (company books) = Proceed (RecordPaymentI (example_payment 300 None), payment_text)"
  by code_simp

lemma company_gate:
  "requiresApproval payment_claims ''accounting.recordPayment'' payment_spec (RecordPaymentI (example_payment 300 None)) (company books) =
     (False, ''within policy'')"
  by code_simp

lemma company_payload:
  "stringifyPayload (marshalJS (JObj [(''input'', accounting_value (RecordPaymentI (example_payment 300 None)))])) =
     Inr ''{\"input\":{\"invoiceNumber\":1,\"amountMinor\":300,\"method\":\"cash\"}}''"
  by code_simp

lemma company_policy:
  "policy_in_force (matching_rules (OrganizationID payment_claims) ''accounting.recordPayment'' (company books)) 50000 = (''write'', 1000)"
  by code_simp


lemma company_effect:
  "\<exists>r db'. exec_effect company_env (accounting_impl example_gen) payment_claims ''accounting.recordPayment'' payment_spec
     (RecordPaymentI (example_payment 300 None)) h None 1700000000000 (company company_invoiced) = Inr (r, db') \<and> domain db' = company_paid"
proof -
  let ?e = "executed_event payment_claims ''accounting.recordPayment'' payment_spec
    (accounting_value (RecordPaymentI (example_payment 300 None))) 1700000000000"
  have "sp_risk payment_spec \<noteq> ''secret''" by (simp add: payment_spec_def spec_def)
  then have p: "stringifyPayload (ev_payload ?e) = Inr ''{\"input\":{\"invoiceNumber\":1,\"amountMinor\":300,\"method\":\"cash\"}}''"
    using company_payload by (simp add: executed_event_def)
  have a: "ev_authSessionID ?e = None" by (simp add: executed_event_def)
  have r: "action_receipts (company company_invoiced) = []" and d: "domain (company company_invoiced) = company_invoiced"
    by (simp_all add: company_def example_exec_db_def governance.defs)
  show ?thesis
    by (simp add: exec_effect_def accounting_impl_def d company_pays AppendTx_plain [OF a p] insertReceipt_def r Let_def
        del: accounting_run.simps accounting_value.simps)
qed

lemma company_call:
  "\<exists>r db'. Execute company_env (accounting_impl example_gen) payment_claims ''accounting.recordPayment'' payment_text
     1700000000000 (company company_invoiced) = Inr (r, db') \<and> domain db' = company_paid"
proof -
  have e: "exec_enter company_env payment_claims None False 1700000000000 (company company_invoiced) = Inr (company company_invoiced)"
    by (simp add: exec_enter_def company_identity)
  have g: "exec_gate company_env payment_claims ''accounting.recordPayment'' payment_spec (RecordPaymentI (example_payment 300 None)) v h
      False [] False now (company company_invoiced) = Inr (None, company company_invoiced)" for v h now
    by (simp add: exec_gate_def company_gate)
  have o: "OrganizationID payment_claims \<noteq> []" by (simp add: payment_claims_def Executor.example_claims_def example_org_def)
  show ?thesis using company_effect
    by (simp add: Execute_def execute_call_def executeWithFinalizer_def company_scope o e company_checks g)
qed

section \<open>Properties of the whole\<close>



text \<open>
  C2. An agent cannot overspend. When a call by an agent to record a payment changes the
  books without a human decision, the raw input parses to a positive amount that is at most
  the threshold in force for the organization (the declared 50000 when no policy sets one)
  and at most the open amount of the invoice it names, and the open receivables fall by
  exactly that amount.
\<close>
theorem agent_payment_stays_within_policy:
  assumes "map_of (env_specs env) ''accounting.recordPayment'' = map_of capabilitySpecs ''accounting.recordPayment''"
    and "ActorType claims = ''agent''"
    and "Execute env (accounting_impl gen) claims ''accounting.recordPayment'' rawInput now db = Inr (r, db')"
    and "domain db' \<noteq> domain db" and "receivables_ok gen (domain db)" and "uuid_supply gen"
    and "policy_in_force (matching_rules (OrganizationID claims) ''accounting.recordPayment'' db) 50000 = (maxRisk, threshold)"
  shows "\<exists>input. ParseRecordPaymentInput rawInput = Inr input \<and> 0 < rp_amountMinor input \<and> rp_amountMinor input \<le> threshold \<and>
    (\<exists>i \<in> set (invoices (domain db)). inv_number i = rp_invoiceNumber input \<and> inv_orgID i = OrganizationID claims \<and>
       rp_amountMinor input \<le> invoice_open i \<and>
       open_receivables (domain db') (inv_orgID i) (inv_currency i) =
         open_receivables (domain db) (inv_orgID i) (inv_currency i) - rp_amountMinor input)"
proof -
  let ?cap = "''accounting.recordPayment''"
  from execute_authority [OF assms(3)] assms(1,4) payment_declared obtain input out where
    parse: "accounting_parse ?cap rawInput = Inr input"
    and gate: "\<not> fst (requiresApproval claims ?cap payment_spec input db)"
    and run: "accounting_run gen claims input now (domain db) = Inr (out, domain db')"
    by (auto simp: accounting_impl_def legacy_notification_def)
  from parse obtain p where p: "ParseRecordPaymentInput rawInput = Inr p" "input = RecordPaymentI p"
    by (auto simp: accounting_parse_def map_result_def)
  have "rp_amountMinor p \<le> threshold"
    using gate assms(2,7) by (auto simp: requiresApproval_def Let_def autonomous_gate_def money_gate_def p(2) payment_spec_def spec_def split: if_splits)
  moreover from run obtain o' where "recordPayment gen claims p now (domain db) = Inr (o', domain db')"
    by (auto simp: p(2) map_result_def)
  from payment_effect [OF assms(5,6) this] obtain i where "i \<in> set (invoices (domain db))" "inv_number i = rp_invoiceNumber p"
    "inv_orgID i = OrganizationID claims" "0 < rp_amountMinor p" "rp_amountMinor p \<le> invoice_open i"
    "open_receivables (domain db') (inv_orgID i) (inv_currency i) =
       open_receivables (domain db) (inv_orgID i) (inv_currency i) - rp_amountMinor p" by blast
  ultimately show ?thesis using p(1) by blast
qed

theorem agent_payment_stays_within_policy_witness:
  "open_receivables company_paid example_org ''USD'' = open_receivables company_invoiced example_org ''USD'' - 300"
proof -
  obtain r db' where run: "Execute company_env (accounting_impl example_gen) payment_claims ''accounting.recordPayment'' payment_text
     1700000000000 (company company_invoiced) = Inr (r, db')" and d: "domain db' = company_paid"
    using company_call by blast
  have e: "map_of (env_specs company_env) ''accounting.recordPayment'' = map_of capabilitySpecs ''accounting.recordPayment''"
    by (simp add: company_env_def)
  have a: "ActorType payment_claims = ''agent''" by (simp add: payment_claims_def Executor.example_claims_def)
  have b: "domain (company company_invoiced) = company_invoiced" by (simp add: company_def governance.defs)
  have one: "\<forall>i \<in> set (invoices company_invoiced). inv_orgID i = example_org \<and> inv_currency i = ''USD''" by code_simp
  have "payments company_paid \<noteq> payments company_invoiced" by code_simp
  then have c: "domain db' \<noteq> domain (company company_invoiced)" using d b by auto
  have ok: "receivables_ok example_gen (domain (company company_invoiced))" using company_invoiced_ok b by simp
  from agent_payment_stays_within_policy [OF e a run c ok example_gen_supply company_policy] one payment_parsed d b
  show ?thesis by (auto simp: example_payment_def)
qed

end
